(* ===== verification/Prelude.thy ===== *)
theory Prelude
  imports Main "HOL-Library.Word"
begin

text \<open>
  Shared vocabulary of the development: the exceptions the C++ code raises, stateful
  programs with exceptions (what a member function does to the object it mutates, kept
  also when it throws), the clock and the random source, and generic facts on
  association lists.  Every other theory imports this one.
\<close>

named_theorems prog_simps \<open>execution of programs: rewriting of the combinators below\<close>
named_theorems table_simps \<open>lookup in a table after an update\<close>

section \<open>Exceptions\<close>

text \<open>
  One constructor per exception class that a handler of the code can tell apart.  The
  message text is dropped.  \<open>Runtime_exception\<close> is what \<open>confirm\<close> throws in a release
  build (SharedCommon/helper\_functions.h, NDEBUG branch).  \<open>Undefined\<close> stands for a step
  to which C++ gives no meaning, such as \<open>back()\<close> of an empty string; no handler catches it.
\<close>

datatype exn =
    Notfound_exception      \<comment> \<open>docrecord::notfound\_exception\<close>
  | Invalid_argument        \<comment> \<open>database::invalid\_argument, std::invalid\_argument\<close>
  | Invalid_option          \<comment> \<open>database::invalid\_option\_exception\<close>
  | Runtime_error           \<comment> \<open>database::runtime\_error\<close>
  | Runtime_exception       \<comment> \<open>a failed confirm()\<close>
  | Out_of_range            \<comment> \<open>std::out\_of\_range\<close>
  | Bad_get                 \<comment> \<open>boost::bad\_get\<close>
  | Logic_error             \<comment> \<open>std::logic\_error\<close>
  | Fhicl_exception         \<comment> \<open>fhicl::exception\<close>
  | Driver_exception        \<comment> \<open>an exception of mongocxx or bsoncxx\<close>
  | Undefined               \<comment> \<open>undefined behaviour\<close>

definition any_exn :: "exn \<Rightarrow> bool" where
  "any_exn e \<longleftrightarrow> e \<noteq> Undefined"

section \<open>Programs: state passing with exceptions\<close>

type_synonym ('s, 'a) prog = "'s \<Rightarrow> (exn + 'a) \<times> 's"

definition retM :: "'a \<Rightarrow> ('s, 'a) prog" where
  "retM x = (\<lambda>s. (Inr x, s))"

definition throwM :: "exn \<Rightarrow> ('s, 'a) prog" where
  "throwM e = (\<lambda>s. (Inl e, s))"

definition bindM :: "('s, 'a) prog \<Rightarrow> ('a \<Rightarrow> ('s, 'b) prog) \<Rightarrow> ('s, 'b) prog" where
  "bindM m f = (\<lambda>s. case m s of (Inl e, t) \<Rightarrow> (Inl e, t) | (Inr x, t) \<Rightarrow> f x t)"

definition thenM :: "('s, 'a) prog \<Rightarrow> ('s, 'b) prog \<Rightarrow> ('s, 'b) prog" where
  "thenM m n = bindM m (\<lambda>_. n)"

definition getM :: "('s, 's) prog" where
  "getM = (\<lambda>s. (Inr s, s))"

definition putM :: "'s \<Rightarrow> ('s, unit) prog" where
  "putM t = (\<lambda>_. (Inr (), t))"

definition catchM :: "(exn \<Rightarrow> bool) \<Rightarrow> ('s, 'a) prog \<Rightarrow> ('s, 'a) prog \<Rightarrow> ('s, 'a) prog" where
  "catchM p m h =
     (\<lambda>s. case m s of (Inl e, t) \<Rightarrow> (if p e then h t else (Inl e, t)) | (Inr x, t) \<Rightarrow> (Inr x, t))"

text \<open>\<open>liftE\<close> raises the error of a pure partial computation.\<close>

definition liftE :: "exn + 'a \<Rightarrow> ('s, 'a) prog" where
  "liftE r = (\<lambda>s. (r, s))"

text \<open>\<open>confirm(b)\<close> of SharedCommon/helper\_functions.h in a release build.\<close>

definition confirm :: "bool \<Rightarrow> ('s, unit) prog" where
  "confirm b = (if b then retM () else throwM Runtime_exception)"

definition whenM :: "bool \<Rightarrow> ('s, unit) prog \<Rightarrow> ('s, unit) prog" where
  "whenM b m = (if b then m else retM ())"

fun forM :: "'a list \<Rightarrow> ('a \<Rightarrow> ('s, unit) prog) \<Rightarrow> ('s, unit) prog" where
  "forM [] f = retM ()"
| "forM (x # xs) f = thenM (f x) (forM xs f)"

fun seqM :: "('s, unit) prog list \<Rightarrow> ('s, unit) prog" where
  "seqM [] = retM ()"
| "seqM (m # ms) = thenM m (seqM ms)"

text \<open>The same operations on results without a state.\<close>

definition bindE :: "exn + 'a \<Rightarrow> ('a \<Rightarrow> exn + 'b) \<Rightarrow> exn + 'b" where
  "bindE r f = (case r of Inl e \<Rightarrow> Inl e | Inr x \<Rightarrow> f x)"

definition catchE :: "(exn \<Rightarrow> bool) \<Rightarrow> exn + 'a \<Rightarrow> exn + 'a \<Rightarrow> exn + 'a" where
  "catchE p r h = (case r of Inl e \<Rightarrow> (if p e then h else Inl e) | Inr x \<Rightarrow> Inr x)"

fun mapE :: "('a \<Rightarrow> exn + 'b) \<Rightarrow> 'a list \<Rightarrow> exn + 'b list" where
  "mapE f [] = Inr []"
| "mapE f (x # xs) = bindE (f x) (\<lambda>y. bindE (mapE f xs) (\<lambda>ys. Inr (y # ys)))"

lemma any_exn_simps [simp]:
  "any_exn Notfound_exception" "any_exn Invalid_argument" "any_exn Invalid_option"
  "any_exn Runtime_error" "any_exn Runtime_exception" "any_exn Out_of_range" "any_exn Bad_get"
  "any_exn Logic_error" "any_exn Fhicl_exception" "any_exn Driver_exception" "\<not> any_exn Undefined"
  by (simp_all add: any_exn_def)

lemma retM_run [prog_simps]: "retM x s = (Inr x, s)"
  by (simp add: retM_def)

lemma throwM_run [prog_simps]: "throwM e s = (Inl e, s)"
  by (simp add: throwM_def)

lemma getM_run [prog_simps]: "getM s = (Inr s, s)"
  by (simp add: getM_def)

lemma putM_run [prog_simps]: "putM t s = (Inr (), t)"
  by (simp add: putM_def)

lemma liftE_run [prog_simps]: "liftE r s = (r, s)"
  by (simp add: liftE_def)

lemma confirm_run [prog_simps]:
  "confirm b s = (if b then (Inr (), s) else (Inl Runtime_exception, s))"
  by (simp add: confirm_def prog_simps)

lemma whenM_run [prog_simps]: "whenM b m s = (if b then m s else (Inr (), s))"
  by (simp add: whenM_def prog_simps)

lemma bindM_run [prog_simps]:
  "bindM m f s = (case m s of (Inl e, t) \<Rightarrow> (Inl e, t) | (Inr x, t) \<Rightarrow> f x t)"
  by (simp add: bindM_def)

lemma thenM_run [prog_simps]:
  "thenM m n s = (case m s of (Inl e, t) \<Rightarrow> (Inl e, t) | (Inr _, t) \<Rightarrow> n t)"
  by (simp add: thenM_def bindM_def)

lemma catchM_run [prog_simps]:
  "catchM p m h s =
     (case m s of (Inl e, t) \<Rightarrow> (if p e then h t else (Inl e, t)) | (Inr x, t) \<Rightarrow> (Inr x, t))"
  by (simp add: catchM_def)

lemma thenM_Inr:
  "thenM m n s = (Inr y, u) \<longleftrightarrow> (\<exists>x t. m s = (Inr x, t) \<and> n t = (Inr y, u))"
  by (auto simp: thenM_run split: prod.splits sum.splits)

lemma bindM_Inr:
  "bindM m f s = (Inr y, u) \<longleftrightarrow> (\<exists>x t. m s = (Inr x, t) \<and> f x t = (Inr y, u))"
  by (auto simp: bindM_run split: prod.splits sum.splits)

lemma catchM_Inr:
  "catchM p m (throwM e) s = (Inr y, u) \<longleftrightarrow> m s = (Inr y, u)"
  by (auto simp: catchM_run throwM_run split: prod.splits sum.splits)

lemma bindE_simps [simp]: "bindE (Inl e) f = Inl e" "bindE (Inr x) f = f x"
  by (simp_all add: bindE_def)

lemma bindE_eq_Inr: "bindE r f = Inr y \<longleftrightarrow> (\<exists>x. r = Inr x \<and> f x = Inr y)"
  by (cases r) auto

lemma catchE_simps [simp]:
  "catchE p (Inr x) h = Inr x" "catchE p (Inl e) h = (if p e then h else Inl e)"
  by (simp_all add: catchE_def)

lemma mapE_Inr: "(\<And>x. x \<in> set xs \<Longrightarrow> f x = Inr (g x)) \<Longrightarrow> mapE f xs = Inr (map g xs)"
  by (induction xs) auto

lemma mapE_eq_Inr_map: "mapE f xs = Inr ys \<Longrightarrow> map f xs = map Inr ys"
  by (induction xs arbitrary: ys) (auto simp: bindE_eq_Inr)

lemma mapE_length: "mapE f xs = Inr ys \<Longrightarrow> length ys = length xs"
  by (induction xs arbitrary: ys) (auto simp: bindE_eq_Inr)

section \<open>Relations every run respects\<close>

text \<open>\<open>stays_in R m\<close>: whatever \<open>m\<close> answers, the state it leaves is related to the one it found.
  The combinators respect every relation that is reflexive and transitive.\<close>

definition stays_in :: "('s \<Rightarrow> 's \<Rightarrow> bool) \<Rightarrow> ('s, 'a) prog \<Rightarrow> bool" where
  "stays_in R m \<longleftrightarrow> (\<forall>s. R s (snd (m s)))"

lemma stays_inD: "stays_in R m \<Longrightarrow> m s = (r, t) \<Longrightarrow> R s t"
  unfolding stays_in_def by (metis snd_conv)

lemma stays_inI: "(\<And>s r t. m s = (r, t) \<Longrightarrow> R s t) \<Longrightarrow> stays_in R m"
  unfolding stays_in_def by (metis prod.collapse)

locale run_relation =
  fixes R :: "'s \<Rightarrow> 's \<Rightarrow> bool"
  assumes refl: "R s s" and trans: "R s t \<Longrightarrow> R t u \<Longrightarrow> R s u"
begin

lemma lifted: "stays_in R (liftE r)" "stays_in R (retM x)" "stays_in R (throwM e)" "stays_in R getM"
    "stays_in R (confirm b)"
  by (simp_all add: stays_in_def prog_simps refl)

lemma bound:
  assumes "stays_in R m" "\<And>x. stays_in R (f x)"
  shows "stays_in R (bindM m f)"
proof (rule stays_inI)
  fix s r t
  assume run: "bindM m f s = (r, t)"
  obtain q u where m: "m s = (q, u)" by (cases "m s")
  have "R u t"
  proof (cases q)
    case (Inl e)
    then show ?thesis using run m by (simp add: bindM_run refl)
  next
    case (Inr x)
    then have "f x u = (r, t)" using run m by (simp add: bindM_run)
    then show ?thesis by (rule stays_inD[OF assms(2)])
  qed
  then show "R s t" using trans stays_inD[OF assms(1) m] by blast
qed

lemma sequenced: "stays_in R m \<Longrightarrow> stays_in R n \<Longrightarrow> stays_in R (thenM m n)"
  by (simp add: thenM_def bound)

lemma caught:
  assumes "stays_in R m" "stays_in R h"
  shows "stays_in R (catchM p m h)"
proof (rule stays_inI)
  fix s r t
  assume run: "catchM p m h s = (r, t)"
  obtain q u where m: "m s = (q, u)" by (cases "m s")
  have "R u t"
    using run m stays_inD[OF assms(2)] by (cases q) (auto simp: catchM_run refl split: if_splits)
  then show "R s t" using trans stays_inD[OF assms(1) m] by blast
qed

lemma guarded: "stays_in R m \<Longrightarrow> stays_in R (whenM b m)"
  by (simp add: whenM_def lifted)

lemma listed: "(\<And>m. m \<in> set ms \<Longrightarrow> stays_in R m) \<Longrightarrow> stays_in R (seqM ms)"
  by (induction ms) (simp_all add: lifted sequenced)

lemma iterated: "(\<And>x. x \<in> set xs \<Longrightarrow> stays_in R (f x)) \<Longrightarrow> stays_in R (forM xs f)"
  by (induction xs) (simp_all add: lifted sequenced)

lemmas combined = lifted bound sequenced caught guarded

end

section \<open>Strings\<close>

text \<open>\<open>std::to\_string\<close> of a non-negative integer.\<close>

definition digit_char :: "nat \<Rightarrow> char" where
  "digit_char d = char_of (48 + d)"

fun nat_digits :: "nat \<Rightarrow> string" where
  "nat_digits n = (if n < 10 then [digit_char n] else nat_digits (n div 10) @ [digit_char (n mod 10)])"

declare nat_digits.simps [simp del]

definition int_digits :: "int \<Rightarrow> string" where
  "int_digits i = (if i < 0 then CHR ''-'' # nat_digits (nat (- i)) else nat_digits (nat i))"

text \<open>The whitespace of \<open>std::isspace\<close> and of \<open>ascii::space\<close>: space, tab, LF, VT, FF, CR.\<close>

definition is_space :: "char \<Rightarrow> bool" where
  "is_space c \<longleftrightarrow> of_char c = (32::nat) \<or> (9 \<le> (of_char c :: nat) \<and> (of_char c :: nat) \<le> 13)"

definition is_digit :: "char \<Rightarrow> bool" where
  "is_digit c \<longleftrightarrow> 48 \<le> (of_char c :: nat) \<and> (of_char c :: nat) \<le> 57"

lemma of_char_digit: "d < 10 \<Longrightarrow> of_char (digit_char d) = 48 + d"
  by (simp add: digit_char_def)

lemma is_digit_digit_char [simp]: "d < 10 \<Longrightarrow> is_digit (digit_char d)"
  by (simp add: is_digit_def of_char_digit)

lemma nat_digits_not_Nil [simp]: "nat_digits n \<noteq> []"
  by (subst nat_digits.simps) simp

lemma nat_digits_all: "list_all is_digit (nat_digits n)"
proof (induction n rule: nat_digits.induct)
  case (1 n)
  then show ?case by (subst nat_digits.simps) simp
qed

section \<open>Association lists\<close>

text \<open>Overwriting the first binding of a key, and the two laws every table below rests on.\<close>

fun put_first :: "'k \<Rightarrow> 'v \<Rightarrow> ('k \<times> 'v) list \<Rightarrow> ('k \<times> 'v) list" where
  "put_first k v [] = []"
| "put_first k v ((k', v') # ps) = (if k = k' then (k', v) # ps else (k', v') # put_first k v ps)"

lemma map_of_put_first [table_simps]:
  "map_of (put_first k v ps) = (if k \<in> fst ` set ps then (map_of ps)(k \<mapsto> v) else map_of ps)"
proof (induction ps)
  case (Cons p ps)
  then show ?case by (cases p) (auto simp: fun_eq_iff)
qed auto

lemma map_fst_put_first [table_simps]: "map fst (put_first k v ps) = map fst ps"
  by (induction k v ps rule: put_first.induct) auto

lemma put_first_same: "map_of ps k = Some v \<Longrightarrow> put_first k v ps = ps"
  by (induction k v ps rule: put_first.induct) auto

lemma put_first_put_first [table_simps]: "put_first k v (put_first k w ps) = put_first k v ps"
  by (induction k w ps rule: put_first.induct) auto

lemma put_first_notin: "k \<notin> fst ` set ps \<Longrightarrow> put_first k v ps = ps"
  by (induction k v ps rule: put_first.induct) auto

lemma put_first_commute:
  "k \<noteq> l \<Longrightarrow> put_first k v (put_first l w ps) = put_first l w (put_first k v ps)"
  by (induction k v ps rule: put_first.induct) auto

lemma put_first_append:
  "put_first k v (ps @ qs) = (if k \<in> fst ` set ps then put_first k v ps @ qs else ps @ put_first k v qs)"
  by (induction k v ps rule: put_first.induct) auto

end
