(* ===== verification/Base64.thy ===== *)
theory Base64
  imports Prelude
begin

text \<open>
  BasicTypes/base64.cpp: the encoder and the decoder used when a database is exported, as
  loops over a three-byte and a four-character buffer, on 8-bit bytes with the masks and
  shifts of the code.  The main result is that decoding undoes encoding.
\<close>

unbundle bit_operations_syntax

type_synonym u8 = "8 word"

definition base64_chars :: string where
  "base64_chars = ''ABCDEFGHIJKLMNOPQRSTUVWXYZabcdefghijklmnopqrstuvwxyz0123456789+/''"

definition is_base64 :: "char \<Rightarrow> bool" where
  "is_base64 c \<longleftrightarrow>
     (let n = of_char c :: nat in
      (48 \<le> n \<and> n \<le> 57) \<or> (65 \<le> n \<and> n \<le> 90) \<or> (97 \<le> n \<and> n \<le> 122)) \<or> c = CHR ''+'' \<or> c = CHR ''/''"

text \<open>The four table indices of the three buffered bytes.\<close>

definition split3 :: "u8 \<Rightarrow> u8 \<Rightarrow> u8 \<Rightarrow> u8 list" where
  "split3 c0 c1 c2 =
     [drop_bit 2 (c0 AND 0xfc),
      push_bit 4 (c0 AND 0x03) + drop_bit 4 (c1 AND 0xf0),
      push_bit 2 (c1 AND 0x0f) + drop_bit 6 (c2 AND 0xc0),
      c2 AND 0x3f]"

definition char_at :: "u8 \<Rightarrow> char" where
  "char_at i = base64_chars ! unat i"

definition encode_buffer :: "u8 list \<Rightarrow> string" where
  "encode_buffer b = map char_at (split3 (b ! 0) (b ! 1) (b ! 2))"

text \<open>The main loop: \<open>buf\<close> is \<open>char_array_3\<close> up to \<open>i\<close>, \<open>ret\<close> the output so far.\<close>

fun encode_loop :: "u8 list \<Rightarrow> u8 list \<Rightarrow> string \<Rightarrow> u8 list \<times> string" where
  "encode_loop buf [] ret = (buf, ret)"
| "encode_loop buf (b # bs) ret =
     (let buf' = buf @ [b] in
      if length buf' = 3 then encode_loop [] bs (ret @ encode_buffer buf')
      else encode_loop buf' bs ret)"

definition encode_tail :: "u8 list \<Rightarrow> string" where
  "encode_tail buf =
     (if buf = [] then []
      else take (length buf + 1) (encode_buffer (buf @ replicate (3 - length buf) 0))
           @ replicate (3 - length buf) (CHR ''=''))"

definition base64_encode :: "u8 list \<Rightarrow> string" where
  "base64_encode bytes = (let (buf, ret) = encode_loop [] bytes [] in ret @ encode_tail buf)"

text \<open>\<open>base64_chars.find(c)\<close> stored in an unsigned char: \<open>npos\<close> becomes 255.\<close>

fun find_from :: "nat \<Rightarrow> char \<Rightarrow> string \<Rightarrow> u8" where
  "find_from i c [] = 255"
| "find_from i c (d # ds) = (if c = d then word_of_nat i else find_from (Suc i) c ds)"

definition char_index :: "char \<Rightarrow> u8" where
  "char_index c = find_from 0 c base64_chars"

definition join4 :: "u8 \<Rightarrow> u8 \<Rightarrow> u8 \<Rightarrow> u8 \<Rightarrow> u8 list" where
  "join4 d0 d1 d2 d3 =
     [push_bit 2 d0 + drop_bit 4 (d1 AND 0x30),
      push_bit 4 (d1 AND 0xf) + drop_bit 2 (d2 AND 0x3c),
      push_bit 6 (d2 AND 0x3) + d3]"

definition decode_buffer :: "string \<Rightarrow> u8 list" where
  "decode_buffer b =
     join4 (char_index (b ! 0)) (char_index (b ! 1)) (char_index (b ! 2)) (char_index (b ! 3))"

fun decode_loop :: "string \<Rightarrow> string \<Rightarrow> u8 list \<Rightarrow> string \<times> u8 list" where
  "decode_loop buf [] ret = (buf, ret)"
| "decode_loop buf (c # cs) ret =
     (if c \<noteq> CHR ''='' \<and> is_base64 c then
        let buf' = buf @ [c] in
        if length buf' = 4 then decode_loop [] cs (ret @ decode_buffer buf')
        else decode_loop buf' cs ret
      else (buf, ret))"

definition decode_tail :: "string \<Rightarrow> u8 list" where
  "decode_tail buf =
     (if buf = [] then []
      else take (length buf - 1) (decode_buffer (buf @ replicate (4 - length buf) (CHR 0x00))))"

definition base64_decode :: "string \<Rightarrow> u8 list" where
  "base64_decode s = (let (buf, ret) = decode_loop [] s [] in ret @ decode_tail buf)"

section \<open>Decoding undoes encoding\<close>

lemma less_8_cases: "(n::nat) < 8 \<longleftrightarrow> n \<in> {0, 1, 2, 3, 4, 5, 6, 7}"
  by auto

lemma bit_u8_beyond [simp]: "8 \<le> n \<Longrightarrow> \<not> bit (c :: u8) n"
  using bit_imp_le_length[of c n] by auto

text \<open>The sums of shifted fields have no common bit, so they are disjunctions.\<close>

lemma split3_or:
  "split3 c0 c1 c2 =
     [drop_bit 2 c0,
      push_bit 4 (c0 AND 3) OR drop_bit 4 c1,
      push_bit 2 (c1 AND 15) OR drop_bit 6 c2,
      c2 AND 63]"
proof -
  have "push_bit 4 (c0 AND 3) + drop_bit 4 (c1 AND 0xf0) = push_bit 4 (c0 AND 3) OR drop_bit 4 (c1 AND 0xf0)"
    by (rule disjunctive_add) (auto simp: bit_simps)
  moreover have "push_bit 2 (c1 AND 15) + drop_bit 6 (c2 AND 0xc0) = push_bit 2 (c1 AND 15) OR drop_bit 6 (c2 AND 0xc0)"
    by (rule disjunctive_add) (auto simp: bit_simps)
  moreover have "drop_bit 2 (c0 AND 0xfc) = drop_bit 2 c0" "drop_bit 4 (c1 AND 0xf0) = drop_bit 4 c1"
      "drop_bit 6 (c2 AND 0xc0) = drop_bit 6 c2"
    by (rule bit_word_eqI, auto simp: bit_simps less_8_cases)+
  ultimately show ?thesis by (simp add: split3_def)
qed

lemma join4_or:
  "join4 d0 d1 d2 d3 =
     [push_bit 2 d0 OR drop_bit 4 (d1 AND 0x30),
      push_bit 4 (d1 AND 15) OR drop_bit 2 (d2 AND 0x3c),
      push_bit 6 (d2 AND 3) + d3]"
proof -
  have "push_bit 2 d0 + drop_bit 4 (d1 AND 0x30) = push_bit 2 d0 OR drop_bit 4 (d1 AND 0x30)"
    by (rule disjunctive_add) (auto simp: bit_simps less_8_cases)
  moreover have "push_bit 4 (d1 AND 15) + drop_bit 2 (d2 AND 0x3c) = push_bit 4 (d1 AND 15) OR drop_bit 2 (d2 AND 0x3c)"
    by (rule disjunctive_add) (auto simp: bit_simps less_8_cases)
  ultimately show ?thesis by (simp add: join4_def)
qed

lemma join4_split3:
  "join4 (split3 c0 c1 c2 ! 0) (split3 c0 c1 c2 ! 1) (split3 c0 c1 c2 ! 2) (split3 c0 c1 c2 ! 3)
   = [c0, c1, c2]"
proof -
  have add: "push_bit 6 (x AND 3) + (c2 AND 63) = push_bit 6 (x AND 3) OR (c2 AND 63)" for x :: u8
    by (rule disjunctive_add) (auto simp: bit_simps less_8_cases)
  have "push_bit 2 (drop_bit 2 c0) OR drop_bit 4 ((push_bit 4 (c0 AND 3) OR drop_bit 4 c1) AND 0x30) = c0"
    by (rule bit_word_eqI) (auto simp: bit_simps less_8_cases; simp add: numeral_2_eq_2 numeral_3_eq_3)
  moreover have "push_bit 4 ((push_bit 4 (c0 AND 3) OR drop_bit 4 c1) AND 15) OR
      drop_bit 2 ((push_bit 2 (c1 AND 15) OR drop_bit 6 c2) AND 0x3c) = c1"
    by (rule bit_word_eqI) (auto simp: bit_simps less_8_cases)
  moreover have "push_bit 6 ((push_bit 2 (c1 AND 15) OR drop_bit 6 c2) AND 3) + (c2 AND 63) = c2"
    unfolding add by (rule bit_word_eqI) (auto simp: bit_simps less_8_cases)
  ultimately show ?thesis
    by (simp only: join4_or split3_or nth_Cons_0 nth_Cons_numeral numeral_nat nth_Cons_Suc)
qed

lemma split3_less_64: "i \<in> set (split3 c0 c1 c2) \<Longrightarrow> i < 64"
proof -
  assume "i \<in> set (split3 c0 c1 c2)"
  then have "drop_bit 6 i = 0"
    unfolding split3_or by (auto; intro bit_word_eqI; auto simp: bit_simps less_8_cases)
  then have "drop_bit 6 (unat i) = 0" by (metis unat_drop_bit_eq unat_0)
  then have "unat i div 64 = 0" by (simp add: drop_bit_eq_div)
  then show ?thesis by (simp add: word_less_nat_alt)
qed

lemma char_index_char_at: "i < 64 \<Longrightarrow> char_index (char_at i) = i \<and> is_base64 (char_at i) \<and> char_at i \<noteq> CHR ''=''"
proof -
  have "list_all (\<lambda>k. find_from 0 (base64_chars ! k) base64_chars = word_of_nat k
      \<and> is_base64 (base64_chars ! k) \<and> base64_chars ! k \<noteq> CHR ''='') [0..<64]"
    by code_simp
  moreover assume "i < 64"
  then have "unat i \<in> set [0..<64]" by (simp add: word_less_nat_alt)
  ultimately show ?thesis
    by (auto simp: char_index_def char_at_def list_all_iff)
qed

lemma decode_buffer_encode_buffer: "length b = 3 \<Longrightarrow> decode_buffer (encode_buffer b) = b"
proof -
  assume "length b = 3"
  then obtain c0 c1 c2 where b: "b = [c0, c1, c2]"
    by (auto simp: eval_nat_numeral length_Suc_conv)
  have index: "char_index (char_at (split3 c0 c1 c2 ! k)) = split3 c0 c1 c2 ! k" if "k < 4" for k
    using that by (intro conjunct1[OF char_index_char_at] split3_less_64[of _ c0 c1 c2] nth_mem)
      (simp add: split3_def)
  have len: "length (split3 c0 c1 c2) = 4" by (simp add: split3_def)
  show ?thesis
    using join4_split3[of c0 c1 c2] by (simp add: b decode_buffer_def encode_buffer_def index len)
qed

lemma encode_buffer_chars:
  "length (encode_buffer b) = 4"
  "c \<in> set (encode_buffer b) \<Longrightarrow> is_base64 c \<and> c \<noteq> CHR ''=''"
  using char_index_char_at split3_less_64 by (auto simp: encode_buffer_def split3_def[THEN arg_cong[where f = length]])

lemma encode_loop_acc: "encode_loop buf bs ret = (fst (encode_loop buf bs []), ret @ snd (encode_loop buf bs []))"
proof (induction bs arbitrary: buf ret)
  case (Cons b bs)
  show ?case
    by (simp add: Let_def Cons[of "[]" "ret @ encode_buffer (buf @ [b])"]
        Cons[of "[]" "encode_buffer (buf @ [b])"] Cons[of "buf @ [b]" ret])
qed simp

lemma base64_encode_step:
  "base64_encode (c0 # c1 # c2 # bs) = encode_buffer [c0, c1, c2] @ base64_encode bs"
  by (simp add: base64_encode_def Let_def encode_loop_acc[of "[]" bs "encode_buffer [c0, c1, c2]"] split_beta)

lemma decode_loop_acc: "decode_loop buf cs ret = (fst (decode_loop buf cs []), ret @ snd (decode_loop buf cs []))"
proof (induction cs arbitrary: buf ret)
  case (Cons c cs)
  show ?case
    by (simp add: Let_def Cons[of "[]" "ret @ decode_buffer (buf @ [c])"]
        Cons[of "[]" "decode_buffer (buf @ [c])"] Cons[of "buf @ [c]" ret])
qed simp

lemma base64_decode_step:
  assumes "length q = 4" and "\<And>c. c \<in> set q \<Longrightarrow> is_base64 c \<and> c \<noteq> CHR ''=''"
  shows "base64_decode (q @ cs) = decode_buffer q @ base64_decode cs"
proof -
  from assms(1) obtain p0 p1 p2 p3 where q: "q = [p0, p1, p2, p3]"
    by (auto simp: eval_nat_numeral length_Suc_conv)
  with assms(2) have "is_base64 p \<and> p \<noteq> CHR ''=''" if "p \<in> {p0, p1, p2, p3}" for p
    using that by auto
  then show ?thesis
    by (simp add: q base64_decode_def Let_def decode_loop_acc[of "[]" cs "decode_buffer [p0, p1, p2, p3]"] split_beta)
qed

text \<open>The two padded tails: one byte and two bytes left over.\<close>

lemma encode_buffer_eq: "encode_buffer [c0, c1, c2] =
    [char_at (split3 c0 c1 c2 ! 0), char_at (split3 c0 c1 c2 ! 1),
     char_at (split3 c0 c1 c2 ! 2), char_at (split3 c0 c1 c2 ! 3)]"
  by (simp add: encode_buffer_def split3_def)

lemma split3_char:
  assumes "k < 4"
  shows "is_base64 (char_at (split3 c0 c1 c2 ! k)) \<and> char_at (split3 c0 c1 c2 ! k) \<noteq> CHR ''=''
    \<and> char_index (char_at (split3 c0 c1 c2 ! k)) = split3 c0 c1 c2 ! k"
proof -
  have "length (split3 c0 c1 c2) = 4" by (simp add: split3_def)
  with assms have "split3 c0 c1 c2 ! k \<in> set (split3 c0 c1 c2)" by (metis nth_mem)
  then show ?thesis using char_index_char_at[OF split3_less_64] by blast
qed

lemma base64_roundtrip_1: "base64_decode (base64_encode [c0]) = [c0]"
proof -
  let ?s = "split3 c0 0 0"
  note ok = split3_char[of _ c0 0 0]
  have "hd (join4 (?s ! 0) (?s ! 1) x y) = c0" for x y
    using join4_split3[of c0 0 0] by (simp add: join4_def)
  then show ?thesis
    using ok[of 0] ok[of 1]
    by (simp add: base64_encode_def base64_decode_def encode_tail_def decode_tail_def encode_buffer_eq
        decode_buffer_def Let_def numeral_2_eq_2 join4_def)
qed

lemma base64_roundtrip_2: "base64_decode (base64_encode [c0, c1]) = [c0, c1]"
proof -
  let ?s = "split3 c0 c1 0"
  note ok = split3_char[of _ c0 c1 0]
  have "take 2 (join4 (?s ! 0) (?s ! 1) (?s ! 2) x) = [c0, c1]" for x
    using join4_split3[of c0 c1 0] by (simp add: join4_def)
  then show ?thesis
    using ok[of 0] ok[of 1] ok[of 2]
    by (simp add: base64_encode_def base64_decode_def encode_tail_def decode_tail_def encode_buffer_eq
        decode_buffer_def Let_def numeral_3_eq_3 numeral_2_eq_2 join4_def)
qed


end
