(* ===== verification/JsonTypes.thy ===== *)
theory JsonTypes
  imports Prelude
begin

text \<open>
  The JSON value type of DataFormats/Json/json\_types.h and the containers of
  DataFormats/shared\_types.h it is built from: \<open>object_t\<close> is a \<open>table_of\<close>, an ordered
  list of key-value pairs in which keys may repeat and every lookup finds the first one;
  \<open>array_t\<close> is a \<open>vector_of\<close>, a plain list.  The theory holds the table operations with
  their exceptions, the visitors, the printing of scalars and the comparison of values.
\<close>

unbundle bit_operations_syntax

section \<open>Values\<close>

text \<open>
  The six alternatives of the variant, in its order: \<open>which()\<close> is the position.  A decimal
  is a C++ double, kept as its 64 bits; an integer is an \<open>int64_t\<close>.
\<close>

datatype value_t =
    Obj "(string \<times> value_t) list"
  | Arr "value_t list"
  | Str string
  | Decimal "64 word"
  | Integer "64 word"
  | Bool bool

type_synonym data_t = "string \<times> value_t"
type_synonym object_t = "data_t list"
type_synonym array_t = "value_t list"

datatype type_t = NOTSET | VALUE | DATA | OBJECT | ARRAY

fun which :: "value_t \<Rightarrow> nat" where
  "which (Obj _) = 0"
| "which (Arr _) = 1"
| "which (Str _) = 2"
| "which (Decimal _) = 3"
| "which (Integer _) = 4"
| "which (Bool _) = 5"

fun type_visitor :: "value_t \<Rightarrow> type_t" where
  "type_visitor (Obj _) = OBJECT"
| "type_visitor (Arr _) = ARRAY"
| "type_visitor (Str _) = VALUE"
| "type_visitor (Decimal _) = VALUE"
| "type_visitor (Integer _) = VALUE"
| "type_visitor (Bool _) = VALUE"

fun type_to_string :: "type_t \<Rightarrow> string" where
  "type_to_string NOTSET = ''NOTSET''"
| "type_to_string VALUE = ''VALUE''"
| "type_to_string DATA = ''DATA''"
| "type_to_string OBJECT = ''OBJECT''"
| "type_to_string ARRAY = ''ARRAY''"

section \<open>Typed access\<close>

text \<open>\<open>boost::get\<close> and \<open>unwrap(v).value_as<T>()\<close>: the alternative asked for, or \<open>bad_get\<close>.\<close>

fun get_object :: "value_t \<Rightarrow> exn + object_t" where
  "get_object (Obj ps) = Inr ps"
| "get_object _ = Inl Bad_get"

fun get_array :: "value_t \<Rightarrow> exn + array_t" where
  "get_array (Arr vs) = Inr vs"
| "get_array _ = Inl Bad_get"

fun get_string :: "value_t \<Rightarrow> exn + string" where
  "get_string (Str s) = Inr s"
| "get_string _ = Inl Bad_get"

fun get_bool :: "value_t \<Rightarrow> exn + bool" where
  "get_bool (Bool b) = Inr b"
| "get_bool _ = Inl Bad_get"

fun get_integer :: "value_t \<Rightarrow> exn + 64 word" where
  "get_integer (Integer i) = Inr i"
| "get_integer _ = Inl Bad_get"

section \<open>Tables (shared\_types.h, table\_of)\<close>

definition table_count :: "string \<Rightarrow> object_t \<Rightarrow> nat" where
  "table_count k ps = length (filter (\<lambda>p. k = fst p) ps)"

fun table_at :: "string \<Rightarrow> object_t \<Rightarrow> exn + value_t" where
  "table_at k [] = Inl Out_of_range"
| "table_at k (p # ps) = (if k = fst p then Inr (snd p) else table_at k ps)"

text \<open>\<open>operator[]\<close> used for reading: a missing key is appended with the value \<open>{false}\<close>.\<close>

fun table_index :: "string \<Rightarrow> object_t \<Rightarrow> value_t \<times> object_t" where
  "table_index k [] = (Bool False, [(k, Bool False)])"
| "table_index k (p # ps) =
     (if k = fst p then (snd p, p # ps)
      else (let (v, qs) = table_index k ps in (v, p # qs)))"

text \<open>\<open>t[k] = v\<close>: the first pair with the key is overwritten, or a pair is appended.\<close>

fun table_set :: "string \<Rightarrow> value_t \<Rightarrow> object_t \<Rightarrow> object_t" where
  "table_set k v [] = [(k, v)]"
| "table_set k v (p # ps) = (if k = fst p then (k, v) # ps else p # table_set k v ps)"

text \<open>\<open>find\<close>: the position of the first pair with the key, or the end.\<close>

fun table_find :: "string \<Rightarrow> object_t \<Rightarrow> nat" where
  "table_find k [] = 0"
| "table_find k (p # ps) = (if k = fst p then 0 else Suc (table_find k ps))"

definition table_delete_at :: "string \<Rightarrow> object_t \<Rightarrow> exn + value_t \<times> object_t" where
  "table_delete_at k ps =
     (let i = table_find k ps in
      if i = length ps then Inl Out_of_range
      else Inr (snd (ps ! i), take i ps @ drop (Suc i) ps))"

text \<open>\<open>unwrap(v).value<object_t, T>(k)\<close>: the child, created from the default when missing.\<close>

definition value_or_default :: "string \<Rightarrow> value_t \<Rightarrow> value_t \<Rightarrow> exn + value_t \<times> value_t" where
  "value_or_default k dflt v =
     bindE (get_object v) (\<lambda>ps.
       case table_at k ps of
         Inr c \<Rightarrow> Inr (c, v)
       | Inl _ \<Rightarrow> (if k = [] then Inl Runtime_exception else Inr (dflt, Obj (table_set k dflt ps))))"

text \<open>\<open>unwrap(v).value_as<T>(k)\<close> before the final \<open>boost::get\<close>.\<close>

definition child_at :: "string \<Rightarrow> value_t \<Rightarrow> exn + value_t" where
  "child_at k v =
     (if k = [] then Inl Runtime_exception else bindE (get_object v) (table_at k))"

text \<open>\<open>boost::get<T>(t.at(k))\<close> for the types a table is asked for.\<close>

definition object_child :: "string \<Rightarrow> object_t \<Rightarrow> exn + object_t" where
  "object_child k ps = bindE (table_at k ps) get_object"

definition string_child :: "string \<Rightarrow> object_t \<Rightarrow> exn + string" where
  "string_child k ps = bindE (table_at k ps) get_string"

definition array_child :: "string \<Rightarrow> object_t \<Rightarrow> exn + array_t" where
  "array_child k ps = bindE (table_at k ps) get_array"

lemma table_at_map_of: "table_at k ps = (case map_of ps k of None \<Rightarrow> Inl Out_of_range | Some v \<Rightarrow> Inr v)"
  by (induction k ps rule: table_at.induct) auto

lemma table_at_Inr_iff: "table_at k ps = Inr v \<longleftrightarrow> map_of ps k = Some v"
  by (simp add: table_at_map_of split: option.splits)

lemma object_child_Inr: "object_child k ps = Inr x \<longleftrightarrow> map_of ps k = Some (Obj x)"
  by (auto simp: object_child_def bindE_eq_Inr table_at_Inr_iff elim!: get_object.elims)

lemma string_child_Inr: "string_child k ps = Inr x \<longleftrightarrow> map_of ps k = Some (Str x)"
  by (auto simp: string_child_def bindE_eq_Inr table_at_Inr_iff elim!: get_string.elims)

lemma array_child_Inr: "array_child k ps = Inr x \<longleftrightarrow> map_of ps k = Some (Arr x)"
  by (auto simp: array_child_def bindE_eq_Inr table_at_Inr_iff elim!: get_array.elims)

lemmas child_Inr = object_child_Inr string_child_Inr array_child_Inr

lemma table_at_Inl: "table_at k ps = Inl e \<Longrightarrow> e = Out_of_range \<and> k \<notin> fst ` set ps"
  by (auto simp: table_at_map_of map_of_eq_None_iff split: option.splits)

lemma table_count_zero: "table_count k ps = 0 \<longleftrightarrow> k \<notin> fst ` set ps"
  by (auto simp: table_count_def filter_empty_conv)

lemma table_count_set:
  "table_count k (table_set l v ps) =
     (if k = l then max 1 (table_count k ps) else table_count k ps)"
  by (induction l v ps rule: table_set.induct) (auto simp: table_count_def)

lemma map_of_table_set [table_simps]: "map_of (table_set k v ps) = (map_of ps)(k \<mapsto> v)"
  by (induction k v ps rule: table_set.induct) (auto simp: fun_eq_iff)

lemma table_at_set [table_simps]:
  "table_at k (table_set l v ps) = (if k = l then Inr v else table_at k ps)"
  by (simp add: table_at_map_of table_simps)

lemma keys_table_set [table_simps]:
  "fst ` set (table_set k v ps) = insert k (fst ` set ps)"
  by (induction k v ps rule: table_set.induct) auto

lemma distinct_table_set: "distinct (map fst ps) \<Longrightarrow> distinct (map fst (table_set k v ps))"
proof (induction ps)
  case (Cons p ps)
  then show ?case
    using keys_table_set[of k v ps] by (auto simp flip: set_map)
qed auto

lemma table_set_absent: "k \<notin> fst ` set ps \<Longrightarrow> table_set k v ps = ps @ [(k, v)]"
  by (induction k v ps rule: table_set.induct) auto

lemma table_set_present: "k \<in> fst ` set ps \<Longrightarrow> table_set k v ps = put_first k v ps"
  by (induction k v ps rule: table_set.induct) force+

lemma table_set_set [table_simps]: "table_set k v (table_set k w ps) = table_set k v ps"
  by (induction k w ps rule: table_set.induct) auto

lemma table_set_not_Nil [simp]: "table_set k v ps \<noteq> []"
  by (cases ps) auto

lemma table_set_same: "map_of ps k = Some v \<Longrightarrow> table_set k v ps = ps"
  by (induction k v ps rule: table_set.induct) auto

lemma table_set_commute:
  "k \<noteq> l \<Longrightarrow> k \<in> fst ` set ps \<Longrightarrow>
   table_set k v (table_set l w ps) = table_set l w (table_set k v ps)"
  by (induction l w ps rule: table_set.induct) (auto simp: table_set_absent)

lemma table_index_eq:
  "table_index k ps =
     (case map_of ps k of Some v \<Rightarrow> (v, ps) | None \<Rightarrow> (Bool False, ps @ [(k, Bool False)]))"
  by (induction k ps rule: table_index.induct) (auto split: option.splits)

lemma table_find_less: "table_find k ps < length ps \<longleftrightarrow> k \<in> fst ` set ps"
  by (induction k ps rule: table_find.induct) auto

lemma table_find_le: "table_find k ps \<le> length ps"
  by (induction k ps rule: table_find.induct) auto

lemma table_delete_at_Cons:
  "table_delete_at k (p # ps) =
     (if k = fst p then Inr (snd p, ps)
      else bindE (table_delete_at k ps) (\<lambda>(v, qs). Inr (v, p # qs)))"
  by (simp add: table_delete_at_def Let_def)

lemma table_delete_at_Nil: "table_delete_at k [] = Inl Out_of_range"
  by (simp add: table_delete_at_def)

lemma table_delete_at_absent: "k \<notin> fst ` set ps \<Longrightarrow> table_delete_at k ps = Inl Out_of_range"
  by (induction ps) (auto simp: table_delete_at_Nil table_delete_at_Cons)

lemma table_delete_at_Inr:
  "map_of ps k = Some v \<Longrightarrow>
   \<exists>qs rs. ps = qs @ (k, v) # rs \<and> k \<notin> fst ` set qs \<and> table_delete_at k ps = Inr (v, qs @ rs)"
proof (induction ps)
  case (Cons p ps)
  show ?case
  proof (cases "fst p = k")
    case True
    with Cons.prems show ?thesis
      by (intro exI[of _ "[]"] exI[of _ ps]) (cases p, auto simp: table_delete_at_Cons)
  next
    case False
    with Cons.prems have "map_of ps k = Some v" by (cases p) auto
    then obtain qs rs where "ps = qs @ (k, v) # rs" "k \<notin> fst ` set qs"
        "table_delete_at k ps = Inr (v, qs @ rs)"
      using Cons.IH by blast
    with False show ?thesis
      by (intro exI[of _ "p # qs"] exI[of _ rs]) (auto simp: table_delete_at_Cons)
  qed
qed simp

section \<open>Printing scalars\<close>

text \<open>
  \<open>std::to_string\<close> of a double is \<open>printf("%f")\<close>: six decimals, the exact binary value
  rounded half to even.  The value of a finite pattern is \<open>m * 2 ^ e\<close>.
\<close>

definition dbl_negative :: "64 word \<Rightarrow> bool" where
  "dbl_negative w = bit w 63"

definition dbl_exponent :: "64 word \<Rightarrow> nat" where
  "dbl_exponent w = unat (drop_bit 52 w) mod 2048"

definition dbl_fraction :: "64 word \<Rightarrow> nat" where
  "dbl_fraction w = unat w mod 2 ^ 52"

definition dbl_is_nan :: "64 word \<Rightarrow> bool" where
  "dbl_is_nan w \<longleftrightarrow> dbl_exponent w = 2047 \<and> dbl_fraction w \<noteq> 0"

definition dbl_is_zero :: "64 word \<Rightarrow> bool" where
  "dbl_is_zero w \<longleftrightarrow> dbl_exponent w = 0 \<and> dbl_fraction w = 0"

text \<open>\<open>a == b\<close> on doubles: NaN differs from everything, the two zeros are equal.\<close>

definition dbl_equal :: "64 word \<Rightarrow> 64 word \<Rightarrow> bool" where
  "dbl_equal a b \<longleftrightarrow>
     \<not> dbl_is_nan a \<and> \<not> dbl_is_nan b \<and> (a = b \<or> dbl_is_zero a \<and> dbl_is_zero b)"

text \<open>\<open>n / d\<close> rounded to the nearest integer, ties to even.\<close>

definition div_half_even :: "nat \<Rightarrow> nat \<Rightarrow> nat" where
  "div_half_even n d =
     (let q = n div d; r = n mod d in
      if 2 * r < d \<or> (2 * r = d \<and> even q) then q else Suc q)"

definition dbl_micro :: "64 word \<Rightarrow> nat" where
  "dbl_micro w =
     (let f = dbl_fraction w; e = dbl_exponent w;
          m = (if e = 0 then f else f + 2 ^ 52) * 10 ^ 6;
          x = max e 1
      in if 1075 \<le> x then m * 2 ^ (x - 1075) else div_half_even m (2 ^ (1075 - x)))"

definition pad6 :: "nat \<Rightarrow> string" where
  "pad6 n = (let s = nat_digits n in replicate (6 - length s) (CHR ''0'') @ s)"

definition decimal_to_string :: "64 word \<Rightarrow> string" where
  "decimal_to_string w =
     (if dbl_negative w then ''-'' else []) @
     (if dbl_exponent w = 2047 then (if dbl_fraction w = 0 then ''inf'' else ''nan'')
      else nat_digits (dbl_micro w div 10 ^ 6) @ ''.'' @ pad6 (dbl_micro w mod 10 ^ 6))"

definition integer_to_string :: "64 word \<Rightarrow> string" where
  "integer_to_string i = int_digits (sint i)"

fun print_visitor :: "value_t \<Rightarrow> string" where
  "print_visitor (Obj _) = ''object(...)''"
| "print_visitor (Arr _) = ''array(...)''"
| "print_visitor (Str s) = ''std::string('' @ s @ '')''"
| "print_visitor (Decimal d) = ''decimal('' @ decimal_to_string d @ '')''"
| "print_visitor (Integer i) = ''integer('' @ integer_to_string i @ '')''"
| "print_visitor (Bool b) = (if b then ''bool(true)'' else ''bool(false)'')"

fun tostring_visitor :: "value_t \<Rightarrow> string" where
  "tostring_visitor (Obj _) = ''object(...)''"
| "tostring_visitor (Arr _) = ''array(...)''"
| "tostring_visitor (Str s) = s"
| "tostring_visitor (Decimal d) = decimal_to_string d"
| "tostring_visitor (Integer i) = integer_to_string i"
| "tostring_visitor (Bool b) = (if b then ''true'' else ''false'')"

section \<open>Comparison (json\_types.cpp)\<close>

type_synonym result_t = "bool \<times> string"

definition noerror :: string where
  "noerror = ''Success''"

text \<open>
  The four \<open>operator==\<close> and the visitor they share, mutually recursive as in the code; each
  operator returns the verdict and a message.  The loops over the children are the list
  functions at the end.
\<close>

function (sequential)
      compare_visitor :: "value_t \<Rightarrow> value_t \<Rightarrow> bool"
  and eq_data :: "data_t \<Rightarrow> data_t \<Rightarrow> result_t"
  and eq_array :: "array_t \<Rightarrow> array_t \<Rightarrow> result_t"
  and eq_object :: "object_t \<Rightarrow> object_t \<Rightarrow> result_t"
  and eq_array_loop :: "array_t \<Rightarrow> array_t \<Rightarrow> bool"
  and eq_object_loop :: "object_t \<Rightarrow> object_t \<Rightarrow> result_t"
where
  "compare_visitor (Obj a) (Obj b) = fst (eq_object a b)"
| "compare_visitor (Arr a) (Arr b) = fst (eq_array a b)"
| "compare_visitor (Str a) (Str b) = (a = b)"
| "compare_visitor (Decimal a) (Decimal b) = dbl_equal a b"
| "compare_visitor (Integer a) (Integer b) = (a = b)"
| "compare_visitor (Bool a) (Bool b) = (a = b)"
| "compare_visitor _ _ = False"
| "eq_data (k, v) (l, w) =
     (if k \<noteq> l then (False, ''Keys are different <'' @ k @ '','' @ l @ ''>'')
      else if compare_visitor v w then (True, noerror)
      else (False, ''Values are different< '' @ k @ '':'' @ print_visitor v @ '','' @
                   l @ '':'' @ print_visitor w @ ''>''))"
| "eq_array a b =
     (if length a \<noteq> length b
      then (False, ''Arrays have different sizes <'' @ print_visitor (Arr a) @ '','' @ print_visitor (Arr b) @ ''>'')
      else if eq_array_loop a b then (True, noerror)
      else (False, ''Arrays are different <'' @ print_visitor (Arr a) @ '','' @ print_visitor (Arr b) @ ''>''))"
| "eq_object a b =
     (if length a \<noteq> length b
      then (False, ''Objects have different sizes <'' @ print_visitor (Obj a) @ '','' @ print_visitor (Obj b) @ ''>'')
      else eq_object_loop a b)"
| "eq_array_loop (x # xs) (y # ys) = (compare_visitor x y \<and> eq_array_loop xs ys)"
| "eq_array_loop _ _ = True"
| "eq_object_loop (p # ps) (q # qs) =
     (let r = eq_data p q in
      if \<not> fst r then (False, ''Ojbects are different at key='' @ [CHR 0x22] @ fst p @ [CHR 0x22] @ '' '' @ snd r)
      else eq_object_loop ps qs)"
| "eq_object_loop _ _ = (True, noerror)"
  by pat_completeness auto

termination
  by (relation "measures
       [\<lambda>x. case x of
          Inl (Inl (v, _)) \<Rightarrow> size v
        | Inl (Inr (Inl (d, _))) \<Rightarrow> Suc (size (snd d))
        | Inl (Inr (Inr (a, _))) \<Rightarrow> size_list size a
        | Inr (Inl (a, _)) \<Rightarrow> size_list (size_prod (\<lambda>_. 0) size) a
        | Inr (Inr (Inl (a, _))) \<Rightarrow> size_list size a
        | Inr (Inr (Inr (a, _))) \<Rightarrow> size_list (size_prod (\<lambda>_. 0) size) a,
        \<lambda>x. case x of Inl (Inr (Inl _)) \<Rightarrow> 0 | Inl (Inr (Inr _)) \<Rightarrow> 1 | Inr (Inl _) \<Rightarrow> 1 | _ \<Rightarrow> 0]") auto

definition eq_value :: "value_t \<Rightarrow> value_t \<Rightarrow> result_t" where
  "eq_value v w =
     (if which v \<noteq> which w
      then (False, ''Values have different types <'' @ print_visitor v @ '','' @ print_visitor w @ ''>'')
      else if compare_visitor v w then (True, noerror)
      else (False, ''Values are different<'' @ print_visitor v @ '','' @ print_visitor w @ ''>''))"

fun decimal_free :: "value_t \<Rightarrow> bool" where
  "decimal_free (Obj ps) = list_all (\<lambda>p. decimal_free (snd p)) ps"
| "decimal_free (Arr vs) = list_all decimal_free vs"
| "decimal_free (Decimal _) = False"
| "decimal_free _ = True"

text \<open>No NaN anywhere inside: what makes a value equal to itself.\<close>

fun nan_free :: "value_t \<Rightarrow> bool" where
  "nan_free (Obj ps) = list_all (\<lambda>p. nan_free (snd p)) ps"
| "nan_free (Arr vs) = list_all nan_free vs"
| "nan_free (Decimal d) = (\<not> dbl_is_nan d)"
| "nan_free _ = True"

lemma dbl_equal_sym: "dbl_equal a b = dbl_equal b a"
  by (auto simp: dbl_equal_def)

lemmas compare_induct =
  compare_visitor_eq_data_eq_array_eq_object_eq_array_loop_eq_object_loop.induct

lemma compare_visitor_decimal_free:
  "(decimal_free v \<longrightarrow> compare_visitor v w = (v = w))"
  "(decimal_free (snd p) \<longrightarrow> fst (eq_data p q) = (p = q))"
  "(list_all decimal_free vs \<longrightarrow> fst (eq_array vs ws) = (vs = ws))"
  "(list_all (\<lambda>x. decimal_free (snd x)) ps \<longrightarrow> fst (eq_object ps qs) = (ps = qs))"
  "(list_all decimal_free xs \<longrightarrow> length xs = length ys \<longrightarrow> eq_array_loop xs ys = (xs = ys))"
  "(list_all (\<lambda>x. decimal_free (snd x)) rs \<longrightarrow> length rs = length ss \<longrightarrow> fst (eq_object_loop rs ss) = (rs = ss))"
  by (induction v w and p q and vs ws and ps qs and xs ys and rs ss rule: compare_induct)
     (auto simp: Let_def)

lemma compare_visitor_sym:
  "compare_visitor v w = compare_visitor w v"
  "fst (eq_data p q) = fst (eq_data q p)"
  "fst (eq_array vs ws) = fst (eq_array ws vs)"
  "fst (eq_object ps qs) = fst (eq_object qs ps)"
  "eq_array_loop xs ys = eq_array_loop ys xs"
  "fst (eq_object_loop rs ss) = fst (eq_object_loop ss rs)"
  by (induction v w and p q and vs ws and ps qs and xs ys and rs ss rule: compare_induct)
     (auto simp: dbl_equal_sym Let_def)

lemma compare_visitor_which: "compare_visitor v w \<Longrightarrow> which v = which w"
  by (cases v; cases w) auto

lemma fst_eq_value: "fst (eq_value v w) = compare_visitor v w"
  using compare_visitor_which[of v w] by (auto simp: eq_value_def)

lemma eq_array_loop_refl: "(\<And>x. x \<in> set xs \<Longrightarrow> compare_visitor x x) \<Longrightarrow> eq_array_loop xs xs"
  by (induction xs) auto

lemma eq_object_loop_refl:
  "(\<And>p. p \<in> set ps \<Longrightarrow> compare_visitor (snd p) (snd p)) \<Longrightarrow> fst (eq_object_loop ps ps)"
proof (induction ps)
  case (Cons p ps)
  from Cons.prems[of p] have "fst (eq_data p p)" by (cases p) simp
  moreover have "fst (eq_object_loop ps ps)" using Cons by simp
  ultimately show ?case by (simp add: Let_def)
qed simp

lemma compare_visitor_refl: "nan_free v \<Longrightarrow> compare_visitor v v"
proof (induction v)
  case (Obj ps)
  have "compare_visitor (snd p) (snd p)" if "p \<in> set ps" for p
    using Obj that by (cases p) (auto simp: list_all_iff)
  then show ?case by (simp add: eq_object_loop_refl)
next
  case (Arr vs)
  then show ?case by (auto simp: list_all_iff intro!: eq_array_loop_refl)
qed (auto simp: dbl_equal_def)

text \<open>\<open>operator==\<close> on JSON values is symmetric, holds of every value without a NaN and
  itself, and on values without decimals it is equality of the values: same keys in the
  same order, same children.
\<close>

theorem eq_value_correct:
  "fst (eq_value v w) = fst (eq_value w v)
   \<and> (nan_free v \<longrightarrow> fst (eq_value v v))
   \<and> (decimal_free v \<longrightarrow> fst (eq_value v w) = (v = w))"
proof (intro conjI)
  show "fst (eq_value v w) = fst (eq_value w v)"
    by (simp only: fst_eq_value compare_visitor_sym(1)[of v w])
qed (simp_all add: fst_eq_value compare_visitor_refl compare_visitor_decimal_free(1))

theorem eq_value_correct_witness:
  "fst (eq_value (Obj [(''a'', Arr [Integer 1, Bool True])]) (Obj [(''a'', Arr [Integer 1, Bool True])]))
   \<and> \<not> fst (eq_value (Obj [(''a'', Integer 1)]) (Obj [(''b'', Integer 1)]))"
  using eq_value_correct[THEN conjunct2, of "Obj [(''a'', Arr [Integer 1, Bool True])]"
      "Obj [(''a'', Arr [Integer 1, Bool True])]"]
    eq_value_correct[THEN conjunct2, of "Obj [(''a'', Integer 1)]" "Obj [(''b'', Integer 1)]"]
  by simp

end
