(* ===== verification/StringHelpers.thy ===== *)
theory StringHelpers
  imports Prelude
begin

text \<open>
  SharedCommon/helper\_functions.cpp: the string functions the documents, overlays and
  providers use.  Functions that can throw return \<open>exn + _\<close>; the loop of \<open>replace_all\<close> that
  need not end is a \<open>partial_function\<close>.  Also the environment the code reads: the clock, the
  random source and the C library's parser of the old timestamp format.
\<close>

section \<open>Quotes and brackets\<close>

definition dquote :: char where "dquote = CHR 0x22"
definition squote :: char where "squote = CHR 0x27"

definition quoted_with :: "char \<Rightarrow> string \<Rightarrow> exn + string" where
  "quoted_with qchar text =
     (if qchar = dquote \<or> qchar = squote then Inr ([qchar] @ text @ [qchar]) else Inl Runtime_exception)"

definition quoted :: "string \<Rightarrow> string" where
  "quoted text = [dquote] @ text @ [dquote]"

definition bool_name :: "bool \<Rightarrow> string" where
  "bool_name v = (if v then ''true'' else ''false'')"

text \<open>
  \<open>s[0] == o && s[s.length() - 1] == c\<close>; on the empty string \<open>s[0]\<close> is the terminator, so the
  test fails.  \<open>substr(1, length - 2)\<close> on a one-character string is empty.
\<close>

definition enclosed :: "char \<Rightarrow> char \<Rightarrow> string \<Rightarrow> bool" where
  "enclosed a b s \<longleftrightarrow> s \<noteq> [] \<and> hd s = a \<and> last s = b"

definition inner :: "string \<Rightarrow> string" where
  "inner s = take (length s - 2) (tl s)"

definition debrace :: "string \<Rightarrow> string" where
  "debrace s = (if enclosed (CHR ''{'') (CHR ''}'') s then inner s else s)"

definition dequote :: "string \<Rightarrow> string" where
  "dequote s = (if enclosed dquote dquote s \<or> enclosed squote squote s then inner s else s)"

definition debracket :: "string \<Rightarrow> string" where
  "debracket s = (if enclosed (CHR ''['') (CHR '']'') s then inner s else s)"

datatype quotation_type_t = QNONE | QSINGLE | QDOUBLE

definition quotation_type :: "string \<Rightarrow> quotation_type_t" where
  "quotation_type s =
     (if enclosed dquote dquote s then QDOUBLE
      else if enclosed squote squote s then QSINGLE else QNONE)"

definition trim :: "string \<Rightarrow> string" where
  "trim s = rev (dropWhile is_space (rev (dropWhile is_space s)))"

definition annotate :: "string \<Rightarrow> string" where
  "annotate s =
     (let str = trim s in
      if str \<noteq> [] \<and> hd str = CHR ''#'' then str
      else if str = [] then []
      else CHR ''#'' # str)"

text \<open>\<open>tolower\<close> and \<open>toupper\<close> on ASCII letters.\<close>

definition to_lower :: "string \<Rightarrow> string" where
  "to_lower = map (\<lambda>c. let n = of_char c :: nat in if 65 \<le> n \<and> n \<le> 90 then char_of (n + 32) else c)"

definition to_upper :: "string \<Rightarrow> string" where
  "to_upper = map (\<lambda>c. let n = of_char c :: nat in if 97 \<le> n \<and> n \<le> 122 then char_of (n - 32) else c)"

definition string_equal :: "string \<Rightarrow> string \<Rightarrow> exn + bool" where
  "string_equal l r = (if l = [] \<or> r = [] then Inl Runtime_exception else Inr (l = r))"

definition not_equal :: "string \<Rightarrow> string \<Rightarrow> exn + bool" where
  "not_equal l r = bindE (string_equal l r) (\<lambda>b. Inr (\<not> b))"

definition to_id :: "string \<Rightarrow> exn + string" where
  "to_id oid =
     (if oid = [] then Inl Runtime_exception
      else Inr (''{'' @ quoted ''_id'' @ '':{'' @ quoted ''$oid'' @ '':'' @ quoted oid @ ''} }''))"

definition to_json :: "string \<Rightarrow> string \<Rightarrow> exn + string" where
  "to_json key v =
     (if key = [] \<or> v = [] then Inl Runtime_exception
      else Inr (''{'' @ quoted key @ '':'' @ quoted v @ ''}''))"

section \<open>Replacing\<close>

text \<open>\<open>std::string::find\<close>: the first position at which the pattern occurs.\<close>

fun find_sub :: "string \<Rightarrow> string \<Rightarrow> nat option" where
  "find_sub m [] = (if m = [] then Some 0 else None)"
| "find_sub m (c # s) =
     (if take (length m) (c # s) = m then Some 0 else map_option Suc (find_sub m s))"

text \<open>The loop of \<open>replace_all\<close>, on the part of the source from \<open>first\<close> on.\<close>

partial_function (option) replace_loop :: "string \<Rightarrow> string \<Rightarrow> string \<Rightarrow> string \<Rightarrow> string option" where
  "replace_loop source match replacement ret =
     (case find_sub match source of
        None \<Rightarrow> Some (ret @ source)
      | Some n \<Rightarrow> replace_loop (drop (n + length match) source) match replacement
                   (ret @ take n source @ replacement))"

definition replace_all :: "string \<Rightarrow> string \<Rightarrow> string \<Rightarrow> string option" where
  "replace_all source match replacement = replace_loop source match replacement []"

section \<open>The object id inside a filter\<close>

text \<open>
  The search of \<open>^\{[^:]+:\s+([\s\S]+)\}$\<close>: a brace, at least one character before the first
  colon, whitespace, a non-empty capture and the final brace.  The whitespace is taken
  greedily and gives one character back when nothing else is left for the capture.
\<close>

definition oid_capture :: "string \<Rightarrow> string option" where
  "oid_capture s =
     (case s of
        [] \<Rightarrow> None
      | b # t \<Rightarrow>
        (let pre = takeWhile (\<lambda>c. c \<noteq> CHR '':'') t;
             rest = dropWhile (\<lambda>c. c \<noteq> CHR '':'') t
         in if b \<noteq> CHR ''{'' \<or> pre = [] \<or> rest = [] \<or> tl rest = [] \<or> last rest \<noteq> CHR ''}'' then None
            else let body = butlast (tl rest);
                     ws = takeWhile is_space body;
                     cap = dropWhile is_space body
                 in if ws = [] then None
                    else if cap \<noteq> [] then Some cap
                    else if 2 \<le> length ws then Some [last ws] else None))"

definition rstrip :: "string \<Rightarrow> string" where
  "rstrip s = rev (dropWhile (\<lambda>c. c \<in> {CHR '' '', CHR 0x0A, CHR 0x0D, CHR 0x09}) (rev s))"

definition extract_oid :: "string \<Rightarrow> exn + string" where
  "extract_oid filt =
     (case oid_capture filt of
        None \<Rightarrow> Inl Logic_error
      | Some cap \<Rightarrow>
        (let m = rstrip cap in Inr (if enclosed dquote dquote m then inner m else m)))"

section \<open>Environment\<close>

text \<open>
  What the code reads from outside: \<open>timestamp()\<close> returns the next reading of the clock,
  \<open>generate_oid()\<close> the next identifier, and \<open>w_legacy\<close> stands for \<open>strptime\<close> on the old format
  followed by \<open>to_string\<close> of the time point (\<open>None\<close>: the string does not parse).
\<close>

record world =
  w_clock :: "nat \<Rightarrow> string"
  w_uuid :: "nat \<Rightarrow> string"
  w_legacy :: "string \<Rightarrow> string option"

definition read_clock :: "world \<Rightarrow> string \<times> world" where
  "read_clock w = (w_clock w 0, w\<lparr>w_clock := (\<lambda>n. w_clock w (Suc n))\<rparr>)"

text \<open>
  \<open>generate_oid\<close> removes the dashes of the kernel's uuid and keeps 24 characters, padding a
  shorter text with NUL as \<open>resize\<close> does.
\<close>

definition generate_oid :: "world \<Rightarrow> string \<times> world" where
  "generate_oid w =
     (let s = filter (\<lambda>c. c \<noteq> CHR ''-'') (w_uuid w 0) in
      (take 24 (s @ replicate 24 (CHR 0x00)), w\<lparr>w_uuid := (\<lambda>n. w_uuid w (Suc n))\<rparr>))"

definition confirm_iso8601_timestamp :: "(string \<Rightarrow> string option) \<Rightarrow> string \<Rightarrow> exn + string" where
  "confirm_iso8601_timestamp legacy strtime =
     (if strtime = [] then Inl Runtime_exception
      else if hd strtime = CHR ''2'' then Inr strtime
      else case legacy strtime of Some t \<Rightarrow> Inr t | None \<Rightarrow> Inl Invalid_argument)"

section \<open>Properties\<close>

lemma inner_enclosed: "inner (a # s @ [b]) = s"
  by (simp add: inner_def)

lemma debrace_braces: "debrace (CHR ''{'' # s @ ''}'') = s"
  by (simp add: debrace_def enclosed_def inner_enclosed)

lemma dequote_quoted: "dequote (quoted s) = s"
  by (simp add: dequote_def quoted_def enclosed_def inner_enclosed)

lemma debracket_brackets: "debracket (CHR ''['' # s @ '']'') = s"
  by (simp add: debracket_def enclosed_def inner_enclosed)

lemma hd_dropWhile_not: "dropWhile P s \<noteq> [] \<Longrightarrow> \<not> P (hd (dropWhile P s))"
  by (rule hd_dropWhile)

lemma dropWhile_idem: "s = [] \<or> \<not> P (hd s) \<Longrightarrow> dropWhile P s = s"
  by (cases s) auto

lemma dropWhile_rev_hd:
  "s = [] \<or> \<not> P (hd s) \<Longrightarrow> dropWhile P (rev s) = [] \<or> hd (rev (dropWhile P (rev s))) = hd s"
proof (cases s)
  case (Cons c t)
  assume "s = [] \<or> \<not> P (hd s)"
  with Cons have "\<not> P c" by simp
  then have "dropWhile P (rev s) = dropWhile P (rev t) @ [c]"
    using Cons by (auto simp: dropWhile_append dropWhile_eq_Nil_conv)
  with Cons show ?thesis by simp
qed simp

text \<open>A trimmed string neither starts nor ends with whitespace; trimming again changes nothing.\<close>

definition trimmed :: "string \<Rightarrow> bool" where
  "trimmed s \<longleftrightarrow> s = [] \<or> (\<not> is_space (hd s) \<and> \<not> is_space (last s))"

lemma trimmed_trim: "trimmed (trim s)"
proof -
  let ?d = "dropWhile is_space s"
  have d: "?d = [] \<or> \<not> is_space (hd ?d)" using hd_dropWhile by blast
  have "rev (trim s) = [] \<or> \<not> is_space (hd (rev (trim s)))"
    using hd_dropWhile[of is_space "rev ?d"] unfolding trim_def rev_rev_ident by blast
  moreover have "trim s = [] \<or> \<not> is_space (hd (trim s))"
  proof (cases "dropWhile is_space (rev ?d) = []")
    case True
    then have "trim s = []" unfolding trim_def by (metis rev.simps(1))
    then show ?thesis ..
  next
    case False
    then have "?d \<noteq> []" by (metis dropWhile.simps(1) rev.simps(1))
    with d have "\<not> is_space (hd ?d)" by blast
    moreover have "hd (trim s) = hd ?d"
      unfolding trim_def by (metis dropWhile_rev_hd d False)
    ultimately show ?thesis by simp
  qed
  ultimately show ?thesis by (auto simp: trimmed_def hd_rev)
qed

lemma trim_trimmed: "trimmed s \<Longrightarrow> trim s = s"
  by (auto simp: trimmed_def trim_def dropWhile_idem hd_rev)

text \<open>\<open>annotate\<close> normalises a comment: applying it again changes nothing, and the result is
  empty exactly for blank input and otherwise starts with a hash sign.
\<close>

theorem annotate_normal:
  "annotate (annotate s) = annotate s
   \<and> (annotate s = [] \<longleftrightarrow> trim s = [])
   \<and> (annotate s = [] \<or> hd (annotate s) = CHR ''#'')"
proof -
  have "trimmed (CHR ''#'' # trim s)" if "trim s \<noteq> []"
    using trimmed_trim[of s] that by (auto simp: trimmed_def is_space_def)
  then have "trim (annotate s) = annotate s"
    using trimmed_trim[of s] by (auto simp: annotate_def Let_def intro: trim_trimmed)
  then show ?thesis by (auto simp: annotate_def Let_def)
qed

lemma find_sub_bound: "find_sub m s = Some n \<Longrightarrow> n + length m \<le> length s"
proof (induction m s arbitrary: n rule: find_sub.induct)
  case (2 m c s)
  then show ?case
    by (auto split: if_splits) (metis length_Cons length_take min.cobounded1 min_def)
qed (auto split: if_splits)

lemma find_sub_match: "find_sub m s = Some n \<Longrightarrow> take (length m) (drop n s) = m"
  by (induction m s arbitrary: n rule: find_sub.induct) (auto split: if_splits)

lemma replace_loop_total: "match \<noteq> [] \<Longrightarrow> \<exists>y. replace_loop source match r ret = Some y"
proof (induction "length source" arbitrary: source ret rule: less_induct)
  case less
  show ?case
  proof (cases "find_sub match source")
    case (Some n)
    have "length (drop (n + length match) source) < length source"
      using find_sub_bound[OF Some] less.prems by (cases match) auto
    from less.hyps[OF this] Some less.prems show ?thesis
      by (subst replace_loop.simps) simp
  qed (subst replace_loop.simps, simp)
qed

lemma find_sub_empty: "find_sub [] s = Some 0"
  by (cases s) auto

lemma replace_loop_diverges: "replace_loop source [] r ret = Some y \<Longrightarrow> False"
proof (rule replace_loop.raw_induct[where P = "\<lambda>source match r ret y. match \<noteq> []" and source = source
      and match = "[]" and replacement = r and ret = ret and y = y, THEN notE])
  fix f source match r ret y
  assume IH: "\<And>source match r ret y. f source match r ret = Some y \<Longrightarrow> match \<noteq> ([] :: string)"
    and eq: "(case find_sub match source of None \<Rightarrow> Some (ret @ source)
       | Some n \<Rightarrow> f (drop (n + length match) source) match r (ret @ take n source @ r)) = Some y"
  show "match \<noteq> []"
    using IH eq find_sub_empty by (cases "match = []") fastforce+
qed auto

lemma replace_loop_same:
  "match \<noteq> [] \<Longrightarrow> replace_loop source match match ret = Some (ret @ source)"
proof (induction "length source" arbitrary: source ret rule: less_induct)
  case less
  show ?case
  proof (cases "find_sub match source")
    case (Some n)
    let ?rest = "drop (n + length match) source"
    have "length ?rest < length source"
      using find_sub_bound[OF Some] less.prems by (cases match) auto
    moreover have "take n source @ match @ ?rest = source"
      using find_sub_match[OF Some] by (metis append_take_drop_id drop_drop add.commute)
    ultimately show ?thesis
      using less Some by (subst replace_loop.simps) simp
  qed (subst replace_loop.simps, simp)
qed

text \<open>C8. \<open>replace_all\<close> returns exactly when the pattern is not empty (with an empty pattern its
  loop never ends); replacing a pattern by itself gives the text back.
\<close>

theorem replace_all_correct:
  "((\<exists>y. replace_all source match r = Some y) \<longleftrightarrow> match \<noteq> [])
   \<and> (match \<noteq> [] \<longrightarrow> replace_all source match match = Some source)"
  using replace_loop_total replace_loop_diverges replace_loop_same[of match source "[]"]
  by (fastforce simp: replace_all_def)

theorem replace_all_correct_witness:
  "(\<exists>y. replace_all ''a.b'' ''.'' ''/'' = Some y) \<and> replace_all ''a.b'' ''.'' ''.'' = Some ''a.b''"
  using replace_all_correct[of "''a.b''" "''.''" "''/''"] by simp

end
