(* ===== verification/JsonCodec.thy ===== *)
theory JsonCodec
  imports JsonTypes StringHelpers
begin

text \<open>
  The JSON text format: the generator grammar of DataFormats/Json/json\_writer.h, the parser
  grammar of json\_reader.h and the reader and writer built on them.  The grammar is a
  parsing expression grammar: alternatives are tried in order, repetition is greedy, white
  space is skipped before every terminal outside a string.  How Boost prints and parses a
  double is not under src/; it enters as the parameters \<open>kd\<close> (karma) and \<open>qd\<close> (qi).
\<close>

section \<open>Writer\<close>

definition newline :: string where
  "newline = [CHR 0x0A]"

fun join :: "string \<Rightarrow> string list \<Rightarrow> string" where
  "join sep [] = []"
| "join sep [x] = x"
| "join sep (x # y # xs) = x @ sep @ join sep (y # xs)"

fun write_value :: "(64 word \<Rightarrow> string) \<Rightarrow> value_t \<Rightarrow> string" where
  "write_value kd (Str s) = quoted s"
| "write_value kd (Integer i) = integer_to_string i"
| "write_value kd (Decimal d) = kd d"
| "write_value kd (Bool b) = bool_name b"
| "write_value kd (Obj ps) =
     ''{'' @ newline
     @ join ('','' @ newline) (map (\<lambda>p. quoted (fst p) @ '' : '' @ write_value kd (snd p)) ps)
     @ newline @ ''}''"
| "write_value kd (Arr vs) =
     ''['' @ newline @ join ('','' @ newline) (map (write_value kd) vs) @ newline @ '']''"

text \<open>\<open>JsonWriter::write\<close>: an empty table is refused by a \<open>confirm\<close>.\<close>

definition json_write :: "(64 word \<Rightarrow> string) \<Rightarrow> object_t \<Rightarrow> exn + string" where
  "json_write kd ast = (if ast = [] then Inl Runtime_exception else Inr (write_value kd (Obj ast)))"

section \<open>Reader\<close>

type_synonym 'a parser = "string \<Rightarrow> ('a \<times> string) option"

definition skip :: "string \<Rightarrow> string" where
  "skip = dropWhile is_space"

definition p_lit :: "char \<Rightarrow> string \<Rightarrow> string option" where
  "p_lit c s = (case skip s of [] \<Rightarrow> None | d # r \<Rightarrow> if d = c then Some r else None)"

definition backslash :: char where
  "backslash = CHR 0x5C"

definition is_escape :: "char \<Rightarrow> bool" where
  "is_escape c \<longleftrightarrow> c \<in> set [backslash, dquote, CHR ''b'', CHR ''f'', CHR ''n'', CHR ''r'', CHR ''t'']"

text \<open>
  \<open>+(escape_rule | ~char_('"'))\<close>: an escape is kept as its two characters, any other
  character except the quote stands for itself.
\<close>

fun scan_text :: "string \<Rightarrow> string \<times> string" where
  "scan_text [] = ([], [])"
| "scan_text (c # s) =
     (if c = backslash then
        (case s of
           [] \<Rightarrow> ([c], [])
         | d # t \<Rightarrow>
           (if is_escape d then (let (x, r) = scan_text t in (c # d # x, r))
            else (let (x, r) = scan_text s in (c # x, r))))
      else if c = dquote then ([], c # s)
      else (let (x, r) = scan_text s in (c # x, r)))"

definition p_string :: "string parser" where
  "p_string s =
     (case p_lit dquote s of
        None \<Rightarrow> None
      | Some r \<Rightarrow>
        (case scan_text r of (x, []) \<Rightarrow> None | (x, q # r') \<Rightarrow> Some (x, r')))"

fun digits_value :: "nat \<Rightarrow> string \<Rightarrow> nat" where
  "digits_value a [] = a"
| "digits_value a (c # s) = digits_value (10 * a + (of_char c - 48)) s"

text \<open>\<open>qi::long_\<close>: an optional sign and digits whose value fits an \<open>int64_t\<close>.\<close>

definition p_long :: "64 word parser" where
  "p_long s =
     (let t = skip s;
          neg = (t \<noteq> [] \<and> hd t = CHR ''-'');
          u = (if t \<noteq> [] \<and> (hd t = CHR ''-'' \<or> hd t = CHR ''+'') then tl t else t);
          ds = takeWhile is_digit u;
          n = (if neg then - int (digits_value 0 ds) else int (digits_value 0 ds))
      in if ds \<noteq> [] \<and> - (2 ^ 63) \<le> n \<and> n < 2 ^ 63
         then Some (word_of_int n, dropWhile is_digit u) else None)"

definition p_bool :: "bool parser" where
  "p_bool s =
     (let t = skip s in
      if take 4 t = ''true'' then Some (True, drop 4 t)
      else if take 5 t = ''false'' then Some (False, drop 5 t)
      else None)"

text \<open>\<open>object_rule\<close> and \<open>array_rule\<close> over the parsers of one element and of the further ones.\<close>

definition p_data :: "value_t parser \<Rightarrow> data_t parser" where
  "p_data pv s =
     (case p_string s of
        None \<Rightarrow> None
      | Some (k, r) \<Rightarrow>
        (case p_lit (CHR '':'') r of
           None \<Rightarrow> None
         | Some r1 \<Rightarrow> map_option (\<lambda>(v, r2). ((k, v), r2)) (pv r1)))"

definition p_bracketed ::
  "char \<Rightarrow> char \<Rightarrow> 'a parser \<Rightarrow> (string \<Rightarrow> 'a list \<times> string) \<Rightarrow> 'a list parser" where
  "p_bracketed a b p further s =
     (case p_lit a s of
        None \<Rightarrow> None
      | Some r \<Rightarrow>
        (let (xs, r2) = (case p r of
               None \<Rightarrow> ([], r)
             | Some (x, r1) \<Rightarrow> (let (ys, r') = further r1 in (x # ys, r')))
         in map_option (\<lambda>r3. (xs, r3)) (p_lit b r2)))"

fun p_value :: "(string \<Rightarrow> (64 word \<times> string) option) \<Rightarrow> nat \<Rightarrow> value_t parser"
  and p_members :: "(string \<Rightarrow> (64 word \<times> string) option) \<Rightarrow> nat \<Rightarrow> string \<Rightarrow> data_t list \<times> string"
  and p_elements :: "(string \<Rightarrow> (64 word \<times> string) option) \<Rightarrow> nat \<Rightarrow> string \<Rightarrow> value_t list \<times> string"
where
  "p_value qd 0 s = None"
| "p_value qd (Suc n) s =
     (case p_bracketed (CHR ''{'') (CHR ''}'') (p_data (\<lambda>r. p_value qd n r)) (\<lambda>r. p_members qd n r) s of
        Some (ps, r) \<Rightarrow> Some (Obj ps, r)
      | None \<Rightarrow>
     (case p_bracketed (CHR ''['') (CHR '']'') (\<lambda>r. p_value qd n r) (\<lambda>r. p_elements qd n r) s of
        Some (vs, r) \<Rightarrow> Some (Arr vs, r)
      | None \<Rightarrow>
     (case p_string s of
        Some (x, r) \<Rightarrow> Some (Str x, r)
      | None \<Rightarrow>
     (case (case p_long s of
              None \<Rightarrow> None
            | Some (i, r) \<Rightarrow> if p_lit (CHR ''.'') r = None then Some (i, r) else None) of
        Some (i, r) \<Rightarrow> Some (Integer i, r)
      | None \<Rightarrow>
     (case qd (skip s) of
        Some (d, r) \<Rightarrow> Some (Decimal d, r)
      | None \<Rightarrow> map_option (\<lambda>(b, r). (Bool b, r)) (p_bool s))))))"
| "p_members qd 0 s = ([], s)"
| "p_members qd (Suc n) s =
     (case p_lit (CHR '','') s of
        None \<Rightarrow> ([], s)
      | Some r \<Rightarrow>
        (case p_data (\<lambda>r. p_value qd n r) r of
           None \<Rightarrow> ([], s)
         | Some (d, r1) \<Rightarrow> (let (ds, r2) = p_members qd n r1 in (d # ds, r2))))"
| "p_elements qd 0 s = ([], s)"
| "p_elements qd (Suc n) s =
     (case p_lit (CHR '','') s of
        None \<Rightarrow> ([], s)
      | Some r \<Rightarrow>
        (case p_value qd n r of
           None \<Rightarrow> ([], s)
         | Some (d, r1) \<Rightarrow> (let (ds, r2) = p_elements qd n r1 in (d # ds, r2))))"

text \<open>
  \<open>JsonReader::read\<close>: the start rule is \<open>object_rule\<close>; text after the object is not looked
  at.  Each level of the grammar consumes a character, so the length of the input is enough
  fuel (\<open>json_roundtrip\<close> below runs with exactly that).  \<open>None\<close> is the result \<open>false\<close>.
\<close>

definition json_parse :: "(string \<Rightarrow> (64 word \<times> string) option) \<Rightarrow> string \<Rightarrow> object_t option" where
  "json_parse qd s =
     map_option fst (p_bracketed (CHR ''{'') (CHR ''}'') (p_data (p_value qd (length s))) (p_members qd (length s)) s)"

definition json_read :: "(string \<Rightarrow> (64 word \<times> string) option) \<Rightarrow> string \<Rightarrow> exn + object_t option" where
  "json_read qd s = (if s = [] then Inl Runtime_exception else Inr (json_parse qd s))"

text \<open>\<open>compare_json_objects\<close> of json\_reader.cpp.\<close>

definition compare_json_objects ::
  "(string \<Rightarrow> (64 word \<times> string) option) \<Rightarrow> string \<Rightarrow> string \<Rightarrow> exn + result_t" where
  "compare_json_objects qd a b =
     (if a = [] \<or> b = [] then Inl Runtime_exception
      else case json_parse qd a of
             None \<Rightarrow> Inr (False, ''Unable to read first Json buffer'')
           | Some x \<Rightarrow>
             (case json_parse qd b of
                None \<Rightarrow> Inr (False, ''Unable to read second Json buffer'')
              | Some y \<Rightarrow> Inr (eq_object x y)))"


section \<open>Reading back what was written\<close>

text \<open>Strings the grammar can hold: every backslash starts one of the seven escapes, no bare quote.\<close>

fun text_ok :: "string \<Rightarrow> bool" where
  "text_ok [] = True"
| "text_ok (c # s) =
     (if c = backslash then (case s of [] \<Rightarrow> False | d # t \<Rightarrow> is_escape d \<and> text_ok t)
      else c \<noteq> dquote \<and> text_ok s)"

fun printable :: "value_t \<Rightarrow> bool" where
  "printable (Obj ps) = list_all (\<lambda>p. text_ok (fst p) \<and> printable (snd p)) ps"
| "printable (Arr vs) = list_all printable vs"
| "printable (Str s) = text_ok s"
| "printable (Decimal d) = False"
| "printable (Integer i) = True"
| "printable (Bool b) = True"

lemma printable_put_first:
  "printable (Obj ps) \<Longrightarrow> printable v \<Longrightarrow> printable (Obj (put_first k v ps))"
  by (induction k v ps rule: put_first.induct) auto

lemma printable_map_of: "map_of ps k = Some v \<Longrightarrow> printable (Obj ps) \<Longrightarrow> printable v"
  by (induction ps) (auto split: if_splits)

lemma printable_table_set:
  "printable (Obj ps) \<Longrightarrow> text_ok k \<Longrightarrow> printable v \<Longrightarrow> printable (Obj (table_set k v ps))"
  by (induction k v ps rule: table_set.induct) auto

text \<open>What follows a value in a text: a comma or a closing bracket, behind white space.\<close>

definition follows :: "string \<Rightarrow> bool" where
  "follows r \<longleftrightarrow> (case skip r of [] \<Rightarrow> False | c # _ \<Rightarrow> c = CHR '','' \<or> c = CHR ''}'' \<or> c = CHR '']'')"

lemma skip_nonspace [simp]: "\<not> is_space c \<Longrightarrow> skip (c # s) = c # s"
  by (simp add: skip_def)

lemma skip_space [simp]: "is_space c \<Longrightarrow> skip (c # s) = skip s"
  by (simp add: skip_def)

lemma is_space_simps [simp]:
  "is_space (CHR 0x0A)" "is_space (CHR '' '')" "\<not> is_space dquote" "\<not> is_space (CHR '','')"
  "\<not> is_space (CHR '':'')" "\<not> is_space (CHR ''{'')" "\<not> is_space (CHR ''}'')"
  "\<not> is_space (CHR ''['')" "\<not> is_space (CHR '']'')" "\<not> is_space (CHR ''-'')"
  "\<not> is_space (CHR ''t'')" "\<not> is_space (CHR ''f'')"
  by (simp_all add: is_space_def dquote_def)

lemma dquote_neq [simp]:
  "dquote \<noteq> CHR '','' \<and> dquote \<noteq> CHR '':'' \<and> dquote \<noteq> CHR ''{'' \<and> dquote \<noteq> CHR ''}''
   \<and> dquote \<noteq> CHR ''['' \<and> dquote \<noteq> CHR '']'' \<and> dquote \<noteq> CHR ''-'' \<and> dquote \<noteq> CHR ''t'' \<and> dquote \<noteq> CHR ''f''"
  by (simp add: dquote_def)

lemmas dquote_neq_sym [simp] = dquote_neq[unfolded eq_commute[of dquote]]

lemma p_lit_nonspace [simp]: "\<not> is_space d \<Longrightarrow> p_lit c (d # s) = (if d = c then Some s else None)"
  by (simp add: p_lit_def)

lemma p_lit_space [simp]: "is_space d \<Longrightarrow> p_lit c (d # s) = p_lit c s"
  by (simp add: p_lit_def)

lemma scan_text_ok: "text_ok s \<Longrightarrow> scan_text (s @ dquote # r) = (s, dquote # r)"
proof (induction s rule: text_ok.induct)
  case (2 c s)
  show ?case
  proof (cases "c = backslash")
    case True
    with "2.prems" obtain d t where s: "s = d # t" "is_escape d" "text_ok t"
      by (auto split: list.splits)
    with "2.IH"(1)[OF True s(1)] True show ?thesis by simp
  next
    case False
    with 2 show ?thesis by (auto simp: Let_def)
  qed
qed (simp add: backslash_def dquote_def)

lemma p_string_quoted: "text_ok s \<Longrightarrow> p_string (quoted s @ r) = Some (s, r)"
  by (simp add: p_string_def quoted_def scan_text_ok)

lemma digits_value_append: "digits_value a (s @ t) = digits_value (digits_value a s) t"
  by (induction a s rule: digits_value.induct) auto

lemma digits_value_nat: "digits_value 0 (nat_digits n) = n"
proof (induction n rule: nat_digits.induct)
  case (1 n)
  show ?case
  proof (cases "n < 10")
    case True
    then show ?thesis by (subst nat_digits.simps) (simp add: of_char_digit)
  next
    case False
    with "1" show ?thesis
      by (subst nat_digits.simps) (simp add: digits_value_append of_char_digit)
  qed
qed

lemma follows_not_digit:
  assumes "follows r"
  shows "takeWhile is_digit r = [] \<and> dropWhile is_digit r = r"
proof (cases r)
  case (Cons c t)
  then have "is_space c \<or> c = CHR '','' \<or> c = CHR ''}'' \<or> c = CHR '']''"
    using assms by (cases "is_space c") (auto simp: follows_def)
  then have "\<not> is_digit c" by (auto simp: is_digit_def is_space_def)
  then show ?thesis by (simp add: Cons)
qed simp

lemma takeWhile_digits: "follows r \<Longrightarrow> takeWhile is_digit (nat_digits n @ r) = nat_digits n"
  "follows r \<Longrightarrow> dropWhile is_digit (nat_digits n @ r) = r"
  using nat_digits_all[of n] follows_not_digit[of r]
  by (simp_all add: list_all_iff takeWhile_append2 dropWhile_append2)

lemma nat_digits_hd: "is_digit (hd (nat_digits n))"
  using nat_digits_all[of n] by (cases "nat_digits n") auto

lemma not_space_digit: "is_digit c \<Longrightarrow> \<not> is_space c \<and> c \<noteq> CHR ''-'' \<and> c \<noteq> CHR ''+'' \<and> c \<noteq> CHR ''{'' \<and> c \<noteq> CHR ''['' \<and> c \<noteq> dquote"
  by (auto simp: is_digit_def is_space_def dquote_def)

lemma p_long_written:
  assumes "follows r"
  shows "p_long (integer_to_string i @ r) = Some (i, r)"
proof -
  have range: "- (2 ^ 63) \<le> sint i" "sint i < 2 ^ 63"
    using sint_greater_eq[of i] sint_lt[of i] by simp_all
  show ?thesis
  proof (cases "sint i < 0")
    case True
    then have "integer_to_string i = CHR ''-'' # nat_digits (nat (- sint i))"
      by (simp add: integer_to_string_def int_digits_def)
    then show ?thesis
      using True range assms by (simp add: p_long_def takeWhile_digits digits_value_nat Let_def)
  next
    case False
    then have s: "integer_to_string i = nat_digits (nat (sint i))"
      by (simp add: integer_to_string_def int_digits_def)
    obtain c t where c: "nat_digits (nat (sint i)) = c # t" by (cases "nat_digits (nat (sint i))") auto
    with nat_digits_hd[of "nat (sint i)"] have "\<not> is_space c" "c \<noteq> CHR ''-''" "c \<noteq> CHR ''+''"
      using not_space_digit[of c] by auto
    then show ?thesis
      using False range takeWhile_digits[OF assms, of "nat (sint i)"] digits_value_nat[of "nat (sint i)"]
      by (simp add: p_long_def s c Let_def)
  qed
qed

text \<open>Fuel a value needs: one unit per node and one per list step.\<close>

fun fsize :: "value_t \<Rightarrow> nat" where
  "fsize (Obj ps) = Suc (sum_list (map (\<lambda>p. Suc (fsize (snd p))) ps))"
| "fsize (Arr vs) = Suc (sum_list (map (\<lambda>v. Suc (fsize v)) vs))"
| "fsize _ = 1"

lemma join_Cons: "join sep (x # xs) = x @ concat (map (\<lambda>y. sep @ y) xs)"
  by (induction xs arbitrary: x) auto

abbreviation write_data :: "(64 word \<Rightarrow> string) \<Rightarrow> data_t \<Rightarrow> string" where
  "write_data kd p \<equiv> quoted (fst p) @ '' : '' @ write_value kd (snd p)"

lemma skip_first:
  assumes "is_space c"
  shows "p_bracketed a b p f (c # s) = p_bracketed a b p f s" "p_string (c # s) = p_string s"
    "p_long (c # s) = p_long s" "p_bool (c # s) = p_bool s"
  using assms by (simp_all add: p_bracketed_def p_string_def p_long_def p_bool_def)

lemma p_value_skip:
  assumes "is_space c"
  shows "p_value qd n (c # s) = p_value qd n s"
proof (cases n)
  case (Suc m)
  show ?thesis
    unfolding Suc p_value.simps skip_first[OF assms] skip_space[OF assms] by (rule refl)
qed simp

lemma p_data_skip: "is_space c \<Longrightarrow> p_data pv (c # s) = p_data pv s"
  by (simp add: p_data_def p_string_def)

lemma p_data_written:
  assumes "text_ok (fst p)" and "pv (CHR '' '' # write_value kd (snd p) @ r) = Some (snd p, r)"
  shows "p_data pv (write_data kd p @ r) = Some (p, r)"
  using p_string_quoted[OF assms(1), of "'' : '' @ write_value kd (snd p) @ r"] assms(2)
  by (simp add: p_data_def)

lemma follows_list:
  "c = CHR ''}'' \<or> c = CHR '']'' \<Longrightarrow>
   follows (concat (map (\<lambda>y. ('','' @ newline) @ f y) ys) @ newline @ [c] @ t)"
  by (cases ys) (auto simp: follows_def newline_def)

lemma p_members_written:
  assumes "\<And>m p r. m < n \<Longrightarrow> p \<in> set ps \<Longrightarrow> follows r \<Longrightarrow> fsize (snd p) \<le> m \<Longrightarrow>
      p_value qd m (write_value kd (snd p) @ r) = Some (snd p, r)"
    and "\<forall>p \<in> set ps. text_ok (fst p)"
    and "sum_list (map (\<lambda>p. Suc (fsize (snd p))) ps) \<le> n"
  shows "p_members qd n (concat (map (\<lambda>p. ('','' @ newline) @ write_data kd p) ps) @ newline @ ''}'' @ t)
    = (ps, newline @ ''}'' @ t)"
  using assms
proof (induction ps arbitrary: n)
  case Nil
  then show ?case by (cases n) (simp_all add: newline_def)
next
  case (Cons p ps)
  then obtain m where n: "n = Suc m" by (cases n) auto
  let ?rest = "concat (map (\<lambda>p. ('','' @ newline) @ write_data kd p) ps) @ newline @ ''}'' @ t"
  have "follows ?rest" using follows_list[of "CHR ''}''" "write_data kd" ps t] by simp
  then have "p_value qd m (write_value kd (snd p) @ ?rest) = Some (snd p, ?rest)"
    using Cons.prems n by simp
  then have "p_data (\<lambda>r. p_value qd m r) (write_data kd p @ ?rest) = Some (p, ?rest)"
    using Cons.prems(2) by (intro p_data_written) (simp_all add: p_value_skip)
  moreover have "p_members qd m ?rest = (ps, newline @ ''}'' @ t)"
    using Cons.prems n by (intro Cons.IH) auto
  ultimately show ?case
    by (simp add: n newline_def p_data_skip)
qed

lemma p_elements_written:
  assumes "\<And>m v r. m < n \<Longrightarrow> v \<in> set vs \<Longrightarrow> follows r \<Longrightarrow> fsize v \<le> m \<Longrightarrow>
      p_value qd m (write_value kd v @ r) = Some (v, r)"
    and "sum_list (map (\<lambda>v. Suc (fsize v)) vs) \<le> n"
  shows "p_elements qd n (concat (map (\<lambda>v. ('','' @ newline) @ write_value kd v) vs) @ newline @ '']'' @ t)
    = (vs, newline @ '']'' @ t)"
  using assms
proof (induction vs arbitrary: n)
  case Nil
  then show ?case by (cases n) (simp_all add: newline_def)
next
  case (Cons v vs)
  then obtain m where n: "n = Suc m" by (cases n) auto
  let ?rest = "concat (map (\<lambda>v. ('','' @ newline) @ write_value kd v) vs) @ newline @ '']'' @ t"
  have "follows ?rest" using follows_list[of "CHR '']''" "write_value kd" vs t] by simp
  then have "p_value qd m (write_value kd v @ ?rest) = Some (v, ?rest)"
    using Cons.prems n by simp
  moreover have "p_elements qd m ?rest = (vs, newline @ '']'' @ t)"
    using Cons.prems n by (intro Cons.IH) auto
  ultimately show ?case
    by (simp add: n newline_def p_value_skip)
qed

text \<open>The list between the brackets of an object and of an array.\<close>

lemma p_object_written:
  assumes pval: "\<And>m p r. m \<le> n \<Longrightarrow> p \<in> set ps \<Longrightarrow> follows r \<Longrightarrow> fsize (snd p) \<le> m \<Longrightarrow>
      p_value qd m (write_value kd (snd p) @ r) = Some (snd p, r)"
    and keys: "\<forall>p \<in> set ps. text_ok (fst p)"
    and fuel: "sum_list (map (\<lambda>p. Suc (fsize (snd p))) ps) \<le> n"
  shows "p_bracketed (CHR ''{'') (CHR ''}'') (p_data (\<lambda>r. p_value qd n r)) (\<lambda>r. p_members qd n r)
      (write_value kd (Obj ps) @ t) = Some (ps, t)"
proof (cases ps)
  case Nil
  then show ?thesis by (simp add: p_bracketed_def p_data_def p_string_def newline_def)
next
  case (Cons p qs)
  let ?rest = "concat (map (\<lambda>p. ('','' @ newline) @ write_data kd p) qs) @ newline @ ''}'' @ t"
  have "follows ?rest" using follows_list[of "CHR ''}''" "write_data kd" qs t] by simp
  then have "p_value qd n (write_value kd (snd p) @ ?rest) = Some (snd p, ?rest)"
    using pval[of n p] fuel Cons by simp
  then have "p_data (\<lambda>r. p_value qd n r) (write_data kd p @ ?rest) = Some (p, ?rest)"
    using keys Cons by (intro p_data_written) (simp_all add: p_value_skip)
  moreover have "p_members qd n ?rest = (qs, newline @ ''}'' @ t)"
    using pval keys fuel Cons by (intro p_members_written) auto
  ultimately show ?thesis
    using Cons by (simp add: p_bracketed_def newline_def p_data_skip join_Cons comp_def)
qed

lemma p_array_written:
  assumes pval: "\<And>m v r. m \<le> n \<Longrightarrow> v \<in> set vs \<Longrightarrow> follows r \<Longrightarrow> fsize v \<le> m \<Longrightarrow>
      p_value qd m (write_value kd v @ r) = Some (v, r)"
    and fuel: "sum_list (map (\<lambda>v. Suc (fsize v)) vs) \<le> n"
    and qd: "\<And>s. qd (CHR '']'' # s) = None"
  shows "p_bracketed (CHR ''['') (CHR '']'') (\<lambda>r. p_value qd n r) (\<lambda>r. p_elements qd n r)
      (write_value kd (Arr vs) @ t) = Some (vs, t)"
proof (cases vs)
  case Nil
  have "p_value qd n (CHR '']'' # s) = None" for s
    using qd by (cases n) (simp_all add: p_bracketed_def p_string_def p_long_def p_bool_def Let_def is_digit_def)
  with Nil show ?thesis by (simp add: p_bracketed_def newline_def p_value_skip)
next
  case (Cons v ws)
  let ?rest = "concat (map (\<lambda>v. ('','' @ newline) @ write_value kd v) ws) @ newline @ '']'' @ t"
  have "follows ?rest" using follows_list[of "CHR '']''" "write_value kd" ws t] by simp
  then have "p_value qd n (write_value kd v @ ?rest) = Some (v, ?rest)"
    using pval[of n v] fuel Cons by simp
  moreover have "p_elements qd n ?rest = (ws, newline @ '']'' @ t)"
    using pval fuel Cons by (intro p_elements_written) auto
  ultimately show ?thesis
    using Cons by (simp add: p_bracketed_def newline_def p_value_skip join_Cons comp_def)
qed

lemma p_bracketed_other: "\<not> is_space c \<Longrightarrow> c \<noteq> a \<Longrightarrow> p_bracketed a b p f (c # s) = None"
  by (simp add: p_bracketed_def)

lemma p_string_other: "\<not> is_space c \<Longrightarrow> c \<noteq> dquote \<Longrightarrow> p_string (c # s) = None"
  by (simp add: p_string_def)

lemma p_string_dquote: "text_ok s \<Longrightarrow> p_string (dquote # s @ dquote # r) = Some (s, r)"
  using p_string_quoted[of s r] by (simp add: quoted_def)

lemma p_long_other: "\<not> is_space c \<Longrightarrow> \<not> is_digit c \<Longrightarrow> c \<noteq> CHR ''-'' \<Longrightarrow> c \<noteq> CHR ''+'' \<Longrightarrow> p_long (c # s) = None"
  by (simp add: p_long_def Let_def)

lemma integer_to_string_first:
  obtains c t where "integer_to_string i = c # t" "\<not> is_space c" "c \<noteq> dquote" "c \<noteq> CHR ''{''" "c \<noteq> CHR ''[''"
proof (cases "sint i < 0")
  case True
  then show ?thesis
    by (intro that[of "CHR ''-''" "nat_digits (nat (- sint i))"]) (simp_all add: integer_to_string_def int_digits_def)
next
  case False
  obtain c t where c: "nat_digits (nat (sint i)) = c # t" by (cases "nat_digits (nat (sint i))") auto
  with nat_digits_hd[of "nat (sint i)"] have "is_digit c" by simp
  with c False show ?thesis
    by (intro that[of c t]) (use not_space_digit in \<open>auto simp: integer_to_string_def int_digits_def\<close>)
qed

text \<open>
  The parser of doubles matters for the other alternatives only in that it must refuse a
  closing bracket and the words of a bool, as \<open>qi::double_\<close> does.
\<close>

definition refuses_other :: "(string \<Rightarrow> (64 word \<times> string) option) \<Rightarrow> bool" where
  "refuses_other qd \<longleftrightarrow> (\<forall>s. qd (CHR '']'' # s) = None \<and> qd (''true'' @ s) = None \<and> qd (''false'' @ s) = None)"

lemma p_value_written:
  assumes qd: "refuses_other qd"
  shows "printable v \<Longrightarrow> follows r \<Longrightarrow> fsize v \<le> n \<Longrightarrow> p_value qd n (write_value kd v @ r) = Some (v, r)"
proof (induction v arbitrary: n r)
  case (Obj ps)
  then obtain m where n: "n = Suc m" "sum_list (map (\<lambda>p. Suc (fsize (snd p))) ps) \<le> m" by (cases n) auto
  have "p_bracketed (CHR ''{'') (CHR ''}'') (p_data (\<lambda>r. p_value qd m r)) (\<lambda>r. p_members qd m r)
      (write_value kd (Obj ps) @ r) = Some (ps, r)"
    using Obj.prems(1) n(2)
    by (intro p_object_written Obj.IH[of "(fst p, snd p)" "snd p" for p]) (auto simp: list_all_iff)
  then show ?case by (simp only: n p_value.simps option.case prod.case)
next
  case (Arr vs)
  then obtain m where n: "n = Suc m" "sum_list (map (\<lambda>v. Suc (fsize v)) vs) \<le> m" by (cases n) auto
  have "p_bracketed (CHR ''['') (CHR '']'') (\<lambda>r. p_value qd m r) (\<lambda>r. p_elements qd m r)
      (write_value kd (Arr vs) @ r) = Some (vs, r)"
    using Arr.prems(1) n(2) qd by (intro p_array_written Arr.IH) (auto simp: list_all_iff refuses_other_def)
  moreover have "p_bracketed (CHR ''{'') c pv f (write_value kd (Arr vs) @ r) = None"
      for c and pv :: "data_t parser" and f
    by (simp add: p_bracketed_def)
  ultimately show ?case by (simp only: n p_value.simps option.case prod.case)
next
  case (Str s)
  then obtain m where n: "n = Suc m" by (cases n) auto
  show ?case using Str by (simp add: n quoted_def p_bracketed_other p_string_dquote)
next
  case (Integer i)
  then obtain m where n: "n = Suc m" by (cases n) auto
  obtain c t where c: "integer_to_string i = c # t" "\<not> is_space c" "c \<noteq> dquote" "c \<noteq> CHR ''{''" "c \<noteq> CHR ''[''"
    by (rule integer_to_string_first)
  have "p_lit (CHR ''.'') r = None"
    using Integer.prems(2) by (auto simp: follows_def p_lit_def split: list.splits)
  then show ?case
    using p_long_written[OF Integer.prems(2), of i] c
    by (simp add: n p_bracketed_other p_string_other)
next
  case (Bool b)
  then obtain m where n: "n = Suc m" by (cases n) auto
  have "qd (''true'' @ r) = None" "qd (''false'' @ r) = None" using qd by (simp_all add: refuses_other_def)
  then show ?case
    by (cases b) (simp_all add: n bool_name_def p_bracketed_other p_string_other p_long_other is_digit_def p_bool_def)
qed simp

lemma length_join: "length (join sep xs) = sum_list (map length xs) + (length xs - 1) * length sep"
  by (induction sep xs rule: join.induct) auto

lemma fsize_list_bound:
  assumes "\<And>x. x \<in> set xs \<Longrightarrow> f x \<le> length (g x)"
  shows "sum_list (map (\<lambda>x. Suc (f x)) xs) \<le> Suc (length (join ('','' @ newline) (map g xs)))"
proof -
  have "sum_list (map f xs) \<le> sum_list (map (length \<circ> g) xs)"
    using assms by (intro sum_list_mono) simp
  moreover have "sum_list (map (\<lambda>x. Suc (f x)) xs) = sum_list (map f xs) + length xs"
    by (induction xs) auto
  ultimately show ?thesis by (cases xs) (simp_all add: length_join newline_def comp_def)
qed

lemma fsize_le_length: "printable v \<Longrightarrow> fsize v \<le> length (write_value kd v)"
proof (induction v)
  case (Obj ps)
  have "fsize (snd p) \<le> length (write_data kd p)" if "p \<in> set ps" for p
    using Obj.IH[of p "snd p"] Obj.prems that by (cases p) (auto simp: list_all_iff)
  then show ?case
    using fsize_list_bound[of ps "\<lambda>p. fsize (snd p)" "write_data kd"] by (simp add: newline_def)
next
  case (Arr vs)
  then show ?case
    using fsize_list_bound[of vs fsize "write_value kd"] by (simp add: newline_def list_all_iff)
next
  case (Integer i)
  then show ?case by (cases rule: integer_to_string_first[of i]) simp
qed (simp_all add: quoted_def bool_name_def)

lemma json_parse_written:
  assumes "printable (Obj ps)" and "refuses_other qd"
  shows "json_parse qd (write_value kd (Obj ps) @ rest) = Some ps"
proof -
  let ?n = "length (write_value kd (Obj ps) @ rest)"
  have "sum_list (map (\<lambda>p. Suc (fsize (snd p))) ps) \<le> ?n"
    using fsize_le_length[OF assms(1), of kd] by simp
  then have "p_bracketed (CHR ''{'') (CHR ''}'') (p_data (\<lambda>r. p_value qd ?n r)) (\<lambda>r. p_members qd ?n r)
      (write_value kd (Obj ps) @ rest) = Some (ps, rest)"
    using assms by (intro p_object_written p_value_written) (auto simp: list_all_iff)
  then show ?thesis by (simp add: json_parse_def del: write_value.simps)
qed

text \<open>C1. The reader undoes the writer: a non-empty table whose strings the grammar can hold and
  that holds no decimal is written without an exception and read back as it was, keys in
  order and duplicates included, whatever text follows it.
\<close>

theorem json_roundtrip:
  assumes "ps \<noteq> []" and "printable (Obj ps)" and "refuses_other qd"
  shows "\<exists>s. json_write kd ps = Inr s \<and> json_read qd (s @ rest) = Inr (Some ps)"
  using assms json_parse_written[OF assms(2,3), of kd rest]
  by (auto simp: json_write_def json_read_def simp del: write_value.simps)
     (simp_all add: newline_def)

definition no_doubles :: "string \<Rightarrow> (64 word \<times> string) option" where
  "no_doubles s = None"

theorem json_roundtrip_witness:
  "\<exists>s. json_write (\<lambda>_. ''0.0'') [(''version'', Str ''v1''), (''runs'', Arr [Integer 7, Bool False, Obj []])] = Inr s
     \<and> json_read no_doubles (s @ ''tail'')
       = Inr (Some [(''version'', Str ''v1''), (''runs'', Arr [Integer 7, Bool False, Obj []])])"
  by (rule json_roundtrip)
     (simp_all add: refuses_other_def no_doubles_def backslash_def dquote_def)

text \<open>The identifier of a written \<open>_id\<close> object is what \<open>extract_oid\<close> finds in it.\<close>

lemma extract_oid_written: "extract_oid (write_value kd (Obj [(''$oid'', Str oid)])) = Inr oid"
proof -
  have "oid_capture (write_value kd (Obj [(''$oid'', Str oid)])) = Some (quoted oid @ newline)"
    by (simp add: oid_capture_def quoted_def newline_def Let_def butlast_append)
  moreover have "rstrip (quoted oid @ newline) = quoted oid"
    by (simp add: rstrip_def quoted_def newline_def dquote_def)
  ultimately show ?thesis
    using inner_enclosed[of dquote oid dquote] by (simp add: extract_oid_def Let_def quoted_def enclosed_def)
qed

section \<open>The codec as an interface\<close>

text \<open>
  What the documents and providers use of the JSON library: a writer and a reader, and on the
  tables \<open>c_ok\<close> of the interface the reader undoes the writer.
\<close>

record codec =
  c_write :: "object_t \<Rightarrow> exn + string"
  c_read :: "string \<Rightarrow> exn + object_t option"

locale json_codec =
  fixes c :: codec and c_ok :: "object_t \<Rightarrow> bool"
  assumes write_ok: "c_ok ps \<Longrightarrow> ps \<noteq> [] \<Longrightarrow> \<exists>s. c_write c ps = Inr s"
    and read_write: "c_ok ps \<Longrightarrow> c_write c ps = Inr s \<Longrightarrow> s \<noteq> [] \<and> c_read c s = Inr (Some ps)"
    and read_empty: "c_read c ''{}'' = Inr (Some [])"

definition boost_codec :: "(64 word \<Rightarrow> string) \<Rightarrow> (string \<Rightarrow> (64 word \<times> string) option) \<Rightarrow> codec" where
  "boost_codec kd qd = \<lparr>c_write = json_write kd, c_read = json_read qd\<rparr>"

definition boost_ok :: "(string \<Rightarrow> (64 word \<times> string) option) \<Rightarrow> object_t \<Rightarrow> bool" where
  "boost_ok qd ps \<longleftrightarrow> printable (Obj ps) \<and> refuses_other qd"

lemma json_roundtrip_exact: "boost_ok qd ps \<Longrightarrow> json_parse qd (write_value kd (Obj ps)) = Some ps"
  using json_parse_written[of ps qd kd "[]"] by (simp add: boost_ok_def del: write_value.simps printable.simps)

lemma json_read_empty_object: "json_parse qd ''{}'' = Some []"
  by code_simp

interpretation boost: json_codec "boost_codec kd qd" "boost_ok qd" for kd qd
proof unfold_locales
  show "boost_ok qd ps \<Longrightarrow> ps \<noteq> [] \<Longrightarrow> \<exists>s. c_write (boost_codec kd qd) ps = Inr s" for ps
    by (simp add: boost_codec_def json_write_def)
  show "boost_ok qd ps \<Longrightarrow> c_write (boost_codec kd qd) ps = Inr s \<Longrightarrow>
      s \<noteq> [] \<and> c_read (boost_codec kd qd) s = Inr (Some ps)" for ps s
    by (auto simp: boost_codec_def json_write_def json_read_def json_roundtrip_exact
        simp del: write_value.simps split: if_splits) (simp add: newline_def)
  show "c_read (boost_codec kd qd) ''{}'' = Inr (Some [])"
    by (simp add: boost_codec_def json_read_def json_read_empty_object)
qed

end
