(* ===== verification/JsonDocument.thy ===== *)
theory JsonDocument
  imports JsonCodec "HOL-Library.Char_ord" "HOL-Library.List_Lexorder" "HOL-Library.Sublist"
begin

text \<open>
  JsonDocument/JSONDocument.cpp and JSONDocument\_utils.cpp: a document is a JSON value with a
  cached text and a dirty flag; paths are names separated by dots.  Every member function
  that changes the document is a program over it, so what it leaves behind when it throws is
  part of the model.
\<close>

record jsondoc =
  jd_value :: value_t
  jd_cache :: string
  jd_dirty :: bool

text \<open>The constructors: all start with the buffer \<open>{}\<close> and the dirty flag set.\<close>

definition doc_of :: "value_t \<Rightarrow> jsondoc" where
  "doc_of v = \<lparr>jd_value = v, jd_cache = ''{}'', jd_dirty = True\<rparr>"

definition empty_doc :: jsondoc where
  "empty_doc = doc_of (Obj [])"

definition readJson :: "codec \<Rightarrow> string \<Rightarrow> exn + value_t" where
  "readJson c json =
     (if json = [] then Inl Invalid_argument
      else bindE (c_read c json) (\<lambda>r. case r of Some ps \<Rightarrow> Inr (Obj ps) | None \<Rightarrow> Inl Invalid_argument))"

definition doc_of_string :: "codec \<Rightarrow> string \<Rightarrow> exn + jsondoc" where
  "doc_of_string c json = bindE (readJson c json) (\<lambda>v. Inr (doc_of v))"

definition writeJson :: "codec \<Rightarrow> value_t \<Rightarrow> exn + string" where
  "writeJson c v =
     (case v of
        Obj ps \<Rightarrow> (if ps = [] then Inr ''{}'' else c_write c ps)
      | _ \<Rightarrow> Inl Invalid_argument)"

definition doc_to_string :: "codec \<Rightarrow> (jsondoc, string) prog" where
  "doc_to_string c =
     (\<lambda>d. if jd_dirty d
          then (case writeJson c (jd_value d) of
                  Inl e \<Rightarrow> (Inl e, d)
                | Inr s \<Rightarrow> (Inr s, d\<lparr>jd_cache := s, jd_dirty := False\<rparr>))
          else (Inr (jd_cache d), d))"

definition doc_equals :: "jsondoc \<Rightarrow> jsondoc \<Rightarrow> bool" where
  "doc_equals a b = fst (eq_value (jd_value a) (jd_value b))"

definition extract_value :: "(jsondoc, value_t) prog" where
  "extract_value = (\<lambda>d. (Inr (jd_value d), d\<lparr>jd_value := Obj [], jd_dirty := True\<rparr>))"

section \<open>Paths\<close>

text \<open>\<open>std::istream_iterator<std::string>\<close>: the maximal runs of non-space characters.\<close>

fun words_from :: "string \<Rightarrow> string \<Rightarrow> string list" where
  "words_from cur [] = (if cur = [] then [] else [cur])"
| "words_from cur (c # s) =
     (if is_space c then (if cur = [] then words_from [] s else cur # words_from [] s)
      else words_from (cur @ [c]) s)"

definition split_path :: "string \<Rightarrow> string list" where
  "split_path path = words_from [] (map (\<lambda>c. if c = CHR ''.'' then CHR '' '' else c) path)"

text \<open>The tokens in reverse, so that position 0 is the last name of the path.\<close>

definition split_path_validate :: "string \<Rightarrow> exn + string list" where
  "split_path_validate path =
     (if path = [] then Inl Invalid_argument
      else let ts = split_path path in
           if ts = [] then Inl Invalid_argument else Inr (rev ts))"

section \<open>Finding\<close>

text \<open>
  The recursive lambda of \<open>findChildValue\<close>.  The reversed tokens are walked from the end;
  here the list is already in walking order, and its last element is depth 0.
\<close>

fun find_at :: "value_t \<Rightarrow> string list \<Rightarrow> exn + value_t" where
  "find_at v [] = Inl Out_of_range"
| "find_at v (t # ts) =
     (case v of
        Obj ps \<Rightarrow>
          (if table_count t ps = 0 then Inl Notfound_exception
           else bindE (table_at t ps) (\<lambda>m. if ts = [] then Inr m else find_at m ts))
      | _ \<Rightarrow> Inl Notfound_exception)"

definition findChildValue :: "value_t \<Rightarrow> string \<Rightarrow> exn + value_t" where
  "findChildValue v path = bindE (split_path_validate path) (\<lambda>ts. find_at v (rev ts))"

definition findChild :: "jsondoc \<Rightarrow> string \<Rightarrow> exn + jsondoc" where
  "findChild d path =
     (if path = [] then Inl Invalid_argument
      else bindE (findChildValue (jd_value d) path) (\<lambda>v. Inr (doc_of (Obj [(path, v)]))))"

definition findChildDocument :: "jsondoc \<Rightarrow> string \<Rightarrow> exn + jsondoc" where
  "findChildDocument d path =
     (if path = [] then Inl Invalid_argument
      else bindE (findChildValue (jd_value d) path) (\<lambda>v.
        if type_visitor v \<noteq> OBJECT then Inl Notfound_exception else Inr (doc_of v)))"

text \<open>
  What a document passed as a new child stands for: its \<open>payload\<close>, or below it the named
  entry, or its only value, or the whole value.
\<close>

definition getPayloadValueForKey :: "value_t \<Rightarrow> string \<Rightarrow> exn + value_t" where
  "getPayloadValueForKey v key =
     (if key = [] then Inl Runtime_exception
      else bindE (get_object v) (\<lambda>ps.
        if table_count ''payload'' ps = 1 then
          bindE (table_at ''payload'' ps) (\<lambda>p.
            case p of
              Obj qs \<Rightarrow> (if table_count key qs = 1 then table_at key qs else Inr p)
            | _ \<Rightarrow> Inr p)
        else if length ps = 1 then Inr (snd (hd ps))
        else Inr v))"

section \<open>Changing\<close>

fun replace_at :: "value_t \<Rightarrow> string list \<Rightarrow> value_t \<Rightarrow> exn + value_t \<times> value_t" where
  "replace_at v [] x = Inl Out_of_range"
| "replace_at v (t # ts) x =
     (if ts = [] \<and> type_visitor v \<noteq> OBJECT then Inl Notfound_exception
      else bindE (get_object v) (\<lambda>ps.
        if table_count t ps = 0 then Inl Notfound_exception
        else bindE (table_at t ps) (\<lambda>m.
          if ts = [] then Inr (m, Obj (put_first t x ps))
          else bindE (replace_at m ts x) (\<lambda>(old, m'). Inr (old, Obj (put_first t m' ps))))))"

fun insert_at :: "value_t \<Rightarrow> string list \<Rightarrow> value_t \<Rightarrow> exn + value_t \<times> value_t" where
  "insert_at v [] x = Inl Out_of_range"
| "insert_at v (t # ts) x =
     (if ts = [] \<and> type_visitor v \<noteq> OBJECT then Inl Notfound_exception
      else bindE (get_object v) (\<lambda>ps.
        let n = table_count t ps in
        if ts = [] \<and> n \<noteq> 0 then Inl Notfound_exception
        else if ts \<noteq> [] \<and> n = 0 then Inl Notfound_exception
        else if ts = [] \<and> n = 0 then Inr (x, Obj (table_set t x ps))
        else bindE (table_at t ps) (\<lambda>m.
          bindE (insert_at m ts x) (\<lambda>(new, m'). Inr (new, Obj (put_first t m' ps))))))"

fun delete_at :: "value_t \<Rightarrow> string list \<Rightarrow> exn + value_t \<times> value_t" where
  "delete_at v [] = Inl Out_of_range"
| "delete_at v (t # ts) =
     (if ts = [] \<and> type_visitor v \<noteq> OBJECT then Inl Notfound_exception
      else bindE (get_object v) (\<lambda>ps.
        if table_count t ps = 0 then Inl Notfound_exception
        else bindE (table_at t ps) (\<lambda>m.
          if ts = [] then bindE (table_delete_at t ps) (\<lambda>(old, qs). Inr (old, Obj qs))
          else bindE (delete_at m ts) (\<lambda>(old, m'). Inr (old, Obj (put_first t m' ps))))))"

text \<open>A member function that computes a new value, sets the dirty flag and returns a document.\<close>

definition changing :: "(value_t \<Rightarrow> exn + 'a \<times> value_t) \<Rightarrow> ('a \<Rightarrow> jsondoc) \<Rightarrow> (jsondoc, jsondoc) prog" where
  "changing f g =
     (\<lambda>d. case f (jd_value d) of
            Inl e \<Rightarrow> (Inl e, d)
          | Inr (r, v) \<Rightarrow> (Inr (g r), d\<lparr>jd_value := v, jd_dirty := True\<rparr>))"

definition replaceChild :: "jsondoc \<Rightarrow> string \<Rightarrow> (jsondoc, jsondoc) prog" where
  "replaceChild newChild path =
     bindM (liftE (split_path_validate path)) (\<lambda>ts.
     bindM (liftE (getPayloadValueForKey (jd_value newChild) (hd ts))) (\<lambda>x.
     changing (\<lambda>v. replace_at v (rev ts) x) (\<lambda>old. doc_of (Obj [(path, old)]))))"

definition insertChild :: "jsondoc \<Rightarrow> string \<Rightarrow> (jsondoc, jsondoc) prog" where
  "insertChild newChild path =
     bindM (liftE (split_path_validate path)) (\<lambda>ts.
     bindM (liftE (getPayloadValueForKey (jd_value newChild) (hd ts))) (\<lambda>x.
     changing (\<lambda>v. insert_at v (rev ts) x) doc_of))"

definition deleteChild :: "string \<Rightarrow> (jsondoc, jsondoc) prog" where
  "deleteChild path =
     bindM (liftE (split_path_validate path)) (\<lambda>ts.
     changing (\<lambda>v. delete_at v (rev ts)) doc_of)"

text \<open>Changing the array found at a path in place, as the reference into the tree does.\<close>

definition modify_array :: "(array_t \<Rightarrow> 'a \<times> array_t) \<Rightarrow> string list \<Rightarrow> value_t \<Rightarrow> exn + 'a \<times> value_t" where
  "modify_array f ts v =
     bindE (find_at v ts) (\<lambda>m.
     bindE (get_array m) (\<lambda>xs.
     (let (r, ys) = f xs in
      bindE (replace_at v ts (Arr ys)) (\<lambda>(_, v'). Inr (r, v')))))"

definition appendChild :: "jsondoc \<Rightarrow> string \<Rightarrow> (jsondoc, jsondoc) prog" where
  "appendChild newChild path =
     bindM (liftE (getPayloadValueForKey (jd_value newChild) ''null'')) (\<lambda>x.
     bindM (liftE (split_path_validate path)) (\<lambda>ts.
     changing (modify_array (\<lambda>xs. (x, xs @ [x])) (rev ts)) doc_of))"

section \<open>Matching\<close>

text \<open>
  \<open>matches\<close>: objects match when the keys present exactly once in the smaller one match; in the
  array case the code takes both operands from \<open>left\<close>.
\<close>

lemma size_child: "p \<in> set ps \<Longrightarrow> size (snd p) < Suc (size_list (size_prod (\<lambda>_. 0) size) ps)"
  by (induction ps) (auto simp: less_Suc_eq_le)

lemma size_element: "v \<in> set vs \<Longrightarrow> size v < Suc (size_list size vs)"
  by (induction vs) (auto simp: less_Suc_eq_le)

lemma size_map_of: "map_of ps k = Some v \<Longrightarrow> size v < Suc (size_list (size_prod (\<lambda>_. 0) size) ps)"
  using size_child[of "(k, v)" ps] by (simp add: map_of_SomeD)

function (sequential) matches :: "value_t \<Rightarrow> value_t \<Rightarrow> bool" where
  "matches (Obj l) (Obj r) =
     (if l = [] \<or> r = [] then False
      else let template = (if length l \<ge> length r then l else r);
               candidate = (if length l \<ge> length r then r else l)
           in list_all (\<lambda>p. table_count (fst p) candidate \<noteq> 1 \<or>
                 (case map_of candidate (fst p) of None \<Rightarrow> True | Some c \<Rightarrow> matches (snd p) c)) template)"
| "matches (Arr l) (Arr r) = (if l = [] then False else list_all (\<lambda>x. matches x x) l)"
| "matches l r = (which l = which r \<and> tostring_visitor l = tostring_visitor r)"
  by pat_completeness auto

termination
proof (relation "measure (\<lambda>(l, r). max (size l) (size r))", goal_cases)
  case (2 l r x y z w)
  then show ?case
    using size_child[of z x] size_map_of[of y "fst z" w]
    by (auto split: if_splits simp: less_max_iff_disj dest: size_child size_map_of)
next
  case (3 l r z)
  then show ?case using size_element[of z l] by (simp add: less_max_iff_disj)
qed simp

text \<open>The loop of \<open>removeChild\<close> over the list of candidates: what it erases and what it keeps.\<close>

fun erase_loop :: "value_t \<Rightarrow> array_t \<Rightarrow> array_t \<Rightarrow> array_t \<Rightarrow> array_t \<times> array_t" where
  "erase_loop x deleted kept [] = (deleted, kept)"
| "erase_loop x deleted kept (c # cs) =
     (if matches x c then erase_loop x (deleted @ [c]) kept cs
      else erase_loop x deleted (kept @ [c]) cs)"

definition removeChild :: "jsondoc \<Rightarrow> string \<Rightarrow> (jsondoc, jsondoc) prog" where
  "removeChild delChild path =
     bindM (liftE (if path = [] then Inl Invalid_argument else Inr ())) (\<lambda>_.
     bindM (liftE (getPayloadValueForKey (jd_value delChild) ''null'')) (\<lambda>x.
     bindM (liftE (split_path_validate path)) (\<lambda>ts.
     changing (modify_array (erase_loop x [] []) (rev ts)) (\<lambda>del. doc_of (Obj [(''0'', Arr del)])))))"

section \<open>Values as text\<close>

definition doc_value :: "codec \<Rightarrow> value_t \<Rightarrow> exn + string" where
  "doc_value c v =
     bindE (getPayloadValueForKey v ''null'') (\<lambda>x.
       if type_visitor x = OBJECT then writeJson c x else Inr (tostring_visitor x))"

text \<open>
  \<open>value_at\<close>: every standard exception becomes a \<open>runtime_error\<close>.  The bound check compares
  \<open>size < index\<close>, so the position one past the last element is dereferenced.
\<close>

definition value_at :: "codec \<Rightarrow> value_t \<Rightarrow> nat \<Rightarrow> exn + string" where
  "value_at c v index =
     catchE any_exn
       (bindE (getPayloadValueForKey v ''0'') (\<lambda>x.
        bindE (get_array x) (\<lambda>xs.
          if xs = [] then Inl Runtime_error
          else if length xs < index then Inl Runtime_error
          else if length xs = index then Inl Undefined
          else if type_visitor (xs ! index) = OBJECT then writeJson c (xs ! index)
          else Inr (tostring_visitor (xs ! index)))))
       (Inl Runtime_error)"

definition value_as_string :: "codec \<Rightarrow> jsondoc \<Rightarrow> string \<Rightarrow> exn + string" where
  "value_as_string c d path = bindE (findChild d path) (\<lambda>r. doc_value c (jd_value r))"

definition compareDocumentVersions :: "codec \<Rightarrow> jsondoc \<Rightarrow> jsondoc \<Rightarrow> exn + bool" where
  "compareDocumentVersions c a b =
     bindE (value_as_string c a ''version'') (\<lambda>x.
     bindE (value_as_string c b ''version'') (\<lambda>y. Inr (x < y)))"

text \<open>\<open>toJSONDocument(string_pair_t)\<close>: the pair printed as an object and read back.\<close>

definition toJSONDocument :: "codec \<Rightarrow> string \<times> string \<Rightarrow> exn + jsondoc" where
  "toJSONDocument c pair =
     doc_of_string c (CHR ''{'' # quoted (fst pair) @ '':'' @ quoted (snd pair) @ ''}'')"

section \<open>The laws of paths\<close>

text \<open>A name that can stand between two dots.\<close>

definition path_name :: "string \<Rightarrow> bool" where
  "path_name s \<longleftrightarrow> s \<noteq> [] \<and> list_all (\<lambda>c. \<not> is_space c \<and> c \<noteq> CHR ''.'') s"

fun dotted :: "string list \<Rightarrow> string" where
  "dotted [] = []"
| "dotted [t] = t"
| "dotted (t # u # ts) = t @ CHR ''.'' # dotted (u # ts)"

lemma words_from_sound:
  "w \<in> set (words_from cur s) \<Longrightarrow> list_all (\<lambda>c. \<not> is_space c) cur \<Longrightarrow>
   w \<noteq> [] \<and> list_all (\<lambda>c. \<not> is_space c) w \<and> set w \<subseteq> set cur \<union> set s"
proof (induction cur s rule: words_from.induct)
  case (1 cur)
  then show ?case by (simp split: if_splits)
next
  case (2 cur c s)
  consider (sp) "is_space c" "cur = []" | (sc) "is_space c" "cur \<noteq> []" | (ch) "\<not> is_space c" by blast
  then show ?case
  proof cases
    case sp
    then show ?thesis using 2 by auto
  next
    case sc
    then show ?thesis using "2.IH"(2)[OF sc] "2.prems" by auto
  next
    case ch
    then show ?thesis using "2.IH"(3)[OF ch] "2.prems" by auto
  qed
qed

lemma words_from_run:
  "list_all (\<lambda>c. \<not> is_space c) t \<Longrightarrow> words_from cur (t @ s) = words_from (cur @ t) s"
  by (induction t arbitrary: cur) auto

lemma dots_to_spaces: "c \<in> (\<lambda>c. if c = CHR ''.'' then CHR '' '' else c) ` S \<Longrightarrow> c \<noteq> CHR ''.''"
  by (clarsimp split: if_splits)

lemma split_path_names: "list_all path_name (split_path path)"
proof (clarsimp simp: list_all_iff)
  fix w
  assume w: "w \<in> set (split_path path)"
  have sound: "w \<noteq> []" "list_all (\<lambda>c. \<not> is_space c) w"
    "set w \<subseteq> (\<lambda>c. if c = CHR ''.'' then CHR '' '' else c) ` set path"
    using words_from_sound[OF w[unfolded split_path_def]] by simp_all
  have "c \<noteq> CHR ''.''" if "c \<in> set w" for c
    using sound(3) that by (rule dots_to_spaces[OF subsetD])
  then show "path_name w" using sound(1,2) by (simp add: path_name_def list_all_iff)
qed

lemma map_dots: "path_name t \<Longrightarrow> map (\<lambda>c. if c = CHR ''.'' then CHR '' '' else c) t = t"
  by (rule map_idI) (simp add: path_name_def list_all_iff)

lemma words_from_name: "path_name t \<Longrightarrow> words_from [] (t @ s) = words_from t s"
  by (subst words_from_run) (simp_all add: path_name_def list_all_iff)

lemma split_path_dotted:
  assumes "list_all path_name ts"
  shows "split_path (dotted ts) = ts"
  using assms
proof (induction ts rule: dotted.induct)
  case (2 t)
  then show ?case using words_from_name[of t "[]"]
    by (simp add: split_path_def map_dots) (simp add: path_name_def)
next
  case (3 t u ts)
  have sp: "is_space (CHR '' '')" by (simp add: is_space_def)
  have "split_path (dotted (t # u # ts)) = t # split_path (dotted (u # ts))"
    using 3 sp by (simp add: split_path_def map_dots words_from_name) (simp add: path_name_def)
  then show ?case using 3 by simp
qed (simp add: split_path_def)

text \<open>Splitting a path yields names without dots and blanks only, and any list of such
  names is what its dotted path splits into.\<close>

theorem split_path_correct:
  "list_all path_name (split_path path) \<and> (list_all path_name ts \<longrightarrow> split_path (dotted ts) = ts)"
  by (simp add: split_path_names split_path_dotted)

theorem split_path_correct_witness:
  "split_path (dotted [''document'', ''data'']) = [''document'', ''data'']"
  using split_path_correct[of "[]" "[''document'', ''data'']"]
  by (simp add: path_name_def is_space_def)

section \<open>The laws of the changes\<close>

lemma find_at_step:
  "ts \<noteq> [] \<Longrightarrow> map_of ps t = Some m \<Longrightarrow> find_at (Obj ps) (t # ts) = find_at m ts"
  by (auto simp: table_count_zero table_at_map_of map_of_eq_None_iff[symmetric])

lemma find_at_last: "map_of ps t = Some m \<Longrightarrow> find_at (Obj ps) [t] = Inr m"
  by (auto simp: table_count_zero table_at_map_of map_of_eq_None_iff[symmetric])

lemma find_at_cong:
  "map_of ps q = map_of ps' q \<Longrightarrow> find_at (Obj ps) (q # qs) = find_at (Obj ps') (q # qs)"
  by (auto simp: table_count_zero table_at_map_of map_of_eq_None_iff[symmetric])

lemma replace_at_step:
  "replace_at v (t # ts) x = Inr (old, v') \<Longrightarrow> ts \<noteq> [] \<Longrightarrow>
   \<exists>ps m m'. v = Obj ps \<and> map_of ps t = Some m \<and> replace_at m ts x = Inr (old, m') \<and> v' = Obj (put_first t m' ps)"
  by (cases v) (auto simp: bindE_eq_Inr table_at_Inr_iff split: if_splits)

lemma replace_at_last:
  "replace_at v [t] x = Inr (old, v') \<Longrightarrow>
   \<exists>ps. v = Obj ps \<and> map_of ps t = Some old \<and> v' = Obj (put_first t x ps)"
  by (cases v) (auto simp: bindE_eq_Inr table_at_Inr_iff split: if_splits)

lemma replace_at_Obj:
  "map_of ps t = Some m \<Longrightarrow> replace_at (Obj ps) [t] x = Inr (m, Obj (put_first t x ps))"
  "map_of ps t = Some m \<Longrightarrow> ts \<noteq> [] \<Longrightarrow>
   replace_at (Obj ps) (t # ts) x = bindE (replace_at m ts x) (\<lambda>(old, m'). Inr (old, Obj (put_first t m' ps)))"
  by (auto simp: table_count_zero table_at_map_of map_of_eq_None_iff[symmetric])

lemma map_of_keys: "map_of ps t = Some m \<Longrightarrow> t \<in> fst ` set ps"
  by (rule ccontr) (simp add: map_of_eq_None_iff[symmetric])

lemma replace_at_undo:
  "replace_at v ts x = Inr (old, v') \<Longrightarrow>
   find_at v ts = Inr old \<and> find_at v' ts = Inr x \<and> replace_at v' ts old = Inr (x, v)"
proof (induction ts arbitrary: v v')
  case (Cons t ts)
  show ?case
  proof (cases "ts = []")
    case True
    then obtain ps where v: "v = Obj ps" "map_of ps t = Some old" "v' = Obj (put_first t x ps)"
      using replace_at_last Cons.prems by blast
    then have t: "map_of (put_first t x ps) t = Some x" by (simp add: table_simps map_of_keys)
    have "put_first t old ps = ps" using v(2) by (rule put_first_same)
    then show ?thesis using v t True find_at_last[OF v(2)] find_at_last[OF t] replace_at_Obj(1)[OF t]
      by (simp add: table_simps)
  next
    case False
    then obtain ps m m' where v: "v = Obj ps" "map_of ps t = Some m"
        "replace_at m ts x = Inr (old, m')" "v' = Obj (put_first t m' ps)"
      using replace_at_step Cons.prems by blast
    then have t: "map_of (put_first t m' ps) t = Some m'" by (simp add: table_simps map_of_keys)
    have "put_first t m ps = ps" using v(2) by (rule put_first_same)
    then show ?thesis
      using v(1,4) False Cons.IH[OF v(3)] find_at_step[OF False v(2)] find_at_step[OF False t]
        replace_at_Obj(2)[OF t False]
      by (simp add: table_simps)
  qed
qed simp

text \<open>Two paths that part ways before either ends.\<close>

definition apart :: "string list \<Rightarrow> string list \<Rightarrow> bool" where
  "apart ts qs \<longleftrightarrow> \<not> prefix ts qs \<and> \<not> prefix qs ts"

lemma apart_Cons: "apart (t # ts) (q # qs) \<longleftrightarrow> t \<noteq> q \<or> apart ts qs"
  by (auto simp: apart_def)

lemma apart_Nil: "\<not> apart [] qs" "\<not> apart ts []"
  by (auto simp: apart_def)

lemma find_at_put_first:
  assumes "map_of ps t = Some m" "apart (t # ts) (q # qs)"
    "apart ts qs \<Longrightarrow> find_at m' qs = find_at m qs"
  shows "find_at (Obj (put_first t m' ps)) (q # qs) = find_at (Obj ps) (q # qs)"
proof (cases "t = q")
  case True
  then have a: "apart ts qs" and n: "qs \<noteq> []" using assms(2) by (auto simp: apart_Cons apart_Nil)
  have "map_of (put_first t m' ps) q = Some m'" using assms(1) True by (simp add: table_simps map_of_keys)
  then show ?thesis using find_at_step[OF n] assms(1,3) a True by simp
next
  case False
  then show ?thesis by (intro find_at_cong) (simp add: table_simps)
qed

lemma replace_at_frame:
  "replace_at v ts x = Inr (old, v') \<Longrightarrow> apart ts qs \<Longrightarrow> find_at v' qs = find_at v qs"
proof (induction ts arbitrary: v v' qs)
  case (Cons t ts)
  obtain q rs where qs: "qs = q # rs" using Cons.prems(2) by (cases qs) (auto simp: apart_Nil)
  show ?case
  proof (cases "ts = []")
    case True
    then obtain ps where v: "v = Obj ps" "map_of ps t = Some old" "v' = Obj (put_first t x ps)"
      using replace_at_last Cons.prems by blast
    then show ?thesis using find_at_put_first[of ps t old "[]" q rs x] Cons.prems(2) True
      by (simp add: qs apart_Nil)
  next
    case False
    then obtain ps m m' where v: "v = Obj ps" "map_of ps t = Some m"
        "replace_at m ts x = Inr (old, m')" "v' = Obj (put_first t m' ps)"
      using replace_at_step Cons.prems by blast
    then show ?thesis using find_at_put_first[of ps t m ts q rs m'] Cons.prems(2) Cons.IH[OF v(3)]
      by (simp add: qs)
  qed
qed simp

lemma insert_at_step:
  "insert_at v (t # ts) x = Inr (new, v') \<Longrightarrow> ts \<noteq> [] \<Longrightarrow>
   \<exists>ps m m'. v = Obj ps \<and> map_of ps t = Some m \<and> insert_at m ts x = Inr (new, m') \<and> v' = Obj (put_first t m' ps)"
  by (cases v) (auto simp: bindE_eq_Inr table_at_Inr_iff Let_def split: if_splits)

lemma insert_at_last:
  "insert_at v [t] x = Inr (new, v') \<Longrightarrow>
   \<exists>ps. v = Obj ps \<and> t \<notin> fst ` set ps \<and> new = x \<and> v' = Obj (ps @ [(t, x)])"
  by (cases v) (auto simp: bindE_eq_Inr table_at_Inr_iff Let_def table_count_zero table_set_absent split: if_splits)

lemma delete_at_Obj:
  "t \<notin> fst ` set ps \<Longrightarrow> delete_at (Obj (ps @ [(t, x)])) [t] = Inr (x, Obj ps)"
  "map_of ps t = Some m \<Longrightarrow> ts \<noteq> [] \<Longrightarrow>
   delete_at (Obj ps) (t # ts) = bindE (delete_at m ts) (\<lambda>(old, m'). Inr (old, Obj (put_first t m' ps)))"
proof -
  assume t: "t \<notin> fst ` set ps"
  then have "table_delete_at t (ps @ [(t, x)]) = Inr (x, ps)"
    by (induction ps) (auto simp: table_delete_at_Cons)
  moreover have "map_of (ps @ [(t, x)]) t = Some x" using t by (simp add: map_add_def map_of_eq_None_iff[symmetric])
  ultimately show "delete_at (Obj (ps @ [(t, x)])) [t] = Inr (x, Obj ps)"
    by (auto simp: table_count_zero table_at_map_of)
next
  assume "map_of ps t = Some m" "ts \<noteq> []"
  then show "delete_at (Obj ps) (t # ts) = bindE (delete_at m ts) (\<lambda>(old, m'). Inr (old, Obj (put_first t m' ps)))"
    by (auto simp: table_count_zero table_at_map_of map_of_eq_None_iff[symmetric])
qed

lemma insert_at_undo:
  "insert_at v ts x = Inr (new, v') \<Longrightarrow>
   new = x \<and> find_at v' ts = Inr x \<and> delete_at v' ts = Inr (x, v)"
proof (induction ts arbitrary: v v')
  case (Cons t ts)
  show ?case
  proof (cases "ts = []")
    case True
    then obtain ps where v: "v = Obj ps" "t \<notin> fst ` set ps" "new = x" "v' = Obj (ps @ [(t, x)])"
      using insert_at_last Cons.prems by blast
    then have "map_of (ps @ [(t, x)]) t = Some x" by (simp add: map_add_def map_of_eq_None_iff[symmetric])
    then show ?thesis using v True find_at_last delete_at_Obj(1)[OF v(2)] by simp
  next
    case False
    then obtain ps m m' where v: "v = Obj ps" "map_of ps t = Some m"
        "insert_at m ts x = Inr (new, m')" "v' = Obj (put_first t m' ps)"
      using insert_at_step Cons.prems by blast
    then have t: "map_of (put_first t m' ps) t = Some m'" by (simp add: table_simps map_of_keys)
    have "put_first t m ps = ps" using v(2) by (rule put_first_same)
    then show ?thesis
      using v(1,4) False Cons.IH[OF v(3)] find_at_step[OF False t] delete_at_Obj(2)[OF t False]
      by (simp add: table_simps)
  qed
qed simp

lemma insert_at_frame:
  "insert_at v ts x = Inr (new, v') \<Longrightarrow> apart ts qs \<Longrightarrow> find_at v' qs = find_at v qs"
proof (induction ts arbitrary: v v' qs)
  case (Cons t ts)
  obtain q rs where qs: "qs = q # rs" using Cons.prems(2) by (cases qs) (auto simp: apart_Nil)
  show ?case
  proof (cases "ts = []")
    case True
    then obtain ps where v: "v = Obj ps" "t \<notin> fst ` set ps" "v' = Obj (ps @ [(t, x)])"
      using insert_at_last Cons.prems by blast
    have "t \<noteq> q" using Cons.prems(2) True by (auto simp: qs apart_Cons apart_Nil)
    then show ?thesis unfolding v qs by (intro find_at_cong) (simp add: map_add_def split: option.splits)
  next
    case False
    then obtain ps m m' where v: "v = Obj ps" "map_of ps t = Some m"
        "insert_at m ts x = Inr (new, m')" "v' = Obj (put_first t m' ps)"
      using insert_at_step Cons.prems by blast
    then show ?thesis using find_at_put_first[of ps t m ts q rs m'] Cons.prems(2) Cons.IH[OF v(3)]
      by (simp add: qs)
  qed
qed simp


lemma erase_loop_filter:
  "erase_loop x deleted kept cs =
     (deleted @ filter (matches x) cs, kept @ filter (\<lambda>c. \<not> matches x c) cs)"
  by (induction x deleted kept cs rule: erase_loop.induct) auto

lemma modify_array_Inr:
  assumes "modify_array f ts v = Inr (r, v')"
  shows "\<exists>xs ys. find_at v ts = Inr (Arr xs) \<and> f xs = (r, ys) \<and> replace_at v ts (Arr ys) = Inr (Arr xs, v')"
proof -
  obtain m xs where m: "find_at v ts = Inr m" "get_array m = Inr xs"
    and r: "bindE (replace_at v ts (Arr (snd (f xs)))) (\<lambda>(_, v'). Inr (fst (f xs), v')) = Inr (r, v')"
    using assms by (auto simp: modify_array_def bindE_eq_Inr split_beta)
  have mx: "m = Arr xs" using m(2) by (cases m) auto
  obtain old where "replace_at v ts (Arr (snd (f xs))) = Inr (old, v')" "r = fst (f xs)"
    using r by (auto simp: bindE_eq_Inr)
  note old = this
  have "old = Arr xs" using replace_at_undo[OF old(1)] m(1) mx by simp
  then show ?thesis using m(1) mx old by (intro exI[of _ xs] exI[of _ "snd (f xs)"]) simp
qed

lemma changing_run:
  "changing f g d = (Inr r, d') \<longleftrightarrow>
     (\<exists>y v. f (jd_value d) = Inr (y, v) \<and> r = g y \<and> d' = d\<lparr>jd_value := v, jd_dirty := True\<rparr>)"
  by (auto simp: changing_def split: sum.splits)

lemma changing_error: "changing f g d = (Inl e, d') \<Longrightarrow> d' = d"
  by (auto simp: changing_def split: sum.splits)

lemma split_path_validate_Inr:
  "split_path_validate path = Inr ts \<longleftrightarrow> path \<noteq> [] \<and> split_path path \<noteq> [] \<and> ts = rev (split_path path)"
  by (auto simp: split_path_validate_def Let_def)

lemma findChildValue_eq:
  "path \<noteq> [] \<Longrightarrow> split_path path \<noteq> [] \<Longrightarrow> findChildValue v path = find_at v (split_path path)"
  by (simp add: findChildValue_def split_path_validate_def Let_def)

lemma liftE_bind_run:
  "bindM (liftE r) f d = (Inr y, d') \<longleftrightarrow> (\<exists>x. r = Inr x \<and> f x d = (Inr y, d'))"
  by (auto simp: bindM_def liftE_def split: sum.splits)

lemma liftE_bind_error:
  "bindM (liftE r) f d = (Inl e, d') \<longleftrightarrow>
     (r = Inl e \<and> d' = d) \<or> (\<exists>x. r = Inr x \<and> f x d = (Inl e, d'))"
  by (auto simp: bindM_def liftE_def split: sum.splits)

text \<open>C3.  A replacement that succeeds returns the old child under its path, stores the payload
  of the new one where it was, leaves every path that parts from it alone, and putting the
  old value back restores the document.\<close>

theorem replaceChild_correct:
  assumes "replaceChild new path d = (Inr r, d')"
  shows "\<exists>x old. getPayloadValueForKey (jd_value new) (last (split_path path)) = Inr x
      \<and> findChildValue (jd_value d) path = Inr old \<and> r = doc_of (Obj [(path, old)])
      \<and> findChildValue (jd_value d') path = Inr x \<and> jd_dirty d'
      \<and> replace_at (jd_value d') (split_path path) old = Inr (x, jd_value d)
      \<and> (\<forall>qs. apart (split_path path) qs \<longrightarrow> find_at (jd_value d') qs = find_at (jd_value d) qs)"
proof -
  obtain x old v where p: "path \<noteq> []" "split_path path \<noteq> []"
    and x: "getPayloadValueForKey (jd_value new) (hd (rev (split_path path))) = Inr x"
    and v: "replace_at (jd_value d) (split_path path) x = Inr (old, v)"
    and r: "r = doc_of (Obj [(path, old)])" "d' = d\<lparr>jd_value := v, jd_dirty := True\<rparr>"
    using assms by (auto simp: replaceChild_def liftE_bind_run changing_run split_path_validate_Inr)
  show ?thesis
    using x p r replace_at_undo[OF v] replace_at_frame[OF v] by (simp add: findChildValue_eq hd_rev)
qed

theorem replaceChild_correct_witness:
  "findChildValue (jd_value (snd (replaceChild (doc_of (Obj [(''payload'', Str ''v2'')])) ''a.b''
       (doc_of (Obj [(''a'', Obj [(''b'', Str ''v1'')])]))))) ''a.b'' = Inr (Str ''v2'')"
proof -
  let ?d = "doc_of (Obj [(''a'', Obj [(''b'', Str ''v1'')])])"
  let ?n = "doc_of (Obj [(''payload'', Str ''v2'')])"
  have run: "replaceChild ?n ''a.b'' ?d =
      (Inr (doc_of (Obj [(''a.b'', Str ''v1'')])), doc_of (Obj [(''a'', Obj [(''b'', Str ''v2'')])]))"
    by code_simp
  have "getPayloadValueForKey (jd_value ?n) (last (split_path ''a.b'')) = Inr (Str ''v2'')"
    by code_simp
  then show ?thesis using replaceChild_correct[OF run] by (auto simp: run)
qed

text \<open>C2.  An insertion that succeeds returns the inserted value, which is then found at the
  path; nothing that parts from the path changes; deleting the path returns it again and
  restores the document's value.\<close>

theorem insertChild_correct:
  assumes "insertChild new path d = (Inr r, d')"
  shows "\<exists>x. getPayloadValueForKey (jd_value new) (last (split_path path)) = Inr x
      \<and> r = doc_of x \<and> findChildValue (jd_value d') path = Inr x
      \<and> (\<forall>qs. apart (split_path path) qs \<longrightarrow> find_at (jd_value d') qs = find_at (jd_value d) qs)
      \<and> deleteChild path d' = (Inr (doc_of x), d\<lparr>jd_dirty := True\<rparr>)"
proof -
  obtain x y v where p: "path \<noteq> []" "split_path path \<noteq> []"
    and x: "getPayloadValueForKey (jd_value new) (hd (rev (split_path path))) = Inr x"
    and v: "insert_at (jd_value d) (split_path path) x = Inr (y, v)"
    and r: "r = doc_of y" "d' = d\<lparr>jd_value := v, jd_dirty := True\<rparr>"
    using assms by (auto simp: insertChild_def liftE_bind_run changing_run split_path_validate_Inr)
  have "deleteChild path d' = (Inr (doc_of x), d\<lparr>jd_dirty := True\<rparr>)"
    using p r(2) insert_at_undo[OF v]
    by (simp add: deleteChild_def split_path_validate_def Let_def prog_simps changing_def)
  then show ?thesis
    using x p r insert_at_undo[OF v] insert_at_frame[OF v] by (simp add: findChildValue_eq hd_rev)
qed

theorem insertChild_correct_witness:
  "fst (deleteChild ''a.c'' (snd (insertChild (doc_of (Obj [(''c'', Bool True)])) ''a.c''
       (doc_of (Obj [(''a'', Obj [(''b'', Str ''v1'')])]))))) = Inr (doc_of (Bool True))"
proof -
  let ?d = "doc_of (Obj [(''a'', Obj [(''b'', Str ''v1'')])])"
  let ?n = "doc_of (Obj [(''c'', Bool True)])"
  have run: "insertChild ?n ''a.c'' ?d =
      (Inr (doc_of (Bool True)), doc_of (Obj [(''a'', Obj [(''b'', Str ''v1''), (''c'', Bool True)])]))"
    by code_simp
  have "getPayloadValueForKey (jd_value ?n) (last (split_path ''a.c'')) = Inr (Bool True)"
    by code_simp
  then show ?thesis using insertChild_correct[OF run] by (auto simp: run)
qed



lemma removeChild_run:
  assumes "removeChild del path d = (Inr r, d')"
  shows "\<exists>x xs. getPayloadValueForKey (jd_value del) ''null'' = Inr x
      \<and> findChildValue (jd_value d) path = Inr (Arr xs)
      \<and> findChildValue (jd_value d') path = Inr (Arr (filter (\<lambda>c. \<not> matches x c) xs))
      \<and> r = doc_of (Obj [(''0'', Arr (filter (matches x) xs))])
      \<and> (\<forall>qs. apart (split_path path) qs \<longrightarrow> find_at (jd_value d') qs = find_at (jd_value d) qs)"
proof -
  obtain x y v where p: "path \<noteq> []" "split_path path \<noteq> []"
    and x: "getPayloadValueForKey (jd_value del) ''null'' = Inr x"
    and v: "modify_array (erase_loop x [] []) (split_path path) (jd_value d) = Inr (y, v)"
    and r: "r = doc_of (Obj [(''0'', Arr y)])" "d' = d\<lparr>jd_value := v, jd_dirty := True\<rparr>"
    using assms by (auto simp: removeChild_def liftE_bind_run changing_run split_path_validate_Inr split: if_splits)
  obtain xs where xs: "find_at (jd_value d) (split_path path) = Inr (Arr xs)"
      "y = filter (matches x) xs"
      and w: "replace_at (jd_value d) (split_path path) (Arr (filter (\<lambda>c. \<not> matches x c) xs)) = Inr (Arr xs, v)"
    using modify_array_Inr[OF v] by (auto simp: erase_loop_filter)
  show ?thesis
    using x p r xs replace_at_undo[OF w] replace_at_frame[OF w] by (simp add: findChildValue_eq)
qed

text \<open>\<open>removeChild\<close> splits the array at the path into the elements that match and those
  that do not, both in their old order, and returns the removed ones.\<close>

theorem removeChild_partitions:
  assumes "removeChild del path d = (Inr r, d')"
  shows "\<exists>x xs. getPayloadValueForKey (jd_value del) ''null'' = Inr x
      \<and> findChildValue (jd_value d) path = Inr (Arr xs)
      \<and> findChildValue (jd_value d') path = Inr (Arr (filter (\<lambda>c. \<not> matches x c) xs))
      \<and> r = doc_of (Obj [(''0'', Arr (filter (matches x) xs))])
      \<and> (\<forall>qs. apart (split_path path) qs \<longrightarrow> find_at (jd_value d') qs = find_at (jd_value d) qs)"
  using assms by (rule removeChild_run)

theorem removeChild_partitions_witness:
  "fst (removeChild (doc_of (Obj [(''payload'', Obj [(''name'', Str ''a'')])])) ''xs''
     (doc_of (Obj [(''xs'', Arr [Obj [(''name'', Str ''a'')], Obj [(''name'', Str ''b'')]])])))
   = Inr (doc_of (Obj [(''0'', Arr [Obj [(''name'', Str ''a'')]])]))"
proof -
  let ?d = "doc_of (Obj [(''xs'', Arr [Obj [(''name'', Str ''a'')], Obj [(''name'', Str ''b'')]])])"
  let ?n = "doc_of (Obj [(''payload'', Obj [(''name'', Str ''a'')])])"
  have run: "removeChild ?n ''xs'' ?d =
      (Inr (doc_of (Obj [(''0'', Arr [Obj [(''name'', Str ''a'')]])])),
       doc_of (Obj [(''xs'', Arr [Obj [(''name'', Str ''b'')]])]))"
    by code_simp
  show ?thesis using removeChild_partitions[OF run] by (simp add: run)
qed

lemma matches_array_any: "matches (Arr l) (Arr r) = (l \<noteq> [] \<and> list_all (\<lambda>x. matches x x) l)"
  by simp

lemma matches_scalar_refl: "type_visitor v = VALUE \<Longrightarrow> matches v v"
  by (cases v) auto

text \<open>The array case of \<open>matches\<close> never looks at its second operand: removing a non-empty
  array of scalars removes every array of the list, whatever it holds.\<close>

theorem removeChild_removes_every_array:
  assumes "removeChild (doc_of (Obj [(''payload'', Arr l)])) path d = (Inr r, d')"
    and "l \<noteq> []" "list_all (\<lambda>v. type_visitor v = VALUE) l"
    and "findChildValue (jd_value d') path = Inr (Arr ys)"
  shows "Arr zs \<notin> set ys"
proof -
  have x: "getPayloadValueForKey (Obj [(''payload'', Arr l)]) ''null'' = Inr (Arr l)" by code_simp
  have m: "matches (Arr l) (Arr zs)" for zs
    using assms(2,3) by (auto simp: list_all_iff matches_scalar_refl)
  obtain xs where "ys = filter (\<lambda>c. \<not> matches (Arr l) c) xs"
    using removeChild_run[OF assms(1)] assms(4) x by (auto simp: doc_of_def)
  then show ?thesis by (simp only: set_filter mem_Collect_eq m) simp
qed

theorem removeChild_removes_every_array_witness:
  "Arr [Str ''b''] \<notin> set [Str ''c'']"
proof -
  let ?d = "doc_of (Obj [(''xs'', Arr [Arr [Str ''b''], Str ''c''])])"
  have run: "removeChild (doc_of (Obj [(''payload'', Arr [Str ''a''])])) ''xs'' ?d =
      (Inr (doc_of (Obj [(''0'', Arr [Arr [Str ''b'']])])), doc_of (Obj [(''xs'', Arr [Str ''c''])]))"
    by code_simp
  have "findChildValue (jd_value (doc_of (Obj [(''xs'', Arr [Str ''c''])]))) ''xs'' = Inr (Arr [Str ''c''])"
    by code_simp
  from removeChild_removes_every_array[OF run _ _ this] show ?thesis by simp
qed

text \<open>\<open>value_at\<close> of an array of scalars: an element inside the bounds is printed, the
  position one past the end is dereferenced, everything beyond is a runtime error.\<close>

theorem value_at_bounds:
  assumes "xs \<noteq> []" "list_all (\<lambda>v. type_visitor v \<noteq> OBJECT) xs"
  shows "value_at c (Obj [(''0'', Arr xs)]) i =
     (if i < length xs then Inr (tostring_visitor (xs ! i))
      else if i = length xs then Inl Undefined else Inl Runtime_error)"
  using assms
  by (auto simp: value_at_def getPayloadValueForKey_def table_count_def list_all_length)

theorem value_at_bounds_witness:
  "value_at (boost_codec decimal_to_string no_doubles) (Obj [(''0'', Arr [Str ''a''])]) 1 = Inl Undefined"
  using value_at_bounds[of "[Str ''a'']" "boost_codec decimal_to_string no_doubles" 1] by simp

section \<open>The cached text\<close>

text \<open>A document is coherent when a clear dirty flag means that the cache is its text.\<close>

definition coherent :: "codec \<Rightarrow> jsondoc \<Rightarrow> bool" where
  "coherent c d \<longleftrightarrow> jd_dirty d \<or> writeJson c (jd_value d) = Inr (jd_cache d)"

lemma coherent_dirty [simp]: "coherent c (d\<lparr>jd_dirty := True\<rparr>)" "coherent c (d\<lparr>jd_value := v, jd_dirty := True\<rparr>)"
  by (simp_all add: coherent_def)

lemma coherent_doc_of [simp]: "coherent c (doc_of v)"
  by (simp add: coherent_def doc_of_def)

lemma changing_coherent: "coherent c d \<Longrightarrow> coherent c (snd (changing f g d))"
  by (auto simp: changing_def split: sum.splits)

lemma liftE_bind_coherent:
  "coherent c d \<Longrightarrow> (\<And>x. coherent c (snd (f x d))) \<Longrightarrow> coherent c (snd (bindM (liftE r) f d))"
  by (auto simp: bindM_def liftE_def split: sum.splits)

lemmas coherent_rules = liftE_bind_coherent changing_coherent

lemma doc_to_string_coherent: "coherent c d \<Longrightarrow> coherent c (snd (doc_to_string c d))"
  by (auto simp: doc_to_string_def coherent_def split: sum.splits)

lemma doc_to_string_value:
  "coherent c d \<Longrightarrow> fst (doc_to_string c d) = writeJson c (jd_value d) \<and>
    jd_value (snd (doc_to_string c d)) = jd_value d"
  by (auto simp: doc_to_string_def coherent_def split: sum.splits)

text \<open>C5.  Every constructor yields a coherent document and every member function keeps it
  coherent, also when it throws; the text of a coherent document is that of its value.\<close>

theorem document_cache_coherent:
  assumes "coherent c d"
  shows "coherent c (doc_of v)
   \<and> coherent c (snd (replaceChild new path d)) \<and> coherent c (snd (insertChild new path d))
   \<and> coherent c (snd (deleteChild path d)) \<and> coherent c (snd (appendChild new path d))
   \<and> coherent c (snd (removeChild new path d)) \<and> coherent c (snd (extract_value d))
   \<and> coherent c (snd (doc_to_string c d)) \<and> fst (doc_to_string c d) = writeJson c (jd_value d)"
  using assms
  by (auto simp: replaceChild_def insertChild_def deleteChild_def appendChild_def removeChild_def
      extract_value_def doc_to_string_coherent doc_to_string_value intro!: coherent_rules)

theorem document_cache_coherent_witness:
  "fst (doc_to_string (boost_codec decimal_to_string no_doubles) empty_doc) = Inr ''{}''"
proof -
  let ?c = "boost_codec decimal_to_string no_doubles"
  have "coherent ?c empty_doc" by (simp add: empty_doc_def)
  then have "fst (doc_to_string ?c empty_doc) = writeJson ?c (jd_value empty_doc)"
    using document_cache_coherent by blast
  then show ?thesis by (simp add: writeJson_def empty_doc_def doc_of_def)
qed

section \<open>Documents that are re-read\<close>

text \<open>What the clients of a codec rely on: reading the text of a document gives the document.\<close>

context json_codec
begin

lemma written_ok:
  assumes "c_ok ps"
  shows "\<exists>s. writeJson c (Obj ps) = Inr s \<and> doc_of_string c s = Inr (doc_of (Obj ps))"
proof (cases "ps = []")
  case True
  then show ?thesis by (simp add: writeJson_def doc_of_string_def readJson_def read_empty)
next
  case False
  then obtain s where "c_write c ps = Inr s" using write_ok assms by blast
  then show ?thesis using False read_write[OF assms]
    by (simp add: writeJson_def doc_of_string_def readJson_def)
qed

lemma reread:
  assumes "coherent c d" "jd_value d = Obj ps" "c_ok ps"
  shows "\<exists>s. fst (doc_to_string c d) = Inr s \<and> doc_of_string c s = Inr (doc_of (Obj ps))"
  using written_ok[OF assms(3)] doc_to_string_value[OF assms(1)] assms(2) by simp

end

text \<open>With the reader and the writer of the repository, the text of a coherent document is
  read back as a document with the same value.\<close>

theorem document_reread:
  assumes "coherent (boost_codec kd qd) d" "jd_value d = Obj ps" "boost_ok qd ps"
  shows "\<exists>s. fst (doc_to_string (boost_codec kd qd) d) = Inr s
      \<and> doc_of_string (boost_codec kd qd) s = Inr (doc_of (Obj ps))"
  using assms by (rule boost.reread)

theorem document_reread_witness:
  "\<exists>s. fst (doc_to_string (boost_codec decimal_to_string no_doubles) (doc_of (Obj [(''a'', Str ''b'')]))) = Inr s
     \<and> doc_of_string (boost_codec decimal_to_string no_doubles) s = Inr (doc_of (Obj [(''a'', Str ''b'')]))"
proof -
  have "boost_ok no_doubles [(''a'', Str ''b'')]" by (simp add: boost_ok_def no_doubles_def refuses_other_def) code_simp
  from document_reread[OF coherent_doc_of _ this] show ?thesis by (simp add: doc_of_def)
qed

end
