(* ===== verification/SearchIndex.thy ===== *)
theory SearchIndex
  imports JsonDocument "HOL-Library.Product_Lexorder"
begin

text \<open>
  StorageProviders/FileSystemDB/provider\_filedb\_index.cpp: the search index of a collection
  of the file store.  It is one JSON object: the list \<open>ouid\<close> of the documents, and for each
  attribute a table from its values to the sorted list of the documents that have the value.
  Members that change the index are programs over it, const members are functions of it.
  The leading underscore of the private members becomes the prefix \<open>idx_\<close>.
\<close>

record search_index =
  si_index :: object_t
  si_dirty :: bool
  si_open :: bool

type_synonym 'a si = "(object_t, 'a) prog"

section \<open>Access to the index\<close>

text \<open>\<open>JSONDocument::empty\<close> asks the variant of the value, and a \<open>boost::variant\<close> is never
  empty; \<open>operator std::string\<close> prints the document.\<close>

definition doc_empty :: "jsondoc \<Rightarrow> bool" where
  "doc_empty d = False"

definition doc_text :: "codec \<Rightarrow> jsondoc \<Rightarrow> exn + string" where
  "doc_text c d = fst (doc_to_string c d)"

definition string_member :: "string \<Rightarrow> value_t \<Rightarrow> exn + string" where
  "string_member k v = bindE (bindE (get_object v) (table_at k)) get_string"

definition array_member :: "string \<Rightarrow> object_t \<Rightarrow> exn + array_t" where
  "array_member k ps = bindE (table_at k ps) get_array"

text \<open>References into the index: \<open>_index.at(k)\<close>, \<open>table[k]\<close> (which creates the entry), and the
  alternatives of the variant.\<close>

definition slot :: "string \<Rightarrow> (value_t, 'a) prog \<Rightarrow> 'a si" where
  "slot k m =
     (\<lambda>ps. case table_at k ps of
             Inl e \<Rightarrow> (Inl e, ps)
           | Inr v \<Rightarrow> (case m v of (r, v') \<Rightarrow> (r, put_first k v' ps)))"

definition subscript :: "string \<Rightarrow> (value_t, 'a) prog \<Rightarrow> 'a si" where
  "subscript k m =
     (\<lambda>ps. case table_index k ps of
             (v, qs) \<Rightarrow> (case m v of (r, v') \<Rightarrow> (r, put_first k v' qs)))"

definition as_object :: "'a si \<Rightarrow> (value_t, 'a) prog" where
  "as_object m =
     (\<lambda>v. case get_object v of
            Inl e \<Rightarrow> (Inl e, v)
          | Inr ps \<Rightarrow> (case m ps of (r, qs) \<Rightarrow> (r, Obj qs)))"

definition as_array :: "(array_t, 'a) prog \<Rightarrow> (value_t, 'a) prog" where
  "as_array m =
     (\<lambda>v. case get_array v of
            Inl e \<Rightarrow> (Inl e, v)
          | Inr vs \<Rightarrow> (case m vs of (r, ws) \<Rightarrow> (r, Arr ws)))"

section \<open>Lists of documents\<close>

definition push_back :: "value_t \<Rightarrow> (array_t, unit) prog" where
  "push_back x = (\<lambda>vs. (Inr (), vs @ [x]))"

definition make_unique_sorted :: "(array_t, unit) prog" where
  "make_unique_sorted =
     (\<lambda>vs. case mapE get_string vs of
             Inl e \<Rightarrow> (Inl e, vs)
           | Inr ss \<Rightarrow> (Inr (), map Str (remdups_adj (sort ss))))"

text \<open>The body of the adders: a fresh entry is the boolean false and becomes an empty list.\<close>

definition insert_sorted :: "string \<Rightarrow> (array_t, unit) prog" where
  "insert_sorted x = thenM (push_back (Str x)) make_unique_sorted"

definition add_to_entry :: "string \<Rightarrow> (value_t, unit) prog" where
  "add_to_entry x =
     (\<lambda>v. as_array (insert_sorted x) (case v of Bool _ \<Rightarrow> Arr [] | _ \<Rightarrow> v))"

definition add_posting :: "string \<Rightarrow> string \<Rightarrow> string \<Rightarrow> unit si" where
  "add_posting attr x key =
     thenM (confirm (x \<noteq> []))
       (thenM (confirm (key \<noteq> [])) (slot attr (as_object (subscript key (add_to_entry x)))))"

definition idx_addVersion :: "string \<Rightarrow> string \<Rightarrow> unit si" where
  "idx_addVersion ouid version = add_posting ''version'' ouid version"

definition idx_addId :: "string \<Rightarrow> unit si" where
  "idx_addId ouid = thenM (confirm (ouid \<noteq> [])) (slot ''ouid'' (as_array (insert_sorted ouid)))"

definition idx_addConfiguration :: "string \<Rightarrow> string \<Rightarrow> unit si" where
  "idx_addConfiguration ouid configuration = add_posting ''configurations.name'' ouid configuration"

definition idx_addConfigurationAssigned :: "string \<Rightarrow> string \<Rightarrow> unit si" where
  "idx_addConfigurationAssigned timestamp configuration =
     add_posting ''configurations.assigned'' timestamp configuration"

definition idx_addEntity :: "string \<Rightarrow> string \<Rightarrow> unit si" where
  "idx_addEntity ouid entity = add_posting ''entities.name'' ouid entity"

definition idx_addVersionAlias :: "string \<Rightarrow> string \<Rightarrow> unit si" where
  "idx_addVersionAlias ouid veralias = add_posting ''aliases.active.name'' ouid veralias"

definition idx_addRun :: "string \<Rightarrow> string \<Rightarrow> unit si" where
  "idx_addRun ouid run = add_posting ''runs.name'' ouid run"

text \<open>The matchers: only a key that is missing from the attribute's table is forgiven.\<close>

definition out_of_range :: "exn \<Rightarrow> bool" where
  "out_of_range e \<longleftrightarrow> e = Out_of_range"

definition match_posting :: "string \<Rightarrow> string \<Rightarrow> object_t \<Rightarrow> exn + string list" where
  "match_posting attr key ix =
     (if key = [] then Inl Runtime_exception
      else bindE (bindE (table_at attr ix) get_object) (\<lambda>t.
        catchE out_of_range (bindE (array_member key t) (mapE get_string)) (Inr [])))"

definition idx_matchVersion :: "string \<Rightarrow> object_t \<Rightarrow> exn + string list" where
  "idx_matchVersion version = match_posting ''version'' version"

definition idx_matchVersionAlias :: "string \<Rightarrow> object_t \<Rightarrow> exn + string list" where
  "idx_matchVersionAlias veralias = match_posting ''aliases.active.name'' veralias"

definition idx_matchRun :: "string \<Rightarrow> object_t \<Rightarrow> exn + string list" where
  "idx_matchRun run = match_posting ''runs.name'' run"

definition idx_matchConfiguration :: "string \<Rightarrow> object_t \<Rightarrow> exn + string list" where
  "idx_matchConfiguration configuration = match_posting ''configurations.name'' configuration"

definition idx_matchEntity :: "string \<Rightarrow> object_t \<Rightarrow> exn + string list" where
  "idx_matchEntity entity = match_posting ''entities.name'' entity"

definition getObjectIds :: "object_t \<Rightarrow> exn + string list" where
  "getObjectIds ix = catchE out_of_range (bindE (array_member ''ouid'' ix) (mapE get_string)) (Inr [])"

definition idx_matchObjectId :: "string \<Rightarrow> object_t \<Rightarrow> exn + string list" where
  "idx_matchObjectId objectid ix = (if objectid = [] then Inl Runtime_exception else Inr [objectid])"

text \<open>The identifiers collected before the first malformed entry of \<open>$in\<close> are kept.\<close>

fun oids_before_error :: "value_t list \<Rightarrow> string list" where
  "oids_before_error [] = []"
| "oids_before_error (v # vs) =
     (case string_member ''$oid'' v of Inl _ \<Rightarrow> [] | Inr s \<Rightarrow> s # oids_before_error vs)"

definition idx_matchObjectIds :: "codec \<Rightarrow> string \<Rightarrow> object_t \<Rightarrow> exn + string list" where
  "idx_matchObjectIds c objectids ix =
     (if objectids = [] then Inl Runtime_exception
      else bindE (c_read c objectids) (\<lambda>r. case r of
          None \<Rightarrow> Inr []
        | Some ast \<Rightarrow>
            Inr ((case array_member ''$in'' ast of Inl _ \<Rightarrow> [] | Inr vs \<Rightarrow> oids_before_error vs) @
                 (case string_member ''$oid'' (Obj ast) of Inl _ \<Rightarrow> [] | Inr s \<Rightarrow> [s]))))"

text \<open>The removers.\<close>

definition filter_out :: "string \<Rightarrow> (array_t, unit) prog" where
  "filter_out x =
     (\<lambda>vs. case mapE get_string vs of
             Inl e \<Rightarrow> (Inl e, vs)
           | Inr ss \<Rightarrow> (Inr (), map Str (filter (\<lambda>s. s \<noteq> x) ss)))"

definition remove_posting :: "string \<Rightarrow> string \<Rightarrow> string \<Rightarrow> unit si" where
  "remove_posting attr x key =
     thenM (confirm (x \<noteq> []))
       (thenM (confirm (key \<noteq> []))
         (slot attr (as_object (catchM out_of_range (slot key (as_array (filter_out x))) (retM ())))))"

definition idx_removeVersion :: "string \<Rightarrow> string \<Rightarrow> unit si" where
  "idx_removeVersion ouid version = remove_posting ''version'' ouid version"

definition idx_removeId :: "string \<Rightarrow> unit si" where
  "idx_removeId ouid = thenM (confirm (ouid \<noteq> [])) (slot ''ouid'' (as_array (filter_out ouid)))"

definition idx_removeVersionAlias :: "string \<Rightarrow> string \<Rightarrow> unit si" where
  "idx_removeVersionAlias ouid veralias = remove_posting ''aliases.active.name'' ouid veralias"

definition idx_removeRun :: "string \<Rightarrow> string \<Rightarrow> unit si" where
  "idx_removeRun ouid run = remove_posting ''runs.name'' ouid run"

definition idx_removeConfiguration :: "string \<Rightarrow> string \<Rightarrow> unit si" where
  "idx_removeConfiguration ouid configuration = remove_posting ''configurations.name'' ouid configuration"

definition idx_removeConfigurationAssigned :: "string \<Rightarrow> string \<Rightarrow> unit si" where
  "idx_removeConfigurationAssigned timestamp configuration =
     remove_posting ''configurations.assigned'' timestamp configuration"

definition idx_removeEntity :: "string \<Rightarrow> string \<Rightarrow> unit si" where
  "idx_removeEntity ouid entity = remove_posting ''entities.name'' ouid entity"

section \<open>Adding and removing documents\<close>

definition on_index :: "'a si \<Rightarrow> (search_index, 'a) prog" where
  "on_index m = (\<lambda>s. case m (si_index s) of (r, ix) \<Rightarrow> (r, s\<lparr>si_index := ix\<rparr>))"

definition set_dirty :: "(search_index, unit) prog" where
  "set_dirty = (\<lambda>s. (Inr (), s\<lparr>si_dirty := True\<rparr>))"

definition idx_entries :: "(string \<Rightarrow> unit si) \<Rightarrow> array_t \<Rightarrow> unit si" where
  "idx_entries f vs = forM vs (\<lambda>v. bindM (liftE (string_member ''name'' v)) f)"

text \<open>The loop over \<open>configurations\<close>: the name is handled before \<open>assigned\<close> is read.\<close>

definition idx_configurations ::
  "(string \<Rightarrow> unit si) \<Rightarrow> (string \<Rightarrow> string \<Rightarrow> unit si) \<Rightarrow> array_t \<Rightarrow> unit si" where
  "idx_configurations f g vs =
     forM vs (\<lambda>v. bindM (liftE (string_member ''name'' v)) (\<lambda>configuration.
       thenM (f configuration)
         (bindM (liftE (string_member ''assigned'' v)) (\<lambda>assigned. g assigned configuration))))"

definition active_aliases :: "object_t \<Rightarrow> exn + array_t" where
  "active_aliases ast = bindE (bindE (table_at ''aliases'' ast) get_object) (array_member ''active'')"

definition add_entities :: "object_t \<Rightarrow> string \<Rightarrow> unit si" where
  "add_entities ast ouid =
     catchM any_exn (bindM (liftE (array_member ''entities'' ast)) (idx_entries (idx_addEntity ouid))) (retM ())"

definition add_aliases :: "object_t \<Rightarrow> string \<Rightarrow> unit si" where
  "add_aliases ast ouid =
     catchM any_exn (bindM (liftE (active_aliases ast)) (idx_entries (idx_addVersionAlias ouid))) (retM ())"

definition add_runs :: "object_t \<Rightarrow> string \<Rightarrow> unit si" where
  "add_runs ast ouid =
     catchM any_exn (bindM (liftE (array_member ''runs'' ast)) (idx_entries (idx_addRun ouid))) (retM ())"

definition add_ast :: "object_t \<Rightarrow> string \<Rightarrow> unit si" where
  "add_ast ast ouid =
     seqM [idx_addId ouid,
       bindM (liftE (bindE (table_at ''version'' ast) get_string)) (idx_addVersion ouid),
       bindM (liftE (array_member ''configurations'' ast))
         (idx_configurations (idx_addConfiguration ouid) idx_addConfigurationAssigned),
       add_entities ast ouid, add_aliases ast ouid, add_runs ast ouid]"

definition remove_ast :: "object_t \<Rightarrow> string \<Rightarrow> unit si" where
  "remove_ast ast ouid =
     seqM [idx_removeId ouid,
       bindM (liftE (bindE (table_at ''version'' ast) get_string)) (idx_removeVersion ouid),
       bindM (liftE (array_member ''configurations'' ast))
         (idx_configurations (idx_removeConfiguration ouid) idx_removeConfigurationAssigned),
       bindM (liftE (active_aliases ast)) (idx_entries (idx_removeConfiguration ouid)),
       bindM (liftE (array_member ''runs'' ast)) (idx_entries (idx_removeRun ouid))]"

text \<open>The frame of \<open>addDocument\<close> and \<open>removeDocument\<close>: what a failed update has written stays.\<close>

definition index_document :: "(object_t \<Rightarrow> string \<Rightarrow> unit si) \<Rightarrow> codec \<Rightarrow> jsondoc \<Rightarrow> string \<Rightarrow> (search_index, bool) prog" where
  "index_document update c d ouid =
     thenM (confirm (\<not> doc_empty d)) (thenM (confirm (ouid \<noteq> []))
       (bindM (liftE (bindE (doc_text c d) (c_read c))) (\<lambda>r. case r of
            None \<Rightarrow> retM False
          | Some ast \<Rightarrow>
              catchM any_exn (thenM set_dirty (thenM (on_index (update ast ouid)) (retM True))) (retM False))))"

definition addDocument :: "codec \<Rightarrow> jsondoc \<Rightarrow> string \<Rightarrow> (search_index, bool) prog" where
  "addDocument = index_document add_ast"

definition removeDocument :: "codec \<Rightarrow> jsondoc \<Rightarrow> string \<Rightarrow> (search_index, bool) prog" where
  "removeDocument = index_document remove_ast"

section \<open>Searching\<close>

definition matching_function :: "codec \<Rightarrow> string \<Rightarrow> exn + (string \<Rightarrow> object_t \<Rightarrow> exn + string list)" where
  "matching_function c name =
     (if name = ''version'' then Inr idx_matchVersion
      else if name = ''configurations.name'' then Inr idx_matchConfiguration
      else if name = ''entities.name'' then Inr idx_matchEntity
      else if name = ''runs.name'' then Inr idx_matchRun
      else if name = ''aliases.active.name'' then Inr idx_matchVersionAlias
      else if name = ''$oid'' then Inr idx_matchObjectId
      else if name = ''_id'' then Inr (idx_matchObjectIds c)
      else Inl Out_of_range)"

definition run_matching :: "codec \<Rightarrow> object_t \<Rightarrow> string \<Rightarrow> string \<Rightarrow> exn + string list" where
  "run_matching c ix name x = bindE (matching_function c name) (\<lambda>f. f x ix)"

text \<open>The loop over the criteria: the number of string criteria and all their matches.\<close>

fun collect_matches :: "codec \<Rightarrow> object_t \<Rightarrow> object_t \<Rightarrow> nat \<Rightarrow> string list \<Rightarrow> exn + nat \<times> string list" where
  "collect_matches c ix [] n ouids = Inr (n, ouids)"
| "collect_matches c ix ((k, v) # criteria) n ouids =
     (case v of
        Str s \<Rightarrow> bindE (run_matching c ix k s) (\<lambda>ms. collect_matches c ix criteria (Suc n) (ouids @ ms))
      | Obj ps \<Rightarrow>
          bindE (c_write c ps) (\<lambda>json.
          bindE (run_matching c ix k json) (\<lambda>ms. collect_matches c ix criteria n (ouids @ ms)))
      | _ \<Rightarrow> collect_matches c ix criteria n ouids)"

text \<open>
  The selection among the matches.  The counts of \<open>groupby_map\<close> are the numbers of
  occurrences; when none reaches the number of criteria, the two vectors are swapped.
\<close>

definition max_occurrences :: "string list \<Rightarrow> nat" where
  "max_occurrences ouids = fold max (map (count_list ouids) ouids) 0"

definition select_ids :: "nat \<Rightarrow> string list \<Rightarrow> string list" where
  "select_ids n ouids =
     (if length ouids < 2 then ouids
      else if n = 1 then remdups_adj (sort ouids)
      else
        let found = (if max_occurrences ouids < n then ouids else []);
            grouped = filter (\<lambda>x. n \<le> count_list ouids x) (remdups_adj (sort ouids))
        in remdups_adj (sort (found @ grouped)))"

definition findDocumentIDs :: "codec \<Rightarrow> jsondoc \<Rightarrow> object_t \<Rightarrow> exn + string list" where
  "findDocumentIDs c search ix =
     (if doc_empty search then Inl Runtime_exception
      else bindE (bindE (doc_text c search) (c_read c)) (\<lambda>r. case r of
          None \<Rightarrow> Inr []
        | Some criteria \<Rightarrow>
            if criteria = [] then getObjectIds ix
            else bindE (collect_matches c ix criteria 0 []) (\<lambda>(n, ouids). Inr (select_ids n ouids))))"

text \<open>\<open>_build_ouid_map\<close>: later entries overwrite earlier ones.\<close>

fun ouid_map_of :: "object_t \<Rightarrow> (string \<rightharpoonup> string) \<Rightarrow> exn + (string \<rightharpoonup> string)" where
  "ouid_map_of [] m = Inr m"
| "ouid_map_of ((key, v) # t) m =
     bindE (bindE (get_array v) (mapE get_string)) (\<lambda>ouids.
       ouid_map_of t (fold (\<lambda>ouid m. m(ouid \<mapsto> key)) ouids m))"

definition idx_build_ouid_map :: "string \<Rightarrow> object_t \<Rightarrow> exn + (string \<rightharpoonup> string)" where
  "idx_build_ouid_map what ix =
     (if what = [] then Inl Runtime_exception
      else bindE (bindE (table_at what ix) get_object) (\<lambda>t. ouid_map_of t (\<lambda>_. None)))"

definition accept_attribute :: "string \<Rightarrow> string \<Rightarrow> bool" where
  "accept_attribute filt x =
     (filt = [] \<or> length filt \<le> length x \<and>
       (if last filt \<noteq> CHR ''*'' then length x = length filt \<and> x = filt else prefix (butlast filt) x))"

definition idx_filtered_attribute_list :: "string \<Rightarrow> string \<Rightarrow> object_t \<Rightarrow> exn + string list" where
  "idx_filtered_attribute_list attribute filt ix =
     (if attribute = [] then Inl Runtime_exception
      else bindE (bindE (table_at attribute ix) get_object) (\<lambda>t.
        Inr (filter (accept_attribute filt) (map fst t))))"

text \<open>The filter of the join; \<open>back()\<close> of an empty filter has no defined result.\<close>

definition accept_join :: "string \<Rightarrow> string \<Rightarrow> exn + bool" where
  "accept_join filt x =
     (if filt = [] then Inl Undefined
      else if last filt \<noteq> CHR ''*'' then Inr (x = filt)
      else Inr (prefix (butlast filt) x))"

fun join_entries :: "string \<Rightarrow> (string \<rightharpoonup> string) \<Rightarrow> object_t \<Rightarrow> exn + (string \<times> string) list" where
  "join_entries filt m [] = Inr []"
| "join_entries filt m ((key, v) # t) =
     bindE (accept_join filt key) (\<lambda>b.
       bindE (if b then
           bindE (get_array v) (mapE (\<lambda>x. bindE (get_string x) (\<lambda>ouid.
             case m ouid of None \<Rightarrow> Inl Out_of_range | Some l \<Rightarrow> Inr (key, l))))
         else Inr []) (\<lambda>found.
       bindE (join_entries filt m t) (\<lambda>rest. Inr (found @ rest))))"

definition idx_innerjoin :: "string \<Rightarrow> string \<Rightarrow> string \<Rightarrow> object_t \<Rightarrow> exn + (string \<times> string) list" where
  "idx_innerjoin left right filt ix =
     bindE (idx_build_ouid_map left ix) (\<lambda>m.
     bindE (bindE (table_at right ix) get_object) (\<lambda>t.
     bindE (join_entries filt m t) (\<lambda>found.
       Inr (if length found < 2 then found else remdups_adj (sort found)))))"

section \<open>The searches of the client interface\<close>

text \<open>The string value of a criterion, or a default for anything else.\<close>

definition criterion :: "string \<Rightarrow> string \<Rightarrow> object_t \<Rightarrow> string" where
  "criterion k dflt ast = (case bindE (table_at k ast) get_string of Inl _ \<Rightarrow> dflt | Inr s \<Rightarrow> s)"

definition searching :: "codec \<Rightarrow> jsondoc \<Rightarrow> (object_t \<Rightarrow> exn + 'a list) \<Rightarrow> exn + 'a list" where
  "searching c search f =
     (if doc_empty search then Inl Runtime_exception
      else bindE (bindE (doc_text c search) (c_read c)) (\<lambda>r. case r of None \<Rightarrow> Inr [] | Some ast \<Rightarrow> f ast))"

definition findVersionsByGlobalConfigName :: "codec \<Rightarrow> jsondoc \<Rightarrow> object_t \<Rightarrow> exn + (string \<times> string) list" where
  "findVersionsByGlobalConfigName c search ix =
     searching c search (\<lambda>ast.
       idx_innerjoin ''version'' ''configurations.name'' (criterion ''configurations.name'' [] ast) ix)"

definition findVersionsByEntityName :: "codec \<Rightarrow> jsondoc \<Rightarrow> object_t \<Rightarrow> exn + (string \<times> string) list" where
  "findVersionsByEntityName c search ix =
     searching c search (\<lambda>ast.
       idx_innerjoin ''version'' ''entities.name'' (criterion ''entities.name'' ''notprovided'' ast) ix)"

definition findEntities :: "codec \<Rightarrow> jsondoc \<Rightarrow> object_t \<Rightarrow> exn + string list" where
  "findEntities c search ix =
     searching c search (\<lambda>ast.
       idx_filtered_attribute_list ''entities.name'' (criterion ''entities.name'' [] ast) ix)"

definition findAllGlobalConfigurations :: "codec \<Rightarrow> jsondoc \<Rightarrow> object_t \<Rightarrow> exn + (string \<times> string) list" where
  "findAllGlobalConfigurations c search ix =
     searching c search (\<lambda>ast.
       idx_innerjoin ''entities.name'' ''configurations.name'' (criterion ''configurations.name'' [] ast) ix)"

definition getConfigurationAssignedTimestamps :: "codec \<Rightarrow> jsondoc \<Rightarrow> object_t \<Rightarrow> exn + string list" where
  "getConfigurationAssignedTimestamps c search ix =
     searching c search (\<lambda>ast.
       catchE out_of_range
         (bindE (bindE (table_at ''configurations.assigned'' ix) get_object) (\<lambda>t.
            bindE (array_member (criterion ''configurations.name'' [] ast) t) (mapE get_string)))
         (Inr []))"

end
