(* ===== verification/SearchLaws.thy ===== *)
theory SearchLaws
  imports SearchIndex
begin

text \<open>
  The meaning of the search index: the set of its documents and, for each attribute and key,
  the set of the documents that have it.  The posting lists implement an interface that adds,
  removes and finds members of such a set; the theorems on indexing and searching rest on it.
\<close>

section \<open>Well-formed posting lists\<close>

fun posting_ids :: "value_t \<Rightarrow> string list" where
  "posting_ids (Arr vs) = (case mapE get_string vs of Inr ss \<Rightarrow> ss | Inl _ \<Rightarrow> [])"
| "posting_ids _ = []"

definition posting_value :: "value_t \<Rightarrow> bool" where
  "posting_value v \<longleftrightarrow> (case bindE (get_array v) (mapE get_string) of Inl _ \<Rightarrow> False | Inr ss \<Rightarrow> sorted_wrt (<) ss)"

lemma mapE_get_string: "mapE get_string vs = Inr ss \<longleftrightarrow> vs = map Str ss"
proof
  show "vs = map Str ss \<Longrightarrow> mapE get_string vs = Inr ss"
    by (induction ss arbitrary: vs) simp_all
  show "mapE get_string vs = Inr ss \<Longrightarrow> vs = map Str ss"
  proof (induction vs arbitrary: ss)
    case (Cons v vs)
    then show ?case by (cases v) (auto simp: bindE_eq_Inr)
  qed simp
qed

lemma mapE_get_string_Str [simp]: "mapE get_string (map Str ss) = Inr ss"
  by (simp add: mapE_get_string)

lemma posting_ids_Str [simp]: "posting_ids (Arr (map Str ss)) = ss"
  by simp

lemma posting_value_iff: "posting_value v \<longleftrightarrow> (\<exists>ss. v = Arr (map Str ss) \<and> sorted_wrt (<) ss)"
proof (cases v)
  case (Arr vs)
  show ?thesis
  proof (cases "mapE get_string vs")
    case (Inl e)
    then show ?thesis using Arr by (auto simp: posting_value_def)
  next
    case (Inr ss)
    then have "vs = map Str us \<longleftrightarrow> us = ss" for us by (auto simp flip: mapE_get_string)
    then show ?thesis using Arr Inr by (simp add: posting_value_def)
  qed
qed (simp_all add: posting_value_def)

lemma posting_value_ids: "posting_value v \<Longrightarrow> v = Arr (map Str (posting_ids v)) \<and> sorted_wrt (<) (posting_ids v)"
  by (auto simp: posting_value_iff)

text \<open>Strictly sorted lists stand for the sets of their elements.\<close>

lemma strictly_sorted_set: "sorted_wrt (<) (ss :: string list) \<Longrightarrow> ss = sorted_list_of_set (set ss)"
  by (simp add: sorted_list_of_set.idem_if_sorted_distinct strict_sorted_iff)

lemma distinct_remdups_adj: "sorted (ss :: 'a :: linorder list) \<Longrightarrow> distinct (remdups_adj ss)"
proof (induction ss rule: remdups_adj.induct)
  case (3 x y xs)
  then show ?case by (auto simp: less_le_trans dest!: order.antisym)
qed simp_all

lemma sorted_remdups_adj_sort:
  "remdups_adj (sort (ss :: 'a :: linorder list)) = sorted_list_of_set (set ss)"
  by (rule sorted_distinct_set_unique) (simp_all add: distinct_remdups_adj sorted_remdups_adj)

section \<open>Well-formed indexes\<close>

definition attributes :: "string list" where
  "attributes = [''version'', ''configurations.name'', ''entities.name'', ''aliases.active.name'',
     ''runs.name'', ''configurations.assigned'']"

fun posting_table :: "value_t \<Rightarrow> bool" where
  "posting_table (Obj t) = (distinct (map fst t) \<and> list_all (\<lambda>p. posting_value (snd p)) t)"
| "posting_table _ = False"

definition wf_index :: "object_t \<Rightarrow> bool" where
  "wf_index ix \<longleftrightarrow>
     (case map_of ix ''ouid'' of Some v \<Rightarrow> posting_value v | None \<Rightarrow> False) \<and>
     list_all (\<lambda>a. case map_of ix a of Some v \<Rightarrow> posting_table v | None \<Rightarrow> False) attributes"

text \<open>The documents of the index, and those that have the key of an attribute.\<close>

definition documents :: "object_t \<Rightarrow> string set" where
  "documents ix = (case map_of ix ''ouid'' of Some v \<Rightarrow> set (posting_ids v) | None \<Rightarrow> {})"

definition having :: "object_t \<Rightarrow> string \<Rightarrow> string \<Rightarrow> string set" where
  "having ix attr key =
     (case map_of ix attr of
        Some (Obj t) \<Rightarrow> (case map_of t key of Some v \<Rightarrow> set (posting_ids v) | None \<Rightarrow> {})
      | _ \<Rightarrow> {})"

lemma wf_index_table:
  assumes "wf_index ix" "attr \<in> set attributes"
  obtains t where "map_of ix attr = Some (Obj t)" "distinct (map fst t)" "\<forall>p \<in> set t. posting_value (snd p)"
proof -
  obtain v where v: "map_of ix attr = Some v" "posting_table v"
    using assms by (auto simp: wf_index_def list_all_iff split: option.splits)
  then obtain t where "v = Obj t" by (cases v) auto
  then show ?thesis using that v by (simp add: list_all_iff)
qed

lemma wf_index_ids:
  assumes "wf_index ix"
  obtains v where "map_of ix ''ouid'' = Some v" "posting_value v"
  using assms by (auto simp: wf_index_def split: option.splits)

lemma ouid_no_attribute: "''ouid'' \<notin> set attributes"
  by (simp add: attributes_def)

lemma finite_having [simp]: "finite (having ix a k)" "finite (documents ix)"
  by (auto simp: having_def documents_def split: option.splits value_t.splits)

text \<open>Exchanging one table or the list of identifiers.\<close>

lemma wf_index_put:
  assumes "wf_index ix" "map_of ix k = Some old"
    and "if k = ''ouid'' then posting_value v else posting_table v"
  shows "wf_index (put_first k v ix)"
proof -
  have k: "k \<in> fst ` set ix" using assms(2) by (metis map_of_eq_None_iff option.distinct(1))
  show ?thesis
  proof (cases "k = ''ouid''")
    case True
    then have "map_of (put_first k v ix) a = map_of ix a" if "a \<in> set attributes" for a
      using that ouid_no_attribute by (auto simp: map_of_put_first)
    then show ?thesis using assms True k by (simp add: wf_index_def map_of_put_first list_all_iff)
  next
    case False
    then show ?thesis using assms by (simp add: wf_index_def map_of_put_first k list_all_iff)
  qed
qed

lemma having_put:
  assumes "map_of ix k = Some old"
  shows "having (put_first k (Obj t) ix) =
      (having ix)(k := (\<lambda>key. case map_of t key of Some v \<Rightarrow> set (posting_ids v) | None \<Rightarrow> {}))"
    and "k \<noteq> ''ouid'' \<Longrightarrow> documents (put_first k v ix) = documents ix"
    and "documents (put_first ''ouid'' v ix) = (if ''ouid'' \<in> fst ` set ix then set (posting_ids v) else documents ix)"
    and "old = Arr us \<Longrightarrow> having (put_first k (Arr vs) ix) = having ix"
proof -
  have k: "k \<in> fst ` set ix" using assms by (metis map_of_eq_None_iff option.distinct(1))
  show "having (put_first k (Obj t) ix) =
      (having ix)(k := (\<lambda>key. case map_of t key of Some v \<Rightarrow> set (posting_ids v) | None \<Rightarrow> {}))"
    using k by (auto simp: having_def map_of_put_first fun_eq_iff)
  show "k \<noteq> ''ouid'' \<Longrightarrow> documents (put_first k v ix) = documents ix"
    by (auto simp: documents_def map_of_put_first)
  show "documents (put_first ''ouid'' v ix) = (if ''ouid'' \<in> fst ` set ix then set (posting_ids v) else documents ix)"
    by (auto simp: documents_def map_of_put_first)
  show "old = Arr us \<Longrightarrow> having (put_first k (Arr vs) ix) = having ix"
    using assms k by (auto simp: having_def map_of_put_first fun_eq_iff)
qed

section \<open>The interface of a posting table\<close>

text \<open>\<open>f\<close> applies \<open>g\<close> to the set of the key of one attribute and changes nothing else.\<close>

definition updates_attr :: "string \<Rightarrow> (string \<Rightarrow> unit si) \<Rightarrow> (string set \<Rightarrow> string set) \<Rightarrow> bool" where
  "updates_attr attr f g \<longleftrightarrow>
     (\<forall>ix key. wf_index ix \<longrightarrow> key \<noteq> [] \<longrightarrow>
       (\<exists>ix'. f key ix = (Inr (), ix') \<and> wf_index ix' \<and> documents ix' = documents ix \<and>
         having ix' = (having ix)(attr := (having ix attr)(key := g (having ix attr key)))))"

lemma updates_attrE:
  assumes "updates_attr attr f g" "wf_index ix" "key \<noteq> []"
  obtains ix' where "f key ix = (Inr (), ix')" "wf_index ix'" "documents ix' = documents ix"
    "having ix' = (having ix)(attr := (having ix attr)(key := g (having ix attr key)))"
  using assms unfolding updates_attr_def by blast

text \<open>The loop over the names of a list of entries.\<close>

definition at_keys :: "string set \<Rightarrow> (string set \<Rightarrow> string set) \<Rightarrow> (string \<Rightarrow> string set) \<Rightarrow> string \<Rightarrow> string set" where
  "at_keys ks g h k = (if k \<in> ks then g (h k) else h k)"

lemma entries_run:
  assumes "updates_attr attr f g" "\<And>X. g (g X) = g X"
    and "wf_index ix" "map (string_member ''name'') vs = map Inr keys" "[] \<notin> set keys"
  shows "\<exists>ix'. idx_entries f vs ix = (Inr (), ix') \<and> wf_index ix' \<and> documents ix' = documents ix \<and>
    having ix' = (having ix)(attr := at_keys (set keys) g (having ix attr))"
  using assms(3-5)
proof (induction vs arbitrary: ix keys)
  case Nil
  then show ?case by (intro exI[of _ ix]) (simp add: idx_entries_def retM_run at_keys_def)
next
  case (Cons v vs)
  then obtain k ks where k: "keys = k # ks" "string_member ''name'' v = Inr k" "k \<noteq> []"
      "map (string_member ''name'') vs = map Inr ks" "[] \<notin> set ks" by auto
  obtain ix1 where ix1: "f k ix = (Inr (), ix1)" "wf_index ix1" "documents ix1 = documents ix"
      "having ix1 = (having ix)(attr := (having ix attr)(k := g (having ix attr k)))"
    using updates_attrE[OF assms(1) Cons.prems(1) k(3)] .
  obtain ix2 where ix2: "idx_entries f vs ix1 = (Inr (), ix2)" "wf_index ix2" "documents ix2 = documents ix1"
      "having ix2 = (having ix1)(attr := at_keys (set ks) g (having ix1 attr))"
    using Cons.IH[OF ix1(2) k(4,5)] by blast
  have "idx_entries f (v # vs) ix = (Inr (), ix2)"
    using ix1(1) ix2(1) by (simp add: idx_entries_def thenM_run bindM_run liftE_run k(2))
  moreover have "having ix2 = (having ix)(attr := at_keys (set keys) g (having ix attr))"
    unfolding ix2(4) ix1(4) k(1) by (auto simp: fun_eq_iff at_keys_def assms(2))
  ultimately show ?case using ix1(3) ix2(2,3) by (intro exI[of _ ix2]) simp
qed

text \<open>
  One attribute of an index: \<open>add\<close> and \<open>remove\<close> change the set of one key of the attribute and
  nothing else, and \<open>find\<close> lists that set in order.
\<close>

locale posting_index =
  fixes attr :: string
    and add remove :: "string \<Rightarrow> string \<Rightarrow> unit si"
    and find :: "string \<Rightarrow> object_t \<Rightarrow> exn + string list"
  assumes find_law: "wf_index ix \<Longrightarrow> key \<noteq> [] \<Longrightarrow> find key ix = Inr (sorted_list_of_set (having ix attr key))"
    and add_law: "x \<noteq> [] \<Longrightarrow> updates_attr attr (add x) (insert x)"
    and remove_law: "x \<noteq> [] \<Longrightarrow> updates_attr attr (remove x) (\<lambda>X. X - {x})"
    and guarded: "x = [] \<or> key = [] \<Longrightarrow> add x key ix = (Inl Runtime_exception, ix)"
      "x = [] \<or> key = [] \<Longrightarrow> remove x key ix = (Inl Runtime_exception, ix)"
begin

lemma kept: "stays_in (\<lambda>ix ix'. wf_index ix \<longrightarrow> wf_index ix') (add x key)"
    "stays_in (\<lambda>ix ix'. wf_index ix \<longrightarrow> wf_index ix') (remove x key)"
proof -
  have "wf_index (snd (add x key ix)) \<and> wf_index (snd (remove x key ix))" if wf: "wf_index ix" for ix
  proof (cases "x = [] \<or> key = []")
    case True
    then show ?thesis using guarded wf by simp
  next
    case False
    then have x: "x \<noteq> []" "key \<noteq> []" by simp_all
    obtain ix1 where "add x key ix = (Inr (), ix1)" "wf_index ix1" by (rule updates_attrE[OF add_law[OF x(1)] wf x(2)])
    moreover obtain ix2 where "remove x key ix = (Inr (), ix2)" "wf_index ix2"
      by (rule updates_attrE[OF remove_law[OF x(1)] wf x(2)])
    ultimately show ?thesis by simp
  qed
  then show "stays_in (\<lambda>ix ix'. wf_index ix \<longrightarrow> wf_index ix') (add x key)"
    "stays_in (\<lambda>ix ix'. wf_index ix \<longrightarrow> wf_index ix') (remove x key)" by (auto simp: stays_in_def)
qed

lemma add_entries:
  assumes "wf_index ix" "x \<noteq> []" "map (string_member ''name'') vs = map Inr keys" "[] \<notin> set keys"
  shows "\<exists>ix'. idx_entries (add x) vs ix = (Inr (), ix') \<and> wf_index ix' \<and> documents ix' = documents ix \<and>
    having ix' = (having ix)(attr := at_keys (set keys) (insert x) (having ix attr))"
  by (rule entries_run[OF add_law]) (use assms in auto)

lemma remove_entries:
  assumes "wf_index ix" "x \<noteq> []" "map (string_member ''name'') vs = map Inr keys" "[] \<notin> set keys"
  shows "\<exists>ix'. idx_entries (remove x) vs ix = (Inr (), ix') \<and> wf_index ix' \<and> documents ix' = documents ix \<and>
    having ix' = (having ix)(attr := at_keys (set keys) (\<lambda>X. X - {x}) (having ix attr))"
  by (rule entries_run[OF remove_law]) (use assms in auto)

text \<open>What was added is found until it is removed.\<close>

lemma added_is_found:
  assumes "wf_index ix" "x \<noteq> []" "key \<noteq> []" "add x key ix = (Inr u, ix')"
  shows "find key ix' = Inr (sorted_list_of_set (insert x (having ix attr key)))"
proof (rule updates_attrE[OF add_law[OF assms(2)] assms(1,3)])
  fix ix1
  assume "add x key ix = (Inr (), ix1)" "wf_index ix1"
    "having ix1 = (having ix)(attr := (having ix attr)(key := insert x (having ix attr key)))"
  then show ?thesis using find_law[of ix1 key] assms(3,4) by simp
qed

end

section \<open>The posting tables of the index\<close>

lemma insert_sorted_run:
  "sorted_wrt (<) ss \<Longrightarrow> insert_sorted x (map Str ss) = (Inr (), map Str (sorted_list_of_set (insert x (set ss))))"
  using sorted_remdups_adj_sort[of "ss @ [x]"] mapE_get_string_Str[of "ss @ [x]"]
  by (simp add: insert_sorted_def thenM_run push_back_def make_unique_sorted_def)

lemma sorted_list_of_set_posting: "posting_value (Arr (map Str (sorted_list_of_set X)))"
  by (auto simp: posting_value_iff strict_sorted_iff)

lemma slot_run:
  assumes "map_of ps k = Some v"
  shows "slot k m ps = (fst (m v), put_first k (snd (m v)) ps)"
  by (simp add: slot_def table_at_map_of assms split: prod.splits)

lemma subscript_run:
  "subscript k m ps =
     (case map_of ps k of
        Some v \<Rightarrow> (fst (m v), put_first k (snd (m v)) ps)
      | None \<Rightarrow> (fst (m (Bool False)), ps @ [(k, snd (m (Bool False)))]))"
proof -
  have index: "table_index k ps = (case map_of ps k of Some v \<Rightarrow> (v, ps) | None \<Rightarrow> (Bool False, ps @ [(k, Bool False)]))"
    by (induction k ps rule: table_index.induct) (auto split: option.splits prod.splits)
  show ?thesis
  proof (cases "map_of ps k")
    case None
    then have "k \<notin> fst ` set ps" by (simp add: map_of_eq_None_iff)
    then show ?thesis by (simp add: subscript_def index None put_first_append split: prod.splits)
  qed (simp add: subscript_def index split: prod.splits)
qed

lemma posting_table_put:
  assumes "distinct (map fst t)" "\<forall>p \<in> set t. posting_value (snd p)" "posting_value v"
  shows "posting_table (Obj (put_first k v t))"
  using assms by (induction k v t rule: put_first.induct) (auto simp: list_all_iff image_iff map_fst_put_first simp flip: set_map)

text \<open>Every adder is \<open>add_posting\<close>, every remover \<open>remove_posting\<close> of its attribute.\<close>

lemma add_posting_updates:
  assumes attr: "attr \<in> set attributes" and x: "x \<noteq> []"
  shows "updates_attr attr (add_posting attr x) (insert x)"
  unfolding updates_attr_def
proof (intro allI impI)
  fix ix and key :: string
  assume wf: "wf_index ix" and key: "key \<noteq> []"
  obtain t where t: "map_of ix attr = Some (Obj t)" "distinct (map fst t)" "\<forall>p \<in> set t. posting_value (snd p)"
    using wf_index_table[OF wf attr] .
  let ?X = "having ix attr key"
  define new where "new = Arr (map Str (sorted_list_of_set (insert x ?X)))"
  have new: "posting_value new" "set (posting_ids new) = insert x ?X"
    unfolding new_def by (rule sorted_list_of_set_posting) (simp del: sorted_list_of_set_insert_remove)
  have H: "?X = (case map_of t key of Some v \<Rightarrow> set (posting_ids v) | None \<Rightarrow> {})"
    by (simp add: having_def t(1))
  have "\<exists>t'. subscript key (add_to_entry x) t = (Inr (), t') \<and> posting_table (Obj t') \<and> map_of t' = (map_of t)(key \<mapsto> new)"
  proof (cases "map_of t key")
    case None
    then have "subscript key (add_to_entry x) t = (Inr (), t @ [(key, new)])"
      using insert_sorted_run[of "[]" x] by (simp add: subscript_run add_to_entry_def as_array_def H new_def)
    moreover have "key \<notin> fst ` set t" using None by (simp add: map_of_eq_None_iff)
    ultimately show ?thesis
      using t(2,3) new(1) by (intro exI[of _ "t @ [(key, new)]"])
        (auto simp: list_all_iff map_add_def fun_eq_iff None split: option.splits)
  next
    case (Some v)
    then have "posting_value v" using t(3) map_of_SomeD by fastforce
    then have v: "v = Arr (map Str (posting_ids v))" "sorted_wrt (<) (posting_ids v)" using posting_value_ids by blast+
    have "add_to_entry x v = (Inr (), new)"
      by (subst v(1)) (simp add: add_to_entry_def as_array_def insert_sorted_run[OF v(2)] H Some new_def del: posting_ids.simps)
    then have "subscript key (add_to_entry x) t = (Inr (), put_first key new t)" by (simp add: subscript_run Some)
    moreover have "key \<in> fst ` set t" using Some by (metis map_of_eq_None_iff option.distinct(1))
    ultimately show ?thesis
      using posting_table_put[OF t(2,3) new(1)] by (intro exI[of _ "put_first key new t"]) (simp add: map_of_put_first)
  qed
  then obtain t' where t': "subscript key (add_to_entry x) t = (Inr (), t')" "posting_table (Obj t')"
      "map_of t' = (map_of t)(key \<mapsto> new)" by blast
  have attr': "attr \<noteq> ''ouid''" using attr ouid_no_attribute by blast
  let ?ix = "put_first attr (Obj t') ix"
  have "add_posting attr x key ix = (Inr (), ?ix)"
    by (simp add: add_posting_def thenM_run confirm_run x key slot_run[OF t(1)] as_object_def t'(1))
  moreover have "wf_index ?ix" using wf_index_put[OF wf t(1)] attr' t'(2) by simp
  moreover have "having ?ix = (having ix)(attr := (having ix attr)(key := insert x ?X))"
    by (auto simp: having_put(1)[OF t(1)] t'(3) fun_eq_iff having_def t(1) new(2) simp del: posting_ids.simps)
  ultimately show "\<exists>ix'. add_posting attr x key ix = (Inr (), ix') \<and> wf_index ix' \<and> documents ix' = documents ix \<and>
      having ix' = (having ix)(attr := (having ix attr)(key := insert x ?X))"
    using having_put(2)[OF t(1) attr'] by blast
qed

lemma filter_out_run: "filter_out x (map Str ss) = (Inr (), map Str (filter (\<lambda>s. s \<noteq> x) ss))"
  by (simp add: filter_out_def)

lemma posting_value_filter: "sorted_wrt (<) ss \<Longrightarrow> posting_value (Arr (map Str (filter P ss)))"
  by (auto simp: posting_value_iff sorted_wrt_filter)

lemma remove_posting_updates:
  assumes attr: "attr \<in> set attributes" and x: "x \<noteq> []"
  shows "updates_attr attr (remove_posting attr x) (\<lambda>X. X - {x})"
  unfolding updates_attr_def
proof (intro allI impI)
  fix ix and key :: string
  assume wf: "wf_index ix" and key: "key \<noteq> []"
  obtain t where t: "map_of ix attr = Some (Obj t)" "distinct (map fst t)" "\<forall>p \<in> set t. posting_value (snd p)"
    using wf_index_table[OF wf attr] .
  have attr': "attr \<noteq> ''ouid''" using attr ouid_no_attribute by blast
  let ?X = "having ix attr key"
  have H: "?X = (case map_of t key of Some v \<Rightarrow> set (posting_ids v) | None \<Rightarrow> {})"
    by (simp add: having_def t(1))
  have "\<exists>t'. catchM out_of_range (slot key (as_array (filter_out x))) (retM ()) t = (Inr (), t') \<and> posting_table (Obj t') \<and>
      (\<lambda>k. case map_of t' k of Some v \<Rightarrow> set (posting_ids v) | None \<Rightarrow> {}) = (having ix attr)(key := ?X - {x})"
  proof (cases "map_of t key")
    case None
    then have "catchM out_of_range (slot key (as_array (filter_out x))) (retM ()) t = (Inr (), t)"
      by (simp add: catchM_run slot_def table_at_map_of out_of_range_def retM_run)
    moreover have "?X = {}" by (simp add: H None)
    ultimately show ?thesis
      using t by (intro exI[of _ t]) (auto simp: list_all_iff having_def t(1) fun_eq_iff simp del: posting_ids.simps)
  next
    case (Some v)
    then have "posting_value v" using t(3) map_of_SomeD by fastforce
    then have v: "v = Arr (map Str (posting_ids v))" "sorted_wrt (<) (posting_ids v)" using posting_value_ids by blast+
    define new where "new = Arr (map Str (filter (\<lambda>s. s \<noteq> x) (posting_ids v)))"
    have new: "posting_value new" "set (posting_ids new) = ?X - {x}"
      using posting_value_filter[OF v(2)] by (auto simp: new_def H Some simp del: posting_ids.simps)
    have "as_array (filter_out x) v = (Inr (), new)"
      by (subst v(1)) (simp add: as_array_def filter_out_run new_def del: posting_ids.simps)
    then have "slot key (as_array (filter_out x)) t = (Inr (), put_first key new t)" by (simp add: slot_run[OF Some])
    moreover have "key \<in> fst ` set t" using Some by (metis map_of_eq_None_iff option.distinct(1))
    ultimately show ?thesis
      using posting_table_put[OF t(2,3) new(1)] new(2)
      by (intro exI[of _ "put_first key new t"])
        (auto simp: catchM_run map_of_put_first having_def t(1) fun_eq_iff simp del: posting_ids.simps)
  qed
  then obtain t' where t': "catchM out_of_range (slot key (as_array (filter_out x))) (retM ()) t = (Inr (), t')"
      "posting_table (Obj t')"
      "(\<lambda>k. case map_of t' k of Some v \<Rightarrow> set (posting_ids v) | None \<Rightarrow> {}) = (having ix attr)(key := ?X - {x})" by blast
  let ?ix = "put_first attr (Obj t') ix"
  have "remove_posting attr x key ix = (Inr (), ?ix)"
    by (simp add: remove_posting_def thenM_run confirm_run x key slot_run[OF t(1)] as_object_def t'(1))
  moreover have "wf_index ?ix" using wf_index_put[OF wf t(1)] attr' t'(2) by simp
  moreover have "having ?ix = (having ix)(attr := (having ix attr)(key := ?X - {x}))"
    by (simp add: having_put(1)[OF t(1)] t'(3))
  ultimately show "\<exists>ix'. remove_posting attr x key ix = (Inr (), ix') \<and> wf_index ix' \<and> documents ix' = documents ix \<and>
      having ix' = (having ix)(attr := (having ix attr)(key := ?X - {x}))"
    using having_put(2)[OF t(1) attr'] by blast
qed

lemma match_posting_finds:
  assumes "wf_index ix" "attr \<in> set attributes" "key \<noteq> []"
  shows "match_posting attr key ix = Inr (sorted_list_of_set (having ix attr key))"
proof -
  obtain t where t: "map_of ix attr = Some (Obj t)" "\<forall>p \<in> set t. posting_value (snd p)"
    using wf_index_table[OF assms(1,2)] .
  show ?thesis
  proof (cases "map_of t key")
    case None
    then show ?thesis
      by (simp add: match_posting_def assms(3) table_at_map_of t(1) array_member_def out_of_range_def having_def)
  next
    case (Some v)
    then have "posting_value v" using t(2) map_of_SomeD by fastforce
    then have v: "v = Arr (map Str (posting_ids v))" "sorted_wrt (<) (posting_ids v)" using posting_value_ids by blast+
    then have "bindE (get_array v) (mapE get_string) = Inr (posting_ids v)"
      by (metis bindE_simps(2) get_array.simps(1) mapE_get_string_Str)
    then show ?thesis
      using strictly_sorted_set[OF v(2)]
      by (simp add: match_posting_def assms(3) table_at_map_of t(1) Some array_member_def having_def bindE_def
          split: sum.splits)
  qed
qed

lemma posting_guarded:
  "x = [] \<or> key = [] \<Longrightarrow> add_posting attr x key ix = (Inl Runtime_exception, ix)"
  "x = [] \<or> key = [] \<Longrightarrow> remove_posting attr x key ix = (Inl Runtime_exception, ix)"
  by (auto simp: add_posting_def remove_posting_def thenM_run confirm_run)

lemma posting_index_attr:
  "attr \<in> set attributes \<Longrightarrow> posting_index attr (add_posting attr) (remove_posting attr) (match_posting attr)"
  by unfold_locales (simp_all add: match_posting_finds add_posting_updates remove_posting_updates posting_guarded)

interpretation versions: posting_index "''version''" idx_addVersion idx_removeVersion idx_matchVersion
  unfolding idx_addVersion_def[abs_def] idx_removeVersion_def[abs_def] idx_matchVersion_def[abs_def]
  by (rule posting_index_attr) (simp add: attributes_def)

interpretation configs: posting_index "''configurations.name''" idx_addConfiguration idx_removeConfiguration
    idx_matchConfiguration
  unfolding idx_addConfiguration_def[abs_def] idx_removeConfiguration_def[abs_def] idx_matchConfiguration_def[abs_def]
  by (rule posting_index_attr) (simp add: attributes_def)

interpretation entities: posting_index "''entities.name''" idx_addEntity idx_removeEntity idx_matchEntity
  unfolding idx_addEntity_def[abs_def] idx_removeEntity_def[abs_def] idx_matchEntity_def[abs_def]
  by (rule posting_index_attr) (simp add: attributes_def)

interpretation veraliases: posting_index "''aliases.active.name''" idx_addVersionAlias idx_removeVersionAlias
    idx_matchVersionAlias
  unfolding idx_addVersionAlias_def[abs_def] idx_removeVersionAlias_def[abs_def] idx_matchVersionAlias_def[abs_def]
  by (rule posting_index_attr) (simp add: attributes_def)

interpretation runs: posting_index "''runs.name''" idx_addRun idx_removeRun idx_matchRun
  unfolding idx_addRun_def[abs_def] idx_removeRun_def[abs_def] idx_matchRun_def[abs_def]
  by (rule posting_index_attr) (simp add: attributes_def)

interpretation assigned: posting_index "''configurations.assigned''" idx_addConfigurationAssigned
    idx_removeConfigurationAssigned "match_posting ''configurations.assigned''"
  unfolding idx_addConfigurationAssigned_def[abs_def] idx_removeConfigurationAssigned_def[abs_def]
  by (rule posting_index_attr) (simp add: attributes_def)

section \<open>Indexing a document\<close>

text \<open>What the index reads off a document.\<close>

record facts =
  f_version :: string
  f_configs :: "(string \<times> string) list"
  f_entities :: "string list"
  f_aliases :: "string list"
  f_runs :: "string list"

definition names_in :: "exn + array_t \<Rightarrow> exn + string list" where
  "names_in r = bindE r (mapE (string_member ''name''))"

definition describes :: "facts \<Rightarrow> object_t \<Rightarrow> bool" where
  "describes f ast \<longleftrightarrow>
     bindE (table_at ''version'' ast) get_string = Inr (f_version f) \<and>
     names_in (array_member ''configurations'' ast) = Inr (map fst (f_configs f)) \<and>
     bindE (array_member ''configurations'' ast) (mapE (string_member ''assigned'')) = Inr (map snd (f_configs f)) \<and>
     names_in (array_member ''entities'' ast) = Inr (f_entities f) \<and>
     names_in (active_aliases ast) = Inr (f_aliases f) \<and>
     names_in (array_member ''runs'' ast) = Inr (f_runs f) \<and>
     [] \<notin> set (f_version f # map fst (f_configs f) @ map snd (f_configs f) @ f_entities f @ f_aliases f @ f_runs f)"

text \<open>The sets a document contributes to, and those it is taken out of.\<close>

definition added :: "facts \<Rightarrow> string \<Rightarrow> string \<Rightarrow> string \<Rightarrow> string set" where
  "added f x attr k =
     (if attr = ''configurations.assigned'' then {t. (k, t) \<in> set (f_configs f)}
      else if k \<in> set (if attr = ''version'' then [f_version f]
                  else if attr = ''configurations.name'' then map fst (f_configs f)
                  else if attr = ''entities.name'' then f_entities f
                  else if attr = ''aliases.active.name'' then f_aliases f
                  else if attr = ''runs.name'' then f_runs f else [])
      then {x} else {})"

definition removed :: "facts \<Rightarrow> string \<Rightarrow> string \<Rightarrow> string \<Rightarrow> string set" where
  "removed f x attr k =
     (if attr = ''configurations.assigned'' then {t. (k, t) \<in> set (f_configs f)}
      else if k \<in> set (if attr = ''version'' then [f_version f]
                  else if attr = ''configurations.name'' then map fst (f_configs f) @ f_aliases f
                  else if attr = ''runs.name'' then f_runs f else [])
      then {x} else {})"

lemma names_inE:
  assumes "names_in r = Inr keys"
  obtains vs where "r = Inr vs" "map (string_member ''name'') vs = map Inr keys"
  using assms mapE_eq_Inr_map unfolding names_in_def bindE_eq_Inr by blast

text \<open>The loop over the configurations: names under one attribute, times under another.\<close>

lemma configurations_run:
  assumes "updates_attr a f g" "\<And>X. g (g X) = g X" "\<And>t. t \<noteq> [] \<Longrightarrow> updates_attr b (F t) (G t)" "a \<noteq> b"
    and "wf_index ix" "map (string_member ''name'') vs = map Inr (map fst cs)"
      "map (string_member ''assigned'') vs = map Inr (map snd cs)" "[] \<notin> fst ` set cs" "[] \<notin> snd ` set cs"
  shows "\<exists>ix'. idx_configurations f F vs ix = (Inr (), ix') \<and> wf_index ix' \<and> documents ix' = documents ix \<and>
    having ix' = (having ix)(a := at_keys (fst ` set cs) g (having ix a),
      b := (\<lambda>k. fold G (map snd (filter (\<lambda>c. fst c = k) cs)) (having ix b k)))"
  using assms(5-9)
proof (induction vs arbitrary: ix cs)
  case Nil
  then show ?case by (intro exI[of _ ix]) (simp add: idx_configurations_def retM_run at_keys_def)
next
  case (Cons v vs)
  then obtain k t cs' where c: "cs = (k, t) # cs'" "string_member ''name'' v = Inr k" "string_member ''assigned'' v = Inr t"
      "k \<noteq> []" "t \<noteq> []" "map (string_member ''name'') vs = map Inr (map fst cs')"
      "map (string_member ''assigned'') vs = map Inr (map snd cs')" "[] \<notin> fst ` set cs'" "[] \<notin> snd ` set cs'"
    by (cases cs) auto
  obtain ix1 where ix1: "f k ix = (Inr (), ix1)" "wf_index ix1" "documents ix1 = documents ix"
      "having ix1 = (having ix)(a := (having ix a)(k := g (having ix a k)))"
    using updates_attrE[OF assms(1) Cons.prems(1) c(4)] .
  obtain ix2 where ix2: "F t k ix1 = (Inr (), ix2)" "wf_index ix2" "documents ix2 = documents ix1"
      "having ix2 = (having ix1)(b := (having ix1 b)(k := G t (having ix1 b k)))"
    using updates_attrE[OF assms(3)[OF c(5)] ix1(2) c(4)] .
  obtain ix3 where ix3: "idx_configurations f F vs ix2 = (Inr (), ix3)" "wf_index ix3" "documents ix3 = documents ix2"
      "having ix3 = (having ix2)(a := at_keys (fst ` set cs') g (having ix2 a),
        b := (\<lambda>k. fold G (map snd (filter (\<lambda>c. fst c = k) cs')) (having ix2 b k)))"
    using Cons.IH[OF ix2(2) c(6-9)] by blast
  have "idx_configurations f F (v # vs) ix = (Inr (), ix3)"
    using ix1(1) ix2(1) ix3(1) by (simp add: idx_configurations_def thenM_run bindM_run liftE_run c(2,3))
  moreover have "having ix3 = (having ix)(a := at_keys (fst ` set cs) g (having ix a),
        b := (\<lambda>k. fold G (map snd (filter (\<lambda>c. fst c = k) cs)) (having ix b k)))"
    unfolding ix3(4) ix2(4) ix1(4) c(1) using assms(4) by (auto simp: fun_eq_iff at_keys_def assms(2))
  moreover have "documents ix3 = documents ix" using ix1(3) ix2(3) ix3(3) by simp
  ultimately show ?case using ix3(2) by blast
qed

lemma fold_remove: "fold (\<lambda>t X. X - {t}) ts X = X - set ts"
  by (induction ts arbitrary: X) auto

lemma fold_insert_set: "fold insert ts X = set ts \<union> X"
  by (induction ts arbitrary: X) auto

text \<open>The list of all documents.\<close>

lemma ids_run:
  assumes wf: "wf_index ix" and x: "x \<noteq> []"
  shows "\<exists>ix'. idx_addId x ix = (Inr (), ix') \<and> wf_index ix' \<and> documents ix' = insert x (documents ix) \<and> having ix' = having ix"
    and "\<exists>ix'. idx_removeId x ix = (Inr (), ix') \<and> wf_index ix' \<and> documents ix' = documents ix - {x} \<and> having ix' = having ix"
proof -
  obtain v where v: "map_of ix ''ouid'' = Some v" "posting_value v" using wf_index_ids[OF wf] .
  then have V: "v = Arr (map Str (posting_ids v))" "sorted_wrt (<) (posting_ids v)" using posting_value_ids by blast+
  have D: "documents ix = set (posting_ids v)" by (simp add: documents_def v(1))
  have o: "''ouid'' \<in> fst ` set ix" using v(1) by (metis map_of_eq_None_iff option.distinct(1))
  have put: "wf_index (put_first ''ouid'' (Arr (map Str ss)) ix) \<and> having (put_first ''ouid'' (Arr (map Str ss)) ix) = having ix
      \<and> documents (put_first ''ouid'' (Arr (map Str ss)) ix) = set ss" if "posting_value (Arr (map Str ss))" for ss
    using wf_index_put[OF wf v(1)] having_put(4)[OF v(1) V(1)] having_put(3)[OF v(1)] that o by simp
  have "as_array (insert_sorted x) v = (Inr (), Arr (map Str (sorted_list_of_set (insert x (documents ix)))))"
    by (subst V(1)) (simp add: as_array_def insert_sorted_run[OF V(2)] D del: posting_ids.simps sorted_list_of_set_insert_remove)
  then have "idx_addId x ix = (Inr (), put_first ''ouid'' (Arr (map Str (sorted_list_of_set (insert x (documents ix))))) ix)"
    by (simp add: idx_addId_def thenM_run confirm_run x slot_run[OF v(1)])
  then show "\<exists>ix'. idx_addId x ix = (Inr (), ix') \<and> wf_index ix' \<and> documents ix' = insert x (documents ix) \<and> having ix' = having ix"
    using put[OF sorted_list_of_set_posting[of "insert x (documents ix)"]]
    by (simp del: sorted_list_of_set_insert_remove)
  have "as_array (filter_out x) v = (Inr (), Arr (map Str (filter (\<lambda>s. s \<noteq> x) (posting_ids v))))"
    by (subst V(1)) (simp add: as_array_def filter_out_run del: posting_ids.simps)
  then have "idx_removeId x ix = (Inr (), put_first ''ouid'' (Arr (map Str (filter (\<lambda>s. s \<noteq> x) (posting_ids v)))) ix)"
    by (simp add: idx_removeId_def thenM_run confirm_run x slot_run[OF v(1)])
  then show "\<exists>ix'. idx_removeId x ix = (Inr (), ix') \<and> wf_index ix' \<and> documents ix' = documents ix - {x} \<and> having ix' = having ix"
    using put[OF posting_value_filter[OF V(2)]] D by (auto simp del: posting_ids.simps)
qed

lemma attribute_cases:
  obtains "a = ''version''" | "a = ''configurations.name''" | "a = ''entities.name''" | "a = ''aliases.active.name''"
    | "a = ''runs.name''" | "a = ''configurations.assigned''" | "a \<notin> set attributes"
  by (auto simp: attributes_def)

text \<open>Both updates, on a document that states all its facts.\<close>

lemma describes_parts:
  assumes "describes f ast"
  obtains cvs evs avs rvs where
    "bindE (table_at ''version'' ast) get_string = Inr (f_version f)" "f_version f \<noteq> []"
    "array_member ''configurations'' ast = Inr cvs" "map (string_member ''name'') cvs = map Inr (map fst (f_configs f))"
    "map (string_member ''assigned'') cvs = map Inr (map snd (f_configs f))"
    "[] \<notin> fst ` set (f_configs f)" "[] \<notin> snd ` set (f_configs f)"
    "array_member ''entities'' ast = Inr evs" "map (string_member ''name'') evs = map Inr (f_entities f)" "[] \<notin> set (f_entities f)"
    "active_aliases ast = Inr avs" "map (string_member ''name'') avs = map Inr (f_aliases f)" "[] \<notin> set (f_aliases f)"
    "array_member ''runs'' ast = Inr rvs" "map (string_member ''name'') rvs = map Inr (f_runs f)" "[] \<notin> set (f_runs f)"
proof -
  note d = assms[unfolded describes_def]
  obtain cvs where c: "array_member ''configurations'' ast = Inr cvs" "map (string_member ''name'') cvs = map Inr (map fst (f_configs f))"
    using d names_inE by blast
  have a: "map (string_member ''assigned'') cvs = map Inr (map snd (f_configs f))"
    using d mapE_eq_Inr_map[of "string_member ''assigned''" cvs "map snd (f_configs f)"] by (simp add: c(1))
  obtain evs where e: "array_member ''entities'' ast = Inr evs" "map (string_member ''name'') evs = map Inr (f_entities f)"
    using d names_inE by blast
  obtain avs where v: "active_aliases ast = Inr avs" "map (string_member ''name'') avs = map Inr (f_aliases f)"
    using d names_inE by blast
  obtain rvs where r: "array_member ''runs'' ast = Inr rvs" "map (string_member ''name'') rvs = map Inr (f_runs f)"
    using d names_inE by blast
  show ?thesis by (rule that[OF _ _ c a _ _ e _ v _ r]) (use d in auto)
qed

lemma add_ast_run:
  assumes "wf_index ix" "x \<noteq> []" "describes f ast"
  shows "\<exists>ix'. add_ast ast x ix = (Inr (), ix') \<and> wf_index ix' \<and> documents ix' = insert x (documents ix) \<and>
    having ix' = (\<lambda>a k. having ix a k \<union> added f x a k)"
proof -
  obtain cvs evs avs rvs where d: "bindE (table_at ''version'' ast) get_string = Inr (f_version f)" "f_version f \<noteq> []"
    "array_member ''configurations'' ast = Inr cvs" "map (string_member ''name'') cvs = map Inr (map fst (f_configs f))"
    "map (string_member ''assigned'') cvs = map Inr (map snd (f_configs f))"
    "[] \<notin> fst ` set (f_configs f)" "[] \<notin> snd ` set (f_configs f)"
    "array_member ''entities'' ast = Inr evs" "map (string_member ''name'') evs = map Inr (f_entities f)" "[] \<notin> set (f_entities f)"
    "active_aliases ast = Inr avs" "map (string_member ''name'') avs = map Inr (f_aliases f)" "[] \<notin> set (f_aliases f)"
    "array_member ''runs'' ast = Inr rvs" "map (string_member ''name'') rvs = map Inr (f_runs f)" "[] \<notin> set (f_runs f)"
    by (rule describes_parts[OF assms(3)])
  obtain ix0 where i0: "idx_addId x ix = (Inr (), ix0)" "wf_index ix0" "documents ix0 = insert x (documents ix)" "having ix0 = having ix"
    using ids_run(1)[OF assms(1,2)] by blast
  obtain ix1 where i1: "idx_addVersion x (f_version f) ix0 = (Inr (), ix1)" "wf_index ix1" "documents ix1 = documents ix0"
      "having ix1 = (having ix0)(''version'' := (having ix0 ''version'')(f_version f := insert x (having ix0 ''version'' (f_version f))))"
    by (rule updates_attrE[OF versions.add_law[OF assms(2)] i0(2) d(2)])
  obtain ix2 where i2: "idx_configurations (idx_addConfiguration x) idx_addConfigurationAssigned cvs ix1 = (Inr (), ix2)"
      "wf_index ix2" "documents ix2 = documents ix1"
      "having ix2 = (having ix1)(''configurations.name'' := at_keys (fst ` set (f_configs f)) (insert x) (having ix1 ''configurations.name''),
         ''configurations.assigned'' := (\<lambda>k. fold insert (map snd (filter (\<lambda>c. fst c = k) (f_configs f))) (having ix1 ''configurations.assigned'' k)))"
    using configurations_run[where F = idx_addConfigurationAssigned and G = insert,
        OF configs.add_law[OF assms(2)] insert_absorb2 assigned.add_law _ i1(2) d(4-7)] by auto
  obtain ix3 where i3: "idx_entries (idx_addEntity x) evs ix2 = (Inr (), ix3)" "wf_index ix3" "documents ix3 = documents ix2"
      "having ix3 = (having ix2)(''entities.name'' := at_keys (set (f_entities f)) (insert x) (having ix2 ''entities.name''))"
    using entities.add_entries[OF i2(2) assms(2) d(9,10)] by blast
  obtain ix4 where i4: "idx_entries (idx_addVersionAlias x) avs ix3 = (Inr (), ix4)" "wf_index ix4" "documents ix4 = documents ix3"
      "having ix4 = (having ix3)(''aliases.active.name'' := at_keys (set (f_aliases f)) (insert x) (having ix3 ''aliases.active.name''))"
    using veraliases.add_entries[OF i3(2) assms(2) d(12,13)] by blast
  obtain ix5 where i5: "idx_entries (idx_addRun x) rvs ix4 = (Inr (), ix5)" "wf_index ix5" "documents ix5 = documents ix4"
      "having ix5 = (having ix4)(''runs.name'' := at_keys (set (f_runs f)) (insert x) (having ix4 ''runs.name''))"
    using runs.add_entries[OF i4(2) assms(2) d(15,16)] by blast
  have "add_ast ast x ix = (Inr (), ix5)"
    by (simp add: add_ast_def thenM_run bindM_run liftE_run retM_run catchM_run add_entities_def add_aliases_def add_runs_def
        d(1,3,8,11,14) i0(1) i1(1) i2(1) i3(1) i4(1) i5(1))
  moreover have "having ix5 a k = having ix a k \<union> added f x a k" for a k
    by (cases a rule: attribute_cases;
        simp add: i5(4) i4(4) i3(4) i2(4) i1(4) i0(4) added_def at_keys_def fold_insert_set attributes_def; force?)
  moreover have "documents ix5 = insert x (documents ix)"
    by (simp add: i0(3) i1(3) i2(3) i3(3) i4(3) i5(3))
  ultimately show ?thesis using i5(2) by blast
qed

text \<open>\<open>removeDocument\<close> leaves the entities alone and looks for the aliases among the configurations.\<close>

lemma remove_ast_run:
  assumes "wf_index ix" "x \<noteq> []" "describes f ast"
  shows "\<exists>ix'. remove_ast ast x ix = (Inr (), ix') \<and> wf_index ix' \<and> documents ix' = documents ix - {x} \<and>
    having ix' = (\<lambda>a k. having ix a k - removed f x a k)"
proof -
  obtain cvs evs avs rvs where d: "bindE (table_at ''version'' ast) get_string = Inr (f_version f)" "f_version f \<noteq> []"
    "array_member ''configurations'' ast = Inr cvs" "map (string_member ''name'') cvs = map Inr (map fst (f_configs f))"
    "map (string_member ''assigned'') cvs = map Inr (map snd (f_configs f))"
    "[] \<notin> fst ` set (f_configs f)" "[] \<notin> snd ` set (f_configs f)"
    "array_member ''entities'' ast = Inr evs" "map (string_member ''name'') evs = map Inr (f_entities f)" "[] \<notin> set (f_entities f)"
    "active_aliases ast = Inr avs" "map (string_member ''name'') avs = map Inr (f_aliases f)" "[] \<notin> set (f_aliases f)"
    "array_member ''runs'' ast = Inr rvs" "map (string_member ''name'') rvs = map Inr (f_runs f)" "[] \<notin> set (f_runs f)"
    by (rule describes_parts[OF assms(3)])
  obtain ix0 where i0: "idx_removeId x ix = (Inr (), ix0)" "wf_index ix0" "documents ix0 = documents ix - {x}" "having ix0 = having ix"
    using ids_run(2)[OF assms(1,2)] by blast
  obtain ix1 where i1: "idx_removeVersion x (f_version f) ix0 = (Inr (), ix1)" "wf_index ix1" "documents ix1 = documents ix0"
      "having ix1 = (having ix0)(''version'' := (having ix0 ''version'')(f_version f := having ix0 ''version'' (f_version f) - {x}))"
    by (rule updates_attrE[OF versions.remove_law[OF assms(2)] i0(2) d(2)])
  obtain ix2 where i2: "idx_configurations (idx_removeConfiguration x) idx_removeConfigurationAssigned cvs ix1 = (Inr (), ix2)"
      "wf_index ix2" "documents ix2 = documents ix1"
      "having ix2 = (having ix1)(''configurations.name'' := at_keys (fst ` set (f_configs f)) (\<lambda>X. X - {x}) (having ix1 ''configurations.name''),
         ''configurations.assigned'' := (\<lambda>k. fold (\<lambda>t X. X - {t}) (map snd (filter (\<lambda>c. fst c = k) (f_configs f)))
            (having ix1 ''configurations.assigned'' k)))"
    using configurations_run[where F = idx_removeConfigurationAssigned and G = "\<lambda>t X. X - {t}",
        OF configs.remove_law[OF assms(2)] _ assigned.remove_law _ i1(2) d(4-7)] by auto
  obtain ix3 where i3: "idx_entries (idx_removeConfiguration x) avs ix2 = (Inr (), ix3)" "wf_index ix3" "documents ix3 = documents ix2"
      "having ix3 = (having ix2)(''configurations.name'' :=
         at_keys (set (f_aliases f)) (\<lambda>X. X - {x}) (having ix2 ''configurations.name''))"
    using configs.remove_entries[OF i2(2) assms(2) d(12,13)] by blast
  obtain ix4 where i4: "idx_entries (idx_removeRun x) rvs ix3 = (Inr (), ix4)" "wf_index ix4" "documents ix4 = documents ix3"
      "having ix4 = (having ix3)(''runs.name'' := at_keys (set (f_runs f)) (\<lambda>X. X - {x}) (having ix3 ''runs.name''))"
    using runs.remove_entries[OF i3(2) assms(2) d(15,16)] by blast
  have "remove_ast ast x ix = (Inr (), ix4)"
    by (simp add: remove_ast_def thenM_run bindM_run liftE_run retM_run d(1,3,8,11,14) i0(1) i1(1) i2(1) i3(1) i4(1))
  moreover have "having ix4 a k = having ix a k - removed f x a k" for a k
    by (cases a rule: attribute_cases;
        simp add: i4(4) i3(4) i2(4) i1(4) i0(4) removed_def at_keys_def fold_remove attributes_def; force?)
  moreover have "documents ix4 = documents ix - {x}"
    by (simp add: i0(3) i1(3) i2(3) i3(3) i4(3))
  ultimately show ?thesis using i4(2) by blast
qed

text \<open>Whatever the document, neither update breaks the index.\<close>

interpretation index_kept: run_relation "\<lambda>ix ix'. wf_index ix \<longrightarrow> wf_index ix'"
  by unfold_locales blast+

lemma ids_kept:
  "stays_in (\<lambda>ix ix'. wf_index ix \<longrightarrow> wf_index ix') (idx_addId x)"
  "stays_in (\<lambda>ix ix'. wf_index ix \<longrightarrow> wf_index ix') (idx_removeId x)"
proof -
  have "wf_index (snd (idx_addId x ix)) \<and> wf_index (snd (idx_removeId x ix))" if wf: "wf_index ix" for ix
  proof (cases "x = []")
    case True
    then show ?thesis using wf by (simp add: idx_addId_def idx_removeId_def thenM_run confirm_run)
  next
    case False
    obtain ix1 where "idx_addId x ix = (Inr (), ix1)" "wf_index ix1" using ids_run(1)[OF wf False] by blast
    moreover obtain ix2 where "idx_removeId x ix = (Inr (), ix2)" "wf_index ix2" using ids_run(2)[OF wf False] by blast
    ultimately show ?thesis by simp
  qed
  then show "stays_in (\<lambda>ix ix'. wf_index ix \<longrightarrow> wf_index ix') (idx_addId x)"
    "stays_in (\<lambda>ix ix'. wf_index ix \<longrightarrow> wf_index ix') (idx_removeId x)" by (auto simp: stays_in_def)
qed

lemmas tables_kept = versions.kept configs.kept entities.kept veraliases.kept runs.kept assigned.kept ids_kept

lemma updates_kept:
  "stays_in (\<lambda>ix ix'. wf_index ix \<longrightarrow> wf_index ix') (add_ast ast x)"
  "stays_in (\<lambda>ix ix'. wf_index ix \<longrightarrow> wf_index ix') (remove_ast ast x)"
  unfolding add_ast_def remove_ast_def add_entities_def add_aliases_def add_runs_def idx_entries_def idx_configurations_def
    seqM.simps
  by (intro index_kept.combined index_kept.iterated tables_kept)+

section \<open>What a search selects\<close>

lemma fold_max_less: "fold max (map f xs) a < n \<longleftrightarrow> a < n \<and> (\<forall>x \<in> set xs. f x < n)" for a n :: nat
  by (induction xs arbitrary: a) auto

lemma count_list_distinct: "distinct xs \<Longrightarrow> count_list xs x = (if x \<in> set xs then 1 else 0)"
  by (induction xs) auto

lemma count_list_concat:
  "\<forall>L \<in> set Ls. distinct L \<Longrightarrow> count_list (concat Ls) x = length (filter (\<lambda>L. x \<in> set L) Ls)"
  by (induction Ls) (auto simp: count_list_distinct)

lemma all_lists_iff: "length Ls \<le> length (filter P Ls) \<longleftrightarrow> (\<forall>L \<in> set Ls. P L)"
  by (metis filter_id_conv filter_True le_antisym length_filter_le length_filter_less linorder_not_le)

lemma found_or_grouped: "I \<subseteq> U \<Longrightarrow> (if I = {} then U else {}) \<union> {x \<in> U. x \<in> I} = (if I = {} then U else I)"
  by auto

text \<open>
  The selection over the matches of \<open>n\<close> criteria: the documents that meet all of them, or,
  when there is no such document, those that meet any of them.
\<close>

lemma select_ids_concat:
  fixes Ls :: "string list list"
  assumes distinct: "\<forall>L \<in> set Ls. distinct L" and some: "Ls \<noteq> []"
  shows "select_ids (length Ls) (concat Ls) =
    sorted_list_of_set (if (\<Inter>L \<in> set Ls. set L) = {} then \<Union>L \<in> set Ls. set L else \<Inter>L \<in> set Ls. set L)"
proof -
  let ?I = "\<Inter>L \<in> set Ls. set L" and ?U = "\<Union>L \<in> set Ls. set L" and ?n = "length Ls"
  have U: "set (concat Ls) = ?U" by auto
  have sub: "?I \<subseteq> ?U" using some by (cases Ls) auto
  have count: "?n \<le> count_list (concat Ls) x \<longleftrightarrow> x \<in> ?I" for x
    by (simp add: count_list_concat[OF distinct] all_lists_iff)
  have n: "0 < ?n" using some by simp
  consider (few) "length (concat Ls) < 2" | (one) "\<not> length (concat Ls) < 2" "?n = 1"
    | (many) "\<not> length (concat Ls) < 2" "?n \<noteq> 1" by blast
  then show ?thesis
  proof cases
    case few
    then have s: "select_ids ?n (concat Ls) = concat Ls" by (simp add: select_ids_def)
    consider (none) "concat Ls = []" | (single) y where "concat Ls = [y]"
      using few by (cases "concat Ls"; cases "tl (concat Ls)") auto
    then show ?thesis
    proof cases
      case none
      then have "?U = {}" using U by simp
      then show ?thesis using s none sub by (simp only: s) auto
    next
      case single
      then have "?U = {y}" using U by simp
      moreover have "?I = {} \<or> ?I = {y}" using sub calculation by blast
      moreover have "select_ids ?n [y] = [y]" using s unfolding single .
      ultimately show ?thesis unfolding single by auto
    qed
  next
    case one
    then obtain L where L: "Ls = [L]" by (cases Ls) auto
    show ?thesis using one by (simp add: select_ids_def L sorted_remdups_adj_sort)
  next
    case many
    have max: "max_occurrences (concat Ls) < ?n \<longleftrightarrow> ?I = {}"
    proof -
      have "max_occurrences (concat Ls) < ?n \<longleftrightarrow> 0 < ?n \<and> (\<forall>x \<in> set (concat Ls). count_list (concat Ls) x < ?n)"
        unfolding max_occurrences_def by (rule fold_max_less)
      also have "\<dots> \<longleftrightarrow> (\<forall>x \<in> ?U. \<not> ?n \<le> count_list (concat Ls) x)" unfolding U using n by (simp only: not_le simp_thms)
      also have "\<dots> \<longleftrightarrow> (\<forall>x \<in> ?U. x \<notin> ?I)" unfolding count ..
      finally show ?thesis using sub by blast
    qed
    let ?found = "if max_occurrences (concat Ls) < ?n then concat Ls else []"
    let ?grouped = "filter (\<lambda>x. ?n \<le> count_list (concat Ls) x) (remdups_adj (sort (concat Ls)))"
    have "set ?grouped = {x \<in> ?U. x \<in> ?I}" unfolding count set_filter remdups_adj_set set_sort U ..
    moreover have "set ?found = (if ?I = {} then ?U else {})" unfolding max using U by (cases "?I = {}") (simp_all only: if_True if_False list.set simp_thms)
    ultimately have "set (?found @ ?grouped) = (if ?I = {} then ?U else ?I)"
      by (simp only: set_append found_or_grouped[OF sub])
    then show ?thesis
      using many by (simp only: select_ids_def Let_def if_False sorted_remdups_adj_sort)
  qed
qed

text \<open>Criteria with a string value on one of the tables.\<close>

definition search_keys :: "string list" where
  "search_keys = [''version'', ''configurations.name'', ''entities.name'', ''runs.name'', ''aliases.active.name'']"

lemma run_matching_key:
  assumes "wf_index ix" "k \<in> set search_keys" "s \<noteq> []"
  shows "run_matching c ix k s = Inr (sorted_list_of_set (having ix k s))"
  using assms(2) versions.find_law[OF assms(1,3)] configs.find_law[OF assms(1,3)] entities.find_law[OF assms(1,3)]
    runs.find_law[OF assms(1,3)] veraliases.find_law[OF assms(1,3)]
  by (auto simp: search_keys_def run_matching_def matching_function_def)

lemma collect_matches_run:
  assumes "wf_index ix" "\<forall>(k, s) \<in> set qs. k \<in> set search_keys \<and> s \<noteq> []"
  shows "collect_matches c ix (map (\<lambda>(k, s). (k, Str s)) qs) n ouids =
    Inr (n + length qs, ouids @ concat (map (\<lambda>(k, s). sorted_list_of_set (having ix k s)) qs))"
  using assms(2)
proof (induction qs arbitrary: n ouids)
  case (Cons q qs)
  then show ?case using run_matching_key[OF assms(1)] by (cases q) simp
qed simp

section \<open>The search index as a whole\<close>

text \<open>A document whose text the reader understands as the table \<open>ast\<close>.\<close>

definition reads :: "codec \<Rightarrow> jsondoc \<Rightarrow> object_t \<Rightarrow> bool" where
  "reads c d ast \<longleftrightarrow> bindE (doc_text c d) (c_read c) = Inr (Some ast)"

lemma index_document_run:
  assumes "reads c d ast" "x \<noteq> []" "update ast x (si_index s) = (Inr (), ix')"
  shows "index_document update c d x s = (Inr True, s\<lparr>si_index := ix', si_dirty := True\<rparr>)"
  using assms
  by (simp add: index_document_def reads_def doc_empty_def thenM_run bindM_run confirm_run liftE_run catchM_run
      set_dirty_def on_index_def retM_run)

text \<open>The abstract state of an index: its documents, and the documents of each key.\<close>

definition meaning :: "object_t \<Rightarrow> string set \<times> (string \<Rightarrow> string \<Rightarrow> string set)" where
  "meaning ix = (documents ix, having ix)"

definition with_document :: "facts \<Rightarrow> string \<Rightarrow> string set \<times> (string \<Rightarrow> string \<Rightarrow> string set) \<Rightarrow>
    string set \<times> (string \<Rightarrow> string \<Rightarrow> string set)" where
  "with_document f x m = (insert x (fst m), \<lambda>a k. snd m a k \<union> added f x a k)"

definition without_document :: "facts \<Rightarrow> string \<Rightarrow> string set \<times> (string \<Rightarrow> string \<Rightarrow> string set) \<Rightarrow>
    string set \<times> (string \<Rightarrow> string \<Rightarrow> string set)" where
  "without_document f x m = (fst m - {x}, \<lambda>a k. snd m a k - removed f x a k)"

lemma addDocument_run:
  assumes "wf_index (si_index s)" "reads c d ast" "describes f ast" "x \<noteq> []"
  shows "\<exists>s'. addDocument c d x s = (Inr True, s') \<and> wf_index (si_index s') \<and>
    meaning (si_index s') = with_document f x (meaning (si_index s))"
proof -
  obtain ix' where "add_ast ast x (si_index s) = (Inr (), ix')" "wf_index ix'"
      "documents ix' = insert x (documents (si_index s))" "having ix' = (\<lambda>a k. having (si_index s) a k \<union> added f x a k)"
    using add_ast_run[OF assms(1,4,3)] by blast
  then show ?thesis
    using index_document_run[of c d ast x add_ast s ix', OF assms(2,4)]
    by (intro exI[of _ "s\<lparr>si_index := ix', si_dirty := True\<rparr>"]) (simp add: addDocument_def meaning_def with_document_def)
qed

lemma removeDocument_run:
  assumes "wf_index (si_index s)" "reads c d ast" "describes f ast" "x \<noteq> []"
  shows "\<exists>s'. removeDocument c d x s = (Inr True, s') \<and> wf_index (si_index s') \<and>
    meaning (si_index s') = without_document f x (meaning (si_index s))"
proof -
  obtain ix' where "remove_ast ast x (si_index s) = (Inr (), ix')" "wf_index ix'"
      "documents ix' = documents (si_index s) - {x}" "having ix' = (\<lambda>a k. having (si_index s) a k - removed f x a k)"
    using remove_ast_run[OF assms(1,4,3)] by blast
  then show ?thesis
    using index_document_run[of c d ast x remove_ast s ix', OF assms(2,4)]
    by (intro exI[of _ "s\<lparr>si_index := ix', si_dirty := True\<rparr>"]) (simp add: removeDocument_def meaning_def without_document_def)
qed

text \<open>C12.  The index refines a map from attributes and keys to sets of documents: adding and
  removing a document whose table states all its facts succeed and act on that map as
  \<open>with_document\<close> and \<open>without_document\<close> do.\<close>

theorem index_refines_sets:
  assumes "wf_index (si_index s)" "reads c d ast" "describes f ast" "x \<noteq> []"
  shows "(\<exists>s'. addDocument c d x s = (Inr True, s') \<and> wf_index (si_index s') \<and>
      meaning (si_index s') = with_document f x (meaning (si_index s))) \<and>
    (\<exists>s'. removeDocument c d x s = (Inr True, s') \<and> wf_index (si_index s') \<and>
      meaning (si_index s') = without_document f x (meaning (si_index s)))"
  using addDocument_run[OF assms] removeDocument_run[OF assms] by blast

definition empty_index :: object_t where
  "empty_index = [(''ouid'', Arr []), (''version'', Obj []), (''configurations.name'', Obj []),
     (''entities.name'', Obj []), (''aliases.active.name'', Obj []), (''runs.name'', Obj []),
     (''configurations.assigned'', Obj [])]"

definition plain_codec :: codec where
  "plain_codec = boost_codec decimal_to_string no_doubles"

definition sample_ast :: "string \<Rightarrow> string \<Rightarrow> object_t" where
  "sample_ast version entity = [(''version'', Str version),
     (''configurations'', Arr [Obj [(''name'', Str ''c''), (''assigned'', Str ''t'')]]),
     (''entities'', Arr [Obj [(''name'', Str entity)]]),
     (''aliases'', Obj [(''active'', Arr [Obj [(''name'', Str ''a'')]])]),
     (''runs'', Arr [Obj [(''name'', Str ''7'')]])]"

definition sample_facts :: "string \<Rightarrow> string \<Rightarrow> facts" where
  "sample_facts version entity = \<lparr>f_version = version, f_configs = [(''c'', ''t'')], f_entities = [entity],
     f_aliases = [''a''], f_runs = [''7'']\<rparr>"

definition fresh_index :: search_index where
  "fresh_index = \<lparr>si_index = empty_index, si_dirty = False, si_open = True\<rparr>"

lemma sample_index_facts:
  "wf_index empty_index"
  "reads plain_codec (doc_of (Obj (sample_ast ''v'' ''e''))) (sample_ast ''v'' ''e'')"
  "describes (sample_facts ''v'' ''e'') (sample_ast ''v'' ''e'')"
  by code_simp+

theorem index_refines_sets_witness:
  "\<exists>s'. addDocument plain_codec (doc_of (Obj (sample_ast ''v'' ''e''))) ''1'' fresh_index = (Inr True, s')
    \<and> documents (si_index s') = {''1''} \<and> having (si_index s') ''entities.name'' ''e'' = {''1''}"
proof -
  have wf: "wf_index (si_index fresh_index)" using sample_index_facts(1) by (simp add: fresh_index_def)
  have e: "documents (si_index fresh_index) = {}" "having (si_index fresh_index) ''entities.name'' ''e'' = {}"
    by (simp_all add: fresh_index_def empty_index_def documents_def having_def)
  have a: "added (sample_facts ''v'' ''e'') ''1'' ''entities.name'' ''e'' = {''1''}"
    by (simp add: added_def sample_facts_def)
  obtain s' where s': "addDocument plain_codec (doc_of (Obj (sample_ast ''v'' ''e''))) ''1'' fresh_index = (Inr True, s')"
    "meaning (si_index s') = with_document (sample_facts ''v'' ''e'') ''1'' (meaning (si_index fresh_index))"
    using index_refines_sets[OF wf sample_index_facts(2,3), of "''1''"] by blast
  then show ?thesis using e a by (intro exI[of _ s']) (simp add: meaning_def with_document_def)
qed

text \<open>Whatever the document and the outcome, an update leaves a well-formed index.\<close>

interpretation state_kept: run_relation "\<lambda>s s'. wf_index (si_index s) \<longrightarrow> wf_index (si_index s')"
  by unfold_locales blast+

lemma index_document_kept:
  assumes "\<And>ast x. stays_in (\<lambda>ix ix'. wf_index ix \<longrightarrow> wf_index ix') (update ast x)"
  shows "stays_in (\<lambda>s s'. wf_index (si_index s) \<longrightarrow> wf_index (si_index s')) (index_document update c d x)"
proof -
  have on: "stays_in (\<lambda>s s'. wf_index (si_index s) \<longrightarrow> wf_index (si_index s')) (on_index (update ast x))" for ast
    using assms[of ast x] by (auto simp: stays_in_def on_index_def split: prod.splits)
  have dirty: "stays_in (\<lambda>s s'. wf_index (si_index s) \<longrightarrow> wf_index (si_index s')) set_dirty"
    by (simp add: stays_in_def set_dirty_def)
  have "stays_in (\<lambda>s s'. wf_index (si_index s) \<longrightarrow> wf_index (si_index s'))
      (case r of None \<Rightarrow> retM False | Some ast \<Rightarrow>
        catchM any_exn (thenM set_dirty (thenM (on_index (update ast x)) (retM True))) (retM False))" for r
    by (cases r) (auto intro!: state_kept.combined on dirty)
  then show ?thesis unfolding index_document_def by (intro state_kept.combined)
qed

text \<open>C13.  No document can break the index: whether \<open>addDocument\<close> or \<open>removeDocument\<close> succeeds,
  answers false half-way or throws, every posting list stays strictly sorted and every table
  keeps distinct keys.\<close>

theorem index_stays_well_formed:
  assumes "wf_index (si_index s)"
  shows "wf_index (si_index (snd (addDocument c d x s))) \<and> wf_index (si_index (snd (removeDocument c d x s)))"
  using index_document_kept[where update = add_ast, OF updates_kept(1)]
    index_document_kept[where update = remove_ast, OF updates_kept(2)] assms
  unfolding stays_in_def addDocument_def removeDocument_def by blast

theorem index_stays_well_formed_witness:
  "wf_index (si_index (snd (addDocument plain_codec (doc_of (Obj [(''version'', Bool True)])) ''1'' fresh_index)))"
  using index_stays_well_formed[of fresh_index] sample_index_facts(1) by (simp add: fresh_index_def)

text \<open>Removing a document that was just added takes it out of the list of documents and of
  the versions, configurations and runs, but its entities and aliases still lead to it.\<close>

theorem removal_leaves_entities_and_aliases:
  assumes "wf_index (si_index s)" "reads c d ast" "describes f ast" "x \<noteq> []"
    and fresh: "\<forall>a k. a \<noteq> ''configurations.assigned'' \<longrightarrow> x \<notin> having (si_index s) a k"
    and runs: "addDocument c d x s = (Inr True, s1)" "removeDocument c d x s1 = (Inr True, s2)"
  shows "documents (si_index s2) = documents (si_index s) - {x} \<and>
    (\<forall>a \<in> {''version'', ''configurations.name'', ''runs.name''}. having (si_index s2) a = having (si_index s) a) \<and>
    (\<forall>e \<in> set (f_entities f). idx_matchEntity e (si_index s2) = Inr (sorted_list_of_set (insert x (having (si_index s) ''entities.name'' e)))) \<and>
    (\<forall>a \<in> set (f_aliases f). idx_matchVersionAlias a (si_index s2) = Inr (sorted_list_of_set (insert x (having (si_index s) ''aliases.active.name'' a))))"
proof -
  have m1: "wf_index (si_index s1)" "meaning (si_index s1) = with_document f x (meaning (si_index s))"
    using addDocument_run[OF assms(1-4)] runs(1) by auto
  have m2: "wf_index (si_index s2)" "meaning (si_index s2) = without_document f x (meaning (si_index s1))"
    using removeDocument_run[OF m1(1) assms(2-4)] runs(2) by auto
  have h: "having (si_index s2) a k = (having (si_index s) a k \<union> added f x a k) - removed f x a k" for a k
    using m1(2) m2(2) by (simp add: meaning_def with_document_def without_document_def)
  have docs: "documents (si_index s2) = documents (si_index s) - {x}"
    using m1(2) m2(2) by (auto simp: meaning_def with_document_def without_document_def)
  have "having (si_index s2) a k = having (si_index s) a k"
    if "a \<in> {''version'', ''configurations.name'', ''runs.name''}" for a k
    using that fresh by (auto simp: h added_def removed_def split: if_splits)
  moreover have "having (si_index s2) ''entities.name'' k = (having (si_index s) ''entities.name'' k \<union> (if k \<in> set (f_entities f) then {x} else {}))" for k
    by (simp add: h added_def removed_def)
  moreover have "having (si_index s2) ''aliases.active.name'' k = (having (si_index s) ''aliases.active.name'' k \<union> (if k \<in> set (f_aliases f) then {x} else {}))" for k
    by (simp add: h added_def removed_def)
  moreover have "e \<noteq> []" if "e \<in> set (f_entities f) \<or> e \<in> set (f_aliases f)" for e
    using that assms(3) by (auto simp: describes_def)
  ultimately show ?thesis
    using docs entities.find_law[OF m2(1)] veraliases.find_law[OF m2(1)]
    by (auto simp: fun_eq_iff simp del: sorted_list_of_set_insert_remove)
qed

theorem removal_leaves_entities_and_aliases_witness:
  "\<exists>s1 s2. addDocument plain_codec (doc_of (Obj (sample_ast ''v'' ''e''))) ''1'' fresh_index = (Inr True, s1)
    \<and> removeDocument plain_codec (doc_of (Obj (sample_ast ''v'' ''e''))) ''1'' s1 = (Inr True, s2)
    \<and> documents (si_index s2) = {} \<and> idx_matchEntity ''e'' (si_index s2) = Inr [''1'']"
proof -
  let ?d = "doc_of (Obj (sample_ast ''v'' ''e''))"
  have wf: "wf_index (si_index fresh_index)" using sample_index_facts(1) by (simp add: fresh_index_def)
  have none: "\<forall>a k. a \<noteq> ''configurations.assigned'' \<longrightarrow> ''1'' \<notin> having (si_index fresh_index) a k"
    "documents (si_index fresh_index) = {}" "having (si_index fresh_index) ''entities.name'' ''e'' = {}"
    by (auto simp: fresh_index_def empty_index_def having_def documents_def)
  obtain s1 where s1: "addDocument plain_codec ?d ''1'' fresh_index = (Inr True, s1)" "wf_index (si_index s1)"
    using addDocument_run[OF wf sample_index_facts(2,3)] by blast
  obtain s2 where s2: "removeDocument plain_codec ?d ''1'' s1 = (Inr True, s2)"
    using removeDocument_run[OF s1(2) sample_index_facts(2,3)] by blast
  have one: "''1'' \<noteq> []" and e: "''e'' \<in> set (f_entities (sample_facts ''v'' ''e''))" by (simp_all add: sample_facts_def)
  note removal_leaves_entities_and_aliases[OF wf sample_index_facts(2,3) one none(1) s1(1) s2]
  then show ?thesis using s1(1) s2 none(2,3) e by (intro exI[of _ s1] exI[of _ s2]) auto
qed


definition two_documents :: object_t where
  "two_documents =
     [(''ouid'', Arr [Str ''1'', Str ''2'']), (''version'', Obj [(''v'', Arr [Str ''1''])]), (''configurations.name'', Obj []),
      (''entities.name'', Obj [(''e'', Arr [Str ''2''])]), (''aliases.active.name'', Obj []), (''runs.name'', Obj []),
      (''configurations.assigned'', Obj [])]"


section \<open>Joins\<close>

text \<open>The keys a filter accepts: itself, or with a final star every key it is a prefix of.\<close>

definition accepts :: "string \<Rightarrow> string \<Rightarrow> bool" where
  "accepts filt x \<longleftrightarrow> (if last filt = CHR ''*'' then prefix (butlast filt) x else x = filt)"

lemma accept_join_run: "filt \<noteq> [] \<Longrightarrow> accept_join filt x = Inr (accepts filt x)"
  by (auto simp: accept_join_def accepts_def)

definition listed :: "object_t \<Rightarrow> string \<Rightarrow> string \<Rightarrow> bool" where
  "listed t k x \<longleftrightarrow> (\<exists>v. (k, v) \<in> set t \<and> x \<in> set (posting_ids v))"

lemma listed_Cons: "listed ((k', v) # t) k x \<longleftrightarrow> k = k' \<and> x \<in> set (posting_ids v) \<or> listed t k x"
  by (auto simp: listed_def)

lemma posting_read: "posting_value v \<Longrightarrow> bindE (get_array v) (mapE get_string) = Inr (posting_ids v)"
  by (auto simp: posting_value_iff simp del: posting_ids.simps)

lemma fold_key: "fold (\<lambda>ouid m. m(ouid \<mapsto> key)) xs m = (\<lambda>x. if x \<in> set xs then Some key else m x)"
  by (induction xs arbitrary: m) (auto simp: fun_eq_iff)

lemma ouid_map_run:
  assumes "\<forall>p \<in> set t. posting_value (snd p)"
  shows "\<exists>m'. ouid_map_of t m = Inr m' \<and> (\<forall>x l. m' x = Some l \<longrightarrow> m x = Some l \<or> listed t l x) \<and>
    (\<forall>x. m' x = None \<longrightarrow> m x = None \<and> (\<forall>k. \<not> listed t k x))"
  using assms
proof (induction t arbitrary: m)
  case Nil
  then show ?case by (simp add: listed_def)
next
  case (Cons p t)
  obtain k v where p: "p = (k, v)" by (cases p)
  let ?m = "\<lambda>x. if x \<in> set (posting_ids v) then Some k else m x"
  obtain m' where m': "ouid_map_of t ?m = Inr m'" "\<forall>x l. m' x = Some l \<longrightarrow> ?m x = Some l \<or> listed t l x"
      "\<forall>x. m' x = None \<longrightarrow> ?m x = None \<and> (\<forall>k. \<not> listed t k x)"
    using Cons.IH[of ?m] Cons.prems by auto
  have "ouid_map_of (p # t) m = Inr m'" using Cons.prems m'(1) by (simp add: p posting_read fold_key)
  moreover have "\<forall>x l. m' x = Some l \<longrightarrow> m x = Some l \<or> listed (p # t) l x"
    using m'(2) unfolding p listed_Cons by (metis option.inject)
  moreover have "\<forall>x. m' x = None \<longrightarrow> m x = None \<and> (\<forall>k. \<not> listed (p # t) k x)"
    using m'(3) unfolding p listed_Cons by (metis option.distinct(1))
  ultimately show ?case by blast
qed

lemma having_listed:
  assumes "map_of ix a = Some (Obj t)" "distinct (map fst t)"
  shows "x \<in> having ix a k \<longleftrightarrow> listed t k x"
  using assms(1) unfolding listed_def map_of_eq_Some_iff[OF assms(2), symmetric]
  by (auto simp: having_def simp del: posting_ids.simps split: option.splits)

lemma join_list_run:
  assumes "\<forall>x \<in> set xs. m x \<noteq> None"
  shows "mapE (\<lambda>v. bindE (get_string v) (\<lambda>ouid. case m ouid of None \<Rightarrow> Inl Out_of_range | Some l \<Rightarrow> Inr (key, l)))
    (map Str xs) = Inr (map (\<lambda>x. (key, the (m x))) xs)"
  using assms by (induction xs) auto

lemma join_entries_run:
  assumes "filt \<noteq> []" "\<forall>p \<in> set t. posting_value (snd p)"
    and "\<forall>k x. accepts filt k \<longrightarrow> listed t k x \<longrightarrow> m x \<noteq> None"
  shows "\<exists>xs. join_entries filt m t = Inr xs \<and>
    set xs = {(k, l). accepts filt k \<and> (\<exists>x. listed t k x \<and> m x = Some l)}"
  using assms(2,3)
proof (induction t)
  case Nil
  then show ?case by (simp add: listed_def)
next
  case (Cons p t)
  obtain k v where p: "p = (k, v)" by (cases p)
  obtain xs where xs: "join_entries filt m t = Inr xs"
      "set xs = {(k, l). accepts filt k \<and> (\<exists>x. listed t k x \<and> m x = Some l)}"
    using Cons by (auto simp: p listed_Cons)
  have v: "v = Arr (map Str (posting_ids v))" using Cons.prems(1) posting_value_ids p by auto
  show ?case
  proof (cases "accepts filt k")
    case False
    then show ?thesis using xs by (auto simp: p accept_join_run[OF assms(1)] listed_Cons)
  next
    case True
    then have "\<forall>x \<in> set (posting_ids v). m x \<noteq> None" using Cons.prems(2) by (auto simp: p listed_Cons)
    then have "bindE (get_array v) (mapE (\<lambda>x. bindE (get_string x) (\<lambda>ouid.
        case m ouid of None \<Rightarrow> Inl Out_of_range | Some l \<Rightarrow> Inr (k, l)))) = Inr (map (\<lambda>x. (k, the (m x))) (posting_ids v))"
      by (subst v) (simp add: join_list_run del: posting_ids.simps)
    then have "join_entries filt m (p # t) = Inr (map (\<lambda>x. (k, the (m x))) (posting_ids v) @ xs)"
      using True xs(1) by (simp add: p accept_join_run[OF assms(1)])
    moreover have "set (map (\<lambda>x. (k, the (m x))) (posting_ids v)) = {(k', l). k' = k \<and> (\<exists>x \<in> set (posting_ids v). m x = Some l)}"
      using \<open>\<forall>x \<in> set (posting_ids v). m x \<noteq> None\<close> by force
    ultimately show ?thesis using True xs(2) by (auto simp: p listed_Cons)
  qed
qed

lemma sort_few: "remdups_adj (sort xs) = xs" if "length xs < 2" for xs :: "'a :: linorder list"
  using that by (cases xs; cases "tl xs") auto


definition joined_index :: object_t where
  "joined_index =
     [(''ouid'', Arr [Str ''1'', Str ''2'']), (''version'', Obj [(''v'', Arr [Str ''1'', Str ''2''])]),
      (''configurations.name'', Obj [(''c1'', Arr [Str ''1'']), (''d'', Arr [Str ''1'']), (''c2'', Arr [Str ''2''])]),
      (''entities.name'', Obj []), (''aliases.active.name'', Obj []), (''runs.name'', Obj []),
      (''configurations.assigned'', Obj [])]"


text \<open>Without a filter the join reads the last character of an empty string as soon as the
  right table has an entry: \<open>findVersionsByGlobalConfigName\<close> and
  \<open>findAllGlobalConfigurations\<close> pass the empty filter when the search names no configuration.\<close>

theorem join_needs_filter:
  assumes "wf_index ix" "reads c search ast" "\<forall>s. map_of ast ''configurations.name'' \<noteq> Some (Str s)"
    and "map_of ix ''configurations.name'' = Some (Obj (p # t))"
  shows "findVersionsByGlobalConfigName c search ix = Inl Undefined \<and> findAllGlobalConfigurations c search ix = Inl Undefined"
proof -
  have "criterion ''configurations.name'' [] ast = []"
    using assms(3) by (auto simp: criterion_def table_at_map_of bindE_def split: option.splits sum.splits elim!: get_string.elims)
  moreover have "idx_innerjoin left ''configurations.name'' [] ix = Inl Undefined"
    if left: "left \<in> {''version'', ''entities.name''}" for left
  proof -
    have "left \<in> set attributes" "left \<noteq> []" using left by (auto simp: attributes_def)
    then obtain u where u: "map_of ix left = Some (Obj u)" "\<forall>p \<in> set u. posting_value (snd p)"
      using wf_index_table[OF assms(1)] by blast
    then obtain m where "ouid_map_of u (\<lambda>_. None) = Inr m" using ouid_map_run by blast
    then show ?thesis using \<open>left \<noteq> []\<close> u(1) assms(4)
      by (cases p) (simp add: idx_innerjoin_def idx_build_ouid_map_def table_at_map_of accept_join_def)
  qed
  ultimately show ?thesis
    using assms(2) by (simp add: findVersionsByGlobalConfigName_def findAllGlobalConfigurations_def searching_def reads_def doc_empty_def)
qed

theorem join_needs_filter_witness:
  "findVersionsByGlobalConfigName plain_codec (doc_of (Obj [(''version'', Str ''v'')])) joined_index = Inl Undefined"
proof -
  have "wf_index joined_index" by code_simp
  moreover have "reads plain_codec (doc_of (Obj [(''version'', Str ''v'')])) [(''version'', Str ''v'')]" by code_simp
  ultimately show ?thesis
    using join_needs_filter[of joined_index plain_codec _ "[(''version'', Str ''v'')]"] by (simp add: joined_index_def)
qed

end
