(* ===== verification/FileStore.thy ===== *)
theory FileStore
  imports SearchLaws
begin

text \<open>
  The files of the file store: StorageProviders/FileSystemDB/filesystem\_functions.cpp, the
  buffer functions of SharedCommon/fileststem\_functions.cpp, and how a search index is
  opened, rebuilt and closed.  Boost.Filesystem and the operating system are a parameter: a
  record of operations on some state of the disk.
\<close>

section \<open>The operating system\<close>

text \<open>
  \<open>f_write\<close> and \<open>f_mkdirs\<close> fail when a directory cannot be made; \<open>f_read\<close> fails when the file
  cannot be opened.  \<open>f_wordexp\<close> is \<open>wordexp\<close>; the remaining functions are the operations of
  \<open>boost::filesystem::path\<close>.
\<close>

record 'd files =
  f_exists :: "string \<Rightarrow> 'd \<Rightarrow> bool"
  f_is_directory :: "string \<Rightarrow> 'd \<Rightarrow> bool"
  f_is_regular :: "string \<Rightarrow> 'd \<Rightarrow> bool"
  f_accessible :: "string \<Rightarrow> 'd \<Rightarrow> bool"
  f_entries :: "string \<Rightarrow> 'd \<Rightarrow> string list"
  f_read :: "string \<Rightarrow> 'd \<Rightarrow> string option"
  f_write :: "string \<Rightarrow> string \<Rightarrow> 'd \<Rightarrow> 'd option"
  f_mkdirs :: "string \<Rightarrow> 'd \<Rightarrow> 'd option"
  f_wordexp :: "string \<Rightarrow> string list"
  f_append :: "string \<Rightarrow> string \<Rightarrow> string"
  f_parent :: "string \<Rightarrow> string"
  f_filename :: "string \<Rightarrow> string"
  f_stem :: "string \<Rightarrow> string"
  f_replace_extension :: "string \<Rightarrow> string \<Rightarrow> string"

definition write_buffer_to_file :: "'d files \<Rightarrow> string \<Rightarrow> string \<Rightarrow> ('d, bool) prog" where
  "write_buffer_to_file fs buffer name =
     (\<lambda>d. if name = [] then (Inl Runtime_error, d)
          else (case f_write fs name buffer d of None \<Rightarrow> (Inl Runtime_error, d) | Some d' \<Rightarrow> (Inr True, d')))"

definition read_buffer_from_file :: "'d files \<Rightarrow> string \<Rightarrow> ('d, string) prog" where
  "read_buffer_from_file fs name =
     (\<lambda>d. if name = [] then (Inl Runtime_error, d)
          else (case f_read fs name d of None \<Rightarrow> (Inl Runtime_error, d) | Some t \<Rightarrow> (Inr t, d)))"

definition expand_environment_variables :: "'d files \<Rightarrow> string \<Rightarrow> exn + string" where
  "expand_environment_variables fs var =
     (let r = concat (map (\<lambda>w. w @ ''/'') (f_wordexp fs var)) in
      if r = [] then Inl Undefined else Inr (if last r = CHR ''/'' then butlast r else r))"

definition FILEURI :: string where
  "FILEURI = ''filesystemdb://''"

definition strip_uri :: "string \<Rightarrow> string" where
  "strip_uri d = (if prefix FILEURI d then drop (length FILEURI) d else d)"

definition mkdir :: "'d files \<Rightarrow> string \<Rightarrow> ('d, string) prog" where
  "mkdir fs dir =
     (\<lambda>d. let p = strip_uri dir in
          if dir = [] then (Inl Runtime_exception, d)
          else if f_exists fs p d \<and> \<not> (f_is_directory fs p d \<and> f_accessible fs p d) then (Inl Runtime_error, d)
          else (case f_mkdirs fs p d of None \<Rightarrow> (Inl Runtime_error, d) | Some d' \<Rightarrow> (Inr p, d')))"

definition find_subdirs :: "'d files \<Rightarrow> string \<Rightarrow> ('d, string list) prog" where
  "find_subdirs fs dir =
     (\<lambda>d. let p = strip_uri dir in
          if dir = [] then (Inl Runtime_exception, d)
          else if \<not> f_exists fs p d \<or> \<not> f_is_directory fs p d then (Inl Runtime_error, d)
          else (Inr (map (f_filename fs) (filter (\<lambda>e. f_is_directory fs e d) (f_entries fs p d))), d))"

definition find_documents :: "'d files \<Rightarrow> string \<Rightarrow> ('d, string list) prog" where
  "find_documents fs dir =
     (\<lambda>d. let p = strip_uri dir in
          if dir = [] then (Inl Runtime_exception, d)
          else if \<not> f_exists fs p d \<or> \<not> f_is_directory fs p d then (Inl Runtime_error, d)
          else (Inr (map (\<lambda>e. f_replace_extension fs (f_filename fs e) [])
                       (filter (\<lambda>e. \<not> f_is_directory fs e d) (f_entries fs p d))), d))"

definition find_siblingdirs :: "'d files \<Rightarrow> string \<Rightarrow> ('d, string list) prog" where
  "find_siblingdirs fs dir =
     (if dir = [] then throwM Runtime_exception else find_subdirs fs (f_parent fs (strip_uri dir)))"

text \<open>A directory that does not exist is an error; listing a file raises the library's own error,
  which is no class of the code.\<close>

definition list_files_in_directory :: "'d files \<Rightarrow> string \<Rightarrow> ('d, string list) prog" where
  "list_files_in_directory fs p =
     (\<lambda>d. if \<not> f_exists fs p d then (Inl Runtime_error, d)
          else if \<not> f_is_directory fs p d then (Inl Logic_error, d)
          else (Inr (filter (\<lambda>e. f_is_regular fs e d \<and> f_filename fs e \<noteq> []) (f_entries fs p d)), d))"

definition check_if_file_exists :: "'d files \<Rightarrow> string \<Rightarrow> ('d, bool) prog" where
  "check_if_file_exists fs name =
     (\<lambda>d. if name = [] then (Inl Runtime_exception, d) else (Inr (f_read fs name d \<noteq> None), d))"

section \<open>Opening, rebuilding and closing an index\<close>

definition on_disk :: "('d, 'a) prog \<Rightarrow> (search_index \<times> 'd, 'a) prog" where
  "on_disk m = (\<lambda>(s, d). case m d of (r, d') \<Rightarrow> (r, (s, d')))"

definition on_search :: "(search_index, 'a) prog \<Rightarrow> (search_index \<times> 'd, 'a) prog" where
  "on_search m = (\<lambda>(s, d). case m s of (r, s') \<Rightarrow> (r, (s', d)))"

definition search_index_name :: string where
  "search_index_name = ''index.json''"

definition empty_filesystem_index :: string where
  "empty_filesystem_index =
     (let q = (\<lambda>s. quoted s) in
      ''{'' @ q ''ouid'' @ '':[], '' @ q ''version'' @ '':{},'' @ q ''configurations.name'' @ '':{}, '' @
      q ''entities.name'' @ '':{},'' @ q ''aliases.active.name'' @ '':{}, '' @ q ''runs.name'' @ '':{},'' @
      q ''configurations.assigned'' @ '':{} }'')"

definition idx_create :: "'d files \<Rightarrow> string \<Rightarrow> ('d, bool) prog" where
  "idx_create fs path =
     catchM any_exn (write_buffer_to_file fs empty_filesystem_index path) (retM False)"

text \<open>The loop of \<open>_rebuild\<close>; a file that is no document ends it with \<open>invalid_argument\<close>.\<close>

definition idx_add_file :: "'d files \<Rightarrow> codec \<Rightarrow> string \<Rightarrow> (search_index \<times> 'd, unit) prog" where
  "idx_add_file fs c file =
     (if f_filename fs file = search_index_name then retM ()
      else bindM (on_disk (\<lambda>d. (Inr (case f_read fs file d of None \<Rightarrow> [] | Some t \<Rightarrow> t), d))) (\<lambda>json.
           bindM (liftE (doc_of_string c json)) (\<lambda>doc.
           bindM (on_search (addDocument c doc (f_stem fs file))) (\<lambda>_. retM ()))))"

definition idx_rebuild :: "'d files \<Rightarrow> codec \<Rightarrow> (search_index \<times> 'd, bool) prog \<Rightarrow> string \<Rightarrow> (search_index \<times> 'd, bool) prog" where
  "idx_rebuild fs c open_again path =
     catchM any_exn
       (thenM (on_disk (idx_create fs path))
       (thenM open_again
       (bindM (on_disk (list_files_in_directory fs (f_parent fs path))) (\<lambda>files.
        thenM (forM files (idx_add_file fs c))
        (thenM (on_search (\<lambda>s. (Inr (), s\<lparr>si_dirty := True, si_open := True\<rparr>)))
        (retM True))))))
       (retM False)"

text \<open>
  \<open>_open\<close> and \<open>_rebuild\<close> call each other; the number bounds the depth of the calls, and running
  out of it is running out of stack.
\<close>

fun idx_open :: "'d files \<Rightarrow> codec \<Rightarrow> bool \<Rightarrow> nat \<Rightarrow> string \<Rightarrow> (search_index \<times> 'd, bool) prog" where
  "idx_open fs c auto 0 path = throwM Undefined"
| "idx_open fs c auto (Suc n) path =
     bindM getM (\<lambda>(s, d).
       if si_index s \<noteq> [] then throwM Runtime_error
       else bindM (if f_exists fs path d then retM True else on_disk (idx_create fs path)) (\<lambda>there.
         if \<not> there then throwM Runtime_error
         else bindM (on_disk (read_buffer_from_file fs path)) (\<lambda>json.
              bindM (liftE (c_read c json)) (\<lambda>r. case r of
                  Some ix \<Rightarrow> thenM (on_search (\<lambda>s. (Inr (), s\<lparr>si_index := ix\<rparr>))) (retM True)
                | None \<Rightarrow>
                    bindM (if auto then idx_rebuild fs c (idx_open fs c auto n path) path else retM False)
                      (\<lambda>rebuilt. if rebuilt then retM True else throwM Runtime_error)))))"

definition idx_close :: "'d files \<Rightarrow> codec \<Rightarrow> string \<Rightarrow> (search_index \<times> 'd, bool) prog" where
  "idx_close fs c path =
     bindM getM (\<lambda>(s, d).
       if \<not> si_open s \<or> \<not> si_dirty s then retM True
       else bindM (liftE (c_write c (si_index s))) (\<lambda>json.
         catchM any_exn (on_disk (write_buffer_to_file fs json path)) (retM False)))"

text \<open>
  The scope of a \<open>SearchIndex\<close>: the constructor, the statements, and the destructor, which runs
  whether or not they throw and swallows its own errors.  A constructor that throws leaves
  nothing to destroy.
\<close>

definition with_index :: "'d files \<Rightarrow> codec \<Rightarrow> bool \<Rightarrow> string \<Rightarrow> (search_index \<times> 'd, 'a) prog \<Rightarrow> ('d, 'a) prog" where
  "with_index fs c auto path m =
     (\<lambda>d. case idx_open fs c auto 2 path (\<lparr>si_index = [], si_dirty = False, si_open = False\<rparr>, d) of
            (Inl e, (s, d1)) \<Rightarrow> (Inl e, d1)
          | (Inr b, (s, d1)) \<Rightarrow>
              (case m (s\<lparr>si_open := b\<rparr>, d1) of
                 (r, t) \<Rightarrow> (case idx_close fs c path t of (q, (_, d2)) \<Rightarrow>
                   (r, d2))))"

section \<open>What the code relies on\<close>

text \<open>
  The documented behaviour of the operating system: what was written is read, other files stay
  as they are, a file that can be read exists, and making a directory touches no file.
\<close>

definition file_laws :: "'d files \<Rightarrow> bool" where
  "file_laws fs \<longleftrightarrow>
     (\<forall>p t d d'. f_write fs p t d = Some d' \<longrightarrow> (\<forall>q. f_read fs q d' = (if q = p then Some t else f_read fs q d))) \<and>
     (\<forall>p t d. f_read fs p d = Some t \<longrightarrow> f_exists fs p d) \<and>
     (\<forall>p d d'. f_mkdirs fs p d = Some d' \<longrightarrow> (\<forall>q. f_read fs q d' = f_read fs q d))"

lemma file_lawsD:
  assumes "file_laws fs"
  shows "f_write fs p t d = Some d' \<Longrightarrow> f_read fs q d' = (if q = p then Some t else f_read fs q d)"
    and "f_read fs p d = Some t \<Longrightarrow> f_exists fs p d"
    and "f_mkdirs fs p d = Some d' \<Longrightarrow> f_read fs q d' = f_read fs q d"
  using assms unfolding file_laws_def by blast+

text \<open>A disk that has the laws: files by path, and every directory exists.\<close>

definition posix_stem :: "string \<Rightarrow> string" where
  "posix_stem p = (if CHR ''.'' \<in> set p then rev (tl (dropWhile (\<lambda>c. c \<noteq> CHR ''.'') (rev p))) else p)"

definition posix_filename :: "string \<Rightarrow> string" where
  "posix_filename p = rev (takeWhile (\<lambda>c. c \<noteq> CHR ''/'') (rev p))"

definition posix_parent :: "string \<Rightarrow> string" where
  "posix_parent p = rev (drop 1 (dropWhile (\<lambda>c. c \<noteq> CHR ''/'') (rev p)))"

definition posix_append :: "string \<Rightarrow> string \<Rightarrow> string" where
  "posix_append p q =
     (if p = [] \<or> last p = CHR ''/'' \<or> (q \<noteq> [] \<and> hd q = CHR ''/'') then p @ q else p @ CHR ''/'' # q)"

type_synonym disk = "(string \<times> string) list"

definition posix :: "disk files" where
  "posix = \<lparr>f_exists = (\<lambda>p d. map_of d p \<noteq> None \<or> posix_filename p = [] \<or> CHR ''.'' \<notin> set (posix_filename p)),
     f_is_directory = (\<lambda>p d. map_of d p = None), f_is_regular = (\<lambda>p d. map_of d p \<noteq> None),
     f_accessible = (\<lambda>p d. True), f_entries = (\<lambda>p d. filter (\<lambda>q. posix_parent q = p) (remdups (map fst d))),
     f_read = (\<lambda>p d. map_of d p), f_write = (\<lambda>p t d. Some ((p, t) # d)), f_mkdirs = (\<lambda>p d. Some d),
     f_wordexp = (\<lambda>s. [s]), f_append = posix_append, f_parent = posix_parent, f_filename = posix_filename,
     f_stem = (\<lambda>p. posix_stem (posix_filename p)),
     f_replace_extension = (\<lambda>p e. posix_stem p @ e)\<rparr>"

lemma posix_laws: "file_laws posix"
  by (auto simp: file_laws_def posix_def)

section \<open>An index survives its file\<close>

lemma write_buffer_run:
  "name \<noteq> [] \<Longrightarrow> f_write fs name t d = Some d' \<Longrightarrow> write_buffer_to_file fs t name d = (Inr True, d')"
  by (simp add: write_buffer_to_file_def)

lemma read_buffer_run: "name \<noteq> [] \<Longrightarrow> f_read fs name d = Some t \<Longrightarrow> read_buffer_from_file fs name d = (Inr t, d)"
  by (simp add: read_buffer_from_file_def)

lemma idx_open_run:
  assumes "file_laws fs" "path \<noteq> []" "f_read fs path d = Some t" "c_read c t = Inr (Some ix)" "si_index s = []"
  shows "idx_open fs c auto (Suc n) path (s, d) = (Inr True, (s\<lparr>si_index := ix\<rparr>, d))"
  using assms file_lawsD(2)[OF assms(1,3)]
  by (simp add: bindM_run getM_run retM_run thenM_run on_disk_def on_search_def read_buffer_run liftE_run)

lemma idx_close_run:
  assumes "path \<noteq> []" "si_open s" "si_dirty s" "c_write c (si_index s) = Inr t" "f_write fs path t d = Some d'"
  shows "idx_close fs c path (s, d) = (Inr True, (s, d'))"
  using assms by (simp add: idx_close_def bindM_run getM_run liftE_run catchM_run on_disk_def write_buffer_run)

definition closed_index :: search_index where
  "closed_index = \<lparr>si_index = [], si_dirty = False, si_open = False\<rparr>"

context json_codec
begin

lemma index_reopened:
  assumes "file_laws fs" "path \<noteq> []" "si_open s" "si_dirty s" "si_index s \<noteq> []" "c_ok (si_index s)"
    and "\<And>t. f_write fs path t d \<noteq> None"
  shows "\<exists>d'. idx_close fs c path (s, d) = (Inr True, (s, d')) \<and>
    idx_open fs c auto (Suc n) path (closed_index, d') = (Inr True, (closed_index\<lparr>si_index := si_index s\<rparr>, d'))"
proof -
  obtain t where t: "c_write c (si_index s) = Inr t" using write_ok[OF assms(6,5)] by blast
  obtain d' where d': "f_write fs path t d = Some d'" using assms(7)[of t] by blast
  have "f_read fs path d' = Some t" using file_lawsD(1)[OF assms(1) d'] by simp
  moreover have "c_read c t = Inr (Some (si_index s))" using read_write[OF assms(6) t] by blast
  ultimately show ?thesis
    using idx_close_run[OF assms(2-4) t d'] idx_open_run[OF assms(1,2)]
    by (intro exI[of _ d']) (simp add: closed_index_def)
qed

end

text \<open>C16.  A changed index that is closed and opened again is the same index, when its file can
  be written and its text can be read back.\<close>

theorem index_file_roundtrip:
  assumes "file_laws fs" "path \<noteq> []" "si_open s" "si_dirty s" "si_index s \<noteq> []" "boost_ok qd (si_index s)"
    and "\<And>t. f_write fs path t d \<noteq> None"
  shows "\<exists>d'. idx_close fs (boost_codec kd qd) path (s, d) = (Inr True, (s, d')) \<and>
    idx_open fs (boost_codec kd qd) auto (Suc n) path (closed_index, d') =
      (Inr True, (closed_index\<lparr>si_index := si_index s\<rparr>, d'))"
  using assms by (rule boost.index_reopened)

theorem index_file_roundtrip_witness:
  "\<exists>d'. idx_close posix plain_codec ''/c/index.json'' (\<lparr>si_index = two_documents, si_dirty = True, si_open = True\<rparr>, [])
      = (Inr True, (\<lparr>si_index = two_documents, si_dirty = True, si_open = True\<rparr>, d')) \<and>
    idx_open posix plain_codec False 1 ''/c/index.json'' (closed_index, d') =
      (Inr True, (closed_index\<lparr>si_index := two_documents\<rparr>, d'))"
proof -
  have ok: "boost_ok no_doubles two_documents"
    by (auto simp: boost_ok_def refuses_other_def no_doubles_def) code_simp
  show ?thesis
    using index_file_roundtrip[OF posix_laws, where path = "''/c/index.json''" and d = "[]" and qd = no_doubles
        and s = "\<lparr>si_index = two_documents, si_dirty = True, si_open = True\<rparr>" and auto = False and n = 0
        and kd = decimal_to_string] ok
    by (simp add: two_documents_def posix_def plain_codec_def)
qed

section \<open>Rebuilding a corrupt index\<close>

text \<open>A file that holds a document with the facts \<open>f\<close>, or is the index itself.\<close>

definition holds :: "'d files \<Rightarrow> codec \<Rightarrow> 'd \<Rightarrow> string \<Rightarrow> facts \<Rightarrow> bool" where
  "holds fs c d file f \<longleftrightarrow>
     f_stem fs file \<noteq> [] \<and>
     (case f_read fs file d of None \<Rightarrow> False | Some t \<Rightarrow>
       (case doc_of_string c t of Inl _ \<Rightarrow> False | Inr doc \<Rightarrow>
         (case bindE (doc_text c doc) (c_read c) of Inr (Some ast) \<Rightarrow> describes f ast | _ \<Rightarrow> False)))"

lemma holdsE:
  assumes "holds fs c d file f"
  obtains t doc ast where "f_stem fs file \<noteq> []" "f_read fs file d = Some t" "doc_of_string c t = Inr doc"
    "reads c doc ast" "describes f ast"
  using assms by (auto simp: holds_def reads_def split: option.splits sum.splits)

lemma add_file_run:
  assumes "holds fs c d file f" "f_filename fs file \<noteq> search_index_name" "wf_index (si_index s)"
  shows "\<exists>s'. idx_add_file fs c file (s, d) = (Inr (), (s', d)) \<and> wf_index (si_index s') \<and>
    meaning (si_index s') = with_document f (f_stem fs file) (meaning (si_index s))"
proof (rule holdsE[OF assms(1)])
  fix t doc ast
  assume h: "f_stem fs file \<noteq> []" "f_read fs file d = Some t" "doc_of_string c t = Inr doc" "reads c doc ast" "describes f ast"
  obtain s' where "addDocument c doc (f_stem fs file) s = (Inr True, s')" "wf_index (si_index s')"
      "meaning (si_index s') = with_document f (f_stem fs file) (meaning (si_index s))"
    using addDocument_run[OF assms(3) h(4,5,1)] by blast
  then show ?thesis using h(2,3) assms(2)
    by (intro exI[of _ s']) (simp add: idx_add_file_def bindM_run on_disk_def on_search_def liftE_run retM_run)
qed

lemma add_files_run:
  assumes "wf_index (si_index s)"
    and "\<And>file. file \<in> set files \<Longrightarrow> f_filename fs file \<noteq> search_index_name \<Longrightarrow> holds fs c d file (F file)"
  shows "\<exists>s'. forM files (idx_add_file fs c) (s, d) = (Inr (), (s', d)) \<and> wf_index (si_index s') \<and>
    documents (si_index s') = documents (si_index s) \<union> f_stem fs ` {f \<in> set files. f_filename fs f \<noteq> search_index_name} \<and>
    having (si_index s') = (\<lambda>a k. having (si_index s) a k \<union>
      (\<Union>f \<in> {f \<in> set files. f_filename fs f \<noteq> search_index_name}. added (F f) (f_stem fs f) a k))"
  using assms
proof (induction files arbitrary: s)
  case Nil
  then show ?case by (intro exI[of _ s]) (simp add: retM_run)
next
  case (Cons x files)
  have rest: "\<And>g. g \<in> set files \<Longrightarrow> f_filename fs g \<noteq> search_index_name \<Longrightarrow> holds fs c d g (F g)"
    using Cons.prems(2) by simp
  show ?case
  proof (cases "f_filename fs x = search_index_name")
    case True
    then have "{f \<in> set (x # files). f_filename fs f \<noteq> search_index_name} = {f \<in> set files. f_filename fs f \<noteq> search_index_name}"
      by auto
    moreover have "idx_add_file fs c x (s, d) = (Inr (), (s, d))" using True by (simp add: idx_add_file_def retM_run)
    ultimately show ?thesis using Cons.IH[OF Cons.prems(1) rest] by (simp add: thenM_run)
  next
    case False
    then have S: "{f \<in> set (x # files). f_filename fs f \<noteq> search_index_name} =
        insert x {f \<in> set files. f_filename fs f \<noteq> search_index_name}" by auto
    obtain s1 where s1: "idx_add_file fs c x (s, d) = (Inr (), (s1, d))" "wf_index (si_index s1)"
        "meaning (si_index s1) = with_document (F x) (f_stem fs x) (meaning (si_index s))"
      using add_file_run[OF Cons.prems(2)[of x] False Cons.prems(1)] False by auto
    have m: "documents (si_index s1) = insert (f_stem fs x) (documents (si_index s))"
        "having (si_index s1) = (\<lambda>a k. having (si_index s) a k \<union> added (F x) (f_stem fs x) a k)"
      using s1(3) by (simp_all add: meaning_def with_document_def)
    obtain s2 where s2: "forM files (idx_add_file fs c) (s1, d) = (Inr (), (s2, d))" "wf_index (si_index s2)"
        "documents (si_index s2) = documents (si_index s1) \<union> f_stem fs ` {f \<in> set files. f_filename fs f \<noteq> search_index_name}"
        "having (si_index s2) = (\<lambda>a k. having (si_index s1) a k \<union>
          (\<Union>f \<in> {f \<in> set files. f_filename fs f \<noteq> search_index_name}. added (F f) (f_stem fs f) a k))"
      using Cons.IH[OF s1(2) rest] by blast
    show ?thesis
      using s1(1) s2 by (intro exI[of _ s2]) (simp add: thenM_run S m fun_eq_iff Un_assoc del: set_simps)
  qed
qed

text \<open>The text of a fresh index is the table with empty lists.\<close>

definition reads_empty_index :: "codec \<Rightarrow> bool" where
  "reads_empty_index c \<longleftrightarrow> c_read c empty_filesystem_index = Inr (Some empty_index)"

lemma plain_reads_empty_index: "reads_empty_index plain_codec"
  unfolding reads_empty_index_def by code_simp

text \<open>C17.  Opening an index whose text is not JSON, with rebuilding enabled, answers with an index
  of exactly the documents of the directory, whatever the corrupt text was; two levels of
  calls are enough.\<close>

theorem rebuilt_index_lists_directory:
  assumes "file_laws fs" "path \<noteq> []"
    and corrupt: "f_read fs path d = Some t" "c_read c t = Inr None"
    and fresh: "reads_empty_index c"
    and written: "f_write fs path empty_filesystem_index d = Some d'"
    and dir: "f_exists fs (f_parent fs path) d'" "f_is_directory fs (f_parent fs path) d'"
    and files: "filter (\<lambda>e. f_is_regular fs e d' \<and> f_filename fs e \<noteq> []) (f_entries fs (f_parent fs path) d') = files"
    and docs: "\<And>file. file \<in> set files \<Longrightarrow> f_filename fs file \<noteq> search_index_name \<Longrightarrow>
      holds fs c d' file (F file)"
  shows "\<exists>s'. idx_open fs c True (Suc (Suc n)) path (closed_index, d) = (Inr True, (s', d')) \<and>
    si_dirty s' \<and> wf_index (si_index s') \<and>
    documents (si_index s') = f_stem fs ` {f \<in> set files. f_filename fs f \<noteq> search_index_name} \<and>
    having (si_index s') = (\<lambda>a k. \<Union>f \<in> {f \<in> set files. f_filename fs f \<noteq> search_index_name}. added (F f) (f_stem fs f) a k)"
proof -
  let ?s = "closed_index\<lparr>si_index := empty_index\<rparr>"
  have lit: "c_read c empty_filesystem_index = Inr (Some empty_index)" using fresh by (simp add: reads_empty_index_def)
  have create: "idx_create fs path d = (Inr True, d')"
    by (simp add: idx_create_def catchM_run write_buffer_run[OF assms(2) written])
  have again: "idx_open fs c True (Suc n) path (closed_index, d') = (Inr True, (?s, d'))"
    using idx_open_run[OF assms(1,2) _ lit] file_lawsD(1)[OF assms(1) written, of path] by (simp add: closed_index_def)
  have list: "list_files_in_directory fs (f_parent fs path) d' = (Inr files, d')"
    using dir files by (simp add: list_files_in_directory_def)
  have e: "wf_index (si_index ?s)" "documents (si_index ?s) = {}" "having (si_index ?s) = (\<lambda>a k. {})"
    using sample_index_facts(1) by (simp_all add: documents_def having_def empty_index_def fun_eq_iff)
  obtain s1 where s1: "forM files (idx_add_file fs c) (?s, d') = (Inr (), (s1, d'))" "wf_index (si_index s1)"
      "documents (si_index s1) = f_stem fs ` {f \<in> set files. f_filename fs f \<noteq> search_index_name}"
      "having (si_index s1) = (\<lambda>a k. \<Union>f \<in> {f \<in> set files. f_filename fs f \<noteq> search_index_name}. added (F f) (f_stem fs f) a k)"
    using add_files_run[OF e(1) docs, of files] e(2,3) by auto
  let ?s' = "s1\<lparr>si_dirty := True, si_open := True\<rparr>"
  have "idx_rebuild fs c (idx_open fs c True (Suc n) path) path (closed_index, d) = (Inr True, (?s', d'))"
    using create again list s1(1)
    by (simp add: idx_rebuild_def catchM_run thenM_run bindM_run on_disk_def on_search_def retM_run del: idx_open.simps)
  then have "idx_open fs c True (Suc (Suc n)) path (closed_index, d) = (Inr True, (?s', d'))"
    using corrupt file_lawsD(2)[OF assms(1) corrupt(1)] read_buffer_run[OF assms(2) corrupt(1)]
    by (subst idx_open.simps) (simp add: bindM_run getM_run retM_run on_disk_def liftE_run closed_index_def del: idx_open.simps)
  then show ?thesis using s1(2-4) by (intro exI[of _ ?s']) simp
qed

definition sample_text :: string where
  "sample_text = (case writeJson plain_codec (Obj (sample_ast ''v'' ''e'')) of Inr t \<Rightarrow> t | Inl _ \<Rightarrow> [])"

definition corrupt_disk :: disk where
  "corrupt_disk = [(''/c/index.json'', ''x''), (''/c/1.json'', sample_text)]"

definition repaired_disk :: disk where
  "repaired_disk = (''/c/index.json'', empty_filesystem_index) # corrupt_disk"

lemma repaired_disk_holds: "holds posix plain_codec repaired_disk ''/c/1.json'' (sample_facts ''v'' ''e'')"
  by code_simp

theorem rebuilt_index_lists_directory_witness:
  "\<exists>s'. idx_open posix plain_codec True 2 ''/c/index.json'' (closed_index, corrupt_disk) = (Inr True, (s', repaired_disk))
    \<and> documents (si_index s') = {''1''} \<and> having (si_index s') ''entities.name'' ''e'' = {''1''}"
proof -
  have listing: "filter (\<lambda>e. f_is_regular posix e repaired_disk \<and> f_filename posix e \<noteq> [])
      (f_entries posix (f_parent posix ''/c/index.json'') repaired_disk) = [''/c/index.json'', ''/c/1.json'']" by code_simp
  have path: "f_filename posix ''/c/index.json'' = search_index_name" "f_filename posix ''/c/1.json'' \<noteq> search_index_name"
    "f_stem posix ''/c/1.json'' = ''1''" by code_simp+
  have there: "f_read posix ''/c/index.json'' corrupt_disk = Some ''x''" "c_read plain_codec ''x'' = Inr None"
    "f_exists posix (f_parent posix ''/c/index.json'') repaired_disk"
    "f_is_directory posix (f_parent posix ''/c/index.json'') repaired_disk" by code_simp+
  have written: "f_write posix ''/c/index.json'' empty_filesystem_index corrupt_disk = Some repaired_disk"
    by (simp add: posix_def repaired_disk_def)
  have only: "{f \<in> set [''/c/index.json'', ''/c/1.json'']. f_filename posix f \<noteq> search_index_name} = {''/c/1.json''}"
    using path by auto
  have "\<exists>s'. idx_open posix plain_codec True (Suc (Suc 0)) ''/c/index.json'' (closed_index, corrupt_disk) = (Inr True, (s', repaired_disk)) \<and>
    si_dirty s' \<and> wf_index (si_index s') \<and>
    documents (si_index s') = f_stem posix ` {f \<in> set [''/c/index.json'', ''/c/1.json'']. f_filename posix f \<noteq> search_index_name} \<and>
    having (si_index s') = (\<lambda>a k. \<Union>f \<in> {f \<in> set [''/c/index.json'', ''/c/1.json'']. f_filename posix f \<noteq> search_index_name}.
      added (sample_facts ''v'' ''e'') (f_stem posix f) a k)"
    by (rule rebuilt_index_lists_directory[OF posix_laws _ there(1,2) plain_reads_empty_index written there(3,4) listing])
      (use repaired_disk_holds path in auto)
  then obtain s' where s': "idx_open posix plain_codec True (Suc (Suc 0)) ''/c/index.json'' (closed_index, corrupt_disk) =
      (Inr True, (s', repaired_disk))" "documents (si_index s') = f_stem posix ` {''/c/1.json''}"
      "having (si_index s') = (\<lambda>a k. \<Union>f \<in> {''/c/1.json''}. added (sample_facts ''v'' ''e'') (f_stem posix f) a k)"
    unfolding only by blast
  have "documents (si_index s') = {''1''}" unfolding s'(2) by (simp only: image_insert image_empty path(3))
  moreover have "having (si_index s') ''entities.name'' ''e'' = added (sample_facts ''v'' ''e'') ''1'' ''entities.name'' ''e''"
    unfolding s'(3) by (simp only: UN_insert UN_empty Un_empty_right path(3))
  moreover have "added (sample_facts ''v'' ''e'') ''1'' ''entities.name'' ''e'' = {''1''}"
    by (simp add: added_def sample_facts_def)
  ultimately show ?thesis using s'(1) unfolding numeral_2_eq_2 by (intro exI[of _ s']) simp
qed

end
