(* ===== verification/Overlay.thy ===== *)
theory Overlay
  imports JsonTypes StringHelpers
begin

text \<open>
  The overlay classes of Overlay/: each gives one part of a database record its type, checks
  it and completes it with defaults when it is constructed, and changes it in place.  An
  overlay holds references into the record's value, so it is modelled as a view: a program
  over the value it refers to and the environment.  What a constructor has written stays
  written when it throws.  The lists of element overlays that the C++ classes keep beside the
  array are always rebuilt from it (\<open>make_list\<close>), so the array itself stands for them.
\<close>

section \<open>Views\<close>

type_synonym 'a ovl = "(value_t \<times> world, 'a) prog"

definition valueM :: "value_t ovl" where
  "valueM = (\<lambda>(v, w). (Inr v, (v, w)))"

definition set_value :: "value_t \<Rightarrow> unit ovl" where
  "set_value x = (\<lambda>(v, w). (Inr (), (x, w)))"

definition objectM :: "object_t ovl" where
  "objectM = (\<lambda>(v, w). (get_object v, (v, w)))"

definition arrayM :: "array_t ovl" where
  "arrayM = (\<lambda>(v, w). (get_array v, (v, w)))"

definition timestampM :: "string ovl" where
  "timestampM = (\<lambda>(v, w). (Inr (fst (read_clock w)), (v, snd (read_clock w))))"

definition oidM :: "string ovl" where
  "oidM = (\<lambda>(v, w). (Inr (fst (generate_oid w)), (v, snd (generate_oid w))))"

text \<open>A program on the child \<open>obj.at(k)\<close>, written back also when it throws.\<close>

definition focus :: "string \<Rightarrow> 'a ovl \<Rightarrow> 'a ovl" where
  "focus k m =
     (\<lambda>(v, w).
        case get_object v of
          Inl e \<Rightarrow> (Inl e, (v, w))
        | Inr ps \<Rightarrow>
          (case table_at k ps of
             Inl e \<Rightarrow> (Inl e, (v, w))
           | Inr c \<Rightarrow> (case m (c, w) of (r, (c', w')) \<Rightarrow> (r, (Obj (put_first k c' ps), w')))))"

text \<open>\<open>obj[k] = x\<close>.\<close>

definition set_child :: "string \<Rightarrow> value_t \<Rightarrow> unit ovl" where
  "set_child k x = bindM objectM (\<lambda>ps. set_value (Obj (table_set k x ps)))"

text \<open>\<open>if (obj.count(k) == 0) obj[k] = ...\<close>, and \<open>confirm(obj.count(k) == 1)\<close>.\<close>

definition default_child :: "string \<Rightarrow> value_t ovl \<Rightarrow> unit ovl" where
  "default_child k m =
     bindM objectM (\<lambda>ps. if table_count k ps = 0 then bindM m (set_child k) else retM ())"

definition confirm_one :: "string \<Rightarrow> unit ovl" where
  "confirm_one k = bindM objectM (\<lambda>ps. confirm (table_count k ps = 1))"

definition confirm_type :: "type_t \<Rightarrow> unit ovl" where
  "confirm_type t = bindM valueM (\<lambda>v. confirm (type_visitor v = t))"

text \<open>The function-try-blocks of the \<open>init\<close> functions: \<open>catch (...) { confirm(false); throw; }\<close>.\<close>

definition guarded_init :: "unit ovl \<Rightarrow> unit ovl" where
  "guarded_init m = catchM (\<lambda>_. True) m (throwM Runtime_exception)"

text \<open>Values that may have to be produced: a constant, a fresh timestamp.\<close>

definition constM :: "value_t \<Rightarrow> value_t ovl" where
  "constM x = retM x"

definition nowM :: "value_t ovl" where
  "nowM = bindM timestampM (\<lambda>t. retM (Str t))"

text \<open>\<open>overlay<OVL, T>(parent, key)\<close>: the child, created from the default when missing.\<close>

definition overlay :: "string \<Rightarrow> value_t \<Rightarrow> unit ovl \<Rightarrow> unit ovl" where
  "overlay k dflt m =
     seqM [confirm (k \<noteq> []), confirm_type OBJECT,
       bindM valueM (\<lambda>v. bindM (liftE (value_or_default k dflt v)) (\<lambda>(_, v'). set_value v')),
       focus k m]"

text \<open>\<open>for (auto& e : array)\<close>: a program on every element in turn.\<close>

fun each_loop :: "'a ovl \<Rightarrow> array_t \<Rightarrow> world \<Rightarrow> (exn + 'a list) \<times> array_t \<times> world" where
  "each_loop m [] w = (Inr [], [], w)"
| "each_loop m (x # xs) w =
     (case m (x, w) of
        (Inl e, (x', w')) \<Rightarrow> (Inl e, x' # xs, w')
      | (Inr r, (x', w')) \<Rightarrow>
        (case each_loop m xs w' of
           (Inl e, (ys, w'')) \<Rightarrow> (Inl e, x' # ys, w'')
         | (Inr rs, (ys, w'')) \<Rightarrow> (Inr (r # rs), x' # ys, w'')))"

definition each :: "'a ovl \<Rightarrow> 'a list ovl" where
  "each m =
     (\<lambda>(v, w).
        case get_array v of
          Inl e \<Rightarrow> (Inl e, (v, w))
        | Inr xs \<Rightarrow> (case each_loop m xs w of (r, (ys, w')) \<Rightarrow> (r, (Arr ys, w'))))"

definition each_all :: "unit ovl \<Rightarrow> unit ovl" where
  "each_all m = bindM (each m) (\<lambda>_. retM ())"

section \<open>Results\<close>

definition msg_Ignored :: string where "msg_Ignored = ''{'' @ quoted ''message'' @ '':'' @ quoted ''Ignored'' @ ''}''"
definition msg_Missing :: string where "msg_Missing = ''{'' @ quoted ''message'' @ '':'' @ quoted ''Missing'' @ ''}''"
definition msg_Added :: string where "msg_Added = ''{'' @ quoted ''message'' @ '':'' @ quoted ''Added'' @ ''}''"
definition msg_Removed :: string where "msg_Removed = ''{'' @ quoted ''message'' @ '':'' @ quoted ''Removed'' @ ''}''"
definition msg_Failure :: string where "msg_Failure = ''{'' @ quoted ''message'' @ '':'' @ quoted ''Failure'' @ ''}''"
definition msg_AlreadyExist :: string where "msg_AlreadyExist = ''{'' @ quoted ''message'' @ '':'' @ quoted ''AlreadyExist'' @ ''}''"
definition msg_Success :: string where "msg_Success = ''{'' @ quoted ''message'' @ '':'' @ quoted ''Success'' @ ''}''"
definition msg_IsReadonly :: string where
  "msg_IsReadonly = ''{'' @ quoted ''message'' @ '':'' @ quoted ''Document is readonly'' @ ''}''"

definition Success :: "string \<Rightarrow> result_t" where "Success msg = (True, msg)"
definition Failure :: "string \<Rightarrow> result_t" where "Failure msg = (False, msg)"

definition ThrowOnFailure :: "result_t \<Rightarrow> exn + unit" where
  "ThrowOnFailure r = (if fst r then Inr () else Inl Invalid_argument)"

section \<open>Leaves\<close>

text \<open>\<open>ovlTimeStamp\<close> rewrites a timestamp of the old format when it is constructed.\<close>

definition ovlTimeStamp :: "unit ovl" where
  "ovlTimeStamp =
     (\<lambda>(v, w). bindM (liftE (bindE (get_string v) (confirm_iso8601_timestamp (w_legacy w))))
        (\<lambda>t. set_value (Str t)) (v, w))"

definition ovlStringKeyValue :: "unit ovl" where
  "ovlStringKeyValue =
     guarded_init (thenM (confirm_type VALUE)
       (bindM valueM (\<lambda>v. bindM (liftE (get_string v)) (\<lambda>s.
          whenM (s = []) (set_value (Str ''notprovided''))))))"

text \<open>\<open>ovlKeyValue\<close>, \<open>ovlKeyValueWithMask\<close>, \<open>ovlComment\<close>: nothing is checked.\<close>

definition ovlKeyValue :: "unit ovl" where
  "ovlKeyValue = retM ()"

definition ovlId :: "unit ovl" where
  "ovlId =
     guarded_init (seqM [confirm_type OBJECT,
       default_child ''$oid'' (bindM oidM (\<lambda>t. retM (Str t))), confirm_one ''$oid''])"

definition newId :: "unit ovl" where
  "newId = guarded_init (seqM [bindM oidM (\<lambda>t. set_child ''$oid'' (Str t)), confirm_one ''$oid''])"

definition oid :: "value_t \<Rightarrow> exn + string" where
  "oid v = bindE (child_at ''$oid'' v) get_string"

text \<open>\<open>oid(id)\<close> confirms that the new identifier is empty before it stores it.\<close>

definition set_oid :: "string \<Rightarrow> unit ovl" where
  "set_oid i = thenM (confirm (i = []))
     (bindM valueM (\<lambda>v. bindM (liftE (oid v)) (\<lambda>_. set_child ''$oid'' (Str i))))"

section \<open>Named entries with timestamps\<close>

text \<open>
  \<open>ovlKeyValueTimeStamp<mask, A, R>\<close>: an object with exactly one \<open>name\<close>, an \<open>assigned\<close> time
  when \<open>A\<close> and a \<open>removed\<close> time when \<open>R\<close>.  Both members are initialised by \<open>map_assigned\<close>;
  \<open>map_removed\<close> is never called.
\<close>

definition kvts_init :: "bool \<Rightarrow> bool \<Rightarrow> unit ovl" where
  "kvts_init A R =
     guarded_init (seqM [confirm_type OBJECT, confirm_one ''name'',
       whenM A (seqM [default_child ''assigned'' nowM, confirm_one ''assigned'']),
       whenM R (seqM [default_child ''removed'' nowM, confirm_one ''removed''])])"

definition map_assigned :: "bool \<Rightarrow> unit ovl" where
  "map_assigned A =
     thenM (confirm_type OBJECT)
       (whenM A (seqM [confirm_one ''assigned'', focus ''assigned'' ovlTimeStamp]))"

definition ovlKeyValueTimeStamp :: "bool \<Rightarrow> bool \<Rightarrow> unit ovl" where
  "ovlKeyValueTimeStamp A R = seqM [kvts_init A R, map_assigned A, map_assigned A]"

definition kvts_name :: "value_t \<Rightarrow> exn + string" where
  "kvts_name v = bindE (child_at ''name'' v) get_string"

definition set_name :: "string \<Rightarrow> unit ovl" where
  "set_name n = thenM (confirm (n \<noteq> []))
     (bindM valueM (\<lambda>v. bindM (liftE (kvts_name v)) (\<lambda>_. focus ''name'' (set_value (Str n)))))"

section \<open>Lists of entries\<close>

text \<open>\<open>make_list\<close> of both list classes: the element constructor on every entry.\<close>

definition make_list :: "unit ovl \<Rightarrow> unit ovl" where
  "make_list ctor = each_all ctor"

definition ovlFixedList :: "unit ovl \<Rightarrow> unit ovl" where
  "ovlFixedList ctor = make_list ctor"

definition fixed_wipe :: "unit ovl \<Rightarrow> unit ovl" where
  "fixed_wipe ctor = seqM [bindM arrayM (\<lambda>_. set_value (Arr [])), make_list ctor]"

fun has_name :: "value_t \<Rightarrow> array_t \<Rightarrow> exn + bool" where
  "has_name x [] = Inr False"
| "has_name x (e # es) =
     bindE (kvts_name e) (\<lambda>n. bindE (kvts_name x) (\<lambda>m. if n = m then Inr True else has_name x es))"

definition fixed_add :: "unit ovl \<Rightarrow> value_t \<Rightarrow> result_t ovl" where
  "fixed_add ctor x =
     bindM arrayM (\<lambda>es. bindM (liftE (has_name x es)) (\<lambda>b.
       if b then retM (Success msg_Ignored)
       else thenM (seqM [set_value (Arr (es @ [x])), make_list ctor]) (retM (Success msg_Added))))"

text \<open>
  \<open>erase(remove_if(...))\<close>: an element overlay is constructed on every entry, entries with the
  name of \<open>x\<close> go.  The result tells how many entries there were and how many are left.
\<close>

definition erase_named :: "unit ovl \<Rightarrow> value_t \<Rightarrow> (nat \<times> nat) ovl" where
  "erase_named ctor x =
     bindM (each (thenM ctor (bindM valueM (\<lambda>e. liftE (bindE (kvts_name e) (\<lambda>n.
       bindE (kvts_name x) (\<lambda>m. Inr (n = m)))))))) (\<lambda>bs.
     bindM arrayM (\<lambda>es.
     let kept = map snd (filter (\<lambda>p. \<not> fst p) (zip bs es)) in
     thenM (set_value (Arr kept)) (retM (length es, length kept))))"

text \<open>\<open>oldEntry->object_value()[removed] = timestamp()\<close>: the entry passed in is stamped.\<close>

definition stamp_removed :: "value_t \<Rightarrow> value_t ovl" where
  "stamp_removed x =
     bindM (liftE (get_object x)) (\<lambda>ps. bindM timestampM (\<lambda>t.
       retM (Obj (table_set ''removed'' (Str t) ps))))"

definition fixed_remove :: "unit ovl \<Rightarrow> value_t \<Rightarrow> (result_t \<times> value_t) ovl" where
  "fixed_remove ctor x =
     bindM arrayM (\<lambda>es.
       if es = [] then retM (Success msg_Ignored, x)
       else bindM (erase_named ctor x) (\<lambda>(old, left).
         if old = left then retM (Failure msg_Missing, x)
         else thenM (confirm (old = left + 1))
           (bindM (stamp_removed x) (\<lambda>x'. thenM (make_list ctor) (retM (Success msg_Removed, x'))))))"

text \<open>The list with a history.  \<open>remove\<close> computes \<open>Success(msg_Ignored)\<close> for an empty list but
  does not return it.\<close>

definition movable_init :: "unit ovl" where
  "movable_init =
     guarded_init (seqM [confirm_type OBJECT,
       default_child ''active'' (constM (Arr [])), default_child ''history'' (constM (Arr []))])"

definition ovlMovableList :: "unit ovl \<Rightarrow> unit ovl" where
  "ovlMovableList ctor =
     seqM [movable_init, focus ''active'' (make_list ctor), focus ''history'' (make_list ctor)]"

definition movable_add :: "unit ovl \<Rightarrow> value_t \<Rightarrow> result_t ovl" where
  "movable_add ctor x = focus ''active'' (fixed_add ctor x)"

definition movable_remove :: "unit ovl \<Rightarrow> value_t \<Rightarrow> (result_t \<times> value_t) ovl" where
  "movable_remove ctor x =
     bindM (focus ''active'' (erase_named ctor x)) (\<lambda>(old, left).
       if old = left then retM (Failure msg_Missing, x)
       else thenM (seqM [confirm (old - 1 = left), focus ''active'' (make_list ctor)])
         (bindM (focus ''history'' arrayM) (\<lambda>hs.
          bindM (stamp_removed x) (\<lambda>x'.
          thenM (seqM [focus ''history'' (set_value (Arr (hs @ [x']))), focus ''history'' (make_list ctor)])
            (retM (Success msg_Removed, x'))))))"

section \<open>Updates and bookkeeping\<close>

definition ovlUpdate :: "unit ovl" where
  "ovlUpdate =
     seqM [confirm_type OBJECT, confirm_one ''timestamp'', focus ''timestamp'' ovlTimeStamp,
       confirm_type OBJECT, confirm_one ''value'', focus ''value'' (ovlKeyValueTimeStamp True False)]"

definition bookkeeping_init :: "unit ovl" where
  "bookkeeping_init =
     guarded_init (seqM [confirm_type OBJECT,
       default_child ''isdeleted'' (constM (Bool False)), default_child ''isreadonly'' (constM (Bool False))])"

definition make_updates :: "unit ovl" where
  "make_updates =
     seqM [confirm_type OBJECT, default_child ''updates'' (constM (Arr [])), confirm_one ''updates'',
       focus ''updates'' (each_all ovlUpdate)]"

definition map_created :: "unit ovl" where
  "map_created =
     seqM [confirm_type OBJECT, default_child ''created'' nowM, confirm_one ''created'',
       focus ''created'' ovlTimeStamp]"

definition ovlBookkeeping :: "unit ovl" where
  "ovlBookkeeping = seqM [bookkeeping_init, make_updates, map_created]"

definition isReadonly :: "value_t \<Rightarrow> exn + bool" where
  "isReadonly v = bindE (child_at ''isreadonly'' v) get_bool"

definition isDeleted :: "value_t \<Rightarrow> exn + bool" where
  "isDeleted v = bindE (child_at ''isdeleted'' v) get_bool"

definition set_flag :: "string \<Rightarrow> bool \<Rightarrow> unit ovl" where
  "set_flag k b = focus k (bindM valueM (\<lambda>v. bindM (liftE (get_bool v)) (\<lambda>_. set_value (Bool b))))"

text \<open>One entry of the history: the event, its time and the value it is about.\<close>

definition update_entry :: "string \<Rightarrow> value_t \<Rightarrow> value_t ovl" where
  "update_entry name what =
     bindM timestampM (\<lambda>t.
       if type_visitor what = OBJECT then
         retM (Obj [(''event'', Str name), (''timestamp'', Str t), (''value'', what)])
       else bindM timestampM (\<lambda>t'.
         retM (Obj [(''event'', Str name), (''timestamp'', Str t),
           (''value'', Obj [(''name'', what), (''assigned'', Str t')])])))"

definition postUpdate :: "string \<Rightarrow> value_t \<Rightarrow> result_t ovl" where
  "postUpdate name what =
     thenM (confirm (name \<noteq> [])) (bindM valueM (\<lambda>v. bindM (liftE (isReadonly v)) (\<lambda>b.
       if b then retM (Failure msg_IsReadonly)
       else bindM (liftE (child_at ''updates'' v)) (\<lambda>u. bindM (liftE (get_array u)) (\<lambda>us.
         bindM (update_entry name what) (\<lambda>entry.
         thenM (seqM [focus ''updates'' (set_value (Arr (us @ [entry]))), make_updates])
           (retM (Success msg_Added))))))))"

section \<open>Origin and document\<close>

definition ovlRawData :: "unit ovl" where
  "ovlRawData = ovlStringKeyValue"

definition origin_init :: "unit ovl" where
  "origin_init =
     guarded_init (seqM [confirm_type OBJECT,
       default_child ''source'' (constM (Str ''template'')), confirm_one ''source'',
       default_child ''name'' (constM (Str ''notprovided'')), confirm_one ''name'',
       default_child ''format'' (constM (Str ''json'')), confirm_one ''format'',
       default_child ''created'' nowM, confirm_one ''created'',
       default_child ''rawdata'' (constM (Arr [])), confirm_one ''rawdata''])"

definition ovlOrigin :: "unit ovl" where
  "ovlOrigin =
     seqM [origin_init,
       confirm_type OBJECT, confirm_one ''created'', focus ''created'' ovlTimeStamp,
       overlay ''rawdata'' (Arr []) (ovlFixedList ovlRawData)]"

definition ovlDocument :: "unit ovl" where
  "ovlDocument =
     seqM [overlay ''data'' (Obj []) ovlKeyValue, overlay ''metadata'' (Obj []) ovlKeyValue,
       overlay ''search'' (Arr []) (ovlFixedList ovlKeyValue)]"

definition changelog_append :: "string \<Rightarrow> unit ovl" where
  "changelog_append t =
     bindM valueM (\<lambda>v. bindM (liftE (get_string v)) (\<lambda>s. set_value (Str (s @ t))))"

end
