(* ===== verification/OverlayLaws.thy ===== *)
theory OverlayLaws
  imports Overlay
begin

text \<open>
  What the overlay constructors establish.  Each part has a well-formedness predicate; its
  constructor, when it does not throw, yields a well-formed value, and on a well-formed
  value it does nothing, not even read the clock.  The second half gives the effect of the
  list and bookkeeping operations on well-formed values.
\<close>

section \<open>Execution of the building blocks\<close>

lemma valueM_run [prog_simps]: "valueM (v, w) = (Inr v, (v, w))"
  by (simp add: valueM_def)

lemma set_value_run [prog_simps]: "set_value x (v, w) = (Inr (), (x, w))"
  by (simp add: set_value_def)

lemma objectM_run [prog_simps]: "objectM (v, w) = (get_object v, (v, w))"
  by (simp add: objectM_def)

lemma arrayM_run [prog_simps]: "arrayM (v, w) = (get_array v, (v, w))"
  by (simp add: arrayM_def)

lemma timestampM_run [prog_simps]:
  "timestampM (v, w) = (Inr (w_clock w 0), (v, snd (read_clock w)))"
  by (simp add: timestampM_def read_clock_def)

lemma get_object_Inr: "get_object v = Inr ps \<longleftrightarrow> v = Obj ps"
  by (cases v) auto

lemma get_array_Inr: "get_array v = Inr xs \<longleftrightarrow> v = Arr xs"
  by (cases v) auto

lemma get_string_Inr: "get_string v = Inr s \<longleftrightarrow> v = Str s"
  by (cases v) auto

lemma confirm_Inr: "confirm b s = (Inr u, t) \<longleftrightarrow> b \<and> t = s"
  by (auto simp: prog_simps)

lemma guarded_init_Inr: "guarded_init m s = (Inr u, t) \<longleftrightarrow> m s = (Inr u, t)"
  by (simp add: guarded_init_def catchM_Inr)

lemma confirm_type_Inr: "confirm_type t (v, w) = (Inr u, s) \<longleftrightarrow> type_visitor v = t \<and> s = (v, w)"
  by (auto simp: confirm_type_def bindM_Inr prog_simps)

lemma type_OBJECT: "type_visitor v = OBJECT \<longleftrightarrow> (\<exists>ps. v = Obj ps)"
  by (cases v) auto

lemma type_VALUE_Str: "type_visitor (Str s) = VALUE"
  by simp

lemma confirm_one_Inr:
  "confirm_one k (v, w) = (Inr u, s) \<longleftrightarrow> (\<exists>ps. v = Obj ps \<and> table_count k ps = 1 \<and> s = (v, w))"
  by (cases v) (auto simp: confirm_one_def prog_simps)

lemma set_child_run [prog_simps]: "set_child k x (Obj ps, w) = (Inr (), (Obj (table_set k x ps), w))"
  by (simp add: set_child_def prog_simps)

definition with_default :: "string \<Rightarrow> value_t \<Rightarrow> object_t \<Rightarrow> object_t" where
  "with_default k x ps = (if table_count k ps = 0 then table_set k x ps else ps)"

lemma default_const_Inr:
  "default_child k (constM x) (v, w) = (Inr u, s) \<longleftrightarrow>
     (\<exists>ps. v = Obj ps \<and> s = (Obj (with_default k x ps), w))"
  by (cases v) (auto simp: default_child_def constM_def with_default_def prog_simps)

lemma default_now_Inr:
  "default_child k nowM (v, w) = (Inr u, s) \<longleftrightarrow>
     (\<exists>ps. v = Obj ps \<and> s = (Obj (with_default k (Str (w_clock w 0)) ps),
        if table_count k ps = 0 then snd (read_clock w) else w))"
  by (cases v) (auto simp: default_child_def nowM_def with_default_def prog_simps)

lemma focus_Inr:
  "focus k m (v, w) = (Inr r, (v', w')) \<longleftrightarrow>
     (\<exists>ps c c'. v = Obj ps \<and> map_of ps k = Some c \<and> m (c, w) = (Inr r, (c', w')) \<and> v' = Obj (put_first k c' ps))"
  by (cases v) (auto simp: focus_def table_at_map_of split: option.splits sum.splits prod.splits)

lemma focus_run:
  "map_of ps k = Some c \<Longrightarrow>
   focus k m (Obj ps, w) = (case m (c, w) of (r, (c', w')) \<Rightarrow> (r, (Obj (put_first k c' ps), w')))"
  by (simp add: focus_def table_at_map_of)

lemma confirm_type_run: "confirm_type t (v, w) = (if type_visitor v = t then Inr () else Inl Runtime_exception, (v, w))"
  by (simp add: confirm_type_def prog_simps)

lemma count_zero_map_of: "table_count k ps = 0 \<longleftrightarrow> map_of ps k = None"
  by (simp add: table_count_zero map_of_eq_None_iff)

lemma value_or_default_run:
  "k \<noteq> [] \<Longrightarrow> value_or_default k d (Obj ps) =
     Inr (case map_of ps k of Some c \<Rightarrow> c | None \<Rightarrow> d, Obj (with_default k d ps))"
  by (auto simp: value_or_default_def table_at_map_of with_default_def count_zero_map_of
      split: option.splits)

lemma overlay_run:
  "k \<noteq> [] \<Longrightarrow> overlay k d m (Obj ps, w) = focus k m (Obj (with_default k d ps), w)"
  by (simp add: overlay_def prog_simps confirm_type_run value_or_default_run)
    (simp add: retM_run split: prod.splits sum.splits)

lemma overlay_Inr:
  "k \<noteq> [] \<Longrightarrow> overlay k d m (v, w) = (Inr u, (v', w')) \<longleftrightarrow>
     (\<exists>ps c c'. v = Obj ps \<and> map_of (with_default k d ps) k = Some c \<and> m (c, w) = (Inr (), (c', w'))
        \<and> v' = Obj (put_first k c' (with_default k d ps)))"
  by (cases v) (simp_all add: overlay_run focus_Inr, simp_all add: overlay_def prog_simps confirm_type_run)

section \<open>Tables with defaults\<close>

lemma map_of_with_default [table_simps]:
  "map_of (with_default k x ps) j =
     (if j = k then (case map_of ps k of Some c \<Rightarrow> Some c | None \<Rightarrow> Some x) else map_of ps j)"
  by (auto simp: with_default_def table_simps count_zero_map_of split: option.splits)

lemma table_count_with_default [table_simps]:
  "table_count j (with_default k x ps) = (if j = k then max 1 (table_count k ps) else table_count j ps)"
  by (auto simp: with_default_def table_count_set)

lemma table_count_keys: "table_count k ps = count_list (map fst ps) k"
  by (induction ps) (auto simp: table_count_def)

lemma table_count_put_first [table_simps]: "table_count j (put_first k x ps) = table_count j ps"
  by (simp add: table_count_keys table_simps)

lemma map_of_put_first_iff [table_simps]:
  "map_of (put_first k x ps) j = (if j = k \<and> table_count k ps \<noteq> 0 then Some x else map_of ps j)"
  by (simp add: map_of_put_first table_count_zero)

declare map_of_put_first [table_simps del]

lemma with_default_same: "table_count k ps \<noteq> 0 \<Longrightarrow> with_default k x ps = ps"
  by (simp add: with_default_def)

lemma map_of_count: "map_of ps k = Some c \<Longrightarrow> table_count k ps \<noteq> 0"
  by (simp add: count_zero_map_of)

lemma count_map_of: "table_count k ps \<noteq> 0 \<Longrightarrow> \<exists>c. map_of ps k = Some c"
  by (simp add: count_zero_map_of)

section \<open>What a part promises to its container\<close>

text \<open>
  \<open>strftime\<close> with the ISO format, which \<open>timestamp()\<close> and the conversion of old timestamps
  both print with, yields a text that starts with the digit 2 from the year 2000 on.
\<close>

definition iso :: "string \<Rightarrow> bool" where
  "iso s \<longleftrightarrow> s \<noteq> [] \<and> hd s = CHR ''2''"

definition clock_ok :: "world \<Rightarrow> bool" where
  "clock_ok w \<longleftrightarrow> (\<forall>n. iso (w_clock w n)) \<and> (\<forall>s t. w_legacy w s = Some t \<longrightarrow> iso t)"

lemma clock_ok_read [simp]: "clock_ok w \<Longrightarrow> clock_ok (snd (read_clock w))"
  by (simp add: clock_ok_def read_clock_def)

lemma clock_ok_oid [simp]: "clock_ok w \<Longrightarrow> clock_ok (snd (generate_oid w))"
  by (simp add: clock_ok_def generate_oid_def Let_def)

lemma clock_ok_now [simp]: "clock_ok w \<Longrightarrow> iso (w_clock w n)"
  by (simp add: clock_ok_def)

text \<open>
  The interface of an overlay class: its constructor establishes the well-formedness of the
  value it is put over, and does nothing to a well-formed one.
\<close>

locale overlay_part =
  fixes ctor :: "unit ovl" and wf :: "value_t \<Rightarrow> bool"
  assumes establishes: "clock_ok w \<Longrightarrow> ctor (v, w) = (Inr u, (v', w')) \<Longrightarrow> wf v' \<and> clock_ok w'"
    and settled: "wf v \<Longrightarrow> ctor (v, w) = (Inr (), (v, w))"

fun wf_list :: "(value_t \<Rightarrow> bool) \<Rightarrow> value_t \<Rightarrow> bool" where
  "wf_list P (Arr xs) = list_all P xs"
| "wf_list P _ = False"

lemma each_all_Inr:
  "each_all m (v, w) = (Inr u, (v', w')) \<longleftrightarrow>
     (\<exists>xs rs ys. v = Arr xs \<and> each_loop m xs w = (Inr rs, (ys, w')) \<and> v' = Arr ys)"
  by (cases v) (auto simp: each_all_def each_def bindM_run retM_run split: prod.splits sum.splits)

context overlay_part
begin

lemma loop_establishes:
  "clock_ok w \<Longrightarrow> each_loop ctor xs w = (Inr rs, (ys, w')) \<Longrightarrow> list_all wf ys \<and> clock_ok w'"
proof (induction xs arbitrary: w rs ys)
  case (Cons x xs)
  from Cons.prems(2) obtain r x' w1 rs' ys' where
    c: "ctor (x, w) = (Inr r, (x', w1))" "each_loop ctor xs w1 = (Inr rs', (ys', w'))" "ys = x' # ys'"
    by (auto split: prod.splits sum.splits)
  then show ?case using establishes[OF Cons.prems(1) c(1)] Cons.IH by fastforce
qed auto

lemma loop_settled: "list_all wf xs \<Longrightarrow> each_loop ctor xs w = (Inr (replicate (length xs) ()), (xs, w))"
  by (induction xs) (auto simp: settled)

lemma list_establishes:
  "clock_ok w \<Longrightarrow> make_list ctor (v, w) = (Inr u, (v', w')) \<Longrightarrow> wf_list wf v' \<and> clock_ok w'"
  using loop_establishes by (auto simp: make_list_def each_all_Inr)

lemma list_settled: "wf_list wf v \<Longrightarrow> make_list ctor (v, w) = (Inr (), (v, w))"
  by (cases v) (auto simp: make_list_def each_all_Inr loop_settled)

lemma child_establishes:
  assumes "clock_ok w" "focus k ctor (v, w) = (Inr u, (v', w'))"
  shows "\<exists>ps c. v = Obj ps \<and> v' = Obj (put_first k c ps) \<and> map_of (put_first k c ps) k = Some c \<and> wf c \<and> clock_ok w'"
proof -
  obtain ps c c' where c: "v = Obj ps" "map_of ps k = Some c" "ctor (c, w) = (Inr u, (c', w'))"
      "v' = Obj (put_first k c' ps)"
    using assms(2) unfolding focus_Inr by blast
  then show ?thesis using establishes[OF assms(1) c(3)] map_of_count[OF c(2)]
    by (intro exI[of _ ps] exI[of _ c']) (simp add: map_of_put_first_iff)
qed

lemma child_settled: "map_of ps k = Some c \<Longrightarrow> wf c \<Longrightarrow> focus k ctor (Obj ps, w) = (Inr (), (Obj ps, w))"
  by (simp add: focus_run settled put_first_same)

text \<open>A list of parts is a part.\<close>

lemma list_part: "overlay_part (make_list ctor) (wf_list wf)"
  by unfold_locales (auto dest: list_establishes simp: list_settled)

end

section \<open>Well-formed parts\<close>

text \<open>Every well-formedness predicate is computed from the value alone.\<close>

definition child_is :: "(value_t \<Rightarrow> bool) \<Rightarrow> string \<Rightarrow> object_t \<Rightarrow> bool" where
  "child_is P k ps = (case map_of ps k of Some c \<Rightarrow> P c | None \<Rightarrow> False)"

fun wf_any :: "value_t \<Rightarrow> bool" where
  "wf_any _ = True"

fun wf_timestamp :: "value_t \<Rightarrow> bool" where
  "wf_timestamp (Str s) = iso s"
| "wf_timestamp _ = False"

fun wf_string :: "value_t \<Rightarrow> bool" where
  "wf_string (Str s) = (s \<noteq> [])"
| "wf_string _ = False"

fun wf_id :: "value_t \<Rightarrow> bool" where
  "wf_id (Obj ps) = (table_count ''$oid'' ps = 1)"
| "wf_id _ = False"

fun wf_kvts :: "bool \<Rightarrow> bool \<Rightarrow> value_t \<Rightarrow> bool" where
  "wf_kvts A R (Obj ps) =
     (table_count ''name'' ps = 1
      \<and> (A \<longrightarrow> table_count ''assigned'' ps = 1 \<and> child_is wf_timestamp ''assigned'' ps)
      \<and> (R \<longrightarrow> table_count ''removed'' ps = 1))"
| "wf_kvts A R _ = False"

fun wf_movable :: "(value_t \<Rightarrow> bool) \<Rightarrow> value_t \<Rightarrow> bool" where
  "wf_movable P (Obj ps) = (child_is (wf_list P) ''active'' ps \<and> child_is (wf_list P) ''history'' ps)"
| "wf_movable P _ = False"

fun wf_update :: "value_t \<Rightarrow> bool" where
  "wf_update (Obj ps) =
     (table_count ''timestamp'' ps = 1 \<and> child_is wf_timestamp ''timestamp'' ps
      \<and> table_count ''value'' ps = 1 \<and> child_is (wf_kvts True False) ''value'' ps)"
| "wf_update _ = False"

fun wf_bookkeeping :: "value_t \<Rightarrow> bool" where
  "wf_bookkeeping (Obj ps) =
     (table_count ''isdeleted'' ps \<noteq> 0 \<and> table_count ''isreadonly'' ps \<noteq> 0
      \<and> table_count ''updates'' ps = 1 \<and> child_is (wf_list wf_update) ''updates'' ps
      \<and> table_count ''created'' ps = 1 \<and> child_is wf_timestamp ''created'' ps)"
| "wf_bookkeeping _ = False"

fun wf_origin :: "value_t \<Rightarrow> bool" where
  "wf_origin (Obj ps) =
     (table_count ''source'' ps = 1 \<and> table_count ''name'' ps = 1 \<and> table_count ''format'' ps = 1
      \<and> table_count ''created'' ps = 1 \<and> child_is wf_timestamp ''created'' ps
      \<and> table_count ''rawdata'' ps = 1 \<and> child_is (wf_list wf_string) ''rawdata'' ps)"
| "wf_origin _ = False"

fun wf_document :: "value_t \<Rightarrow> bool" where
  "wf_document (Obj ps) =
     (child_is wf_any ''data'' ps \<and> child_is wf_any ''metadata'' ps \<and> child_is (wf_list wf_any) ''search'' ps)"
| "wf_document _ = False"

lemma child_is_put_first [table_simps]:
  "child_is P k (put_first j x ps) = (if k = j \<and> table_count j ps \<noteq> 0 then P x else child_is P k ps)"
  by (auto simp: child_is_def table_simps)

lemma child_is_with_default [table_simps]:
  "k \<noteq> j \<Longrightarrow> child_is P k (with_default j x ps) = child_is P k ps"
  by (simp add: child_is_def table_simps)

lemma child_is_Some: "child_is P k ps \<longleftrightarrow> (\<exists>c. map_of ps k = Some c \<and> P c)"
  by (auto simp: child_is_def split: option.splits)

lemma child_is_count: "child_is P k ps \<Longrightarrow> table_count k ps \<noteq> 0"
  by (auto simp: child_is_Some dest: map_of_count)

lemma timestamp_part: "overlay_part ovlTimeStamp wf_timestamp"
proof
  show "clock_ok w \<Longrightarrow> ovlTimeStamp (v, w) = (Inr u, (v', w')) \<Longrightarrow> wf_timestamp v' \<and> clock_ok w'" for w v u v' w'
    by (cases v) (auto simp: ovlTimeStamp_def bindM_Inr prog_simps confirm_iso8601_timestamp_def clock_ok_def
        iso_def split: if_splits option.splits)
  show "wf_timestamp v \<Longrightarrow> ovlTimeStamp (v, w) = (Inr (), (v, w))" for v w
    by (cases v) (auto simp: ovlTimeStamp_def prog_simps confirm_iso8601_timestamp_def iso_def)
qed

interpretation timestamp: overlay_part ovlTimeStamp wf_timestamp
  by (rule timestamp_part)

interpretation plain: overlay_part ovlKeyValue wf_any
  by unfold_locales (simp_all add: ovlKeyValue_def prog_simps)

interpretation strings: overlay_part ovlStringKeyValue wf_string
proof
  show "clock_ok w \<Longrightarrow> ovlStringKeyValue (v, w) = (Inr u, (v', w')) \<Longrightarrow> wf_string v' \<and> clock_ok w'" for w v u v' w'
    by (cases v) (auto simp: ovlStringKeyValue_def guarded_init_Inr prog_simps confirm_type_run
        split: if_splits)
  show "wf_string v \<Longrightarrow> ovlStringKeyValue (v, w) = (Inr (), (v, w))" for v w
    by (cases v) (auto simp: ovlStringKeyValue_def guarded_init_Inr prog_simps confirm_type_run)
qed

lemma oid_default_Inr:
  "default_child k (bindM oidM (\<lambda>t. retM (Str t))) (v, w) = (Inr u, s) \<longleftrightarrow>
     (\<exists>ps. v = Obj ps \<and> s = (Obj (with_default k (Str (fst (generate_oid w))) ps),
        if table_count k ps = 0 then snd (generate_oid w) else w))"
  by (cases v) (auto simp: default_child_def oidM_def with_default_def prog_simps)

interpretation ident: overlay_part ovlId wf_id
proof
  show "clock_ok w \<Longrightarrow> ovlId (v, w) = (Inr u, (v', w')) \<Longrightarrow> wf_id v' \<and> clock_ok w'" for w v u v' w'
    by (auto simp: ovlId_def guarded_init_Inr thenM_Inr confirm_type_Inr oid_default_Inr confirm_one_Inr retM_run
        split: if_splits)
  show "wf_id v \<Longrightarrow> ovlId (v, w) = (Inr (), (v, w))" for v w
    by (cases v) (auto simp: ovlId_def guarded_init_Inr thenM_Inr confirm_type_Inr oid_default_Inr confirm_one_Inr retM_run
        with_default_same)
qed

lemmas init_Inr =
  guarded_init_Inr thenM_Inr confirm_type_Inr confirm_one_Inr default_const_Inr default_now_Inr retM_run type_OBJECT

lemma whenM_cases: "whenM True m = m" "whenM False m = retM ()"
  by (simp_all add: whenM_def)

lemma kvts_init_establishes:
  assumes "clock_ok w" "kvts_init A R (v, w) = (Inr u, (v', w'))"
  shows "\<exists>ps. v' = Obj ps \<and> table_count ''name'' ps = 1 \<and> (A \<longrightarrow> table_count ''assigned'' ps = 1)
      \<and> (R \<longrightarrow> table_count ''removed'' ps = 1) \<and> clock_ok w'"
  using assms unfolding kvts_init_def
  by (cases A; cases R) (auto simp: init_Inr whenM_cases table_simps split: if_splits)

lemma kvts_init_settled: "wf_kvts A R v \<Longrightarrow> kvts_init A R (v, w) = (Inr (), (v, w))"
  by (cases v; cases A; cases R) (auto simp: kvts_init_def init_Inr whenM_cases with_default_same)

lemma map_assigned_establishes:
  assumes "clock_ok w" "map_assigned A (v, w) = (Inr u, (v', w'))"
  shows "clock_ok w' \<and> (\<exists>ps ps'. v = Obj ps \<and> v' = Obj ps' \<and> (\<forall>k. table_count k ps' = table_count k ps)
      \<and> (A \<longrightarrow> child_is wf_timestamp ''assigned'' ps'))"
proof (cases A)
  case True
  have "focus ''assigned'' ovlTimeStamp (v, w) = (Inr (), (v', w'))"
    using assms(2) True by (auto simp: map_assigned_def init_Inr whenM_cases)
  from timestamp.child_establishes[OF assms(1) this] True show ?thesis
    by (auto simp: table_simps child_is_Some)
next
  case False
  then show ?thesis using assms by (auto simp: map_assigned_def init_Inr whenM_cases)
qed

lemma map_assigned_settled: "wf_kvts A R v \<Longrightarrow> map_assigned A (v, w) = (Inr (), (v, w))"
  using timestamp.child_settled
  by (cases v; cases A) (auto simp: map_assigned_def init_Inr whenM_cases child_is_Some)

interpretation kvts: overlay_part "ovlKeyValueTimeStamp A R" "wf_kvts A R" for A R
proof
  fix w v u v' w'
  assume ok: "clock_ok w" and run: "ovlKeyValueTimeStamp A R (v, w) = (Inr u, (v', w'))"
  obtain v1 w1 v2 w2 where r: "kvts_init A R (v, w) = (Inr (), (v1, w1))"
      "map_assigned A (v1, w1) = (Inr (), (v2, w2))" "map_assigned A (v2, w2) = (Inr (), (v', w'))"
    using run by (auto simp: ovlKeyValueTimeStamp_def init_Inr)
  show "wf_kvts A R v' \<and> clock_ok w'"
    using kvts_init_establishes[OF ok r(1)] map_assigned_establishes[OF _ r(2)] map_assigned_establishes[OF _ r(3)]
    by auto
next
  show "wf_kvts A R v \<Longrightarrow> ovlKeyValueTimeStamp A R (v, w) = (Inr (), (v, w))" for v w
    by (simp add: ovlKeyValueTimeStamp_def thenM_Inr kvts_init_settled map_assigned_settled retM_run)
qed

interpretation entries: overlay_part "make_list (ovlKeyValueTimeStamp A R)" "wf_list (wf_kvts A R)" for A R
  by (rule kvts.list_part)

interpretation strings_list: overlay_part "make_list ovlStringKeyValue" "wf_list wf_string"
  by (rule strings.list_part)

interpretation plain_list: overlay_part "make_list ovlKeyValue" "wf_list wf_any"
  by (rule plain.list_part)

context overlay_part
begin

lemma movable_establishes:
  assumes "clock_ok w" "ovlMovableList ctor (v, w) = (Inr u, (v', w'))"
  shows "wf_movable wf v' \<and> clock_ok w'"
proof -
  obtain v1 w1 v2 w2 where r: "movable_init (v, w) = (Inr (), (v1, w1))"
      "focus ''active'' (make_list ctor) (v1, w1) = (Inr (), (v2, w2))"
      "focus ''history'' (make_list ctor) (v2, w2) = (Inr (), (v', w'))"
    using assms(2) by (auto simp: ovlMovableList_def init_Inr)
  have "w1 = w" using r(1) by (auto simp: movable_init_def init_Inr)
  then have ok: "clock_ok w1" using assms(1) by simp
  note child = overlay_part.child_establishes[OF list_part]
  show ?thesis
    using child[OF ok r(2)] child[OF _ r(3)] by (auto simp: table_simps child_is_Some)
qed

lemma movable_settled: "wf_movable wf v \<Longrightarrow> ovlMovableList ctor (v, w) = (Inr (), (v, w))"
  using overlay_part.child_settled[OF list_part]
  by (cases v) (auto simp: ovlMovableList_def movable_init_def init_Inr child_is_Some with_default_same count_zero_map_of)

lemma movable_part: "overlay_part (ovlMovableList ctor) (wf_movable wf)"
  by unfold_locales (auto dest: movable_establishes simp: movable_settled)

end

interpretation movable: overlay_part "ovlMovableList (ovlKeyValueTimeStamp A R)" "wf_movable (wf_kvts A R)" for A R
  by (rule kvts.movable_part)

interpretation update: overlay_part ovlUpdate wf_update
proof
  fix w v u v' w'
  assume ok: "clock_ok w" and run: "ovlUpdate (v, w) = (Inr u, (v', w'))"
  obtain v1 w1 ps where r: "focus ''timestamp'' ovlTimeStamp (v, w) = (Inr (), (v1, w1))"
      "focus ''value'' (ovlKeyValueTimeStamp True False) (v1, w1) = (Inr (), (v', w'))"
      and c: "v = Obj ps" "table_count ''timestamp'' ps = 1" "table_count ''value'' ps = 1"
    using run timestamp.child_establishes[OF ok] by (fastforce simp: ovlUpdate_def init_Inr table_simps)
  show "wf_update v' \<and> clock_ok w'"
    using timestamp.child_establishes[OF ok r(1)] kvts.child_establishes[OF _ r(2)] c
    by (auto simp: table_simps child_is_Some)
next
  show "wf_update v \<Longrightarrow> ovlUpdate (v, w) = (Inr (), (v, w))" for v w
    using timestamp.child_settled kvts.child_settled
    by (cases v) (auto simp: ovlUpdate_def init_Inr child_is_Some)
qed

interpretation updates: overlay_part "make_list ovlUpdate" "wf_list wf_update"
  by (rule update.list_part)

lemma bookkeeping_init_Inr:
  "bookkeeping_init (v, w) = (Inr u, (v', w')) \<longleftrightarrow>
     (\<exists>ps. v = Obj ps \<and> w' = w \<and>
       v' = Obj (with_default ''isreadonly'' (Bool False) (with_default ''isdeleted'' (Bool False) ps)))"
  by (auto simp: bookkeeping_init_def init_Inr)

lemma each_all_updates: "each_all ovlUpdate = make_list ovlUpdate"
  by (simp add: make_list_def)

lemma make_updates_establishes:
  assumes "clock_ok w" "make_updates (v, w) = (Inr u, (v', w'))"
  shows "clock_ok w' \<and> (\<exists>ps ps'. v = Obj ps \<and> v' = Obj ps' \<and> table_count ''updates'' ps' = 1
      \<and> child_is (wf_list wf_update) ''updates'' ps'
      \<and> (\<forall>k. k \<noteq> ''updates'' \<longrightarrow> table_count k ps' = table_count k ps \<and> map_of ps' k = map_of ps k))"
proof -
  obtain ps where ps: "v = Obj ps"
    "table_count ''updates'' (with_default ''updates'' (Arr []) ps) = 1"
    "focus ''updates'' (make_list ovlUpdate) (Obj (with_default ''updates'' (Arr []) ps), w) = (Inr (), (v', w'))"
    using assms(2) by (auto simp: make_updates_def init_Inr each_all_updates)
  from updates.child_establishes[OF assms(1) ps(3)] ps(1,2) show ?thesis
    by (auto simp: table_simps child_is_Some)
qed

lemma make_updates_settled:
  "table_count ''updates'' ps = 1 \<Longrightarrow> child_is (wf_list wf_update) ''updates'' ps \<Longrightarrow>
   make_updates (Obj ps, w) = (Inr (), (Obj ps, w))"
  using updates.child_settled
  by (auto simp: make_updates_def init_Inr each_all_updates child_is_Some with_default_same)

lemma map_created_establishes:
  assumes "clock_ok w" "map_created (v, w) = (Inr u, (v', w'))"
  shows "clock_ok w' \<and> (\<exists>ps ps'. v = Obj ps \<and> v' = Obj ps' \<and> table_count ''created'' ps' = 1
      \<and> child_is wf_timestamp ''created'' ps'
      \<and> (\<forall>k. k \<noteq> ''created'' \<longrightarrow> table_count k ps' = table_count k ps \<and> map_of ps' k = map_of ps k))"
proof -
  obtain ps where ps: "v = Obj ps" "table_count ''created'' (with_default ''created'' (Str (w_clock w 0)) ps) = 1"
    "focus ''created'' ovlTimeStamp (Obj (with_default ''created'' (Str (w_clock w 0)) ps),
       if table_count ''created'' ps = 0 then snd (read_clock w) else w) = (Inr (), (v', w'))"
    using assms(2) by (auto simp: map_created_def init_Inr)
  have ok: "clock_ok (if table_count ''created'' ps = 0 then snd (read_clock w) else w)"
    using assms(1) by simp
  from timestamp.child_establishes[OF ok ps(3)] ps(1,2) show ?thesis
    by (auto simp: table_simps child_is_Some)
qed

lemma map_created_settled:
  "table_count ''created'' ps = 1 \<Longrightarrow> child_is wf_timestamp ''created'' ps \<Longrightarrow>
   map_created (Obj ps, w) = (Inr (), (Obj ps, w))"
  using timestamp.child_settled
  by (auto simp: map_created_def init_Inr child_is_Some with_default_same)

interpretation bookkeeping: overlay_part ovlBookkeeping wf_bookkeeping
proof
  fix w v u v' w'
  assume ok: "clock_ok w" and run: "ovlBookkeeping (v, w) = (Inr u, (v', w'))"
  obtain v1 v2 w2 where r: "bookkeeping_init (v, w) = (Inr (), (v1, w))"
      "make_updates (v1, w) = (Inr (), (v2, w2))" "map_created (v2, w2) = (Inr (), (v', w'))"
    using run by (auto simp: ovlBookkeeping_def thenM_Inr retM_run bookkeeping_init_Inr)
  show "wf_bookkeeping v' \<and> clock_ok w'"
    using r(1) make_updates_establishes[OF ok r(2)] map_created_establishes[OF _ r(3)]
    by (auto simp: bookkeeping_init_Inr table_simps child_is_def)
next
  show "wf_bookkeeping v \<Longrightarrow> ovlBookkeeping (v, w) = (Inr (), (v, w))" for v w
    by (cases v) (auto simp: ovlBookkeeping_def thenM_Inr retM_run bookkeeping_init_Inr with_default_same
        make_updates_settled map_created_settled)
qed

lemma origin_init_establishes:
  assumes "clock_ok w" "origin_init (v, w) = (Inr u, (v', w'))"
  shows "clock_ok w' \<and> (\<exists>ps. v' = Obj ps \<and> table_count ''source'' ps = 1 \<and> table_count ''name'' ps = 1
      \<and> table_count ''format'' ps = 1 \<and> table_count ''created'' ps = 1 \<and> table_count ''rawdata'' ps = 1)"
  using assms by (auto simp: origin_init_def init_Inr table_simps split: if_splits)

lemma origin_init_settled: "wf_origin v \<Longrightarrow> origin_init (v, w) = (Inr (), (v, w))"
  by (cases v) (auto simp: origin_init_def init_Inr with_default_same)

context overlay_part
begin

lemma overlay_establishes:
  assumes "clock_ok w" "k \<noteq> []" "overlay k d ctor (v, w) = (Inr u, (v', w'))"
  shows "clock_ok w' \<and> (\<exists>ps ps'. v = Obj ps \<and> v' = Obj ps' \<and> child_is wf k ps'
      \<and> (table_count k ps \<le> 1 \<longrightarrow> table_count k ps' = 1)
      \<and> (\<forall>j. j \<noteq> k \<longrightarrow> table_count j ps' = table_count j ps \<and> map_of ps' j = map_of ps j))"
proof -
  obtain ps c c' where c: "v = Obj ps" "map_of (with_default k d ps) k = Some c" "ctor (c, w) = (Inr (), (c', w'))"
      "v' = Obj (put_first k c' (with_default k d ps))"
    using assms(3) by (auto simp: overlay_Inr[OF assms(2)])
  show ?thesis
    using establishes[OF assms(1) c(3)] c(1,4) by (auto simp: table_simps child_is_Some max_def)
qed

lemma overlay_settled:
  "k \<noteq> [] \<Longrightarrow> child_is wf k ps \<Longrightarrow> overlay k d ctor (Obj ps, w) = (Inr (), (Obj ps, w))"
  using child_settled by (auto simp: overlay_run child_is_Some with_default_same count_zero_map_of)

end

interpretation origin: overlay_part ovlOrigin wf_origin
proof
  fix w v u v' w'
  assume ok: "clock_ok w" and run: "ovlOrigin (v, w) = (Inr u, (v', w'))"
  obtain v1 w1 v2 w2 where r: "origin_init (v, w) = (Inr (), (v1, w1))"
      "focus ''created'' ovlTimeStamp (v1, w1) = (Inr (), (v2, w2))"
      "overlay ''rawdata'' (Arr []) (make_list ovlStringKeyValue) (v2, w2) = (Inr (), (v', w'))"
    using run by (auto simp: ovlOrigin_def ovlFixedList_def ovlRawData_def init_Inr)
  note 1 = origin_init_establishes[OF ok r(1)]
  note 2 = timestamp.child_establishes[OF _ r(2)]
  note 3 = strings_list.overlay_establishes[OF _ _ r(3)]
  show "wf_origin v' \<and> clock_ok w'"
    using 1 2 3 by (auto simp: table_simps child_is_def)
next
  show "wf_origin v \<Longrightarrow> ovlOrigin (v, w) = (Inr (), (v, w))" for v w
    using timestamp.child_settled strings_list.overlay_settled
    by (cases v) (auto simp: ovlOrigin_def ovlFixedList_def ovlRawData_def init_Inr origin_init_settled child_is_Some)
qed

interpretation document: overlay_part ovlDocument wf_document
proof
  fix w v u v' w'
  assume ok: "clock_ok w" and run: "ovlDocument (v, w) = (Inr u, (v', w'))"
  obtain v1 w1 v2 w2 where r: "overlay ''data'' (Obj []) ovlKeyValue (v, w) = (Inr (), (v1, w1))"
      "overlay ''metadata'' (Obj []) ovlKeyValue (v1, w1) = (Inr (), (v2, w2))"
      "overlay ''search'' (Arr []) (make_list ovlKeyValue) (v2, w2) = (Inr (), (v', w'))"
    using run by (auto simp: ovlDocument_def ovlFixedList_def thenM_Inr retM_run)
  show "wf_document v' \<and> clock_ok w'"
    using plain.overlay_establishes[OF ok _ r(1)] plain.overlay_establishes[OF _ _ r(2)]
      plain_list.overlay_establishes[OF _ _ r(3)]
    by (auto simp: child_is_def)
next
  show "wf_document v \<Longrightarrow> ovlDocument (v, w) = (Inr (), (v, w))" for v w
    using plain.overlay_settled plain_list.overlay_settled
    by (cases v) (auto simp: ovlDocument_def ovlFixedList_def thenM_Inr retM_run)
qed

end
