(* ===== verification/EntryLists.thy ===== *)
theory EntryLists
  imports OverlayLaws
begin

text \<open>
  The contract between a database record and its lists of named entries, stated as a locale
  and discharged by both list classes: \<open>ovlFixedList\<close> over an array and \<open>ovlMovableList\<close>
  over an object with an active and a history array.  The last section is the effect of
  \<open>postUpdate\<close> on a well-formed bookkeeping node.
\<close>

section \<open>Names\<close>

definition named :: "value_t \<Rightarrow> bool" where
  "named v \<longleftrightarrow> (case kvts_name v of Inr _ \<Rightarrow> True | Inl _ \<Rightarrow> False)"

lemma named_Inr: "named v \<longleftrightarrow> (\<exists>n. kvts_name v = Inr n)"
  by (auto simp: named_def split: sum.splits)

lemma has_name_in:
  "list_all named es \<Longrightarrow> named x \<Longrightarrow> has_name x es = Inr (kvts_name x \<in> kvts_name ` set es)"
  by (induction es) (auto simp: named_Inr)

text \<open>The entry as \<open>remove\<close> stamps it.\<close>

definition stamped :: "string \<Rightarrow> value_t \<Rightarrow> value_t" where
  "stamped t x = (case x of Obj ps \<Rightarrow> Obj (table_set ''removed'' (Str t) ps) | _ \<Rightarrow> x)"

lemma stamp_removed_run:
  "wf_kvts A R x \<Longrightarrow> stamp_removed x (v, w) = (Inr (stamped (w_clock w 0) x), (v, snd (read_clock w)))"
  by (cases x) (auto simp: stamp_removed_def stamped_def prog_simps)

lemma stamped_wf: "wf_kvts A R x \<Longrightarrow> wf_kvts A R (stamped t x) \<and> kvts_name (stamped t x) = kvts_name x"
  by (cases x) (auto simp: stamped_def table_count_set child_is_def table_simps kvts_name_def child_at_def)

lemma filter_others: "k \<notin> f ` set es \<Longrightarrow> filter (\<lambda>e. f e \<noteq> k) es = es"
  by (induction es) auto

section \<open>The contract\<close>

locale entry_list =
  fixes add :: "value_t \<Rightarrow> result_t ovl"
    and remove :: "value_t \<Rightarrow> (result_t \<times> value_t) ovl"
    and entries :: "value_t \<Rightarrow> array_t"
    and ok :: "value_t \<Rightarrow> bool"
    and entry_ok :: "value_t \<Rightarrow> bool"
  assumes add_known: "ok v \<Longrightarrow> entry_ok x \<Longrightarrow> kvts_name x \<in> kvts_name ` set (entries v) \<Longrightarrow>
      add x (v, w) = (Inr (Success msg_Ignored), (v, w))"
    and add_fresh: "ok v \<Longrightarrow> entry_ok x \<Longrightarrow> kvts_name x \<notin> kvts_name ` set (entries v) \<Longrightarrow>
      \<exists>v'. add x (v, w) = (Inr (Success msg_Added), (v', w)) \<and> ok v' \<and> entries v' = entries v @ [x]"
    and remove_known: "ok v \<Longrightarrow> entry_ok x \<Longrightarrow> clock_ok w \<Longrightarrow>
      length (filter (\<lambda>e. kvts_name e = kvts_name x) (entries v)) = 1 \<Longrightarrow>
      \<exists>v'. remove x (v, w) = (Inr (Success msg_Removed, stamped (w_clock w 0) x), (v', snd (read_clock w)))
        \<and> ok v' \<and> entries v' = filter (\<lambda>e. kvts_name e \<noteq> kvts_name x) (entries v)"
    and remove_unknown: "ok v \<Longrightarrow> entry_ok x \<Longrightarrow> entries v \<noteq> [] \<Longrightarrow>
      kvts_name x \<notin> kvts_name ` set (entries v) \<Longrightarrow>
      remove x (v, w) = (Inr (Failure msg_Missing, x), (v, w))"
    and entry_wf: "entry_ok x \<Longrightarrow> wf_kvts True False x"
begin

definition names :: "value_t \<Rightarrow> (exn + string) list" where
  "names v = map kvts_name (entries v)"

lemma add_names:
  assumes "ok v" "entry_ok x" "add x (v, w) = (Inr r, (v', w'))"
  shows "ok v' \<and> w' = w \<and> names v' = (if kvts_name x \<in> set (names v) then names v else names v @ [kvts_name x])"
proof (cases "kvts_name x \<in> set (names v)")
  case True
  then show ?thesis using add_known[OF assms(1,2)] assms(1,3) by (auto simp: names_def)
next
  case False
  then have "kvts_name x \<notin> kvts_name ` set (entries v)" by (simp add: names_def)
  then obtain v1 where "add x (v, w) = (Inr (Success msg_Added), (v1, w))" "ok v1" "entries v1 = entries v @ [x]"
    using add_fresh[OF assms(1,2)] by blast
  then show ?thesis using False assms(3) by (simp add: names_def)
qed

lemma add_distinct:
  assumes "ok v" "entry_ok x" "add x (v, w) = (Inr r, (v', w'))" "distinct (names v)"
  shows "distinct (names v')"
  using add_names[OF assms(1-3)] assms(4) by auto

lemma add_remove:
  assumes "ok v" "entry_ok x" "clock_ok w" "kvts_name x \<notin> set (names v)"
  shows "\<exists>v1 v2. add x (v, w) = (Inr (Success msg_Added), (v1, w)) \<and> ok v2
      \<and> remove x (v1, w) = (Inr (Success msg_Removed, stamped (w_clock w 0) x), (v2, snd (read_clock w)))
      \<and> entries v2 = entries v"
proof -
  have n: "kvts_name x \<notin> kvts_name ` set (entries v)" using assms(4) by (simp add: names_def)
  then have ne: "e \<in> set (entries v) \<Longrightarrow> kvts_name e \<noteq> kvts_name x" for e by (metis imageI)
  have f: "filter (\<lambda>e. kvts_name e = kvts_name x) (entries v) = []"
      "filter (\<lambda>e. kvts_name e \<noteq> kvts_name x) (entries v) = entries v"
    by (simp_all add: filter_empty_conv filter_id_conv ne)
  obtain v1 where v1: "add x (v, w) = (Inr (Success msg_Added), (v1, w))" "ok v1" "entries v1 = entries v @ [x]"
    using add_fresh[OF assms(1,2) n] by blast
  then show ?thesis using remove_known[OF v1(2) assms(2,3)] f n by auto
qed

end

section \<open>The list over an array\<close>

fun array_of :: "value_t \<Rightarrow> array_t" where
  "array_of (Arr xs) = xs"
| "array_of _ = []"

definition ok_entry :: "bool \<Rightarrow> bool \<Rightarrow> value_t \<Rightarrow> bool" where
  "ok_entry A R x \<longleftrightarrow> wf_kvts A R x \<and> named x"

lemma erase_loop_run:
  assumes "list_all (ok_entry A R) es" "named x"
  shows "each_loop (thenM (ovlKeyValueTimeStamp A R) (bindM valueM (\<lambda>e. liftE (bindE (kvts_name e) (\<lambda>n.
      bindE (kvts_name x) (\<lambda>m. Inr (n = m))))))) es w
    = (Inr (map (\<lambda>e. kvts_name e = kvts_name x) es), (es, w))"
  using assms by (induction es) (auto simp: ok_entry_def named_Inr thenM_run bindM_run kvts.settled valueM_run liftE_run)

lemma kept_length: "length (filter (\<lambda>p. \<not> fst p) (zip (map Q es) es)) = length (filter (\<lambda>e. \<not> Q e) es)"
  by (induction es) auto

lemma kept_filter: "map snd (filter (\<lambda>p. \<not> fst p) (zip (map Q es) es)) = filter (\<lambda>e. \<not> Q e) es"
  by (induction es) auto

lemma erase_named_run:
  assumes "list_all (ok_entry A R) es" "named x"
  shows "erase_named (ovlKeyValueTimeStamp A R) x (Arr es, w) =
    (Inr (length es, length (filter (\<lambda>e. kvts_name e \<noteq> kvts_name x) es)),
     (Arr (filter (\<lambda>e. kvts_name e \<noteq> kvts_name x) es), w))"
  by (simp add: erase_named_def bindM_run each_def erase_loop_run[OF assms] arrayM_run Let_def kept_filter kept_length
      thenM_run set_value_run retM_run)

lemma list_entries_wf: "list_all (ok_entry A R) es \<Longrightarrow> wf_list (wf_kvts A R) (Arr es)"
  by (auto simp: list_all_iff ok_entry_def)

lemma filter_lengths:
  "length (filter P es) + length (filter (\<lambda>e. \<not> P e) es) = length es"
  by (induction es) auto

lemma fixed_add_run:
  assumes "list_all (ok_entry A R) es" "ok_entry A R x"
  shows "fixed_add (ovlKeyValueTimeStamp A R) x (Arr es, w) =
    (if kvts_name x \<in> kvts_name ` set es then (Inr (Success msg_Ignored), (Arr es, w))
     else (Inr (Success msg_Added), (Arr (es @ [x]), w)))"
proof -
  have n: "list_all named es" "named x" using assms by (auto simp: ok_entry_def list_all_iff)
  have l: "wf_list (wf_kvts A R) (Arr (es @ [x]))"
    using assms by (auto simp: ok_entry_def list_all_iff)
  show ?thesis
    by (simp add: fixed_add_def bindM_run arrayM_run liftE_run has_name_in[OF n] retM_run thenM_run set_value_run
        entries.settled[OF l])
qed

lemma fixed_remove_run:
  assumes "list_all (ok_entry A R) es" "ok_entry A R x" "es \<noteq> []"
  shows "fixed_remove (ovlKeyValueTimeStamp A R) x (Arr es, w) =
    (let kept = filter (\<lambda>e. kvts_name e \<noteq> kvts_name x) es in
     if length kept = length es then (Inr (Failure msg_Missing, x), (Arr kept, w))
     else if length es \<noteq> length kept + 1 then (Inl Runtime_exception, (Arr kept, w))
     else (Inr (Success msg_Removed, stamped (w_clock w 0) x), (Arr kept, snd (read_clock w))))"
proof -
  have x: "named x" "wf_kvts A R x" using assms(2) by (auto simp: ok_entry_def)
  have l: "wf_list (wf_kvts A R) (Arr (filter (\<lambda>e. kvts_name e \<noteq> kvts_name x) es))"
    using assms(1) by (auto simp: ok_entry_def list_all_iff)
  show ?thesis using assms(3)
    by (simp add: fixed_remove_def bindM_run arrayM_run erase_named_run[OF assms(1) x(1)] retM_run thenM_run
        confirm_run stamp_removed_run[OF x(2)] entries.settled[OF l] Let_def)
qed

lemma wf_kvts_weaken: "wf_kvts A R x \<Longrightarrow> wf_kvts A False x"
  by (cases x) auto

interpretation fixed: entry_list "fixed_add (ovlKeyValueTimeStamp True R)" "fixed_remove (ovlKeyValueTimeStamp True R)"
    array_of "wf_list (ok_entry True R)" "ok_entry True R" for R
proof
  fix v x w
  assume v: "wf_list (ok_entry True R) v" and x: "ok_entry True R x"
  obtain es where es: "v = Arr es" "list_all (ok_entry True R) es" using v by (cases v) auto
  note add = fixed_add_run[OF es(2) x] and rem = fixed_remove_run[OF es(2) x]
  show "kvts_name x \<in> kvts_name ` set (array_of v) \<Longrightarrow>
      fixed_add (ovlKeyValueTimeStamp True R) x (v, w) = (Inr (Success msg_Ignored), v, w)"
    by (simp add: es add)
  show "kvts_name x \<notin> kvts_name ` set (array_of v) \<Longrightarrow>
      \<exists>v'. fixed_add (ovlKeyValueTimeStamp True R) x (v, w) = (Inr (Success msg_Added), v', w) \<and>
        wf_list (ok_entry True R) v' \<and> array_of v' = array_of v @ [x]"
    using es(2) x by (simp add: es(1) add)
  show "array_of v \<noteq> [] \<Longrightarrow> kvts_name x \<notin> kvts_name ` set (array_of v) \<Longrightarrow>
      fixed_remove (ovlKeyValueTimeStamp True R) x (v, w) = (Inr (Failure msg_Missing, x), v, w)"
    by (simp add: es rem filter_others)
  show "length (filter (\<lambda>e. kvts_name e = kvts_name x) (array_of v)) = 1 \<Longrightarrow>
      \<exists>v'. fixed_remove (ovlKeyValueTimeStamp True R) x (v, w) =
        (Inr (Success msg_Removed, stamped (w_clock w 0) x), v', snd (read_clock w)) \<and>
        wf_list (ok_entry True R) v' \<and> array_of v' = filter (\<lambda>e. kvts_name e \<noteq> kvts_name x) (array_of v)"
    using es(2) filter_lengths[of "\<lambda>e. kvts_name e = kvts_name x" es]
    by (cases "es = []") (auto simp: es(1) rem Let_def list_all_iff)
next
  show "ok_entry True R x \<Longrightarrow> wf_kvts True False x" for x
    by (auto simp: ok_entry_def dest: wf_kvts_weaken)
qed

section \<open>The list with a history\<close>

definition active_of :: "value_t \<Rightarrow> array_t" where
  "active_of v = (case v of Obj ps \<Rightarrow> (case map_of ps ''active'' of Some a \<Rightarrow> array_of a | None \<Rightarrow> []) | _ \<Rightarrow> [])"

definition ok_movable :: "value_t \<Rightarrow> bool" where
  "ok_movable v \<longleftrightarrow>
     (case v of
        Obj ps \<Rightarrow> child_is (wf_list (ok_entry True True)) ''active'' ps \<and> child_is (wf_list (wf_kvts True True)) ''history'' ps
      | _ \<Rightarrow> False)"

lemma ok_movable_cases:
  assumes "ok_movable v"
  obtains ps es hs where "v = Obj ps" "map_of ps ''active'' = Some (Arr es)" "list_all (ok_entry True True) es"
    "map_of ps ''history'' = Some (Arr hs)" "list_all (wf_kvts True True) hs" "active_of v = es"
proof -
  obtain ps a h where ps: "v = Obj ps" "map_of ps ''active'' = Some a" "wf_list (ok_entry True True) a"
      "map_of ps ''history'' = Some h" "wf_list (wf_kvts True True) h"
    using assms by (cases v) (auto simp: ok_movable_def child_is_Some)
  then show ?thesis using that by (cases a; cases h) (auto simp: active_of_def)
qed

lemma ok_movable_Obj:
  "map_of ps ''active'' = Some (Arr es) \<Longrightarrow> list_all (ok_entry True True) es \<Longrightarrow>
   map_of ps ''history'' = Some (Arr hs) \<Longrightarrow> list_all (wf_kvts True True) hs \<Longrightarrow>
   ok_movable (Obj ps) \<and> active_of (Obj ps) = es"
  by (simp add: ok_movable_def active_of_def child_is_Some)

lemma movable_add_run:
  assumes "map_of ps ''active'' = Some (Arr es)" "list_all (ok_entry True True) es" "ok_entry True True x"
  shows "movable_add (ovlKeyValueTimeStamp True True) x (Obj ps, w) =
    (if kvts_name x \<in> kvts_name ` set es then (Inr (Success msg_Ignored), (Obj ps, w))
     else (Inr (Success msg_Added), (Obj (put_first ''active'' (Arr (es @ [x])) ps), w)))"
  by (simp add: movable_add_def focus_run[OF assms(1)] fixed_add_run[OF assms(2,3)] put_first_same[OF assms(1)])

lemma movable_remove_run:
  assumes ps: "map_of ps ''active'' = Some (Arr es)" "list_all (ok_entry True True) es"
      "map_of ps ''history'' = Some (Arr hs)" "list_all (wf_kvts True True) hs" and x: "ok_entry True True x"
  shows "movable_remove (ovlKeyValueTimeStamp True True) x (Obj ps, w) =
    (let kept = filter (\<lambda>e. kvts_name e \<noteq> kvts_name x) es;
         x' = stamped (w_clock w 0) x;
         qs = put_first ''active'' (Arr kept) ps in
     if length kept = length es then (Inr (Failure msg_Missing, x), (Obj qs, w))
     else if length es - 1 \<noteq> length kept then (Inl Runtime_exception, (Obj qs, w))
     else (Inr (Success msg_Removed, x'), (Obj (put_first ''history'' (Arr (hs @ [x'])) qs), snd (read_clock w))))"
proof -
  have n: "named x" "wf_kvts True True x" using x by (auto simp: ok_entry_def)
  let ?kept = "filter (\<lambda>e. kvts_name e \<noteq> kvts_name x) es"
  let ?qs = "put_first ''active'' (Arr ?kept) ps"
  let ?x' = "stamped (w_clock w 0) x"
  have l: "wf_list (wf_kvts True True) (Arr ?kept)" "wf_list (wf_kvts True True) (Arr (hs @ [?x']))"
    using ps(2,4) stamped_wf[OF n(2)] by (auto simp: ok_entry_def list_all_iff)
  have q: "map_of ?qs ''active'' = Some (Arr ?kept)" "map_of ?qs ''history'' = Some (Arr hs)"
    using ps(1,3) map_of_count by (auto simp: map_of_put_first_iff)
  have h: "map_of (put_first ''history'' (Arr (hs @ [?x'])) ?qs) ''history'' = Some (Arr (hs @ [?x']))"
    using q(2) map_of_count by (auto simp: map_of_put_first_iff)
  have a: "focus ''active'' (make_list (ovlKeyValueTimeStamp True True)) (Obj ?qs, w) = (Inr (), (Obj ?qs, w))"
    by (rule entries.child_settled[OF q(1) l(1)])
  have b: "focus ''history'' (make_list (ovlKeyValueTimeStamp True True))
      (Obj (put_first ''history'' (Arr (hs @ [?x'])) ?qs), w') =
    (Inr (), (Obj (put_first ''history'' (Arr (hs @ [?x'])) ?qs), w'))" for w'
    by (rule entries.child_settled[OF h l(2)])
  show ?thesis
    by (simp add: movable_remove_def bindM_run focus_run[OF ps(1)] erase_named_run[OF ps(2) n(1)] retM_run thenM_run
        confirm_run a focus_run[OF q(2)] arrayM_run put_first_same[OF q(2)] stamp_removed_run[OF n(2)]
        set_value_run b Let_def)
qed

interpretation aliases: entry_list "movable_add (ovlKeyValueTimeStamp True True)" "movable_remove (ovlKeyValueTimeStamp True True)"
    active_of ok_movable "ok_entry True True"
proof
  fix v x w
  assume v: "ok_movable v" and x: "ok_entry True True x"
  from v obtain ps es hs where ps: "v = Obj ps" "map_of ps ''active'' = Some (Arr es)" "list_all (ok_entry True True) es"
    "map_of ps ''history'' = Some (Arr hs)" "list_all (wf_kvts True True) hs" "active_of v = es"
    by (rule ok_movable_cases)
  note add = movable_add_run[OF ps(2,3) x] and rem = movable_remove_run[OF ps(2-5) x]
  have act: "map_of (put_first ''active'' a ps) ''active'' = Some a" "map_of (put_first ''active'' a ps) ''history'' = Some (Arr hs)" for a
    using ps(2,4) map_of_count by (auto simp: map_of_put_first_iff)
  show "kvts_name x \<in> kvts_name ` set (active_of v) \<Longrightarrow>
      movable_add (ovlKeyValueTimeStamp True True) x (v, w) = (Inr (Success msg_Ignored), v, w)"
    by (simp add: ps(6)) (simp add: ps(1) add)
  show "kvts_name x \<notin> kvts_name ` set (active_of v) \<Longrightarrow>
      \<exists>v'. movable_add (ovlKeyValueTimeStamp True True) x (v, w) = (Inr (Success msg_Added), v', w) \<and>
        ok_movable v' \<and> active_of v' = active_of v @ [x]"
    using ok_movable_Obj[OF act(1) _ act(2) ps(5), of "es @ [x]"] ps(3) x
    by (simp add: ps(6)) (simp add: ps(1) add)
  show "active_of v \<noteq> [] \<Longrightarrow> kvts_name x \<notin> kvts_name ` set (active_of v) \<Longrightarrow>
      movable_remove (ovlKeyValueTimeStamp True True) x (v, w) = (Inr (Failure msg_Missing, x), v, w)"
    by (simp add: ps(6)) (simp add: ps(1) rem filter_others put_first_same[OF ps(2)])
  show "\<exists>v'. movable_remove (ovlKeyValueTimeStamp True True) x (v, w) =
        (Inr (Success msg_Removed, stamped (w_clock w 0) x), v', snd (read_clock w)) \<and>
        ok_movable v' \<and> active_of v' = filter (\<lambda>e. kvts_name e \<noteq> kvts_name x) (active_of v)"
    if one: "length (filter (\<lambda>e. kvts_name e = kvts_name x) (active_of v)) = 1"
  proof -
    let ?kept = "filter (\<lambda>e. kvts_name e \<noteq> kvts_name x) es"
    let ?vs = "put_first ''history'' (Arr (hs @ [stamped (w_clock w 0) x])) (put_first ''active'' (Arr ?kept) ps)"
    have "length es = Suc (length ?kept)"
      using one filter_lengths[of "\<lambda>e. kvts_name e = kvts_name x" es] by (simp add: ps(6))
    moreover have m: "map_of ?vs ''active'' = Some (Arr ?kept)" "map_of ?vs ''history'' = Some (Arr (hs @ [stamped (w_clock w 0) x]))"
      using act[of "Arr ?kept"] map_of_count by (auto simp: map_of_put_first_iff)
    have l: "list_all (ok_entry True True) ?kept" "list_all (wf_kvts True True) (hs @ [stamped (w_clock w 0) x])"
      using ps(3,5) x stamped_wf[of True True x] by (auto simp: list_all_iff ok_entry_def)
    have "ok_movable (Obj ?vs) \<and> active_of (Obj ?vs) = ?kept"
      by (rule ok_movable_Obj[OF m(1) l(1) m(2) l(2)])
    ultimately show ?thesis by (simp add: ps(6)) (simp add: ps(1) rem Let_def)
  qed
next
  show "ok_entry True True x \<Longrightarrow> wf_kvts True False x" for x
    by (auto simp: ok_entry_def dest: wf_kvts_weaken)
qed

section \<open>Posting an update\<close>

definition updates_of :: "value_t \<Rightarrow> array_t" where
  "updates_of v = (case v of Obj ps \<Rightarrow> (case map_of ps ''updates'' of Some a \<Rightarrow> array_of a | None \<Rightarrow> []) | _ \<Rightarrow> [])"

text \<open>The entry \<open>postUpdate\<close> appends, with the two clock readings it may take.\<close>

definition logged :: "string \<Rightarrow> string \<Rightarrow> string \<Rightarrow> value_t \<Rightarrow> value_t" where
  "logged name t t' x =
     Obj [(''event'', Str name), (''timestamp'', Str t),
       (''value'', if type_visitor x = OBJECT then x else Obj [(''name'', x), (''assigned'', Str t')])]"

definition loggable :: "value_t \<Rightarrow> bool" where
  "loggable x \<longleftrightarrow> wf_kvts True False x \<or> type_visitor x \<noteq> OBJECT"

definition clock_after :: "value_t \<Rightarrow> world \<Rightarrow> world" where
  "clock_after x w =
     (if type_visitor x = OBJECT then snd (read_clock w) else snd (read_clock (snd (read_clock w))))"

lemma clock_after_ok [simp]: "clock_ok w \<Longrightarrow> clock_ok (clock_after x w)"
  by (simp add: clock_after_def)

lemma read_clock_second: "w_clock (snd (read_clock w)) 0 = w_clock w 1"
  by (simp add: read_clock_def)

lemma update_entry_run:
  "update_entry name x (v, w) = (Inr (logged name (w_clock w 0) (w_clock w 1) x), (v, clock_after x w))"
  by (simp add: update_entry_def bindM_run timestampM_run retM_run logged_def clock_after_def read_clock_second)

lemma logged_wf: "loggable x \<Longrightarrow> iso t \<Longrightarrow> iso t' \<Longrightarrow> wf_update (logged name t t' x)"
  by (auto simp: logged_def loggable_def table_count_def child_is_def)

lemma postUpdate_readonly:
  assumes "map_of bs ''isreadonly'' = Some (Bool True)" "name \<noteq> []"
  shows "postUpdate name x (Obj bs, w) = (Inr (Failure msg_IsReadonly), (Obj bs, w))"
  using assms by (simp add: postUpdate_def thenM_run confirm_run bindM_run valueM_run liftE_run isReadonly_def
      child_at_def table_at_map_of retM_run)

lemma postUpdate_run:
  assumes b: "wf_bookkeeping (Obj bs)" "map_of bs ''isreadonly'' = Some (Bool False)"
    and x: "name \<noteq> []" "loggable x" "clock_ok w"
  shows "\<exists>bs'. postUpdate name x (Obj bs, w) = (Inr (Success msg_Added), (Obj bs', clock_after x w))
    \<and> wf_bookkeeping (Obj bs') \<and> (\<forall>k. k \<noteq> ''updates'' \<longrightarrow> map_of bs' k = map_of bs k)
    \<and> updates_of (Obj bs') = updates_of (Obj bs) @ [logged name (w_clock w 0) (w_clock w 1) x]"
proof -
  obtain us where us: "map_of bs ''updates'' = Some (Arr us)" "list_all wf_update us" "table_count ''updates'' bs = 1"
    using b(1) by (auto simp: child_is_Some elim: wf_list.elims(2))
  let ?u = "logged name (w_clock w 0) (w_clock w 1) x"
  let ?bs = "put_first ''updates'' (Arr (us @ [?u])) bs"
  have u: "wf_update ?u" using x by (simp add: logged_wf)
  have m: "table_count ''updates'' ?bs = 1" "child_is (wf_list wf_update) ''updates'' ?bs"
    using us u by (simp_all add: table_simps)
  have "postUpdate name x (Obj bs, w) = (Inr (Success msg_Added), (Obj ?bs, clock_after x w))"
    using x(1) by (simp add: postUpdate_def thenM_run confirm_run bindM_run valueM_run liftE_run isReadonly_def
      child_at_def table_at_map_of b(2) us(1) update_entry_run focus_run[OF us(1)] set_value_run make_updates_settled[OF m] retM_run
      del: One_nat_def)
  moreover have "wf_bookkeeping (Obj ?bs)" using b(1) m by (auto simp: table_simps)
  moreover have "updates_of (Obj ?bs) = updates_of (Obj bs) @ [?u]"
    using us by (simp add: updates_of_def table_simps)
  ultimately show ?thesis by (intro exI[of _ ?bs]) (simp add: map_of_put_first_iff us(2) u del: One_nat_def)
qed

end
