(* ===== verification/DatabaseRecord.thy ===== *)
theory DatabaseRecord
  imports EntryLists
begin

text \<open>
  Overlay/ovlDatabaseRecord.cpp: the record of one stored document, built from the overlays
  of its fourteen parts, and the operations that change it.  Every operation but
  \<open>markDeleted\<close> first asks whether the record is read-only or deleted.
\<close>

section \<open>Construction\<close>

text \<open>The members in the order of their declaration: key, default value, constructor.\<close>

definition record_fields :: "(string \<times> value_t \<times> unit ovl) list" where
  "record_fields =
     [(''document'', Obj [], ovlDocument),
      (''comments'', Arr [], ovlFixedList ovlKeyValue),
      (''origin'', Obj [], ovlOrigin),
      (''version'', Str [], ovlStringKeyValue),
      (''entities'', Arr [], ovlFixedList (ovlKeyValueTimeStamp True False)),
      (''configurations'', Arr [], ovlFixedList (ovlKeyValueTimeStamp True False)),
      (''changelog'', Str [], ovlStringKeyValue),
      (''bookkeeping'', Obj [], ovlBookkeeping),
      (''_id'', Obj [], ovlId),
      (''collection'', Str [], ovlStringKeyValue),
      (''aliases'', Obj [], ovlMovableList (ovlKeyValueTimeStamp True True)),
      (''runs'', Arr [], ovlFixedList (ovlKeyValueTimeStamp True False)),
      (''attachments'', Arr [], ovlFixedList ovlKeyValue),
      (''configtype'', Str [], ovlStringKeyValue)]"

definition ovlDatabaseRecord :: "unit ovl" where
  "ovlDatabaseRecord = seqM (map (\<lambda>(k, d, m). overlay k d m) record_fields)"

section \<open>Operations\<close>

definition isReadonlyOrDeleted :: "bool ovl" where
  "isReadonlyOrDeleted =
     focus ''bookkeeping'' (bindM valueM (\<lambda>b. bindM (liftE (isReadonly b)) (\<lambda>r.
       if r then retM True else liftE (isDeleted b))))"

text \<open>\<open>if (isReadonlyOrDeleted()) return Failure(msg_IsReadonly);\<close>\<close>

definition unless_frozen :: "result_t ovl \<Rightarrow> result_t ovl" where
  "unless_frozen m =
     bindM isReadonlyOrDeleted (\<lambda>b. if b then retM (Failure msg_IsReadonly) else m)"

text \<open>\<open>if (!result.first) return result;\<close> followed by \<open>postUpdate\<close>, which also happens when the
  list answered \<open>Ignored\<close>.\<close>

definition and_post :: "string \<Rightarrow> result_t \<Rightarrow> value_t \<Rightarrow> result_t ovl" where
  "and_post update res x =
     (if \<not> fst res then retM res else focus ''bookkeeping'' (postUpdate update x))"

definition add_to :: "string \<Rightarrow> string \<Rightarrow> (value_t \<Rightarrow> result_t ovl) \<Rightarrow> value_t \<Rightarrow> result_t ovl" where
  "add_to update key add x =
     unless_frozen (bindM (focus key (add x)) (\<lambda>res. and_post update res x))"

definition remove_from ::
  "string \<Rightarrow> string \<Rightarrow> (value_t \<Rightarrow> (result_t \<times> value_t) ovl) \<Rightarrow> value_t \<Rightarrow> result_t ovl" where
  "remove_from update key remove x =
     unless_frozen (bindM (focus key (remove x)) (\<lambda>(res, x'). and_post update res x'))"

abbreviation entry :: "unit ovl" where "entry \<equiv> ovlKeyValueTimeStamp True False"
abbreviation alias_entry :: "unit ovl" where "alias_entry \<equiv> ovlKeyValueTimeStamp True True"

definition addConfiguration :: "value_t \<Rightarrow> result_t ovl" where
  "addConfiguration = add_to ''addConfiguration'' ''configurations'' (fixed_add entry)"

definition removeConfiguration :: "value_t \<Rightarrow> result_t ovl" where
  "removeConfiguration = remove_from ''removeConfiguration'' ''configurations'' (fixed_remove entry)"

definition addAlias :: "value_t \<Rightarrow> result_t ovl" where
  "addAlias = add_to ''addAlias'' ''aliases'' (movable_add alias_entry)"

definition removeAlias :: "value_t \<Rightarrow> result_t ovl" where
  "removeAlias = remove_from ''removeAlias'' ''aliases'' (movable_remove alias_entry)"

definition addEntity :: "value_t \<Rightarrow> result_t ovl" where
  "addEntity = add_to ''addEntity'' ''entities'' (fixed_add entry)"

definition removeEntity :: "value_t \<Rightarrow> result_t ovl" where
  "removeEntity = remove_from ''removeEntity'' ''entities'' (fixed_remove entry)"

definition addRun :: "value_t \<Rightarrow> result_t ovl" where
  "addRun = add_to ''addRun'' ''runs'' (fixed_add entry)"

definition markReadonly :: "result_t ovl" where
  "markReadonly =
     unless_frozen (thenM (focus ''bookkeeping'' (set_flag ''isreadonly'' True)) (retM (Success msg_Success)))"

definition markDeleted :: "result_t ovl" where
  "markDeleted =
     thenM (focus ''bookkeeping'' (set_flag ''isdeleted'' True)) (retM (Success msg_Success))"

text \<open>\<open>swap\<close> of a part with a freshly built overlay: the part takes the new value.\<close>

definition swap_part :: "string \<Rightarrow> value_t \<Rightarrow> result_t ovl" where
  "swap_part key x =
     unless_frozen (thenM (focus key (set_value x)) (retM (Success msg_Success)))"

definition set_string :: "string \<Rightarrow> string \<Rightarrow> value_t \<Rightarrow> result_t ovl" where
  "set_string update key x =
     unless_frozen
       (bindM (focus key (bindM valueM (\<lambda>v. liftE (get_string v)))) (\<lambda>old.
        bindM (liftE (get_string x)) (\<lambda>new.
          if old = new then retM (Success msg_Ignored)
          else bindM (swap_part key x) (\<lambda>res.
            bindM (focus key valueM) (\<lambda>now. and_post update res now)))))"

definition setVersion :: "value_t \<Rightarrow> result_t ovl" where
  "setVersion = set_string ''setVersion'' ''version''"

definition setCollection :: "value_t \<Rightarrow> result_t ovl" where
  "setCollection = set_string ''setCollection'' ''collection''"

definition setConfigurationType :: "value_t \<Rightarrow> result_t ovl" where
  "setConfigurationType = set_string ''setConfigurationType'' ''configtype''"

definition swap_id :: "value_t \<Rightarrow> result_t ovl" where
  "swap_id = swap_part ''_id''"

text \<open>Unguarded: what the builder calls on the parts directly.\<close>

definition wipe_configurations :: "unit ovl" where
  "wipe_configurations = focus ''configurations'' (fixed_wipe entry)"

definition wipe_entities :: "unit ovl" where
  "wipe_entities = focus ''entities'' (fixed_wipe entry)"

definition new_object_id :: "unit ovl" where
  "new_object_id = focus ''_id'' newId"

section \<open>The type of a record\<close>

definition record_parts :: "(string \<times> value_t \<times> unit ovl \<times> (value_t \<Rightarrow> bool)) list" where
  "record_parts =
     [(''document'', Obj [], ovlDocument, wf_document),
      (''comments'', Arr [], ovlFixedList ovlKeyValue, wf_list wf_any),
      (''origin'', Obj [], ovlOrigin, wf_origin),
      (''version'', Str [], ovlStringKeyValue, wf_string),
      (''entities'', Arr [], ovlFixedList entry, wf_list (wf_kvts True False)),
      (''configurations'', Arr [], ovlFixedList entry, wf_list (wf_kvts True False)),
      (''changelog'', Str [], ovlStringKeyValue, wf_string),
      (''bookkeeping'', Obj [], ovlBookkeeping, wf_bookkeeping),
      (''_id'', Obj [], ovlId, wf_id),
      (''collection'', Str [], ovlStringKeyValue, wf_string),
      (''aliases'', Obj [], ovlMovableList alias_entry, wf_movable (wf_kvts True True)),
      (''runs'', Arr [], ovlFixedList entry, wf_list (wf_kvts True False)),
      (''attachments'', Arr [], ovlFixedList ovlKeyValue, wf_list wf_any),
      (''configtype'', Str [], ovlStringKeyValue, wf_string)]"

fun wf_parts :: "(string \<times> value_t \<times> unit ovl \<times> (value_t \<Rightarrow> bool)) list \<Rightarrow> value_t \<Rightarrow> bool" where
  "wf_parts fs (Obj ps) = list_all (\<lambda>(k, _, _, P). child_is P k ps) fs"
| "wf_parts fs _ = False"

definition wf_record :: "value_t \<Rightarrow> bool" where
  "wf_record = wf_parts record_parts"

definition part_ok :: "string \<times> value_t \<times> unit ovl \<times> (value_t \<Rightarrow> bool) \<Rightarrow> bool" where
  "part_ok = (\<lambda>(k, d, m, P). k \<noteq> [] \<and> overlay_part m P)"

lemma parts_establish:
  assumes "list_all part_ok fs" "distinct (map fst fs)" "clock_ok w"
    "seqM (map (\<lambda>(k, d, m, P). overlay k d m) fs) (Obj ps, w) = (Inr u, (v', w'))"
  shows "clock_ok w' \<and> (\<exists>ps'. v' = Obj ps' \<and> wf_parts fs (Obj ps')
      \<and> (\<forall>j. j \<notin> fst ` set fs \<longrightarrow> map_of ps' j = map_of ps j))"
  using assms
proof (induction fs arbitrary: ps w)
  case (Cons f fs)
  obtain k d m P where f: "f = (k, d, m, P)" by (cases f)
  have part: "overlay_part m P" "k \<noteq> []" using Cons.prems(1) by (simp_all add: f part_ok_def)
  obtain v1 w1 where r: "overlay k d m (Obj ps, w) = (Inr (), (v1, w1))"
      "seqM (map (\<lambda>(k, d, m, P). overlay k d m) fs) (v1, w1) = (Inr u, (v', w'))"
    using Cons.prems(4) by (auto simp: f thenM_Inr)
  obtain ps1 where e: "clock_ok w1" "v1 = Obj ps1" "child_is P k ps1" "\<forall>j. j \<noteq> k \<longrightarrow> map_of ps1 j = map_of ps j"
    using overlay_part.overlay_establishes[OF part(1) Cons.prems(3) part(2) r(1)] by auto
  obtain ps' where i: "clock_ok w'" "v' = Obj ps'" "wf_parts fs (Obj ps')"
      "\<forall>j. j \<notin> fst ` set fs \<longrightarrow> map_of ps' j = map_of ps1 j"
    using Cons.IH[of w1 ps1] Cons.prems(1,2) r(2) e(1,2) by auto
  have "map_of ps' k = map_of ps1 k" using i(4) Cons.prems(2) by (auto simp: f)
  then have "child_is P k ps'" using e(3) by (simp add: child_is_def)
  then show ?case using i e(4) by (auto simp: f)
qed (auto simp: retM_run)

lemma parts_settled:
  "list_all part_ok fs \<Longrightarrow> wf_parts fs v \<Longrightarrow>
   seqM (map (\<lambda>(k, d, m, P). overlay k d m) fs) (v, w) = (Inr (), (v, w))"
proof (induction fs)
  case (Cons f fs)
  obtain k d m P where f: "f = (k, d, m, P)" by (cases f)
  then show ?case using Cons overlay_part.overlay_settled
    by (cases v) (auto simp: part_ok_def thenM_Inr)
qed (simp add: retM_run)

lemma record_fields_parts: "map (\<lambda>(k, d, m). overlay k d m) record_fields = map (\<lambda>(k, d, m, P). overlay k d m) record_parts"
  by (simp add: record_fields_def record_parts_def)

lemma record_parts_ok: "list_all part_ok record_parts" "distinct (map fst record_parts)"
  by (simp_all add: record_parts_def part_ok_def ovlFixedList_def document.overlay_part_axioms
      plain_list.overlay_part_axioms origin.overlay_part_axioms strings.overlay_part_axioms
      entries.overlay_part_axioms bookkeeping.overlay_part_axioms ident.overlay_part_axioms
      movable.overlay_part_axioms)

lemma ovlDatabaseRecord_Obj:
  "ovlDatabaseRecord (v, w) = (Inr u, s) \<Longrightarrow> \<exists>ps. v = Obj ps"
  unfolding ovlDatabaseRecord_def record_fields_parts
  by (cases v) (auto simp: record_parts_def thenM_Inr overlay_Inr)

interpretation recrd: overlay_part ovlDatabaseRecord wf_record
proof
  fix w v u v' w'
  assume ok: "clock_ok w" and run: "ovlDatabaseRecord (v, w) = (Inr u, (v', w'))"
  obtain ps where v: "v = Obj ps" using ovlDatabaseRecord_Obj[OF run] by blast
  show "wf_record v' \<and> clock_ok w'"
    using parts_establish[OF record_parts_ok ok run[unfolded v ovlDatabaseRecord_def record_fields_parts]]
    by (auto simp: wf_record_def)
next
  show "wf_record v \<Longrightarrow> ovlDatabaseRecord (v, w) = (Inr (), (v, w))" for v w
    unfolding ovlDatabaseRecord_def record_fields_parts wf_record_def
    by (rule parts_settled[OF record_parts_ok(1)])
qed

text \<open>C9.  Opening a stored document completes it once: when the constructor of the record
  succeeds, the value it leaves is well-formed, and opening that value again changes
  nothing and asks neither the clock nor the random source.\<close>

theorem record_construction_idempotent:
  assumes "clock_ok w" "ovlDatabaseRecord (v, w) = (Inr u, (v', w'))"
  shows "wf_record v' \<and> ovlDatabaseRecord (v', w'') = (Inr (), (v', w''))"
  using recrd.establishes[OF assms] recrd.settled by blast

definition demo_world :: world where
  "demo_world = \<lparr>w_clock = (\<lambda>n. ''2'' @ nat_digits n), w_uuid = (\<lambda>n. replicate 24 (CHR ''0'')), w_legacy = (\<lambda>_. None)\<rparr>"

definition demo_record :: value_t where
  "demo_record = fst (snd (ovlDatabaseRecord (Obj [], demo_world)))"

theorem record_construction_idempotent_witness:
  "ovlDatabaseRecord (demo_record, demo_world) = (Inr (), (demo_record, demo_world))"
proof -
  have "fst (ovlDatabaseRecord (Obj [], demo_world)) = Inr ()" by code_simp
  then have run: "ovlDatabaseRecord (Obj [], demo_world)
      = (Inr (), (demo_record, snd (snd (ovlDatabaseRecord (Obj [], demo_world)))))"
    by (simp add: demo_record_def prod_eq_iff)
  have ok: "clock_ok demo_world" by (simp add: clock_ok_def demo_world_def iso_def)
  show ?thesis using record_construction_idempotent[OF ok run] by blast
qed

section \<open>Observing a record\<close>

definition part :: "string \<Rightarrow> value_t \<Rightarrow> value_t option" where
  "part k v = (case v of Obj ps \<Rightarrow> map_of ps k | _ \<Rightarrow> None)"

definition history :: "value_t \<Rightarrow> array_t" where
  "history v = (case part ''bookkeeping'' v of Some b \<Rightarrow> updates_of b | None \<Rightarrow> [])"

definition flag :: "string \<Rightarrow> value_t \<Rightarrow> value_t option" where
  "flag k v = (case part ''bookkeeping'' v of Some b \<Rightarrow> part k b | None \<Rightarrow> None)"

definition frozen :: "value_t \<Rightarrow> bool" where
  "frozen v \<longleftrightarrow> flag ''isreadonly'' v = Some (Bool True)
     \<or> flag ''isreadonly'' v = Some (Bool False) \<and> flag ''isdeleted'' v = Some (Bool True)"

definition open_record :: "value_t \<Rightarrow> bool" where
  "open_record v \<longleftrightarrow> wf_record v \<and> flag ''isreadonly'' v = Some (Bool False) \<and> flag ''isdeleted'' v = Some (Bool False)"

lemma part_Obj [simp]: "part k (Obj ps) = map_of ps k"
  by (simp add: part_def)

lemma part_Some: "part k v = Some c \<Longrightarrow> \<exists>ps. v = Obj ps \<and> map_of ps k = Some c"
  by (cases v) (auto simp: part_def)

lemma flag_Some:
  assumes "flag k v = Some c"
  shows "\<exists>ps bs. v = Obj ps \<and> map_of ps ''bookkeeping'' = Some (Obj bs) \<and> map_of bs k = Some c"
proof -
  obtain b where b: "part ''bookkeeping'' v = Some b" "part k b = Some c"
    using assms by (auto simp: flag_def split: option.splits)
  then show ?thesis using part_Some by blast
qed

lemma frozen_run: "frozen v \<Longrightarrow> isReadonlyOrDeleted (v, w) = (Inr True, (v, w))"
  using flag_Some[of "''isreadonly''" v]
  by (auto simp: frozen_def isReadonlyOrDeleted_def focus_run bindM_run valueM_run liftE_run isReadonly_def isDeleted_def
      child_at_def table_at_map_of retM_run put_first_same flag_def)

lemma open_run: "open_record v \<Longrightarrow> isReadonlyOrDeleted (v, w) = (Inr False, (v, w))"
  using flag_Some[of "''isreadonly''" v]
  by (auto simp: open_record_def isReadonlyOrDeleted_def focus_run bindM_run valueM_run liftE_run isReadonly_def isDeleted_def
      child_at_def table_at_map_of retM_run put_first_same flag_def)

lemma unless_frozen_frozen: "frozen v \<Longrightarrow> unless_frozen m (v, w) = (Inr (Failure msg_IsReadonly), (v, w))"
  by (simp add: unless_frozen_def bindM_run frozen_run retM_run)

lemma unless_frozen_open: "open_record v \<Longrightarrow> unless_frozen m (v, w) = m (v, w)"
  by (simp add: unless_frozen_def bindM_run open_run)

text \<open>C10.  A record that is read-only or deleted refuses every guarded operation: it answers
  \<open>msg_IsReadonly\<close> and neither the record nor the environment changes.\<close>

theorem frozen_record_refuses:
  assumes "frozen v"
    and "m \<in> {addConfiguration x, removeConfiguration x, addAlias x, removeAlias x, addEntity x, removeEntity x,
      addRun x, setVersion x, setCollection x, setConfigurationType x, swap_id x, markReadonly}"
  shows "m (v, w) = (Inr (Failure msg_IsReadonly), (v, w))"
  using assms
  by (auto simp: addConfiguration_def removeConfiguration_def addAlias_def removeAlias_def addEntity_def
      removeEntity_def addRun_def setVersion_def setCollection_def setConfigurationType_def swap_id_def
      markReadonly_def add_to_def remove_from_def set_string_def swap_part_def unless_frozen_frozen)

definition frozen_demo :: value_t where
  "frozen_demo = fst (snd (markReadonly (demo_record, demo_world)))"

theorem frozen_record_refuses_witness:
  "fst (addRun (Obj [(''name'', Str ''7'')]) (frozen_demo, demo_world)) = Inr (Failure msg_IsReadonly)"
proof -
  have "frozen frozen_demo" by code_simp
  then have "addRun (Obj [(''name'', Str ''7'')]) (frozen_demo, demo_world)
      = (Inr (Failure msg_IsReadonly), (frozen_demo, demo_world))"
    by (rule frozen_record_refuses) blast
  then show ?thesis by simp
qed

section \<open>Additions\<close>

definition part_wf :: "string \<Rightarrow> value_t \<Rightarrow> bool" where
  "part_wf key l = list_all (\<lambda>(k, _, _, P). k = key \<longrightarrow> P l) record_parts"

lemma wf_record_put:
  "wf_record (Obj ps) \<Longrightarrow> part_wf k l \<Longrightarrow> wf_record (Obj (put_first k l ps))"
  by (auto simp: wf_record_def part_wf_def list_all_iff table_simps)

lemma bookkeeping_of:
  assumes "wf_record (Obj ps)"
  shows "\<exists>b. map_of ps ''bookkeeping'' = Some b \<and> wf_bookkeeping b"
  using assms by (simp add: wf_record_def record_parts_def child_is_Some)

lemma part_wf_bookkeeping: "part_wf ''bookkeeping'' b = wf_bookkeeping b"
  by (simp add: part_wf_def record_parts_def)

text \<open>What \<open>postUpdate\<close> does inside a record.\<close>

lemma post_run:
  assumes "open_record v" "update \<noteq> []" "loggable x" "clock_ok w"
  shows "\<exists>v'. focus ''bookkeeping'' (postUpdate update x) (v, w) = (Inr (Success msg_Added), (v', clock_after x w))
    \<and> open_record v' \<and> history v' = history v @ [logged update (w_clock w 0) (w_clock w 1) x]
    \<and> (\<forall>k. k \<noteq> ''bookkeeping'' \<longrightarrow> part k v' = part k v)"
proof -
  obtain ps bs where v: "v = Obj ps" "map_of ps ''bookkeeping'' = Some (Obj bs)" "map_of bs ''isreadonly'' = Some (Bool False)"
    using assms(1) flag_Some[of "''isreadonly''" v "Bool False"] by (auto simp: open_record_def)
  have b: "wf_bookkeeping (Obj bs)" using assms(1) bookkeeping_of[of ps] unfolding open_record_def v(1) v(2)
    by (metis option.inject)
  obtain bs' where bs': "postUpdate update x (Obj bs, w) = (Inr (Success msg_Added), (Obj bs', clock_after x w))"
      "wf_bookkeeping (Obj bs')" "\<forall>k. k \<noteq> ''updates'' \<longrightarrow> map_of bs' k = map_of bs k"
      "updates_of (Obj bs') = updates_of (Obj bs) @ [logged update (w_clock w 0) (w_clock w 1) x]"
    using postUpdate_run[OF b v(3) assms(2-4)] by blast
  let ?v' = "Obj (put_first ''bookkeeping'' (Obj bs') ps)"
  have bk: "part ''bookkeeping'' ?v' = Some (Obj bs')" using v(2) map_of_count by (simp add: map_of_put_first_iff)
  have "open_record ?v'"
    using assms(1) wf_record_put[of ps "''bookkeeping''" "Obj bs'"] bs'(2,3) bk v
    by (auto simp: open_record_def flag_def part_wf_bookkeeping)
  moreover have "history ?v' = history v @ [logged update (w_clock w 0) (w_clock w 1) x]"
    using bk bs'(4) v by (simp add: history_def)
  ultimately show ?thesis
    by (intro exI[of _ ?v']) (simp add: v(1) focus_run[OF v(2)] bs'(1) map_of_put_first_iff)
qed

lemma part_put:
  "map_of ps k = Some l \<Longrightarrow> part k (Obj (put_first k l' ps)) = Some l'"
  "j \<noteq> k \<Longrightarrow> part j (Obj (put_first k l' ps)) = part j (Obj ps)"
  by (auto simp: map_of_put_first_iff dest: map_of_count)

lemma open_put:
  assumes "open_record (Obj ps)" "k \<noteq> ''bookkeeping''" "part_wf k l'"
  shows "open_record (Obj (put_first k l' ps)) \<and> history (Obj (put_first k l' ps)) = history (Obj ps)"
proof -
  have "part ''bookkeeping'' (Obj (put_first k l' ps)) = part ''bookkeeping'' (Obj ps)"
    using assms(2) by (simp add: map_of_put_first_iff)
  then show ?thesis
    using assms(1) wf_record_put[OF _ assms(3)] unfolding open_record_def flag_def history_def by simp
qed

lemma open_Obj: "open_record v \<Longrightarrow> \<exists>ps. v = Obj ps"
  using flag_Some[of "''isreadonly''" v "Bool False"] by (auto simp: open_record_def)

text \<open>The operations of a record on one of its lists, for any list that keeps the contract.\<close>

context entry_list
begin

lemma entry_loggable: "entry_ok x \<Longrightarrow> loggable x"
  using entry_wf by (simp add: loggable_def)

lemma stamped_loggable: "entry_ok x \<Longrightarrow> loggable (stamped t x)"
  using entry_wf stamped_wf by (simp add: loggable_def)

lemma add_to_run:
  assumes v: "open_record v" "part key v = Some l" "ok l" and x: "entry_ok x" "update \<noteq> []" "clock_ok w"
    and key: "key \<noteq> ''bookkeeping''" "\<And>l. ok l \<Longrightarrow> part_wf key l"
  shows "\<exists>v' l'. add_to update key add x (v, w) = (Inr (Success msg_Added), (v', clock_after x w))
    \<and> open_record v' \<and> part key v' = Some l' \<and> ok l'
    \<and> entries l' = (if kvts_name x \<in> set (names l) then entries l else entries l @ [x])
    \<and> history v' = history v @ [logged update (w_clock w 0) (w_clock w 1) x]
    \<and> (\<forall>k. k \<noteq> key \<longrightarrow> k \<noteq> ''bookkeeping'' \<longrightarrow> part k v' = part k v)"
proof -
  obtain ps where ps: "v = Obj ps" "map_of ps key = Some l" using v(2) part_Some by blast
  have "\<exists>l' r. add x (l, w) = (Inr (Success r), (l', w)) \<and> ok l'
      \<and> entries l' = (if kvts_name x \<in> set (names l) then entries l else entries l @ [x])"
    by (cases "kvts_name x \<in> set (names l)")
      (use add_known[OF v(3) x(1)] add_fresh[OF v(3) x(1)] v(3) in \<open>auto simp: names_def\<close>, metis)
  then obtain l' r where l': "add x (l, w) = (Inr (Success r), (l', w))" "ok l'"
      "entries l' = (if kvts_name x \<in> set (names l) then entries l else entries l @ [x])" by blast
  let ?v1 = "Obj (put_first key l' ps)"
  have o1: "open_record ?v1" "history ?v1 = history v"
    using open_put[OF v(1)[unfolded ps(1)] key(1) key(2)[OF l'(2)]] by (simp_all add: ps(1))
  obtain v' where v': "focus ''bookkeeping'' (postUpdate update x) (?v1, w) = (Inr (Success msg_Added), (v', clock_after x w))"
      "open_record v'" "history v' = history ?v1 @ [logged update (w_clock w 0) (w_clock w 1) x]"
      "\<forall>k. k \<noteq> ''bookkeeping'' \<longrightarrow> part k v' = part k ?v1"
    using post_run[OF o1(1) x(2) entry_loggable[OF x(1)] x(3)] by blast
  have run: "add_to update key add x (v, w) = (Inr (Success msg_Added), (v', clock_after x w))"
    by (simp add: add_to_def unless_frozen_open[OF v(1)] bindM_run)
      (simp add: ps(1) focus_run[OF ps(2)] l'(1) and_post_def Success_def v'(1)[unfolded Success_def])
  have "part key v' = Some l'" using v'(4) key(1) part_put(1)[OF ps(2)] by simp
  moreover have "part k v' = part k v" if "k \<noteq> key" "k \<noteq> ''bookkeeping''" for k
    using v'(4) that part_put(2)[of k key l' ps] by (simp add: ps(1))
  ultimately show ?thesis using run v'(2,3) l'(2,3) o1(2) by auto
qed

lemma remove_from_run:
  assumes v: "open_record v" "part key v = Some l" "ok l" and x: "entry_ok x" "update \<noteq> []" "clock_ok w"
    and key: "key \<noteq> ''bookkeeping''" "\<And>l. ok l \<Longrightarrow> part_wf key l"
    and one: "length (filter (\<lambda>e. kvts_name e = kvts_name x) (entries l)) = 1"
  shows "\<exists>v' l' w'. remove_from update key remove x (v, w) = (Inr (Success msg_Added), (v', w'))
    \<and> open_record v' \<and> part key v' = Some l' \<and> ok l'
    \<and> entries l' = filter (\<lambda>e. kvts_name e \<noteq> kvts_name x) (entries l)
    \<and> history v' = history v @ [logged update (w_clock w 1) (w_clock w 2) (stamped (w_clock w 0) x)]
    \<and> (\<forall>k. k \<noteq> key \<longrightarrow> k \<noteq> ''bookkeeping'' \<longrightarrow> part k v' = part k v)"
proof -
  obtain ps where ps: "v = Obj ps" "map_of ps key = Some l" using v(2) part_Some by blast
  let ?w1 = "snd (read_clock w)" and ?x = "stamped (w_clock w 0) x"
  obtain l' where l': "remove x (l, w) = (Inr (Success msg_Removed, ?x), (l', ?w1))" "ok l'"
      "entries l' = filter (\<lambda>e. kvts_name e \<noteq> kvts_name x) (entries l)"
    using remove_known[OF v(3) x(1,3) one] by blast
  let ?v1 = "Obj (put_first key l' ps)"
  have o1: "open_record ?v1" "history ?v1 = history v"
    using open_put[OF v(1)[unfolded ps(1)] key(1) key(2)[OF l'(2)]] by (simp_all add: ps(1))
  have c: "w_clock ?w1 0 = w_clock w 1" "w_clock ?w1 1 = w_clock w 2"
    by (simp_all add: read_clock_def numeral_2_eq_2)
  obtain v' where v': "focus ''bookkeeping'' (postUpdate update ?x) (?v1, ?w1) = (Inr (Success msg_Added), (v', clock_after ?x ?w1))"
      "open_record v'" "history v' = history ?v1 @ [logged update (w_clock w 1) (w_clock w 2) ?x]"
      "\<forall>k. k \<noteq> ''bookkeeping'' \<longrightarrow> part k v' = part k ?v1"
    using post_run[OF o1(1) x(2) stamped_loggable[OF x(1)] clock_ok_read[OF x(3)], unfolded c] by blast
  have run: "remove_from update key remove x (v, w) = (Inr (Success msg_Added), (v', clock_after ?x ?w1))"
    by (simp add: remove_from_def unless_frozen_open[OF v(1)] bindM_run)
      (simp add: ps(1) focus_run[OF ps(2)] l'(1) and_post_def Success_def v'(1)[unfolded Success_def])
  have "part key v' = Some l'" using v'(4) key(1) part_put(1)[OF ps(2)] by simp
  moreover have "part k v' = part k v" if "k \<noteq> key" "k \<noteq> ''bookkeeping''" for k
    using v'(4) that part_put(2)[of k key l' ps] by (simp add: ps(1))
  ultimately show ?thesis using run v'(2,3) l'(2,3) o1(2) by auto
qed

end

lemma part_wf_lists:
  "wf_list (ok_entry True False) l \<Longrightarrow> part_wf ''configurations'' l"
  "wf_list (ok_entry True False) l \<Longrightarrow> part_wf ''entities'' l"
  "wf_list (ok_entry True False) l \<Longrightarrow> part_wf ''runs'' l"
  by (cases l; auto simp: part_wf_def record_parts_def list_all_iff ok_entry_def)+

lemma part_wf_aliases: "ok_movable l \<Longrightarrow> part_wf ''aliases'' l"
  by (cases l) (auto simp: part_wf_def record_parts_def ok_movable_def child_is_Some ok_entry_def
      list_all_iff elim!: wf_list.elims(2))

definition list_ops :: "((value_t \<Rightarrow> result_t ovl) \<times> string \<times> string) set" where
  "list_ops = {(addConfiguration, ''addConfiguration'', ''configurations''), (addEntity, ''addEntity'', ''entities''),
     (addRun, ''addRun'', ''runs'')}"

text \<open>C11.  Adding a configuration, an entity or a run to a record that is open succeeds: the
  entry is appended unless its name is there already, and in both cases one entry with the
  operation, the time and the value is appended to the update history; no other part of the
  record changes.\<close>

theorem addition_effect:
  assumes "(add, update, key) \<in> list_ops" "open_record v" "part key v = Some (Arr es)"
    "list_all (ok_entry True False) es" "ok_entry True False x" "clock_ok w"
  shows "\<exists>v'. add x (v, w) = (Inr (Success msg_Added), (v', clock_after x w)) \<and> open_record v'
    \<and> part key v' = Some (Arr (if kvts_name x \<in> kvts_name ` set es then es else es @ [x]))
    \<and> history v' = history v @ [logged update (w_clock w 0) (w_clock w 1) x]
    \<and> (\<forall>k. k \<noteq> key \<longrightarrow> k \<noteq> ''bookkeeping'' \<longrightarrow> part k v' = part k v)"
proof -
  have a: "add = add_to update key (fixed_add entry)" "update \<noteq> []" "key \<noteq> ''bookkeeping''"
      "\<And>l. wf_list (ok_entry True False) l \<Longrightarrow> part_wf key l"
    using assms(1) part_wf_lists by (auto simp: list_ops_def addConfiguration_def addEntity_def addRun_def)
  have l: "wf_list (ok_entry True False) (Arr es)" using assms(4) by simp
  obtain v' l' where r: "add x (v, w) = (Inr (Success msg_Added), (v', clock_after x w))" "open_record v'"
      "part key v' = Some l'" "wf_list (ok_entry True False) l'"
      "array_of l' = (if kvts_name x \<in> set (fixed.names (Arr es)) then es else es @ [x])"
      "history v' = history v @ [logged update (w_clock w 0) (w_clock w 1) x]"
      "\<forall>k. k \<noteq> key \<longrightarrow> k \<noteq> ''bookkeeping'' \<longrightarrow> part k v' = part k v"
    using fixed.add_to_run[OF assms(2,3) l assms(5) a(2) assms(6) a(3,4)] unfolding a(1) by auto
  then have "l' = Arr (if kvts_name x \<in> kvts_name ` set es then es else es @ [x])"
    by (cases l') (simp_all add: fixed.names_def)
  then show ?thesis using r by blast
qed

definition demo_entry :: value_t where
  "demo_entry = Obj [(''name'', Str ''conf1''), (''assigned'', Str ''2019'')]"

lemma demo_facts:
  "open_record demo_record" "ok_entry True False demo_entry"
  "part ''configurations'' demo_record = Some (Arr [])" "history demo_record = []"
  by code_simp+

lemma demo_clock: "clock_ok demo_world"
  by (simp add: clock_ok_def demo_world_def iso_def)

theorem addition_effect_witness:
  "\<exists>v'. addConfiguration demo_entry (demo_record, demo_world) =
      (Inr (Success msg_Added), (v', clock_after demo_entry demo_world))
    \<and> part ''configurations'' v' = Some (Arr [demo_entry]) \<and> length (history v') = 1"
proof -
  have op: "(addConfiguration, ''addConfiguration'', ''configurations'') \<in> list_ops" by (simp add: list_ops_def)
  have none: "list_all (ok_entry True False) []" by simp
  obtain v' where v': "addConfiguration demo_entry (demo_record, demo_world) =
      (Inr (Success msg_Added), (v', clock_after demo_entry demo_world))"
    "part ''configurations'' v' = Some (Arr (if kvts_name demo_entry \<in> kvts_name ` set [] then [] else [] @ [demo_entry]))"
    "history v' = history demo_record @ [logged ''addConfiguration'' (w_clock demo_world 0) (w_clock demo_world 1) demo_entry]"
    using addition_effect[OF op demo_facts(1,3) none demo_facts(2) demo_clock] by blast
  show ?thesis using v'(2,3) demo_facts(4) by (intro exI[of _ v'] conjI v'(1)) simp_all
qed

text \<open>Adding an alias to an open record appends it to the active aliases unless its name
  is active already; one entry is logged and no other part of the record changes.\<close>

theorem alias_effect:
  assumes "open_record v" "part ''aliases'' v = Some l" "ok_movable l" "ok_entry True True x" "clock_ok w"
  shows "\<exists>v' l'. addAlias x (v, w) = (Inr (Success msg_Added), (v', clock_after x w)) \<and> open_record v'
    \<and> part ''aliases'' v' = Some l' \<and> ok_movable l'
    \<and> active_of l' = (if kvts_name x \<in> kvts_name ` set (active_of l) then active_of l else active_of l @ [x])
    \<and> history v' = history v @ [logged ''addAlias'' (w_clock w 0) (w_clock w 1) x]
    \<and> (\<forall>k. k \<noteq> ''aliases'' \<longrightarrow> k \<noteq> ''bookkeeping'' \<longrightarrow> part k v' = part k v)"
proof -
  have k: "''addAlias'' \<noteq> []" "''aliases'' \<noteq> ''bookkeeping''" by simp_all
  show ?thesis
    using aliases.add_to_run[OF assms(1-4) k(1) assms(5) k(2) part_wf_aliases]
    unfolding addAlias_def aliases.names_def set_map .
qed

definition demo_alias :: value_t where
  "demo_alias = Obj [(''name'', Str ''a''), (''assigned'', Str ''2''), (''removed'', Str ''2'')]"

definition no_aliases :: value_t where
  "no_aliases = Obj [(''active'', Arr []), (''history'', Arr [])]"

lemma demo_alias_facts:
  "part ''aliases'' demo_record = Some no_aliases" "ok_movable no_aliases" "ok_entry True True demo_alias"
  "active_of no_aliases = []"
  by code_simp+

theorem alias_effect_witness:
  "\<exists>v' l'. addAlias demo_alias (demo_record, demo_world) = (Inr (Success msg_Added), (v', clock_after demo_alias demo_world))
    \<and> part ''aliases'' v' = Some l' \<and> active_of l' = [demo_alias]"
proof -
  obtain v' l' where v': "addAlias demo_alias (demo_record, demo_world) =
      (Inr (Success msg_Added), (v', clock_after demo_alias demo_world))" "part ''aliases'' v' = Some l'"
    "active_of l' = (if kvts_name demo_alias \<in> kvts_name ` set (active_of no_aliases) then active_of no_aliases
       else active_of no_aliases @ [demo_alias])"
    using alias_effect[OF demo_facts(1) demo_alias_facts(1-3) demo_clock] by blast
  show ?thesis using v'(3) demo_alias_facts(4) by (intro exI[of _ v'] exI[of _ l'] conjI v'(1,2)) simp
qed

definition removal_ops :: "((value_t \<Rightarrow> result_t ovl) \<times> (value_t \<Rightarrow> result_t ovl) \<times> string \<times> string) set" where
  "removal_ops = {(addConfiguration, removeConfiguration, ''removeConfiguration'', ''configurations''),
     (addEntity, removeEntity, ''removeEntity'', ''entities'')}"

text \<open>Removing an entry that the list holds once takes it out, keeps the others in order and
  logs the entry with the time of its removal; right after an addition this restores the
  list, while the history has grown by both events.\<close>

theorem removal_effect:
  assumes "(add, remove, update, key) \<in> removal_ops" "open_record v" "part key v = Some (Arr es)"
    "list_all (ok_entry True False) es" "ok_entry True False x" "clock_ok w"
    "length (filter (\<lambda>e. kvts_name e = kvts_name x) es) = 1"
  shows "\<exists>v' w'. remove x (v, w) = (Inr (Success msg_Added), (v', w')) \<and> open_record v'
    \<and> part key v' = Some (Arr (filter (\<lambda>e. kvts_name e \<noteq> kvts_name x) es))
    \<and> history v' = history v @ [logged update (w_clock w 1) (w_clock w 2) (stamped (w_clock w 0) x)]
    \<and> (\<forall>k. k \<noteq> key \<longrightarrow> k \<noteq> ''bookkeeping'' \<longrightarrow> part k v' = part k v)"
proof -
  have a: "remove = remove_from update key (fixed_remove entry)" "update \<noteq> []" "key \<noteq> ''bookkeeping''"
      "\<And>l. wf_list (ok_entry True False) l \<Longrightarrow> part_wf key l"
    using assms(1) part_wf_lists by (auto simp: removal_ops_def removeConfiguration_def removeEntity_def)
  have l: "wf_list (ok_entry True False) (Arr es)" using assms(4) by simp
  have one: "length (filter (\<lambda>e. kvts_name e = kvts_name x) (array_of (Arr es))) = 1" using assms(7) by simp
  obtain v' l' w' where r: "remove x (v, w) = (Inr (Success msg_Added), (v', w'))" "open_record v'"
      "part key v' = Some l'" "wf_list (ok_entry True False) l'"
      "array_of l' = filter (\<lambda>e. kvts_name e \<noteq> kvts_name x) es"
      "history v' = history v @ [logged update (w_clock w 1) (w_clock w 2) (stamped (w_clock w 0) x)]"
      "\<forall>k. k \<noteq> key \<longrightarrow> k \<noteq> ''bookkeeping'' \<longrightarrow> part k v' = part k v"
    using fixed.remove_from_run[OF assms(2,3) l assms(5) a(2) assms(6) a(3,4) one] unfolding a(1) by auto
  then have "l' = Arr (filter (\<lambda>e. kvts_name e \<noteq> kvts_name x) es)"
    by (cases l') simp_all
  then show ?thesis using r by blast
qed

definition demo_record1 :: value_t where
  "demo_record1 = fst (snd (addConfiguration demo_entry (demo_record, demo_world)))"

lemma demo1_facts:
  "open_record demo_record1" "part ''configurations'' demo_record1 = Some (Arr [demo_entry])"
  by code_simp+

theorem removal_effect_witness:
  "\<exists>v' w'. removeConfiguration demo_entry (demo_record1, demo_world) = (Inr (Success msg_Added), (v', w'))
    \<and> part ''configurations'' v' = Some (Arr [])"
proof -
  have op: "(addConfiguration, removeConfiguration, ''removeConfiguration'', ''configurations'') \<in> removal_ops"
    by (simp add: removal_ops_def)
  have l: "list_all (ok_entry True False) [demo_entry]" "length (filter (\<lambda>e. kvts_name e = kvts_name demo_entry) [demo_entry]) = 1"
    using demo_facts(2) by simp_all
  obtain v' w' where "removeConfiguration demo_entry (demo_record1, demo_world) = (Inr (Success msg_Added), (v', w'))"
    "part ''configurations'' v' = Some (Arr (filter (\<lambda>e. kvts_name e \<noteq> kvts_name demo_entry) [demo_entry]))"
    using removal_effect[OF op demo1_facts l(1) demo_facts(2) demo_clock l(2)] by blast
  then show ?thesis by auto
qed

section \<open>Strings and flags\<close>

definition string_ops :: "((value_t \<Rightarrow> result_t ovl) \<times> string \<times> string) set" where
  "string_ops = {(setVersion, ''setVersion'', ''version''), (setCollection, ''setCollection'', ''collection''),
     (setConfigurationType, ''setConfigurationType'', ''configtype'')}"

lemma part_wf_strings:
  "(put, update, key) \<in> string_ops \<Longrightarrow> s \<noteq> [] \<Longrightarrow> part_wf key (Str s)"
  by (auto simp: string_ops_def part_wf_def record_parts_def)

text \<open>Setting the version, the collection or the configuration type of an open record to the
  text it has is ignored without a trace; any other text is stored and logged.\<close>

theorem set_string_effect:
  assumes "(put, update, key) \<in> string_ops" "open_record v" "part key v = Some (Str old)" "new \<noteq> []" "clock_ok w"
  shows "if old = new then put (Str new) (v, w) = (Inr (Success msg_Ignored), (v, w))
    else \<exists>v'. put (Str new) (v, w) = (Inr (Success msg_Added), (v', clock_after (Str new) w)) \<and> open_record v'
      \<and> part key v' = Some (Str new)
      \<and> history v' = history v @ [logged update (w_clock w 0) (w_clock w 1) (Str new)]
      \<and> (\<forall>k. k \<noteq> key \<longrightarrow> k \<noteq> ''bookkeeping'' \<longrightarrow> part k v' = part k v)"
proof -
  have a: "put = set_string update key" "update \<noteq> []" "key \<noteq> ''bookkeeping''"
    using assms(1) by (auto simp: string_ops_def setVersion_def setCollection_def setConfigurationType_def)
  obtain ps where ps: "v = Obj ps" "map_of ps key = Some (Str old)" using assms(3) part_Some by blast
  have read: "focus key (bindM valueM (\<lambda>v. liftE (get_string v))) (Obj ps, w) = (Inr old, (Obj ps, w))"
    by (simp add: focus_run[OF ps(2)] bindM_run valueM_run liftE_run put_first_same[OF ps(2)])
  show ?thesis
  proof (cases "old = new")
    case True
    then show ?thesis
      using assms(2) by (simp add: a(1) set_string_def unless_frozen_open ps(1) bindM_run read liftE_run retM_run)
  next
    case False
    let ?v1 = "Obj (put_first key (Str new) ps)"
    have o1: "open_record ?v1" "history ?v1 = history v"
      using open_put[OF assms(2)[unfolded ps(1)] a(3) part_wf_strings[OF assms(1,4)]] by (simp_all add: ps(1))
    have p1: "map_of (put_first key (Str new) ps) key = Some (Str new)" using part_put(1)[OF ps(2)] by simp
    have swap: "swap_part key (Str new) (Obj ps, w) = (Inr (Success msg_Success), (?v1, w))"
      using assms(2) by (simp add: swap_part_def unless_frozen_open ps(1) thenM_run focus_run[OF ps(2)] set_value_run retM_run)
    have now: "focus key valueM (?v1, w) = (Inr (Str new), (?v1, w))"
      by (simp add: focus_run[OF p1] valueM_run put_first_same[OF p1])
    have lg: "loggable (Str new)" by (simp add: loggable_def)
    obtain v' where v': "focus ''bookkeeping'' (postUpdate update (Str new)) (?v1, w) = (Inr (Success msg_Added), (v', clock_after (Str new) w))"
        "open_record v'" "history v' = history ?v1 @ [logged update (w_clock w 0) (w_clock w 1) (Str new)]"
        "\<forall>k. k \<noteq> ''bookkeeping'' \<longrightarrow> part k v' = part k ?v1"
      using post_run[OF o1(1) a(2) lg assms(5)] by blast
    have "put (Str new) (v, w) = (Inr (Success msg_Added), (v', clock_after (Str new) w))"
      using False assms(2)
      by (simp add: a(1) set_string_def unless_frozen_open ps(1) bindM_run read liftE_run swap now and_post_def Success_def
          v'(1)[unfolded Success_def])
    moreover have "part key v' = Some (Str new)" using v'(4) a(3) p1 by simp
    moreover have "part k v' = part k v" if "k \<noteq> key" "k \<noteq> ''bookkeeping''" for k
      using v'(4) that part_put(2)[of k key "Str new" ps] by (simp add: ps(1))
    ultimately show ?thesis using False v'(2,3) o1(2) by auto
  qed
qed

theorem set_string_effect_witness:
  "\<exists>v'. setVersion (Str ''v1'') (demo_record, demo_world) = (Inr (Success msg_Added), (v', clock_after (Str ''v1'') demo_world))
    \<and> part ''version'' v' = Some (Str ''v1'')"
proof -
  have op: "(setVersion, ''setVersion'', ''version'') \<in> string_ops" by (simp add: string_ops_def)
  have old: "part ''version'' demo_record = Some (Str ''notprovided'')" by code_simp
  show ?thesis using set_string_effect[OF op demo_facts(1) old _ demo_clock, of "''v1''"] by auto
qed

lemma set_flag_run:
  assumes v: "wf_record v" "flag k v = Some (Bool old)" and k: "k = ''isreadonly'' \<or> k = ''isdeleted''"
  shows "\<exists>v'. focus ''bookkeeping'' (set_flag k b) (v, w) = (Inr (), (v', w)) \<and> wf_record v'
    \<and> flag k v' = Some (Bool b) \<and> (\<forall>j. j \<noteq> k \<longrightarrow> flag j v' = flag j v)
    \<and> history v' = history v \<and> (\<forall>j. j \<noteq> ''bookkeeping'' \<longrightarrow> part j v' = part j v)"
proof -
  obtain ps bs where ps: "v = Obj ps" "map_of ps ''bookkeeping'' = Some (Obj bs)" "map_of bs k = Some (Bool old)"
    using flag_Some[OF v(2)] by blast
  let ?bs = "put_first k (Bool b) bs"
  let ?v' = "Obj (put_first ''bookkeeping'' (Obj ?bs) ps)"
  have bk: "part ''bookkeeping'' ?v' = Some (Obj ?bs)" by (rule part_put(1)[OF ps(2)])
  have "wf_bookkeeping (Obj bs)" using bookkeeping_of[of ps] v(1) ps by auto
  then have "wf_bookkeeping (Obj ?bs)" using k by (auto simp: table_simps)
  then have "wf_record ?v'" using wf_record_put[of ps "''bookkeeping''"] v(1) ps(1) by (simp add: part_wf_bookkeeping)
  moreover have "focus ''bookkeeping'' (set_flag k b) (v, w) = (Inr (), (?v', w))"
    by (simp add: ps(1) focus_run[OF ps(2)] set_flag_def focus_run[OF ps(3)] bindM_run valueM_run liftE_run set_value_run)
  moreover have "flag k ?v' = Some (Bool b)" using bk part_put(1)[OF ps(3)] by (simp add: flag_def)
  moreover have "flag j ?v' = flag j v" if "j \<noteq> k" for j
    using bk ps that by (simp add: flag_def map_of_put_first_iff)
  moreover have "history ?v' = history v"
    using bk ps k by (auto simp: history_def updates_of_def map_of_put_first_iff)
  ultimately show ?thesis by (intro exI[of _ ?v']) (simp add: ps(1) map_of_put_first_iff)
qed

text \<open>Marking an open record read-only freezes it and changes nothing else; marking a record
  deleted works whether or not it is frozen, is not logged and freezes it too.\<close>

theorem mark_effect:
  assumes "wf_record v" "flag ''isreadonly'' v = Some (Bool r)" "flag ''isdeleted'' v = Some (Bool d)"
  shows "(\<exists>v'. markDeleted (v, w) = (Inr (Success msg_Success), (v', w)) \<and> frozen v'
      \<and> flag ''isreadonly'' v' = Some (Bool r) \<and> history v' = history v
      \<and> (\<forall>j. j \<noteq> ''bookkeeping'' \<longrightarrow> part j v' = part j v))
    \<and> (\<exists>v'. markReadonly (v, w) = (Inr (if r \<or> d then Failure msg_IsReadonly else Success msg_Success), (v', w))
      \<and> (if r \<or> d then v' = v else flag ''isreadonly'' v' = Some (Bool True)) \<and> frozen v' \<and> history v' = history v
      \<and> (\<forall>j. j \<noteq> ''bookkeeping'' \<longrightarrow> part j v' = part j v))"
proof (intro conjI)
  obtain v1 where v1: "focus ''bookkeeping'' (set_flag ''isdeleted'' True) (v, w) = (Inr (), (v1, w))"
      "flag ''isdeleted'' v1 = Some (Bool True)" "\<forall>j. j \<noteq> ''isdeleted'' \<longrightarrow> flag j v1 = flag j v"
      "history v1 = history v" "\<forall>j. j \<noteq> ''bookkeeping'' \<longrightarrow> part j v1 = part j v"
    using set_flag_run[OF assms(1,3)] by blast
  then show "\<exists>v'. markDeleted (v, w) = (Inr (Success msg_Success), (v', w)) \<and> frozen v'
      \<and> flag ''isreadonly'' v' = Some (Bool r) \<and> history v' = history v
      \<and> (\<forall>j. j \<noteq> ''bookkeeping'' \<longrightarrow> part j v' = part j v)"
    using assms(2) by (intro exI[of _ v1]) (cases r, auto simp: markDeleted_def thenM_run retM_run frozen_def)
next
  obtain v1 where v1: "focus ''bookkeeping'' (set_flag ''isreadonly'' True) (v, w) = (Inr (), (v1, w))"
      "flag ''isreadonly'' v1 = Some (Bool True)" "history v1 = history v"
      "\<forall>j. j \<noteq> ''bookkeeping'' \<longrightarrow> part j v1 = part j v"
    using set_flag_run[OF assms(1,2)] by blast
  show "\<exists>v'. markReadonly (v, w) = (Inr (if r \<or> d then Failure msg_IsReadonly else Success msg_Success), (v', w))
      \<and> (if r \<or> d then v' = v else flag ''isreadonly'' v' = Some (Bool True)) \<and> frozen v' \<and> history v' = history v
      \<and> (\<forall>j. j \<noteq> ''bookkeeping'' \<longrightarrow> part j v' = part j v)"
  proof (cases "r \<or> d")
    case True
    then have "frozen v" using assms(2,3) by (cases r) (auto simp: frozen_def)
    then show ?thesis using True by (simp add: markReadonly_def unless_frozen_frozen)
  next
    case False
    then have "open_record v" using assms by (simp add: open_record_def)
    then show ?thesis using False v1
      by (intro exI[of _ v1]) (simp add: markReadonly_def unless_frozen_open thenM_run retM_run frozen_def)
  qed
qed

theorem mark_effect_witness:
  "\<exists>v'. markDeleted (frozen_demo, demo_world) = (Inr (Success msg_Success), (v', demo_world)) \<and> frozen v'"
proof -
  have "wf_record frozen_demo" "flag ''isreadonly'' frozen_demo = Some (Bool True)"
    "flag ''isdeleted'' frozen_demo = Some (Bool False)" by code_simp+
  from mark_effect[OF this] show ?thesis by blast
qed

end
