(* ===== verification/DocumentBuilder.thy ===== *)
theory DocumentBuilder
  imports DatabaseRecord JsonDocument
begin

text \<open>
  JsonDocument/JSONDocumentBuilder.cpp, the builder part of JSONDocument\_utils.cpp and
  JSONDocumentMigrator.cpp.  A builder owns a document and a record overlay whose references
  all lead into the document's value, so its state is the document and the environment.  The
  overlay changes the value behind the document's back: it sets no dirty flag.  Nearly every
  operation is a function-try-block that swallows every standard exception; the undo hooks
  do nothing and report success.
\<close>

type_synonym 'a bld = "(jsondoc \<times> world, 'a) prog"

text \<open>A program of the overlay, a program of the document, and the document itself.\<close>

definition on_record :: "'a ovl \<Rightarrow> 'a bld" where
  "on_record m = (\<lambda>(d, w). case m (jd_value d, w) of (r, (v, w')) \<Rightarrow> (r, (d\<lparr>jd_value := v\<rparr>, w')))"

definition on_document :: "(jsondoc, 'a) prog \<Rightarrow> 'a bld" where
  "on_document m = (\<lambda>(d, w). case m d of (r, d') \<Rightarrow> (r, (d', w)))"

definition recordM :: "value_t bld" where
  "recordM = (\<lambda>(d, w). (Inr (jd_value d), (d, w)))"

definition put_document :: "jsondoc \<Rightarrow> unit bld" where
  "put_document d = (\<lambda>(_, w). (Inr (), (d, w)))"

section \<open>Undo\<close>

definition SaveUndo :: result_t where
  "SaveUndo = Success msg_Success"

definition CallUndo :: result_t where
  "CallUndo = Success msg_Success"

text \<open>\<open>catch (std::exception const&) { ThrowOnFailure(CallUndo()); return self(); }\<close>\<close>

definition swallow :: "unit bld \<Rightarrow> unit bld" where
  "swallow m = catchM any_exn m (liftE (ThrowOnFailure CallUndo))"

definition checked :: "result_t ovl \<Rightarrow> unit bld" where
  "checked m =
     thenM (liftE (ThrowOnFailure SaveUndo)) (bindM (on_record m) (\<lambda>res. liftE (ThrowOnFailure res)))"

section \<open>Construction\<close>

definition template :: string where
  "template = ''{'' @ newline @ ''}''"

definition new_builder :: "jsondoc \<Rightarrow> unit bld" where
  "new_builder doc = thenM (put_document doc) (on_record ovlDatabaseRecord)"

definition empty_builder :: "codec \<Rightarrow> unit bld" where
  "empty_builder c = bindM (liftE (doc_of_string c template)) new_builder"

text \<open>\<open>overlay<OVL>(copy, key)\<close>: the overlay of a whole document passed as an argument; its
  value after the constructor has completed it.\<close>

definition argument :: "unit ovl \<Rightarrow> value_t \<Rightarrow> value_t bld" where
  "argument ctor x =
     (\<lambda>(d, w). case ctor (x, w) of
        (Inl e, (x', w')) \<Rightarrow> (Inl e, (d, w'))
      | (Inr _, (x', w')) \<Rightarrow> (Inr x', (d, w')))"

definition entry_argument :: "unit ovl \<Rightarrow> jsondoc \<Rightarrow> value_t bld" where
  "entry_argument ctor x = argument (thenM (confirm_type OBJECT) ctor) (jd_value x)"

definition with_entry :: "unit ovl \<Rightarrow> (value_t \<Rightarrow> result_t ovl) \<Rightarrow> jsondoc \<Rightarrow> unit bld" where
  "with_entry ctor op x = swallow (bindM (entry_argument ctor x) (\<lambda>x'. checked (op x')))"

section \<open>Operations\<close>

definition bld_addAlias :: "jsondoc \<Rightarrow> unit bld" where
  "bld_addAlias = with_entry alias_entry addAlias"

definition bld_removeAlias :: "jsondoc \<Rightarrow> unit bld" where
  "bld_removeAlias = with_entry alias_entry removeAlias"

definition bld_addConfiguration :: "jsondoc \<Rightarrow> unit bld" where
  "bld_addConfiguration = with_entry entry addConfiguration"

definition bld_removeConfiguration :: "jsondoc \<Rightarrow> unit bld" where
  "bld_removeConfiguration = with_entry entry removeConfiguration"

definition bld_addEntity :: "jsondoc \<Rightarrow> unit bld" where
  "bld_addEntity = with_entry entry addEntity"

definition bld_removeEntity :: "jsondoc \<Rightarrow> unit bld" where
  "bld_removeEntity = with_entry entry removeEntity"

definition bld_addRun :: "jsondoc \<Rightarrow> unit bld" where
  "bld_addRun = with_entry entry addRun"

definition bld_removeAllConfigurations :: "unit bld" where
  "bld_removeAllConfigurations = swallow (on_record wipe_configurations)"

definition bld_removeAllEntities :: "unit bld" where
  "bld_removeAllEntities = swallow (on_record wipe_entities)"

definition bld_setObjectID :: "jsondoc \<Rightarrow> unit bld" where
  "bld_setObjectID x =
     swallow (bindM (liftE (findChildValue (jd_value x) ''_id'')) (\<lambda>v.
       bindM (argument ovlId v) (\<lambda>v'. checked (swap_id v'))))"

definition bld_newObjectID :: "unit bld" where
  "bld_newObjectID = on_record new_object_id"

definition bld_setVersion :: "jsondoc \<Rightarrow> unit bld" where
  "bld_setVersion x =
     swallow (bindM (liftE (findChildValue (jd_value x) ''name'')) (\<lambda>v.
       bindM (argument ovlStringKeyValue v) (\<lambda>v'. checked (setVersion v'))))"

definition bld_setCollection :: "jsondoc \<Rightarrow> unit bld" where
  "bld_setCollection x =
     swallow (bindM (liftE (findChild x ''collection'')) (\<lambda>copy.
       bindM (liftE (findChildValue (jd_value copy) ''collection'')) (\<lambda>v.
       bindM (argument ovlStringKeyValue v) (\<lambda>v'. checked (setCollection v')))))"

definition bld_markReadonly :: "unit bld" where
  "bld_markReadonly = swallow (checked markReadonly)"

definition bld_markDeleted :: "unit bld" where
  "bld_markDeleted = swallow (checked markDeleted)"

definition bld_isReadonlyOrDeleted :: "bool bld" where
  "bld_isReadonlyOrDeleted = on_record isReadonlyOrDeleted"

section \<open>Questions\<close>

definition getObjectOUID :: "value_t \<Rightarrow> exn + string" where
  "getObjectOUID v = bindE (child_at ''_id'' v) oid"

text \<open>\<open>ovlKeyValue::to_string\<close> writes the key and the value as an object.\<close>

definition keyvalue_to_string :: "codec \<Rightarrow> string \<Rightarrow> value_t \<Rightarrow> exn + string" where
  "keyvalue_to_string c k v = c_write c [(k, v)]"

definition getObjectID :: "codec \<Rightarrow> value_t \<Rightarrow> exn + jsondoc" where
  "getObjectID c v =
     bindE (child_at ''_id'' v) (\<lambda>i. bindE (keyvalue_to_string c ''_id'' i) (doc_of_string c))"

definition entry_tags :: "string \<Rightarrow> value_t \<Rightarrow> exn + string list" where
  "entry_tags tag l =
     bindE (get_array l) (\<lambda>es. mapE (\<lambda>e. bindE (kvts_name e) (\<lambda>n. Inr (tag @ '':'' @ n))) es)"

definition extractTags :: "value_t \<Rightarrow> exn + string list" where
  "extractTags v =
     bindE (child_at ''version'' v) (\<lambda>x. bindE (get_string x) (\<lambda>ver.
     bindE (child_at ''configurations'' v) (\<lambda>cs. bindE (entry_tags ''configuration'' cs) (\<lambda>ctags.
     bindE (child_at ''entities'' v) (\<lambda>es. bindE (entry_tags ''entity'' es) (\<lambda>etags.
       Inr ([''version:'' @ ver] @ ctags @ etags)))))))"

definition bld_to_string :: "codec \<Rightarrow> string bld" where
  "bld_to_string c = on_document (\<lambda>d. doc_to_string c (d\<lparr>jd_dirty := True\<rparr>))"

definition bld_extract :: "jsondoc bld" where
  "bld_extract = (\<lambda>(d, w). (Inr d, (d, w)))"

section \<open>Importing user data\<close>

text \<open>One \<open>try\<close> block of \<open>_importUserData\<close>: copy a child that the document has; only
  \<open>notfound_exception\<close> is caught.  The result says whether it was found.\<close>

definition import_child :: "jsondoc \<Rightarrow> string \<Rightarrow> bool bld" where
  "import_child src path =
     catchM (\<lambda>e. e = Notfound_exception)
       (bindM (liftE (findChild src path)) (\<lambda>x.
          thenM (on_document (replaceChild x path)) (retM True)))
       (retM False)"

definition importUserData :: "jsondoc \<Rightarrow> unit bld" where
  "importUserData src =
     thenM (forM [''document.metadata'', ''changelog'', ''origin'', ''collection'', ''attachments'']
         (\<lambda>path. bindM (import_child src path) (\<lambda>_. retM ())))
       (bindM (import_child src ''document.data'') (\<lambda>found.
          if found then retM ()
          else catchM (\<lambda>e. e = Notfound_exception)
            (thenM (on_document (replaceChild src ''document.data'')) (retM ())) (retM ())))"

definition createFromData :: "codec \<Rightarrow> jsondoc \<Rightarrow> unit bld" where
  "createFromData c src =
     bindM (liftE (doc_of_string c template)) (\<lambda>t.
       seqM [put_document t, on_record ovlDatabaseRecord, importUserData src, on_record ovlDatabaseRecord])"

section \<open>Migration\<close>

definition migrate :: "codec \<Rightarrow> jsondoc \<Rightarrow> jsondoc bld" where
  "migrate c src =
     thenM (seqM [empty_builder c, createFromData c src])
      (bindM (liftE (findChildValue (jd_value src) ''version'')) (\<lambda>ver.
       thenM (bld_setVersion (doc_of (Obj [(''name'', ver)])))
      (bindM (liftE (findChildDocument src ''configurable_entity'')) (\<lambda>ent.
       thenM (bld_addEntity ent)
      (bindM (liftE (findChildValue (jd_value src) ''configurations'')) (\<lambda>configs.
       bindM (liftE (get_array configs)) (\<lambda>cs.
       thenM (forM cs (\<lambda>x. bld_addConfiguration (doc_of x)))
      (bindM (liftE (findChildValue (jd_value src) ''_id._oid'')) (\<lambda>i.
       bindM (liftE (get_string i)) (\<lambda>s.
       bindM (liftE (to_id s)) (\<lambda>t.
       bindM (liftE (doc_of_string c t)) (\<lambda>iddoc.
       thenM (bld_setObjectID iddoc) bld_extract))))))))))))"

section \<open>Frozen documents\<close>

lemma on_record_run:
  "on_record m (d, w) = (fst (m (jd_value d, w)), (d\<lparr>jd_value := fst (snd (m (jd_value d, w)))\<rparr>, snd (snd (m (jd_value d, w)))))"
  by (simp add: on_record_def split: prod.splits)

lemma argument_document: "fst (snd (argument ctor x (d, w))) = d"
  by (auto simp: argument_def split: prod.splits sum.splits)

lemma bind_document:
  assumes "fst (snd (m (d, w))) = d" "\<And>x w. fst (snd (f x (d, w))) = d"
  shows "fst (snd (bindM m f (d, w))) = d"
  using assms by (cases "m (d, w)") (auto simp: bindM_run split: sum.splits)

lemma swallow_document: "fst (snd (m (d, w))) = d \<Longrightarrow> fst (snd (swallow m (d, w))) = d"
  by (auto simp: swallow_def catchM_run liftE_run ThrowOnFailure_def CallUndo_def Success_def split: prod.splits sum.splits)

lemma liftE_document: "fst (snd (liftE r (d, w))) = d"
  by (simp add: liftE_run)

lemma checked_document:
  assumes "m (jd_value d, w) = (r, (jd_value d, w'))"
  shows "fst (snd (checked m (d, w))) = d"
  by (auto simp: checked_def thenM_run bindM_run liftE_run on_record_run assms split: sum.splits)

lemmas builder_defs =
  bld_addAlias_def bld_removeAlias_def bld_addConfiguration_def bld_removeConfiguration_def bld_addEntity_def
  bld_removeEntity_def bld_addRun_def bld_setObjectID_def bld_setVersion_def bld_setCollection_def bld_markReadonly_def

lemmas record_op_defs =
  addConfiguration_def removeConfiguration_def addAlias_def removeAlias_def addEntity_def
  removeEntity_def addRun_def setVersion_def setCollection_def setConfigurationType_def swap_id_def
  markReadonly_def add_to_def remove_from_def set_string_def swap_part_def

lemma frozen_checked:
  "frozen (jd_value d) \<Longrightarrow> fst (snd (checked (unless_frozen m) (d, w))) = d"
  by (rule checked_document, rule unless_frozen_frozen)

text \<open>No guarded operation of a builder changes a document that is read-only or deleted,
  whatever its argument and whether or not it is swallowed.\<close>

theorem frozen_document_kept:
  assumes "frozen (jd_value d)"
    and "m \<in> {bld_addAlias x, bld_removeAlias x, bld_addConfiguration x, bld_removeConfiguration x, bld_addEntity x,
      bld_removeEntity x, bld_addRun x, bld_setObjectID x, bld_setVersion x, bld_setCollection x, bld_markReadonly}"
  shows "fst (snd (m (d, w))) = d"
proof -
  note rules = swallow_document bind_document argument_document liftE_document frozen_checked[OF assms(1)]
  show ?thesis using assms(2)
    by (elim insertE emptyE; simp only: builder_defs with_entry_def entry_argument_def record_op_defs)
      (intro rules)+
qed

theorem frozen_document_kept_witness:
  "fst (snd (bld_addRun (doc_of (Obj [(''name'', Str ''7'')])) (doc_of frozen_demo, demo_world))) = doc_of frozen_demo"
proof -
  have "frozen (jd_value (doc_of frozen_demo))" by code_simp
  then show ?thesis by (rule frozen_document_kept) blast
qed

lemma wipe_run:
  assumes "wf_record v" "key = ''configurations'' \<or> key = ''entities''"
  shows "\<exists>v'. focus key (fixed_wipe entry) (v, w) = (Inr (), (v', w)) \<and> part key v' = Some (Arr [])
    \<and> (\<forall>k. k \<noteq> key \<longrightarrow> part k v' = part k v)"
proof -
  obtain ps where v: "v = Obj ps" using assms(1) by (cases v) (auto simp: wf_record_def)
  obtain l where l: "map_of ps key = Some l" "wf_list (wf_kvts True False) l"
    using assms by (auto simp: v wf_record_def record_parts_def child_is_Some)
  then obtain es where es: "l = Arr es" by (cases l) auto
  have "fixed_wipe entry (l, w) = (Inr (), (Arr [], w))"
    by (simp add: fixed_wipe_def es thenM_run bindM_run arrayM_run set_value_run retM_run entries.settled)
  then show ?thesis
    using part_put(1)[OF l(1)] part_put(2)[of _ key "Arr []" ps]
    by (intro exI[of _ "Obj (put_first key (Arr []) ps)"]) (simp add: v focus_run[OF l(1)])
qed

text \<open>The flags do not protect everything: wiping the configurations or the entities goes
  through on any document, frozen or not, and leaves no trace in the history.\<close>

theorem wipe_ignores_flags:
  assumes "wf_record (jd_value d)"
    and "(m, key) \<in> {(bld_removeAllConfigurations, ''configurations''), (bld_removeAllEntities, ''entities'')}"
  shows "\<exists>v. m (d, w) = (Inr (), (d\<lparr>jd_value := v\<rparr>, w)) \<and> part key v = Some (Arr [])
    \<and> (\<forall>k. k \<noteq> key \<longrightarrow> part k v = part k (jd_value d))"
proof -
  have key: "key = ''configurations'' \<or> key = ''entities''" and m: "m = swallow (on_record (focus key (fixed_wipe entry)))"
    using assms(2) by (auto simp: bld_removeAllConfigurations_def bld_removeAllEntities_def wipe_configurations_def
        wipe_entities_def)
  obtain v' where "focus key (fixed_wipe entry) (jd_value d, w) = (Inr (), (v', w))" "part key v' = Some (Arr [])"
      "\<forall>k. k \<noteq> key \<longrightarrow> part k v' = part k (jd_value d)"
    using wipe_run[OF assms(1) key] by blast
  then show ?thesis by (intro exI[of _ v']) (simp add: m swallow_def catchM_run on_record_run)
qed

theorem wipe_ignores_flags_witness:
  "\<exists>v. bld_removeAllConfigurations (doc_of frozen_demo, demo_world) = (Inr (), ((doc_of frozen_demo)\<lparr>jd_value := v\<rparr>, demo_world))
    \<and> part ''configurations'' v = Some (Arr [])"
proof -
  have "wf_record (jd_value (doc_of frozen_demo))" by code_simp
  from wipe_ignores_flags[OF this, of bld_removeAllConfigurations "''configurations''" demo_world] show ?thesis by blast
qed

section \<open>The cached text\<close>

lemma on_record_cache:
  "on_record m (d, w) = (r, (d', w')) \<Longrightarrow> jd_dirty d' = jd_dirty d \<and> jd_cache d' = jd_cache d"
  by (auto simp: on_record_run)

definition same_cache :: "jsondoc \<times> world \<Rightarrow> jsondoc \<times> world \<Rightarrow> bool" where
  "same_cache s t \<longleftrightarrow> jd_dirty (fst t) = jd_dirty (fst s) \<and> jd_cache (fst t) = jd_cache (fst s)"

interpretation same_cache: run_relation same_cache
  by unfold_locales (simp_all add: same_cache_def)

lemma same_cache_swallow: "stays_in same_cache m \<Longrightarrow> stays_in same_cache (swallow m)"
  unfolding swallow_def by (intro same_cache.combined)

lemma same_cache_rules: "stays_in same_cache (on_record r)" "stays_in same_cache (argument ctor x)"
  by (auto simp: stays_in_def same_cache_def on_record_run argument_def split: prod.splits sum.splits)

text \<open>Once the builder has printed its document, the document it hands out prints the same
  text for ever, whatever record operations came between: they leave the cache and the
  dirty flag alone.\<close>

theorem extracted_text_is_stale:
  assumes "bld_to_string c s = (Inr text, (d, w))"
    and "m \<in> {bld_addAlias x, bld_removeAlias x, bld_addConfiguration x, bld_removeConfiguration x, bld_addEntity x,
      bld_removeEntity x, bld_addRun x, bld_setObjectID x, bld_setVersion x, bld_setCollection x, bld_markReadonly,
      bld_markDeleted, bld_removeAllConfigurations, bld_removeAllEntities, bld_newObjectID}"
    and "bindM m (\<lambda>_. bld_extract) (d, w) = (Inr d', s')"
  shows "fst (doc_to_string c d') = Inr text"
proof -
  have d: "\<not> jd_dirty d" "jd_cache d = text"
    using assms(1) by (cases s; auto simp: bld_to_string_def on_document_def doc_to_string_def split: prod.splits sum.splits)+
  note rules = same_cache_rules same_cache_swallow same_cache.combined
  have "stays_in same_cache m" using assms(2)
    by (elim insertE emptyE; simp only: builder_defs with_entry_def entry_argument_def checked_def bld_markDeleted_def
        bld_removeAllConfigurations_def bld_removeAllEntities_def bld_newObjectID_def) (intro rules)+
  then have "same_cache (d, w) (snd (m (d, w)))" by (simp add: stays_in_def)
  then have "\<not> jd_dirty d'" "jd_cache d' = text"
    using assms(3) d by (auto simp: same_cache_def bindM_run bld_extract_def split: prod.splits sum.splits)
  then show ?thesis by (simp add: doc_to_string_def)
qed

definition demo_codec :: codec where
  "demo_codec = boost_codec decimal_to_string no_doubles"

definition printed_text :: string where
  "printed_text = (case writeJson demo_codec demo_record of Inr t \<Rightarrow> t | Inl _ \<Rightarrow> [])"

definition printed_doc :: jsondoc where
  "printed_doc = \<lparr>jd_value = demo_record, jd_cache = printed_text, jd_dirty = False\<rparr>"

definition marked_doc :: jsondoc where
  "marked_doc = fst (snd (bld_markReadonly (printed_doc, demo_world)))"

theorem extracted_text_is_stale_witness:
  "fst (doc_to_string demo_codec marked_doc) = Inr printed_text \<and> writeJson demo_codec (jd_value marked_doc) \<noteq> Inr printed_text"
proof
  have w: "writeJson demo_codec demo_record = Inr printed_text" by code_simp
  have print: "bld_to_string demo_codec (doc_of demo_record, demo_world) = (Inr printed_text, (printed_doc, demo_world))"
    by (simp add: bld_to_string_def on_document_def doc_to_string_def doc_of_def w printed_doc_def)
  have "fst (bld_markReadonly (printed_doc, demo_world)) = Inr ()" by code_simp
  then have mark: "bindM bld_markReadonly (\<lambda>_. bld_extract) (printed_doc, demo_world) =
      (Inr marked_doc, (marked_doc, snd (snd (bld_markReadonly (printed_doc, demo_world)))))"
    by (auto simp: bindM_run bld_extract_def marked_doc_def split: prod.splits sum.splits)
  show "fst (doc_to_string demo_codec marked_doc) = Inr printed_text"
    by (rule extracted_text_is_stale[OF print _ mark]) blast
  show "writeJson demo_codec (jd_value marked_doc) \<noteq> Inr printed_text" by code_simp
qed

section \<open>Importing data\<close>

declare map_of_put_first [table_simps del]

lemma find_replace: "find_at v ts = Inr m \<Longrightarrow> \<exists>v'. replace_at v ts x = Inr (m, v')"
proof (induction ts arbitrary: v)
  case (Cons t ts)
  show ?case
  proof (cases v)
    case (Obj ps)
    have c: "table_count t ps \<noteq> 0" using Cons.prems by (auto simp: Obj split: if_splits)
    then obtain c where c: "map_of ps t = Some c" using count_map_of by blast
    show ?thesis
    proof (cases "ts = []")
      case True
      then show ?thesis using Cons.prems c find_at_last[OF c] by (simp add: Obj replace_at_Obj(1)[OF c] del: replace_at.simps find_at.simps)
    next
      case False
      then obtain v' where "replace_at c ts x = Inr (m, v')"
        using Cons.prems Cons.IH find_at_step[OF False c] by (auto simp: Obj)
      then show ?thesis by (simp add: Obj replace_at_Obj(2)[OF c False] del: replace_at.simps find_at.simps)
    qed
  qed (use Cons.prems in auto)
qed simp

text \<open>Constructing the overlays keeps the data a record already has.\<close>

lemma overlay_keeps:
  assumes "overlay k d m (v, w) = (Inr u, (v', w'))" "k \<noteq> []" "j \<noteq> k"
  shows "part j v' = part j v"
  using assms by (auto simp: overlay_Inr table_simps)

lemma overlays_keep:
  "seqM (map (\<lambda>(k, d, m, P). overlay k d m) fs) (v, w) = (Inr u, (v', w')) \<Longrightarrow>
   list_all part_ok fs \<Longrightarrow> j \<notin> fst ` set fs \<Longrightarrow> part j v' = part j v"
proof (induction fs arbitrary: v w)
  case (Cons f fs)
  obtain k d m P where f: "f = (k, d, m, P)" by (cases f)
  obtain v1 w1 where r: "overlay k d m (v, w) = (Inr (), (v1, w1))"
      "seqM (map (\<lambda>(k, d, m, P). overlay k d m) fs) (v1, w1) = (Inr u, (v', w'))"
    using Cons.prems(1) by (auto simp: f thenM_Inr)
  show ?case using Cons.IH[OF r(2)] Cons.prems(2,3) overlay_keeps[OF r(1)] by (auto simp: f part_ok_def)
qed (simp add: retM_run)

lemma document_keeps_data:
  assumes "ovlDocument (v, w) = (Inr u, (v', w'))" "part ''data'' v = Some x"
  shows "part ''data'' v' = Some x"
proof -
  obtain v1 w1 v2 w2 where r: "overlay ''data'' (Obj []) ovlKeyValue (v, w) = (Inr (), (v1, w1))"
      "overlay ''metadata'' (Obj []) ovlKeyValue (v1, w1) = (Inr (), (v2, w2))"
      "overlay ''search'' (Arr []) (make_list ovlKeyValue) (v2, w2) = (Inr (), (v', w'))"
    using assms(1) by (auto simp: ovlDocument_def ovlFixedList_def thenM_Inr retM_run)
  have "part ''data'' v1 = Some x"
    using r(1) assms(2) by (auto simp: overlay_Inr ovlKeyValue_def retM_run table_simps)
  then show ?thesis using overlay_keeps[OF r(2)] overlay_keeps[OF r(3)] by simp
qed

lemma record_keeps_data:
  assumes "ovlDatabaseRecord (v, w) = (Inr u, (v', w'))" "find_at v [''document'', ''data''] = Inr x"
  shows "find_at v' [''document'', ''data''] = Inr x"
proof -
  have parts: "record_parts = (''document'', Obj [], ovlDocument, wf_document) # tl record_parts"
    by (simp add: record_parts_def)
  obtain v1 w1 where r: "overlay ''document'' (Obj []) ovlDocument (v, w) = (Inr (), (v1, w1))"
      "seqM (map (\<lambda>(k, d, m, P). overlay k d m) (tl record_parts)) (v1, w1) = (Inr u, (v', w'))"
    using assms(1) unfolding ovlDatabaseRecord_def record_fields_parts
    by (subst (asm) parts) (auto simp: thenM_Inr)
  obtain ps c where v: "v = Obj ps" "map_of ps ''document'' = Some c" "find_at c [''data''] = Inr x"
    using assms(2) by (cases v) (auto simp: bindE_eq_Inr table_at_Inr_iff split: if_splits)
  then obtain ds where c: "c = Obj ds" "map_of ds ''data'' = Some x"
    by (cases c) (auto simp: bindE_eq_Inr table_at_Inr_iff split: if_splits)
  obtain c' where c': "ovlDocument (c, w) = (Inr (), (c', w1))" "part ''document'' v1 = Some c'"
    using r(1) v(1,2) by (auto simp: overlay_Inr table_simps)
  have "part ''data'' c' = Some x" using document_keeps_data[OF c'(1)] c by simp
  moreover have "part ''document'' v' = part ''document'' v1"
    using record_parts_ok(1) by (intro overlays_keep[OF r(2)]) (simp_all add: record_parts_def)
  ultimately have "part ''document'' v' = Some c'" "part ''data'' c' = Some x" using c'(2) by simp_all
  then obtain ps' ds' where "v' = Obj ps'" "map_of ps' ''document'' = Some (Obj ds')" "map_of ds' ''data'' = Some x"
    using part_Some by blast
  then show ?thesis using find_at_step find_at_last by simp
qed

definition data_path :: "string list" where
  "data_path = [''document'', ''data'']"

lemma import_paths:
  "split_path ''document.data'' = data_path" "apart (split_path ''document.metadata'') data_path"
  "apart (split_path ''changelog'') data_path" "apart (split_path ''origin'') data_path"
  "apart (split_path ''collection'') data_path" "apart (split_path ''attachments'') data_path"
  by code_simp+

lemma replaceChild_frame:
  assumes "replaceChild new path d = (r, d')" "apart (split_path path) qs"
  shows "find_at (jd_value d') qs = find_at (jd_value d) qs"
proof (cases r)
  case (Inl e)
  then have "d' = d" using assms(1)
    by (auto simp: replaceChild_def liftE_bind_error dest: changing_error)
  then show ?thesis by simp
next
  case (Inr y)
  then show ?thesis using assms
    by (auto simp: replaceChild_def liftE_bind_run changing_run split_path_validate_Inr dest: replace_at_frame)
qed

definition same_data :: "jsondoc \<times> world \<Rightarrow> jsondoc \<times> world \<Rightarrow> bool" where
  "same_data s t \<longleftrightarrow> find_at (jd_value (fst t)) data_path = find_at (jd_value (fst s)) data_path \<and> snd t = snd s"

interpretation same_data: run_relation same_data
  by unfold_locales (simp_all add: same_data_def)

lemma same_data_replace: "apart (split_path path) data_path \<Longrightarrow> stays_in same_data (on_document (replaceChild x path))"
  by (rule stays_inI) (auto simp: on_document_def same_data_def dest: replaceChild_frame split: prod.splits)

lemma same_data_import: "apart (split_path path) data_path \<Longrightarrow> stays_in same_data (import_child src path)"
  unfolding import_child_def by (intro same_data.combined same_data_replace)

lemma same_data_imports:
  "stays_in same_data (forM [''document.metadata'', ''changelog'', ''origin'', ''collection'', ''attachments'']
     (\<lambda>path. bindM (import_child src path) (\<lambda>_. retM ())))"
  by (rule same_data.iterated) (auto intro!: same_data.combined same_data_import simp: import_paths)

lemma replace_data:
  assumes "on_document (replaceChild x ''document.data'') (d, w) = (Inr y, (d', w'))"
    "getPayloadValueForKey (jd_value x) ''data'' = Inr p"
  shows "find_at (jd_value d') data_path = Inr p \<and> w' = w"
proof -
  have r: "replaceChild x ''document.data'' d = (Inr y, d')" "w' = w"
    using assms(1) by (auto simp: on_document_def split: prod.splits)
  obtain old v where v: "replace_at (jd_value d) data_path p = Inr (old, v)" "d' = d\<lparr>jd_value := v, jd_dirty := True\<rparr>"
    using r(1) assms(2)
    by (auto simp: replaceChild_def liftE_bind_run changing_run split_path_validate_Inr import_paths)
      (auto simp: data_path_def)
  then show ?thesis using replace_at_undo[OF v(1)] r(2) by simp
qed

lemma replace_data_found:
  assumes "find_at (jd_value d) data_path = Inr old" "getPayloadValueForKey (jd_value x) ''data'' = Inr p"
  shows "\<exists>y d'. on_document (replaceChild x ''document.data'') (d, w) = (Inr y, (d', w)) \<and> find_at (jd_value d') data_path = Inr p"
proof -
  obtain v where v: "replace_at (jd_value d) data_path p = Inr (old, v)" using find_replace[OF assms(1)] by blast
  have p: "split_path_validate ''document.data'' = Inr (rev data_path)"
    by (simp add: split_path_validate_Inr import_paths) (simp add: data_path_def)
  have "hd (rev data_path) = ''data''" by (simp add: data_path_def)
  then have "replaceChild x ''document.data'' d =
      (Inr (doc_of (Obj [(''document.data'', old)])), d\<lparr>jd_value := v, jd_dirty := True\<rparr>)"
    by (simp add: replaceChild_def bindM_run liftE_run p assms(2) changing_def v)
  then show ?thesis using replace_at_undo[OF v] by (simp add: on_document_def)
qed

text \<open>What a document passed to \<open>createFromData\<close> stands for.\<close>

definition user_data :: "jsondoc \<Rightarrow> exn + value_t" where
  "user_data src =
     (case findChildValue (jd_value src) ''document.data'' of
        Inr v \<Rightarrow> Inr v
      | Inl e \<Rightarrow> (if e = Notfound_exception then getPayloadValueForKey (jd_value src) ''data'' else Inl e))"

lemma payload_single: "getPayloadValueForKey (Obj [(''document.data'', v)]) ''data'' = Inr v"
  by (simp add: getPayloadValueForKey_def table_count_def)

lemma import_data:
  assumes "find_at (jd_value d) data_path = Inr old" "user_data src = Inr x"
    "importUserData src (d, w) = (Inr u, (d', w'))"
  shows "find_at (jd_value d') data_path = Inr x \<and> w' = w"
proof -
  let ?first = "forM [''document.metadata'', ''changelog'', ''origin'', ''collection'', ''attachments'']
     (\<lambda>path. bindM (import_child src path) (\<lambda>_. retM ()))"
  let ?last = "bindM (import_child src ''document.data'') (\<lambda>found.
          if found then retM ()
          else catchM (\<lambda>e. e = Notfound_exception)
            (thenM (on_document (replaceChild src ''document.data'')) (retM ())) (retM ()))"
  obtain d1 w1 where r: "?first (d, w) = (Inr (), (d1, w1))" "?last (d1, w1) = (Inr u, (d', w'))"
    using assms(3) unfolding importUserData_def thenM_Inr by auto
  have same: "find_at (jd_value d1) data_path = Inr old" "w1 = w"
    using stays_inD[OF same_data_imports r(1)] assms(1) by (simp_all add: same_data_def)
  have find: "findChild src ''document.data'' =
      bindE (findChildValue (jd_value src) ''document.data'') (\<lambda>v. Inr (doc_of (Obj [(''document.data'', v)])))"
    by (simp add: findChild_def)
  show ?thesis
  proof (cases "findChildValue (jd_value src) ''document.data''")
    case (Inr v)
    then have x: "x = v" using assms(2) by (simp add: user_data_def)
    let ?n = "doc_of (Obj [(''document.data'', v)])"
    have p: "getPayloadValueForKey (jd_value ?n) ''data'' = Inr v" by (simp add: doc_of_def payload_single)
    obtain y d2 where d2: "on_document (replaceChild ?n ''document.data'') (d1, w) = (Inr y, (d2, w))"
        "find_at (jd_value d2) data_path = Inr v"
      using replace_data_found[OF same(1) p] by blast
    then have "import_child src ''document.data'' (d1, w) = (Inr True, (d2, w))"
      by (simp add: import_child_def catchM_run bindM_run thenM_run liftE_run find Inr retM_run)
    then show ?thesis using r(2) same(2) d2(2) x by (simp add: bindM_run retM_run)
  next
    case (Inl e)
    then have e: "e = Notfound_exception" and p: "getPayloadValueForKey (jd_value src) ''data'' = Inr x"
      using assms(2) by (simp_all add: user_data_def split: if_splits)
    have n: "import_child src ''document.data'' (d1, w) = (Inr False, (d1, w))"
      by (simp add: import_child_def catchM_run bindM_run liftE_run find Inl e retM_run)
    obtain y d2 where d2: "on_document (replaceChild src ''document.data'') (d1, w) = (Inr y, (d2, w))"
        "find_at (jd_value d2) data_path = Inr x"
      using replace_data_found[OF same(1) p] by blast
    then show ?thesis using r(2) same(2) n by (simp add: bindM_run catchM_run thenM_run retM_run)
  qed
qed

lemma find_data_path: "findChildValue v ''document.data'' = find_at v data_path"
proof -
  have "split_path ''document.data'' \<noteq> []" by (simp only: import_paths) (simp add: data_path_def)
  then show ?thesis by (simp add: findChildValue_eq import_paths)
qed

lemma template_document: "doc_of_string (boost_codec kd qd) template = Inr empty_doc"
  by (simp add: doc_of_string_def readJson_def boost_codec_def json_read_def empty_doc_def) code_simp

lemma empty_record_has_data:
  assumes "clock_ok w" "ovlDatabaseRecord (v, w) = (Inr u, (v', w'))"
  shows "\<exists>x. find_at v' data_path = Inr x"
proof -
  have "wf_record v'" using recrd.establishes[OF assms] by simp
  then obtain ps c where "v' = Obj ps" "map_of ps ''document'' = Some c" "wf_document c"
    by (cases v') (auto simp: wf_record_def record_parts_def child_is_Some)
  moreover then obtain ds x where "c = Obj ds" "map_of ds ''data'' = Some x"
    by (cases c) (auto simp: child_is_Some)
  ultimately show ?thesis using find_at_step find_at_last by (simp add: data_path_def)
qed

lemma created_has_data:
  assumes "createFromData (boost_codec kd qd) src (d0, w) = (Inr u, (d', w'))" "clock_ok w" "user_data src = Inr x"
  shows "wf_record (jd_value d') \<and> findChildValue (jd_value d') ''document.data'' = Inr x"
proof -
  obtain d1 w1 d2 w2 where r: "on_record ovlDatabaseRecord (empty_doc, w) = (Inr (), (d1, w1))"
      "importUserData src (d1, w1) = (Inr (), (d2, w2))" "on_record ovlDatabaseRecord (d2, w2) = (Inr (), (d', w'))"
    using assms(1) by (auto simp: createFromData_def template_document bindM_run liftE_run thenM_Inr retM_run put_document_def)
  have r1: "ovlDatabaseRecord (jd_value empty_doc, w) = (Inr (), (jd_value d1, w1))"
    and r3: "ovlDatabaseRecord (jd_value d2, w2) = (Inr (), (jd_value d', w'))"
    using r(1,3) by (auto simp: on_record_def split: prod.splits)
  obtain old where old: "find_at (jd_value d1) data_path = Inr old"
    using empty_record_has_data[OF assms(2) r1] by blast
  have x: "find_at (jd_value d2) data_path = Inr x" "w2 = w1"
    using import_data[OF old assms(3) r(2)] by simp_all
  have ok: "clock_ok w2" using recrd.establishes[OF assms(2) r1] x(2) by simp
  have "findChildValue (jd_value d') ''document.data'' = find_at (jd_value d') data_path"
    by (rule find_data_path)
  then show ?thesis
    using recrd.establishes[OF ok r3] record_keeps_data[OF r3] x(1) by (simp add: data_path_def)
qed

text \<open>\<open>createFromData\<close>, when it returns, leaves a well-formed record whose \<open>document.data\<close> is
  the data of the source: its own \<open>document.data\<close>, or without one what the payload rules
  make of the whole source.\<close>

theorem created_record_has_data:
  assumes "createFromData (boost_codec kd qd) src (d0, w) = (Inr u, (d', w'))" "clock_ok w" "user_data src = Inr x"
  shows "wf_record (jd_value d') \<and> findChildValue (jd_value d') ''document.data'' = Inr x"
  using assms by (rule created_has_data)

definition created :: "value_t \<Rightarrow> (exn + unit) \<times> jsondoc \<times> world" where
  "created v = createFromData demo_codec (doc_of v) (empty_doc, demo_world)"

theorem created_record_has_data_witness:
  "findChildValue (jd_value (fst (snd (created (Obj [(''a'', Bool True), (''b'', Bool False)]))))) ''document.data''
    = Inr (Obj [(''a'', Bool True), (''b'', Bool False)])"
proof -
  let ?v = "Obj [(''a'', Bool True), (''b'', Bool False)]"
  have "fst (created ?v) = Inr ()" by code_simp
  then have run: "createFromData (boost_codec decimal_to_string no_doubles) (doc_of ?v) (empty_doc, demo_world)
      = (Inr (), (fst (snd (created ?v)), snd (snd (created ?v))))"
    by (simp add: created_def demo_codec_def prod_eq_iff)
  have "user_data (doc_of ?v) = Inr ?v" by code_simp
  from created_record_has_data[OF run demo_clock this] show ?thesis by blast
qed

text \<open>A source that has no \<open>document.data\<close> and exactly one member loses the name of that
  member: only its value is stored.\<close>

theorem single_member_loses_name:
  assumes "createFromData (boost_codec kd qd) (doc_of (Obj [(k, x)])) (d0, w) = (Inr u, (d', w'))" "clock_ok w"
    "k \<noteq> ''document''" "k \<noteq> ''payload''"
  shows "findChildValue (jd_value d') ''document.data'' = Inr x"
proof -
  have "findChildValue (Obj [(k, x)]) ''document.data'' = Inl Notfound_exception"
    using assms(3) by (simp add: find_data_path data_path_def table_count_def)
  then have u: "user_data (doc_of (Obj [(k, x)])) = Inr x"
    using assms(4) by (simp add: user_data_def doc_of_def getPayloadValueForKey_def table_count_def)
  show ?thesis using created_has_data[OF assms(1,2) u] by blast
qed

theorem single_member_loses_name_witness:
  "findChildValue (jd_value (fst (snd (created (Obj [(''a'', Obj [(''b'', Bool True)])]))))) ''document.data''
    = Inr (Obj [(''b'', Bool True)])"
proof -
  let ?v = "Obj [(''a'', Obj [(''b'', Bool True)])]"
  have "fst (created ?v) = Inr ()" by code_simp
  then have run: "createFromData (boost_codec decimal_to_string no_doubles) (doc_of ?v) (empty_doc, demo_world)
      = (Inr (), (fst (snd (created ?v)), snd (snd (created ?v))))"
    by (simp add: created_def demo_codec_def prod_eq_iff)
  show ?thesis by (rule single_member_loses_name[OF run demo_clock]) simp_all
qed

end
