(* ===== verification/FileProvider.thy ===== *)
theory FileProvider
  imports FileStore DocumentBuilder
begin

text \<open>
  The file store as a storage provider: provider\_connection.cpp, provider\_filedb.cpp and
  provider\_filedb\_readwrite.cpp of StorageProviders/FileSystemDB.  The state is the disk and
  the environment (clock and random source).
\<close>

type_synonym ('d, 'a) fdb = "('d \<times> world, 'a) prog"

definition on_files :: "('d, 'a) prog \<Rightarrow> ('d, 'a) fdb" where
  "on_files m = (\<lambda>(d, w). case m d of (r, d') \<Rightarrow> (r, (d', w)))"

definition on_world :: "(world \<Rightarrow> 'a \<times> world) \<Rightarrow> ('d, 'a) fdb" where
  "on_world f = (\<lambda>(d, w). case f w of (x, w') \<Rightarrow> (Inr x, (d, w')))"

text \<open>A builder operation on a document the caller owns.\<close>

definition on_builder :: "'a bld \<Rightarrow> jsondoc \<Rightarrow> ('d, 'a \<times> jsondoc) fdb" where
  "on_builder m doc =
     (\<lambda>(d, w). case m (doc, w) of
        (Inl e, (_, w')) \<Rightarrow> (Inl e, (d, w'))
      | (Inr x, (doc', w')) \<Rightarrow> (Inr (x, doc'), (d, w')))"

text \<open>The provider: its operating system, JSON library, rebuild switch, URI, \<open>uname\<close> text, and
  \<open>to_timepoint\<close> in seconds (the C library's \<open>strptime\<close> and \<open>mktime\<close>).\<close>

record 'd provider =
  pv_files :: "'d files"
  pv_codec :: codec
  pv_rebuild :: bool
  pv_uri :: string
  pv_uname :: string
  pv_timepoint :: "string \<Rightarrow> exn + 64 word"

definition json_pair :: "string \<Rightarrow> string \<Rightarrow> string" where
  "json_pair k v = quoted k @ '':'' @ quoted v"

definition expand :: "'d provider \<Rightarrow> string \<Rightarrow> ('d, string) fdb" where
  "expand pv s = liftE (expand_environment_variables (pv_files pv) s)"

section \<open>The connection\<close>

definition system_metadata :: string where
  "system_metadata = ''SystemMetadata''"

definition make_database_metadata :: "'d provider \<Rightarrow> string \<Rightarrow> string \<Rightarrow> ('d, string) fdb" where
  "make_database_metadata pv name uri =
     thenM (confirm (name \<noteq> [])) (thenM (confirm (uri \<noteq> []))
       (bindM (on_world read_clock) (\<lambda>now.
        bindM (expand pv ''$USER'') (\<lambda>user.
          retM (quoted ''document'' @ '':{'' @ json_pair ''name'' name @ '','' @ json_pair ''uri'' uri @ '','' @
            json_pair ''locale'' ''en_US.UTF-8'' @ '','' @ json_pair ''create_time'' now @ '','' @
            json_pair ''create_user'' user @ '','' @ quoted ''uname'' @ '':'' @ pv_uname pv @ '','' @
            quoted ''database_format'' @ '':3}'')))))"

text \<open>The first connection to a store writes its metadata record.\<close>

definition connection :: "'d provider \<Rightarrow> ('d, string) fdb" where
  "connection pv =
     bindM (expand pv (pv_uri pv @ ''/'' @ system_metadata)) (\<lambda>collection.
     bindM getM (\<lambda>(d, _).
       if f_is_directory (pv_files pv) (strip_uri collection) d then retM (pv_uri pv @ ''/'')
       else
         bindM (on_world generate_oid) (\<lambda>oid.
         bindM (expand pv (pv_uri pv)) (\<lambda>uri.
         bindM (make_database_metadata pv ''artdaq'' uri) (\<lambda>meta.
         bindM (on_files (mkdir (pv_files pv) (strip_uri collection))) (\<lambda>dir.
         bindM (on_files (write_buffer_to_file (pv_files pv)
             (''{'' @ meta @ '','' @ quoted ''_id'' @ '': { '' @ json_pair ''$oid'' oid @ ''}}'') (dir @ ''/'' @ oid @ ''.json'')))
           (\<lambda>_. retM (pv_uri pv @ ''/''))))))))"

definition collection_dir :: "'d provider \<Rightarrow> string \<Rightarrow> ('d, string) fdb" where
  "collection_dir pv name =
     bindM (connection pv) (\<lambda>conn.
     bindM (expand pv (conn @ name)) (\<lambda>collection. on_files (mkdir (pv_files pv) collection)))"

definition index_scope :: "'d provider \<Rightarrow> string \<Rightarrow> (search_index \<times> 'd, 'a) prog \<Rightarrow> ('d, 'a) fdb" where
  "index_scope pv path m = on_files (with_index (pv_files pv) (pv_codec pv) (pv_rebuild pv) path m)"

text \<open>A const member of the index inside its scope.\<close>

definition ask :: "(object_t \<Rightarrow> exn + 'a) \<Rightarrow> (search_index \<times> 'd, 'a) prog" where
  "ask f = (\<lambda>(s, d). (f (si_index s), (s, d)))"

section \<open>Reading and writing documents\<close>

definition or_else :: "'a \<Rightarrow> exn + 'a \<Rightarrow> exn + 'a" where
  "or_else x r = catchE any_exn r (Inr x)"

definition forR :: "'a list \<Rightarrow> ('a \<Rightarrow> ('s, 'b) prog) \<Rightarrow> ('s, 'b list) prog" where
  "forR xs f = foldr (\<lambda>x m. bindM (f x) (\<lambda>y. bindM m (\<lambda>ys. retM (y # ys)))) xs (retM [])"

definition readDocument :: "'d provider \<Rightarrow> jsondoc \<Rightarrow> ('d, jsondoc list) fdb" where
  "readDocument pv arg =
     (let c = pv_codec pv; fs = pv_files pv in
      bindM (liftE (or_else empty_doc (findChildDocument arg ''filter''))) (\<lambda>filt.
      bindM (liftE (or_else [] (value_as_string c filt ''collection''))) (\<lambda>inner.
      bindM (if inner = [] then liftE (value_as_string c arg ''collection'') else retM inner) (\<lambda>name.
      thenM (confirm (name \<noteq> []))
      (bindM (collection_dir pv name) (\<lambda>dir.
       bindM (liftE (doc_text c filt)) (\<lambda>filter_json.
       index_scope pv (f_append fs (f_append fs dir ''/'') search_index_name)
         (bindM (liftE (doc_of_string c filter_json)) (\<lambda>search.
          bindM (ask (findDocumentIDs c search)) (\<lambda>oids.
          forR oids (\<lambda>oid.
            bindM (on_disk (read_buffer_from_file fs (f_replace_extension fs (f_append fs dir oid) ''.json''))) (\<lambda>json.
            liftE (doc_of_string c json)))))))))))))"

definition ouid_invalid :: string where
  "ouid_invalid = replicate 24 (CHR ''0'')"

definition entity_of :: "codec \<Rightarrow> jsondoc \<Rightarrow> exn + string" where
  "entity_of c user =
     bindE (findChildDocument user ''entities'') (\<lambda>entities.
     bindE (value_at c (jd_value entities) 0) (\<lambda>item.
     bindE (doc_of_string c item) (\<lambda>entity. value_as_string c entity ''name'')))"

text \<open>The search for a document with the same version and entity.\<close>

definition duplicate_filter :: "string \<Rightarrow> string \<Rightarrow> string" where
  "duplicate_filter version entity =
     ''{'' @ quoted ''version'' @ '': '' @ quoted version @
     (if entity = [] then [] else '', '' @ quoted ''entities.name'' @ '': '' @ quoted entity) @ ''}''"

definition refuse_duplicate :: "'d provider \<Rightarrow> string \<Rightarrow> jsondoc \<Rightarrow> ('d, unit) fdb" where
  "refuse_duplicate pv dir user =
     (let c = pv_codec pv; fs = pv_files pv in
      catchM (\<lambda>e. any_exn e \<and> e \<noteq> Runtime_error)
        (bindM (liftE (value_as_string c user ''version'')) (\<lambda>version.
         bindM (liftE (or_else [] (entity_of c user))) (\<lambda>entity.
         bindM (index_scope pv (f_append fs dir search_index_name)
             (bindM (liftE (doc_of_string c (duplicate_filter version entity))) (\<lambda>search.
              ask (findDocumentIDs c search)))) (\<lambda>existing.
           if existing \<noteq> [] then throwM Runtime_error else retM ()))))
        (retM ()))"

text \<open>The last scope of \<open>writeDocument\<close>: the old entry leaves the index, the file is written, the
  new entry is added; a failing index update is only reported to the log.\<close>

definition store_text :: "'d provider \<Rightarrow> bool \<Rightarrow> string \<Rightarrow> string \<Rightarrow> string \<Rightarrow> (search_index \<times> 'd, unit) prog" where
  "store_text pv isNew ouid filename json =
     (let c = pv_codec pv; fs = pv_files pv in
      thenM
        (if isNew then retM ()
         else bindM (on_disk (check_if_file_exists fs filename)) (\<lambda>there.
           if \<not> there then retM ()
           else bindM (on_disk (read_buffer_from_file fs filename)) (\<lambda>old.
             if old = [] then retM ()
             else bindM (liftE (doc_of_string c old)) (\<lambda>doc.
                  bindM (on_search (removeDocument c doc ouid)) (\<lambda>_. retM ())))))
      (thenM (on_disk (write_buffer_to_file fs json filename))
      (bindM (liftE (doc_of_string c json)) (\<lambda>doc.
       bindM (on_search (addDocument c doc ouid)) (\<lambda>_. retM ())))))"

definition write_collection :: "codec \<Rightarrow> jsondoc \<Rightarrow> jsondoc \<Rightarrow> jsondoc \<Rightarrow> exn + string" where
  "write_collection c arg user filt =
     bindE (or_else [] (value_as_string c user ''collection'')) (\<lambda>a.
     bindE (if a = [] then or_else [] (value_as_string c filt ''collection'') else Inr a) (\<lambda>b.
     if b = [] then value_as_string c arg ''collection'' else Inr b))"

definition prepare_record :: "codec \<Rightarrow> jsondoc \<Rightarrow> string \<Rightarrow> string \<Rightarrow> unit bld" where
  "prepare_record c user ident name =
     thenM (new_builder user)
     (thenM (bindM (liftE (doc_of_string c ident)) bld_setObjectID)
            (bindM (liftE (bindE (to_json ''collection'' name) (doc_of_string c))) bld_setCollection))"

definition writeDocument :: "'d provider \<Rightarrow> jsondoc \<Rightarrow> ('d, string) fdb" where
  "writeDocument pv arg =
     (let c = pv_codec pv; fs = pv_files pv in
      bindM (liftE (findChildDocument arg ''document'')) (\<lambda>user.
      bindM (liftE (or_else empty_doc (findChildDocument arg ''filter''))) (\<lambda>filt.
      bindM (liftE (write_collection c arg user filt)) (\<lambda>name.
      thenM (confirm (name \<noteq> []))
      (bindM (liftE (or_else (ouid_invalid, True)
          (bindE (bindE (value_as_string c filt ''_id'') extract_oid) (\<lambda>oid. Inr (oid, False))))) (\<lambda>(given, isNew).
       bindM (if given = ouid_invalid then on_world generate_oid else retM given) (\<lambda>oid.
       bindM (liftE (to_id oid)) (\<lambda>ident.
       bindM (on_builder (prepare_record c user ident name) empty_doc) (\<lambda>(_, doc).
       bindM (collection_dir pv name) (\<lambda>dir.
       let filename = dir @ ''/'' @ oid @ ''.json'' in
       thenM
         (if \<not> isNew then retM ()
          else bindM (on_files (check_if_file_exists fs filename)) (\<lambda>there.
            if there then throwM Runtime_error else refuse_duplicate pv dir user))
       (bindM (on_builder (bld_to_string c) doc) (\<lambda>(json, _).
        thenM (index_scope pv (f_append fs (f_parent fs filename) search_index_name)
            (store_text pv isNew oid filename json))
        (retM ident)))))))))))))"

section \<open>Queries\<close>

text \<open>The texts the queries answer with: an operation for the client, with its filter.\<close>

definition search_filter_text :: "(string \<times> string) list \<Rightarrow> string" where
  "search_filter_text ps =
     quoted ''filter'' @ '':{'' @ concat (map (\<lambda>(i, k, v). (if i = 0 then [] else '','') @ json_pair k v) (enumerate 0 ps)) @ ''}''"

definition operation_text :: "string \<Rightarrow> string \<Rightarrow> (string \<times> string) list \<Rightarrow> string" where
  "operation_text collection operation ps =
     ''{'' @ (if collection = [] then [] else json_pair ''collection'' collection @ '','') @
     json_pair ''dbprovider'' ''filesystem'' @ '','' @ json_pair ''dataformat'' ''gui'' @ '','' @
     json_pair ''operation'' operation @ '','' @ search_filter_text ps @ ''}''"

definition collection_names :: "'d provider \<Rightarrow> ('d, string \<times> string list) fdb" where
  "collection_names pv =
     bindM (connection pv) (\<lambda>conn.
     bindM (expand pv conn) (\<lambda>collection.
     bindM (on_files (mkdir (pv_files pv) collection)) (\<lambda>dir.
     bindM (on_files (find_subdirs (pv_files pv) (dir @ ''/''))) (\<lambda>names. retM (dir @ ''/'', names)))))"

definition collection_index :: "'d provider \<Rightarrow> string \<Rightarrow> string \<Rightarrow> string" where
  "collection_index pv dir name = f_append (pv_files pv) (f_append (pv_files pv) dir name) search_index_name"

definition documents_of :: "codec \<Rightarrow> string list \<Rightarrow> ('s, jsondoc list) prog" where
  "documents_of c texts = forR texts (\<lambda>t. liftE (doc_of_string c t))"

text \<open>\<open>findConfigurations\<close>: the assigned times of every configuration of a collection, then the
  configurations with their latest time, latest first and by name among equal times.\<close>

definition assigned_times :: "'d provider \<Rightarrow> string \<Rightarrow> object_t \<Rightarrow> exn + (string \<times> 64 word) list" where
  "assigned_times pv name ix =
     bindE (doc_of_string (pv_codec pv) (''{'' @ quoted ''configurations.name'' @ '':'' @ quoted name @ ''}'')) (\<lambda>search.
     bindE (getConfigurationAssignedTimestamps (pv_codec pv) search ix) (\<lambda>ts.
     mapE (\<lambda>t. bindE (pv_timepoint pv t) (\<lambda>s. Inr (name, s))) ts))"

definition collection_times :: "'d provider \<Rightarrow> jsondoc \<Rightarrow> object_t \<Rightarrow> exn + (string \<times> 64 word) list" where
  "collection_times pv query ix =
     bindE (findAllGlobalConfigurations (pv_codec pv) query ix) (\<lambda>pairs.
     bindE (mapE (\<lambda>p. assigned_times pv (fst p) ix) pairs) (\<lambda>tss. Inr (concat tss)))"

definition latest_first :: "(string \<times> 64 word) list \<Rightarrow> string list" where
  "latest_first ts =
     (let names = remdups_adj (sort (map fst ts));
          latest = (\<lambda>n. fold max (map snd (filter (\<lambda>p. fst p = n) ts)) 0)
      in sort_key (\<lambda>n. - int (unat (latest n))) names)"

definition findConfigurations :: "'d provider \<Rightarrow> jsondoc \<Rightarrow> ('d, jsondoc list) fdb" where
  "findConfigurations pv query =
     thenM (confirm (\<not> doc_empty query))
     (bindM (collection_names pv) (\<lambda>(dir, names).
      bindM (forR names (\<lambda>n. index_scope pv (collection_index pv dir n) (ask (collection_times pv query)))) (\<lambda>tss.
      documents_of (pv_codec pv)
        (map (\<lambda>n. ''{'' @ json_pair ''dbprovider'' ''filesystem'' @ '','' @ json_pair ''dataformat'' ''gui'' @ '','' @
           json_pair ''operation'' ''buildfilter'' @ '','' @ quoted ''filter'' @ '':{'' @
           quoted ''configurations.name'' @ '': '' @ quoted n @ ''}}'') (latest_first (concat tss))))))"

text \<open>\<open>configurationComposition\<close>: of the pairs with the same entity only the first is reported.\<close>

fun composition_loop :: "codec \<Rightarrow> string \<Rightarrow> string list \<Rightarrow> (string \<times> string) list \<Rightarrow> exn + jsondoc list" where
  "composition_loop c collection seen [] = Inr []"
| "composition_loop c collection seen ((conf, entity) # ps) =
     (if entity = [] then Inl Runtime_exception
      else if entity \<in> set seen then composition_loop c collection seen ps
      else
        bindE (doc_of_string c (operation_text collection ''load'' [(''configurations.name'', conf), (''entities.name'', entity)])) (\<lambda>d.
        bindE (composition_loop c collection (seen @ [entity]) ps) (\<lambda>ds. Inr (d # ds))))"

definition configurationComposition :: "'d provider \<Rightarrow> jsondoc \<Rightarrow> ('d, jsondoc list) fdb" where
  "configurationComposition pv query =
     thenM (confirm (\<not> doc_empty query))
     (bindM (collection_names pv) (\<lambda>(dir, names).
      bindM (forR names (\<lambda>n. index_scope pv (collection_index pv dir n)
        (bindM (ask (findAllGlobalConfigurations (pv_codec pv) query)) (\<lambda>pairs.
         liftE (composition_loop (pv_codec pv) n [] pairs)))))
      (\<lambda>docs. retM (concat docs))))"

definition found_version :: "string \<Rightarrow> string \<Rightarrow> string \<Rightarrow> string" where
  "found_version collection version entity =
     operation_text collection ''load'' [(''version'', version), (''entities.name'', entity)]"

definition findVersions :: "'d provider \<Rightarrow> jsondoc \<Rightarrow> ('d, jsondoc list) fdb" where
  "findVersions pv query =
     (let c = pv_codec pv; fs = pv_files pv in
      thenM (confirm (\<not> doc_empty query))
      (bindM (liftE (value_as_string c query ''collection'')) (\<lambda>collection.
       bindM (liftE (value_as_string c query ''filter'')) (\<lambda>payload.
       bindM (collection_dir pv collection) (\<lambda>dir.
       index_scope pv (f_append fs (dir @ ''/'') search_index_name)
         (bindM (liftE (c_read c payload)) (\<lambda>r. case r of
            None \<Rightarrow> retM []
          | Some ast \<Rightarrow>
              bindM (liftE (doc_of_string c payload)) (\<lambda>search.
              if table_count ''configurations.name'' ast = 0 then
                bindM (ask (findVersionsByEntityName c search)) (\<lambda>pairs.
                documents_of c (map (\<lambda>p. found_version collection (snd p) (fst p)) pairs))
              else
                bindM (ask (findVersionsByGlobalConfigName c search)) (\<lambda>pairs.
                documents_of c (map (\<lambda>p. found_version collection (snd p)
                  (criterion ''entities.name'' ''notprovided'' ast)) pairs))))))))))"

definition provider_findEntities :: "'d provider \<Rightarrow> jsondoc \<Rightarrow> ('d, jsondoc list) fdb" where
  "provider_findEntities pv query =
     thenM (confirm (\<not> doc_empty query))
     (bindM (liftE (value_as_string (pv_codec pv) query ''filter'')) (\<lambda>payload.
      bindM (collection_names pv) (\<lambda>(dir, names).
      bindM (forR names (\<lambda>n. index_scope pv (collection_index pv dir n)
        (bindM (liftE (doc_of_string (pv_codec pv) payload)) (\<lambda>search.
         bindM (ask (SearchIndex.findEntities (pv_codec pv) search)) (\<lambda>found.
         documents_of (pv_codec pv)
           (map (\<lambda>e. operation_text n ''findversions'' [(''entities.name'', e)])
              (if length found > 1 then remdups_adj (sort found) else found))))))) (\<lambda>docs. retM (concat docs)))))"

definition listCollections :: "'d provider \<Rightarrow> jsondoc \<Rightarrow> ('d, jsondoc list) fdb" where
  "listCollections pv query =
     thenM (confirm (\<not> doc_empty query))
     (bindM (collection_names pv) (\<lambda>(dir, names).
      documents_of (pv_codec pv)
        (map (\<lambda>n. ''{'' @ json_pair ''collection'' n @ '','' @ json_pair ''dbprovider'' ''filesystem'' @ '','' @
            json_pair ''dataformat'' ''gui'' @ '','' @ json_pair ''operation'' ''findversions'' @ '','' @
            quoted ''filter'' @ '':{ }}'')
          (filter (\<lambda>n. n \<noteq> ''system.indexes'' \<and> n \<noteq> system_metadata) names))))"

definition provider_addConfiguration :: "'d provider \<Rightarrow> jsondoc \<Rightarrow> ('d, jsondoc list) fdb" where
  "provider_addConfiguration pv query = thenM (confirm (\<not> doc_empty query)) (retM [])"

text \<open>\<open>find_last_not_of\<close> with the set of backslash and slash: trailing ones are cut off, unless the
  text consists of nothing else.\<close>

definition cut_slashes :: "string \<Rightarrow> string" where
  "cut_slashes s =
     (let cut = rev (dropWhile (\<lambda>c. c = CHR ''/'' \<or> c = CHR 0x5C) (rev s)) in if cut = [] then s else cut)"

definition listDatabases :: "'d provider \<Rightarrow> jsondoc \<Rightarrow> ('d, jsondoc list) fdb" where
  "listDatabases pv query =
     thenM (confirm (\<not> doc_empty query))
     (bindM (connection pv) (\<lambda>conn.
      bindM (on_files (find_siblingdirs (pv_files pv) (cut_slashes conn))) (\<lambda>names.
      documents_of (pv_codec pv)
        (map (\<lambda>n. ''{'' @ json_pair ''database'' n @ '','' @ json_pair ''dbprovider'' ''filesystem'' @ '','' @
            json_pair ''dataformat'' ''gui'' @ '','' @ quoted ''filter'' @ '':{ }}'')
          (filter (\<lambda>n. n \<noteq> ''system'') names)))))"

definition databaseMetadata :: "'d provider \<Rightarrow> jsondoc \<Rightarrow> ('d, jsondoc list) fdb" where
  "databaseMetadata pv query =
     (let fs = pv_files pv in
      thenM (confirm (\<not> doc_empty query))
      (bindM (connection pv) (\<lambda>conn.
       bindM (expand pv (conn @ system_metadata)) (\<lambda>expanded.
       let collection = strip_uri expanded in
       bindM (on_files (find_documents fs collection)) (\<lambda>ids.
       forR ids (\<lambda>i.
         bindM (on_files (read_buffer_from_file fs (f_replace_extension fs (f_append fs collection i) ''.json''))) (\<lambda>json.
         liftE (doc_of_string (pv_codec pv) json))))))))"

definition searchCollection :: "'d provider \<Rightarrow> jsondoc \<Rightarrow> ('d, jsondoc list) fdb" where
  "searchCollection pv query = thenM (confirm (\<not> doc_empty query)) (throwM Runtime_error)"

end
