(* ===== verification/ProviderLaws.thy ===== *)
theory ProviderLaws
  imports FileProvider
begin

text \<open>
  What the file store promises: texts the reader can read back stay readable while documents
  enter and leave an index, a stored document is found again, and what the duplicate check of
  \<open>writeDocument\<close> really refuses.
\<close>

section \<open>Indexes stay printable\<close>

definition printed_index :: "object_t \<Rightarrow> bool" where
  "printed_index ix \<longleftrightarrow> printable (Obj ix)"

abbreviation keeps_printed :: "'a si \<Rightarrow> bool" where
  "keeps_printed \<equiv> stays_in (\<lambda>ix ix'. printed_index ix \<longrightarrow> printed_index ix')"

interpretation printed: run_relation "\<lambda>ix ix'. printed_index ix \<longrightarrow> printed_index ix'"
  by unfold_locales blast+

context run_relation
begin

lemma bound_lift: "(\<And>y. r = Inr y \<Longrightarrow> stays_in R (f y)) \<Longrightarrow> stays_in R (bindM (liftE r) f)"
  by (cases r) (auto simp: stays_in_def bindM_run liftE_run refl)

end

lemma printable_strings: "printable (Arr (map Str ss)) \<longleftrightarrow> list_all text_ok ss"
  by (simp add: list_all_iff)

lemma slot_printed:
  assumes "\<And>v. printable v \<Longrightarrow> printable (snd (m v))"
  shows "keeps_printed (slot k m)"
  unfolding stays_in_def printed_index_def
proof (intro allI impI)
  fix ps
  assume p: "printable (Obj ps)"
  show "printable (Obj (snd (slot k m ps)))"
  proof (cases "map_of ps k")
    case None
    then show ?thesis using p by (simp add: slot_def table_at_map_of)
  next
    case (Some v)
    then show ?thesis using printable_put_first[OF p] assms[OF printable_map_of[OF Some p]] by (simp add: slot_run del: printable.simps)
  qed
qed

lemma subscript_printed:
  assumes "\<And>v. printable v \<Longrightarrow> printable (snd (m v))" "text_ok k"
  shows "keeps_printed (subscript k m)"
  unfolding stays_in_def printed_index_def
proof (intro allI impI)
  fix ps
  assume p: "printable (Obj ps)"
  show "printable (Obj (snd (subscript k m ps)))"
  proof (cases "map_of ps k")
    case None
    then show ?thesis using p assms(1)[of "Bool False"] assms(2) by (simp add: subscript_run)
  next
    case (Some v)
    then show ?thesis using printable_put_first[OF p] assms(1)[OF printable_map_of[OF Some p]]
      by (simp add: subscript_run del: printable.simps)
  qed
qed

lemma as_object_printed:
  assumes "keeps_printed m" "printable v"
  shows "printable (snd (as_object m v))"
proof (cases "get_object v")
  case (Inl e)
  then show ?thesis using assms(2) by (simp add: as_object_def)
next
  case (Inr ps)
  then have v: "v = Obj ps" by (cases v) auto
  then have "printable (Obj (snd (m ps)))" using assms by (simp add: stays_in_def printed_index_def del: printable.simps)
  then show ?thesis by (simp add: v as_object_def split_beta del: printable.simps)
qed

lemma insert_sorted_printed:
  assumes "list_all printable vs" "text_ok x"
  shows "list_all printable (snd (insert_sorted x vs))"
proof -
  have "list_all printable (snd (make_unique_sorted us))" if "list_all printable us" for us
    using that by (auto simp: make_unique_sorted_def mapE_get_string list_all_iff split: sum.splits)
  from this[of "vs @ [Str x]"] show ?thesis using assms by (simp add: insert_sorted_def thenM_run push_back_def)
qed

lemma as_array_printed:
  assumes "\<And>vs. list_all printable vs \<Longrightarrow> list_all printable (snd (m vs))" "printable v"
  shows "printable (snd (as_array m v))"
  using assms by (cases v) (auto simp: as_array_def split_beta)

lemma add_to_entry_printed: "text_ok x \<Longrightarrow> printable v \<Longrightarrow> printable (snd (add_to_entry x v))"
  unfolding add_to_entry_def by (rule as_array_printed[OF insert_sorted_printed]) (auto split: value_t.splits)

lemma filter_out_printed: "printable v \<Longrightarrow> printable (snd (as_array (filter_out x) v))"
  by (cases v) (auto simp: as_array_def filter_out_def mapE_get_string list_all_iff split: sum.splits)

lemma insert_id_printed: "text_ok x \<Longrightarrow> printable v \<Longrightarrow> printable (snd (as_array (insert_sorted x) v))"
  by (rule as_array_printed[OF insert_sorted_printed])

lemma posting_printed:
  "text_ok x \<Longrightarrow> text_ok key \<Longrightarrow> keeps_printed (add_posting attr x key)"
  "keeps_printed (remove_posting attr x key)"
  "text_ok x \<Longrightarrow> keeps_printed (idx_addId x)"
  "keeps_printed (idx_removeId x)"
  unfolding add_posting_def remove_posting_def idx_addId_def idx_removeId_def
  by (intro printed.combined slot_printed as_object_printed subscript_printed add_to_entry_printed filter_out_printed
      insert_id_printed; assumption)+

text \<open>The strings a printable table holds are texts the reader takes back.\<close>

lemma bindE_InrE:
  assumes "bindE r f = Inr y"
  obtains x where "r = Inr x" "f x = Inr y"
  using assms by (cases r) auto

lemma table_at_printed: "table_at k ps = Inr v \<Longrightarrow> printable (Obj ps) \<Longrightarrow> printable v"
  by (rule printable_map_of) (simp_all add: table_at_map_of split: option.splits)

lemma member_printed:
  assumes "bindE (get_object u) (table_at k) = Inr v" "printable u"
  shows "printable v"
proof -
  obtain ps where "get_object u = Inr ps" "table_at k ps = Inr v" using assms(1) by (rule bindE_InrE)
  then show ?thesis using assms(2) by (cases u) (simp_all add: table_at_printed del: printable.simps)
qed

lemma get_string_printed: "get_string v = Inr s \<Longrightarrow> printable v \<Longrightarrow> text_ok s"
  by (cases v) auto

lemma get_array_printed: "get_array v = Inr vs \<Longrightarrow> printable v \<Longrightarrow> u \<in> set vs \<Longrightarrow> printable u"
  by (cases v) (auto simp: list_all_iff)

lemma string_member_printed:
  assumes "string_member k v = Inr s" "printable v"
  shows "text_ok s"
proof -
  obtain u where u: "bindE (get_object v) (table_at k) = Inr u" "get_string u = Inr s"
    using assms(1) unfolding string_member_def by (rule bindE_InrE)
  show ?thesis by (rule get_string_printed[OF u(2) member_printed[OF u(1) assms(2)]])
qed

lemma array_member_printed:
  assumes "array_member k ps = Inr vs" "printable (Obj ps)" "v \<in> set vs"
  shows "printable v"
proof -
  obtain u where u: "table_at k ps = Inr u" "get_array u = Inr vs"
    using assms(1) unfolding array_member_def by (rule bindE_InrE)
  show ?thesis by (rule get_array_printed[OF u(2) table_at_printed[OF u(1) assms(2)] assms(3)])
qed

lemma active_aliases_printed:
  assumes "active_aliases ps = Inr vs" "printable (Obj ps)" "v \<in> set vs"
  shows "printable v"
proof -
  obtain qs where qs: "bindE (table_at ''aliases'' ps) get_object = Inr qs" "array_member ''active'' qs = Inr vs"
    using assms(1) unfolding active_aliases_def by (rule bindE_InrE)
  obtain u where u: "table_at ''aliases'' ps = Inr u" "get_object u = Inr qs" using qs(1) by (rule bindE_InrE)
  have "u = Obj qs" using u(2) by (cases u) simp_all
  then have "printable (Obj qs)" using table_at_printed[OF u(1) assms(2)] by simp
  then show ?thesis using array_member_printed[OF qs(2) _ assms(3)] by blast
qed

lemma entries_printed:
  assumes "\<And>key. text_ok key \<Longrightarrow> keeps_printed (f key)" "\<And>v. v \<in> set vs \<Longrightarrow> printable v"
  shows "keeps_printed (idx_entries f vs)"
  unfolding idx_entries_def
  by (intro printed.iterated printed.bound_lift assms(1)) (use string_member_printed assms(2) in blast)

lemma configurations_printed:
  assumes "\<And>key. text_ok key \<Longrightarrow> keeps_printed (f key)"
    and "\<And>t key. text_ok t \<Longrightarrow> text_ok key \<Longrightarrow> keeps_printed (g t key)" "\<And>v. v \<in> set vs \<Longrightarrow> printable v"
  shows "keeps_printed (idx_configurations f g vs)"
  unfolding idx_configurations_def
  by (intro printed.iterated printed.bound_lift printed.sequenced assms(1,2)) (use string_member_printed assms(3) in blast)+

lemma version_printed: "bindE (table_at k ast) get_string = Inr s \<Longrightarrow> printable (Obj ast) \<Longrightarrow> text_ok s"
  using string_member_printed[of k "Obj ast" s] by (simp add: string_member_def)

lemmas adder_defs = idx_addVersion_def idx_addConfiguration_def idx_addConfigurationAssigned_def idx_addEntity_def
  idx_addVersionAlias_def idx_addRun_def idx_removeVersion_def idx_removeConfiguration_def
  idx_removeConfigurationAssigned_def idx_removeRun_def

lemma add_ast_printed:
  assumes "printable (Obj ast)" "text_ok x"
  shows "keeps_printed (add_ast ast x)"
proof -
  note members = array_member_printed[OF _ assms(1)] active_aliases_printed[OF _ assms(1)] version_printed[OF _ assms(1)]
  have e: "keeps_printed (add_entities ast x)" unfolding add_entities_def adder_defs
    by (intro printed.caught printed.lifted printed.bound_lift entries_printed posting_printed assms(2)) (use members in blast)+
  have a: "keeps_printed (add_aliases ast x)" unfolding add_aliases_def adder_defs
    by (intro printed.caught printed.lifted printed.bound_lift entries_printed posting_printed assms(2)) (use members in blast)+
  have r: "keeps_printed (add_runs ast x)" unfolding add_runs_def adder_defs
    by (intro printed.caught printed.lifted printed.bound_lift entries_printed posting_printed assms(2)) (use members in blast)+
  show ?thesis unfolding add_ast_def seqM.simps adder_defs
    by (intro printed.sequenced printed.lifted printed.bound_lift configurations_printed posting_printed assms(2) e a r)
      (use members in blast)+
qed

lemma remove_ast_printed: "keeps_printed (remove_ast ast x)"
proof -
  note steps = printed.sequenced printed.lifted printed.bound printed.iterated posting_printed
  show ?thesis unfolding remove_ast_def seqM.simps adder_defs idx_configurations_def idx_entries_def
    by (intro steps)
qed

lemma index_document_fields:
  assumes "reads c d ast" "x \<noteq> []" "index_document update c d x s = (r, s')"
  shows "si_index s' = snd (update ast x (si_index s)) \<and> si_dirty s' \<and> si_open s' = si_open s"
  using assms
  by (auto simp: index_document_def reads_def doc_empty_def thenM_run bindM_run confirm_run liftE_run catchM_run
      set_dirty_def on_index_def retM_run split_beta split: sum.splits if_splits prod.splits)

lemma addDocument_printed:
  assumes "reads c d ast" "x \<noteq> []" "addDocument c d x s = (r, s')" "printable (Obj ast)" "text_ok x"
    and "printed_index (si_index s)"
  shows "printed_index (si_index s')"
  using add_ast_printed[OF assms(4,5)] index_document_fields[OF assms(1,2), of add_ast s r s'] assms(3,6)
  by (simp add: addDocument_def stays_in_def)

lemma removeDocument_printed:
  assumes "reads c d ast" "x \<noteq> []" "removeDocument c d x s = (r, s')" "printed_index (si_index s)"
  shows "printed_index (si_index s')"
  using remove_ast_printed[of ast x] index_document_fields[OF assms(1,2), of remove_ast s r s'] assms(3,4)
  by (simp add: removeDocument_def stays_in_def)

section \<open>A stored document is found\<close>

text \<open>A text the store can index: it is read as a document that states the facts \<open>f\<close>.\<close>

definition storable :: "codec \<Rightarrow> string \<Rightarrow> facts \<Rightarrow> bool" where
  "storable c t f \<longleftrightarrow>
     (case doc_of_string c t of Inl _ \<Rightarrow> False | Inr doc \<Rightarrow>
       (case bindE (doc_text c doc) (c_read c) of Inr (Some ast) \<Rightarrow> describes f ast \<and> printable (Obj ast) | _ \<Rightarrow> False))"

lemma storableE:
  assumes "storable c t f"
  obtains doc ast where "doc_of_string c t = Inr doc" "reads c doc ast" "describes f ast" "printable (Obj ast)"
  using assms unfolding storable_def reads_def by (auto split: option.splits sum.splits)

text \<open>The state of an open index whose postings are a given map.\<close>

definition serves :: "search_index \<Rightarrow> string set \<times> (string \<Rightarrow> string \<Rightarrow> string set) \<Rightarrow> bool" where
  "serves s m \<longleftrightarrow> wf_index (si_index s) \<and> printed_index (si_index s) \<and> meaning (si_index s) = m"

lemma add_text_run:
  assumes "storable c t f" "serves s m" "x \<noteq> []" "text_ok x"
  shows "\<exists>doc s'. doc_of_string c t = Inr doc \<and> addDocument c doc x s = (Inr True, s') \<and>
    serves s' (with_document f x m) \<and> si_dirty s' \<and> si_open s' = si_open s"
proof -
  obtain doc ast where d: "doc_of_string c t = Inr doc" "reads c doc ast" "describes f ast" "printable (Obj ast)"
    using assms(1) by (rule storableE)
  have s: "wf_index (si_index s)" "printed_index (si_index s)" "meaning (si_index s) = m"
    using assms(2) by (simp_all add: serves_def)
  obtain s' where s': "addDocument c doc x s = (Inr True, s')" "wf_index (si_index s')"
      "meaning (si_index s') = with_document f x m"
    using addDocument_run[OF s(1) d(2,3) assms(3)] s(3) by blast
  have "printed_index (si_index s')" by (rule addDocument_printed[OF d(2) assms(3) s'(1) d(4) assms(4) s(2)])
  moreover have "si_dirty s' \<and> si_open s' = si_open s"
    using index_document_fields[OF d(2) assms(3)] s'(1) by (auto simp: addDocument_def)
  ultimately show ?thesis using d(1) s' by (intro exI[of _ doc] exI[of _ s']) (simp add: serves_def)
qed

lemma remove_text_run:
  assumes "storable c t f" "serves s m" "x \<noteq> []"
  shows "\<exists>doc s'. doc_of_string c t = Inr doc \<and> removeDocument c doc x s = (Inr True, s') \<and>
    serves s' (without_document f x m) \<and> si_open s' = si_open s"
proof -
  obtain doc ast where d: "doc_of_string c t = Inr doc" "reads c doc ast" "describes f ast" "printable (Obj ast)"
    using assms(1) by (rule storableE)
  have s: "wf_index (si_index s)" "printed_index (si_index s)" "meaning (si_index s) = m"
    using assms(2) by (simp_all add: serves_def)
  obtain s' where s': "removeDocument c doc x s = (Inr True, s')" "wf_index (si_index s')"
      "meaning (si_index s') = without_document f x m"
    using removeDocument_run[OF s(1) d(2,3) assms(3)] s(3) by blast
  have "printed_index (si_index s')" by (rule removeDocument_printed[OF d(2) assms(3) s'(1) s(2)])
  moreover have "si_open s' = si_open s"
    using index_document_fields[OF d(2) assms(3)] s'(1) by (auto simp: removeDocument_def)
  ultimately show ?thesis using d(1) s' by (intro exI[of _ doc] exI[of _ s']) (simp add: serves_def)
qed

text \<open>A path whose file holds the text of an index with the postings \<open>m\<close>.\<close>

definition indexed :: "'d files \<Rightarrow> codec \<Rightarrow> 'd \<Rightarrow> string \<Rightarrow> string set \<times> (string \<Rightarrow> string \<Rightarrow> string set) \<Rightarrow> bool" where
  "indexed fs c d path m \<longleftrightarrow>
     (case f_read fs path d of None \<Rightarrow> False | Some t \<Rightarrow>
       (case c_read c t of Inr (Some ix) \<Rightarrow> serves (closed_index\<lparr>si_index := ix\<rparr>) m | _ \<Rightarrow> False))"

definition writable :: "'d files \<Rightarrow> bool" where
  "writable fs \<longleftrightarrow> (\<forall>p t d. f_write fs p t d \<noteq> None)"

lemma indexedE:
  assumes "indexed fs c d path m"
  obtains t ix where "f_read fs path d = Some t" "c_read c t = Inr (Some ix)" "serves (closed_index\<lparr>si_index := ix\<rparr>) m"
  using assms unfolding indexed_def by (auto split: option.splits sum.splits)

lemma serves_cong: "si_index s = si_index s' \<Longrightarrow> serves s m \<longleftrightarrow> serves s' m"
  by (simp add: serves_def)

lemma open_indexed:
  assumes "file_laws fs" "path \<noteq> []" "indexed fs c d path m"
  shows "\<exists>s. idx_open fs c auto 2 path (closed_index, d) = (Inr True, (s, d)) \<and> serves s m \<and> \<not> si_dirty s"
proof (rule indexedE[OF assms(3)])
  fix t ix
  assume i: "f_read fs path d = Some t" "c_read c t = Inr (Some ix)" "serves (closed_index\<lparr>si_index := ix\<rparr>) m"
  have "si_index closed_index = []" by (simp add: closed_index_def)
  from idx_open_run[OF assms(1,2) i(1,2) this, of auto "Suc 0"] i(3) show ?thesis
    by (intro exI[of _ "closed_index\<lparr>si_index := ix\<rparr>"]) (simp add: numeral_2_eq_2 closed_index_def del: idx_open.simps)
qed

text \<open>A scope that only reads the index leaves the disk alone.\<close>

lemma scope_reads:
  assumes "file_laws fs" "path \<noteq> []" "indexed fs c d path m"
    and "\<And>s. serves s m \<Longrightarrow> f (si_index s) = r"
  shows "with_index fs c auto path (ask f) d = (r, d)"
proof -
  obtain s where s: "idx_open fs c auto 2 path (closed_index, d) = (Inr True, (s, d))" "serves s m" "\<not> si_dirty s"
    using open_indexed[OF assms(1-3)] by blast
  then show ?thesis using assms(4)[OF s(2)]
    by (simp add: with_index_def closed_index_def ask_def idx_close_def bindM_run getM_run retM_run del: idx_open.simps)
qed

text \<open>A scope that updates the index leaves its text on the disk.\<close>

lemma scope_writes:
  assumes "file_laws fs" "writable fs" "path \<noteq> []" "indexed fs (boost_codec kd qd) d path m" "refuses_other qd"
    and body: "\<And>s. serves s m \<Longrightarrow> si_open s \<Longrightarrow> \<exists>s' d'. body (s, d) = (Inr x, (s', d')) \<and> serves s' m' \<and> si_dirty s' \<and> si_open s' \<and>
      f_read fs p d' = Some t \<and> (\<forall>q. q \<noteq> p \<longrightarrow> f_read fs q d' = f_read fs q d)"
    and "p \<noteq> path"
  shows "\<exists>d'. with_index fs (boost_codec kd qd) auto path body d = (Inr x, d') \<and>
    indexed fs (boost_codec kd qd) d' path m' \<and> f_read fs p d' = Some t \<and>
    (\<forall>q. q \<noteq> p \<and> q \<noteq> path \<longrightarrow> f_read fs q d' = f_read fs q d)"
proof -
  let ?c = "boost_codec kd qd"
  obtain s where s: "idx_open fs ?c auto 2 path (closed_index, d) = (Inr True, (s, d))" "serves s m"
    using open_indexed[OF assms(1,3,4)] by blast
  have open_s: "serves (s\<lparr>si_open := True\<rparr>) m" "si_open (s\<lparr>si_open := True\<rparr>)"
    using s(2) serves_cong[of "s\<lparr>si_open := True\<rparr>" s m] by simp_all
  obtain s1 d1 where b: "body (s\<lparr>si_open := True\<rparr>, d) = (Inr x, (s1, d1))" "serves s1 m'" "si_dirty s1" "si_open s1"
      "f_read fs p d1 = Some t" "\<forall>q. q \<noteq> p \<longrightarrow> f_read fs q d1 = f_read fs q d"
    using body[OF open_s] by blast
  have ok: "boost_ok qd (si_index s1)" using b(2) assms(5) by (simp add: serves_def boost_ok_def printed_index_def del: printable.simps)
  have "si_index s1 \<noteq> []" using b(2) by (auto simp: serves_def wf_index_def)
  then obtain u where u: "c_write ?c (si_index s1) = Inr u" using boost.write_ok[OF ok] by blast
  obtain d2 where d2: "f_write fs path u d1 = Some d2" using assms(2) unfolding writable_def by blast
  have "c_read ?c u = Inr (Some (si_index s1))" using boost.read_write[OF ok u] by blast
  moreover note w = file_lawsD(1)[OF assms(1) d2]
  ultimately have "indexed fs ?c d2 path m'"
    using b(2) serves_cong[of "closed_index\<lparr>si_index := si_index s1\<rparr>" s1 m'] by (simp add: indexed_def)
  moreover have "with_index fs ?c auto path body d = (Inr x, d2)"
    using s(1) b(1) idx_close_run[OF assms(3) b(4,3) u d2] by (simp add: with_index_def closed_index_def del: idx_open.simps)
  ultimately show ?thesis using w b(5,6) assms(7) by (intro exI[of _ d2]) auto
qed

lemma one_criterion:
  assumes "serves s m" "reads c search [(k, Str x)]" "k \<in> set search_keys" "x \<noteq> []"
  shows "findDocumentIDs c search (si_index s) = Inr (sorted_list_of_set (snd m k x))"
proof -
  let ?L = "sorted_list_of_set (having (si_index s) k x)"
  have wf: "wf_index (si_index s)" "having (si_index s) k x = snd m k x"
    using assms(1) by (auto simp: serves_def meaning_def)
  have "collect_matches c (si_index s) [(k, Str x)] 0 [] = Inr (1, ?L)"
    using collect_matches_run[OF wf(1), of "[(k, x)]" c 0 "[]"] assms(3,4) by simp
  moreover have "select_ids 1 ?L = ?L"
    using sorted_remdups_adj_sort[of ?L] by (simp add: select_ids_def sorted_list_of_set.idem_if_sorted_distinct)
  ultimately show ?thesis using assms(2) wf(2) by (simp add: findDocumentIDs_def reads_def doc_empty_def)
qed

lemma store_new_run:
  assumes "file_laws (pv_files pv)" "writable (pv_files pv)" "storable (pv_codec pv) t f" "serves s m" "si_open s" "x \<noteq> []"
    and "text_ok x" "p \<noteq> []" "isNew \<or> f_read (pv_files pv) p d = None"
  shows "\<exists>s' d'. store_text pv isNew x p t (s, d) = (Inr (), (s', d')) \<and> serves s' (with_document f x m) \<and> si_dirty s' \<and>
    si_open s' \<and> f_read (pv_files pv) p d' = Some t \<and>
    (\<forall>q. q \<noteq> p \<longrightarrow> f_read (pv_files pv) q d' = f_read (pv_files pv) q d)"
proof -
  obtain doc s' where a: "doc_of_string (pv_codec pv) t = Inr doc" "addDocument (pv_codec pv) doc x s = (Inr True, s')"
      "serves s' (with_document f x m)" "si_dirty s'" "si_open s' = si_open s"
    using add_text_run[OF assms(3,4,6,7)] by blast
  obtain d' where d': "f_write (pv_files pv) p t d = Some d'" using assms(2) unfolding writable_def by blast
  have old: "(if isNew then retM () else bindM (on_disk (check_if_file_exists (pv_files pv) p)) (\<lambda>there.
      if \<not> there then retM () else F)) (s, d) = (Inr (), (s, d))" for F
    using assms(8,9) by (auto simp: bindM_run retM_run on_disk_def check_if_file_exists_def)
  have "store_text pv isNew x p t (s, d) = (Inr (), (s', d'))"
    unfolding store_text_def Let_def using a(1,2) write_buffer_run[OF assms(8) d']
    by (simp add: thenM_run old) (simp add: thenM_run bindM_run retM_run on_disk_def on_search_def liftE_run)
  then show ?thesis using a assms(5,8,9) file_lawsD(1)[OF assms(1) d'] by (intro exI[of _ s'] exI[of _ d']) simp
qed

lemma store_over_run:
  assumes "file_laws (pv_files pv)" "writable (pv_files pv)" "storable (pv_codec pv) t f" "serves s m" "si_open s" "x \<noteq> []"
    and "text_ok x" "p \<noteq> []" "f_read (pv_files pv) p d = Some old" "old \<noteq> []" "storable (pv_codec pv) old g"
  shows "\<exists>s' d'. store_text pv False x p t (s, d) = (Inr (), (s', d')) \<and>
    serves s' (with_document f x (without_document g x m)) \<and> si_dirty s' \<and>
    si_open s' \<and> f_read (pv_files pv) p d' = Some t \<and>
    (\<forall>q. q \<noteq> p \<longrightarrow> f_read (pv_files pv) q d' = f_read (pv_files pv) q d)"
proof -
  obtain gdoc s1 where r: "doc_of_string (pv_codec pv) old = Inr gdoc" "removeDocument (pv_codec pv) gdoc x s = (Inr True, s1)"
      "serves s1 (without_document g x m)" "si_open s1 = si_open s"
    using remove_text_run[OF assms(11,4,6)] by blast
  obtain doc s' where a: "doc_of_string (pv_codec pv) t = Inr doc" "addDocument (pv_codec pv) doc x s1 = (Inr True, s')"
      "serves s' (with_document f x (without_document g x m))" "si_dirty s'" "si_open s' = si_open s1"
    using add_text_run[OF assms(3) r(3) assms(6,7)] by blast
  obtain d' where d': "f_write (pv_files pv) p t d = Some d'" using assms(2) unfolding writable_def by blast
  have "store_text pv False x p t (s, d) = (Inr (), (s', d'))"
    using a(1,2) r(1,2) write_buffer_run[OF assms(8) d'] read_buffer_run[OF assms(8,9)] assms(8-10)
    by (simp add: store_text_def Let_def thenM_run bindM_run retM_run on_disk_def on_search_def liftE_run
        check_if_file_exists_def)
  then show ?thesis using a(3-5) r(4) assms(5) file_lawsD(1)[OF assms(1) d'] by (intro exI[of _ s'] exI[of _ d']) simp
qed

lemma scope_run: "index_scope pv path m (d, w) =
    (case with_index (pv_files pv) (pv_codec pv) (pv_rebuild pv) path m d of (r, d') \<Rightarrow> (r, (d', w)))"
  by (simp add: index_scope_def on_files_def)

text \<open>The store as it is between two operations: a collection whose index has the postings \<open>m\<close>.\<close>

definition collection_has :: "'d provider \<Rightarrow> 'd \<Rightarrow> string \<Rightarrow> string set \<times> (string \<Rightarrow> string \<Rightarrow> string set) \<Rightarrow> bool" where
  "collection_has pv d path m \<longleftrightarrow> path \<noteq> [] \<and> indexed (pv_files pv) (pv_codec pv) d path m"

text \<open>A provider on an operating system that works, with the JSON library of the repository.\<close>

definition working :: "(64 word \<Rightarrow> string) \<Rightarrow> (string \<Rightarrow> (64 word \<times> string) option) \<Rightarrow> 'd provider \<Rightarrow> bool" where
  "working kd qd pv \<longleftrightarrow> file_laws (pv_files pv) \<and> writable (pv_files pv) \<and> pv_codec pv = boost_codec kd qd \<and> refuses_other qd"

lemma search_in_scope:
  assumes "working kd qd pv" "collection_has pv d path m"
    and "reads (pv_codec pv) search [(k, Str s)]" "k \<in> set search_keys" "s \<noteq> []"
  shows "index_scope pv path (ask (findDocumentIDs (pv_codec pv) search)) (d, w) =
    (Inr (sorted_list_of_set (snd m k s)), (d, w))"
proof -
  have "with_index (pv_files pv) (pv_codec pv) (pv_rebuild pv) path (ask (findDocumentIDs (pv_codec pv) search)) d =
      (Inr (sorted_list_of_set (snd m k s)), d)"
    by (rule scope_reads[where m = m]) (use assms in \<open>simp_all add: working_def collection_has_def one_criterion\<close>)
  then show ?thesis by (simp add: scope_run)
qed

lemma store_in_scope:
  assumes "working kd qd pv" "collection_has pv d path m" "p \<noteq> path"
    and "\<And>s. serves s m \<Longrightarrow> si_open s \<Longrightarrow> \<exists>s' d'. body (s, d) = (Inr (), (s', d')) \<and> serves s' m' \<and> si_dirty s' \<and> si_open s' \<and>
      f_read (pv_files pv) p d' = Some t \<and> (\<forall>q. q \<noteq> p \<longrightarrow> f_read (pv_files pv) q d' = f_read (pv_files pv) q d)"
  shows "\<exists>d'. index_scope pv path body (d, w) = (Inr (), (d', w)) \<and> collection_has pv d' path m' \<and>
    f_read (pv_files pv) p d' = Some t \<and>
    (\<forall>q. q \<noteq> p \<and> q \<noteq> path \<longrightarrow> f_read (pv_files pv) q d' = f_read (pv_files pv) q d)"
proof -
  have pv: "file_laws (pv_files pv)" "writable (pv_files pv)" "pv_codec pv = boost_codec kd qd" "refuses_other qd"
    "path \<noteq> []" "indexed (pv_files pv) (boost_codec kd qd) d path m"
    using assms(1,2) by (simp_all add: working_def collection_has_def)
  obtain d' where "with_index (pv_files pv) (boost_codec kd qd) (pv_rebuild pv) path body d = (Inr (), d')"
    "indexed (pv_files pv) (boost_codec kd qd) d' path m'" "f_read (pv_files pv) p d' = Some t"
    "\<forall>q. q \<noteq> p \<and> q \<noteq> path \<longrightarrow> f_read (pv_files pv) q d' = f_read (pv_files pv) q d"
    using scope_writes[where body = body and m = m and m' = m' and p = p and t = t and x = "()" and kd = kd and
        auto = "pv_rebuild pv", OF pv(1,2,5,6,4) assms(4,3)] by blast
  then show ?thesis using pv(3,5) by (intro exI[of _ d']) (simp add: scope_run collection_has_def)
qed

text \<open>C18.  A document with a fresh identifier that is stored in a collection is found there: its
  file holds its text, no other file but the index changes, and every search by one string
  answers with the documents it had before and the new one if it has that fact.\<close>

theorem stored_document_found:
  assumes pv: "working kd qd pv" "collection_has pv d path m" "p \<noteq> []" "p \<noteq> path"
    and doc: "storable (pv_codec pv) t f" "x \<noteq> []" "text_ok x"
    and new: "isNew \<or> f_read (pv_files pv) p d = None"
  shows "\<exists>d'. index_scope pv path (store_text pv isNew x p t) (d, w) = (Inr (), (d', w)) \<and>
    f_read (pv_files pv) p d' = Some t \<and>
    (\<forall>q. q \<noteq> p \<and> q \<noteq> path \<longrightarrow> f_read (pv_files pv) q d' = f_read (pv_files pv) q d) \<and>
    (\<forall>search k s. reads (pv_codec pv) search [(k, Str s)] \<and> k \<in> set search_keys \<and> s \<noteq> [] \<longrightarrow>
      index_scope pv path (ask (findDocumentIDs (pv_codec pv) search)) (d', w) =
        (Inr (sorted_list_of_set (snd m k s \<union> added f x k s)), (d', w)))"
proof -
  have fs: "file_laws (pv_files pv)" "writable (pv_files pv)" using pv(1) by (simp_all add: working_def)
  obtain d' where d': "index_scope pv path (store_text pv isNew x p t) (d, w) = (Inr (), (d', w))"
      "collection_has pv d' path (with_document f x m)" "f_read (pv_files pv) p d' = Some t"
      "\<forall>q. q \<noteq> p \<and> q \<noteq> path \<longrightarrow> f_read (pv_files pv) q d' = f_read (pv_files pv) q d"
    using store_in_scope[where body = "store_text pv isNew x p t" and m' = "with_document f x m" and t = t and w = w,
        OF pv(1,2,4) store_new_run[OF fs doc(1) _ _ doc(2,3) pv(3) new]] by blast
  then show ?thesis using search_in_scope[OF pv(1) d'(2)] by (intro exI[of _ d']) (simp add: with_document_def)
qed

text \<open>Overwriting a document: the searches see the old text's facts removed and the new
  one's added, but the entities and aliases of the old text are never removed, so a search for
  one of them still answers with the document although its text has changed.\<close>

theorem overwritten_document_lingers:
  assumes pv: "working kd qd pv" "collection_has pv d path m" "p \<noteq> []" "p \<noteq> path"
    and doc: "storable (pv_codec pv) t f" "x \<noteq> []" "text_ok x"
    and old: "f_read (pv_files pv) p d = Some old" "old \<noteq> []" "storable (pv_codec pv) old g"
    and entity: "e \<in> set (f_entities g)" "e \<noteq> []" "x \<in> snd m ''entities.name'' e"
      "reads (pv_codec pv) search [(''entities.name'', Str e)]"
  shows "\<exists>d'. index_scope pv path (store_text pv False x p t) (d, w) = (Inr (), (d', w)) \<and>
    f_read (pv_files pv) p d' = Some t \<and>
    index_scope pv path (ask (findDocumentIDs (pv_codec pv) search)) (d', w) =
      (Inr (sorted_list_of_set (snd m ''entities.name'' e)), (d', w))"
proof -
  let ?m = "with_document f x (without_document g x m)"
  have fs: "file_laws (pv_files pv)" "writable (pv_files pv)" using pv(1) by (simp_all add: working_def)
  obtain d' where d': "index_scope pv path (store_text pv False x p t) (d, w) = (Inr (), (d', w))"
      "collection_has pv d' path ?m" "f_read (pv_files pv) p d' = Some t"
    using store_in_scope[where body = "store_text pv False x p t" and m' = ?m and t = t and w = w,
        OF pv(1,2,4) store_over_run[OF fs doc(1) _ _ doc(2,3) pv(3) old]] by blast
  have "snd ?m ''entities.name'' e = snd m ''entities.name'' e"
    using entity(1,3) by (auto simp: with_document_def without_document_def added_def removed_def)
  moreover have "''entities.name'' \<in> set search_keys" by (simp add: search_keys_def)
  ultimately show ?thesis using search_in_scope[OF pv(1) d'(2) entity(4) _ entity(2)] d' by (intro exI[of _ d']) simp
qed

definition demo_provider :: "disk provider" where
  "demo_provider = \<lparr>pv_files = posix, pv_codec = plain_codec, pv_rebuild = False, pv_uri = ''/db'', pv_uname = ''{}'',
     pv_timepoint = (\<lambda>t. Inr 0)\<rparr>"

definition demo_text :: "string \<Rightarrow> string \<Rightarrow> string" where
  "demo_text v e = (case writeJson plain_codec (Obj (sample_ast v e)) of Inr t \<Rightarrow> t | Inl _ \<Rightarrow> [])"

text \<open>A collection with one document, whose index says so.\<close>

definition demo_index :: object_t where
  "demo_index =
     [(''ouid'', Arr [Str ''1'']), (''version'', Obj [(''v'', Arr [Str ''1''])]), (''configurations.name'', Obj []),
      (''entities.name'', Obj [(''e'', Arr [Str ''1''])]), (''aliases.active.name'', Obj []), (''runs.name'', Obj []),
      (''configurations.assigned'', Obj [])]"

definition demo_disk :: disk where
  "demo_disk = [(''/db/c/index.json'', case c_write plain_codec demo_index of Inr t \<Rightarrow> t | Inl _ \<Rightarrow> []),
     (''/db/c/1.json'', demo_text ''v'' ''e'')]"

lemma demo_working: "working decimal_to_string no_doubles demo_provider"
  using posix_laws by (simp add: working_def demo_provider_def plain_codec_def refuses_other_def no_doubles_def writable_def posix_def)

lemma demo_indexed: "collection_has demo_provider demo_disk ''/db/c/index.json'' (meaning demo_index)"
proof -
  let ?t = "case c_write plain_codec demo_index of Inr t \<Rightarrow> t | Inl _ \<Rightarrow> []"
  have "c_read plain_codec ?t = Inr (Some demo_index)" by code_simp
  moreover have "wf_index demo_index" "printed_index demo_index" by code_simp+
  ultimately show ?thesis
    by (simp add: collection_has_def indexed_def demo_provider_def posix_def demo_disk_def serves_def)
qed

lemma demo_storable: "storable plain_codec (demo_text ''w'' ''f'') (sample_facts ''w'' ''f'')"
    "storable plain_codec (demo_text ''v'' ''e'') (sample_facts ''v'' ''e'')"
  by code_simp+

theorem stored_document_found_witness:
  "\<exists>d'. index_scope demo_provider ''/db/c/index.json'' (store_text demo_provider True ''2'' ''/db/c/2.json'' (demo_text ''w'' ''f'')) (demo_disk, demo_world)
      = (Inr (), (d', demo_world)) \<and> f_read posix ''/db/c/2.json'' d' = Some (demo_text ''w'' ''f'') \<and>
    index_scope demo_provider ''/db/c/index.json'' (ask (findDocumentIDs plain_codec (doc_of (Obj [(''version'', Str ''w'')])))) (d', demo_world)
      = (Inr [''2''], (d', demo_world))"
proof -
  have pv: "pv_codec demo_provider = plain_codec" "pv_files demo_provider = posix" by (simp_all add: demo_provider_def)
  have p: "''/db/c/2.json'' \<noteq> []" "''/db/c/2.json'' \<noteq> ''/db/c/index.json''" "''2'' \<noteq> []" "text_ok ''2''"
    "True \<or> f_read (pv_files demo_provider) ''/db/c/2.json'' demo_disk = None" by code_simp+
  have s: "reads plain_codec (doc_of (Obj [(''version'', Str ''w'')])) [(''version'', Str ''w'')]" by code_simp
  have k: "''version'' \<in> set search_keys" "''w'' \<noteq> []" by (simp_all add: search_keys_def)
  have new: "storable (pv_codec demo_provider) (demo_text ''w'' ''f'') (sample_facts ''w'' ''f'')"
    unfolding pv by (rule demo_storable)
  have "snd (meaning demo_index) ''version'' ''w'' \<union> added (sample_facts ''w'' ''f'') ''2'' ''version'' ''w'' = {''2''}"
    by (simp add: meaning_def having_def demo_index_def added_def sample_facts_def)
  moreover have "sorted_list_of_set {''2''} = [''2'']" by simp
  moreover note stored_document_found[OF demo_working demo_indexed p(1,2) new p(3,4,5), of demo_world]
  ultimately show ?thesis using s k unfolding pv by metis
qed

theorem overwritten_document_lingers_witness:
  "\<exists>d'. index_scope demo_provider ''/db/c/index.json'' (store_text demo_provider False ''1'' ''/db/c/1.json'' (demo_text ''w'' ''f'')) (demo_disk, demo_world)
      = (Inr (), (d', demo_world)) \<and> f_read posix ''/db/c/1.json'' d' = Some (demo_text ''w'' ''f'') \<and>
    index_scope demo_provider ''/db/c/index.json'' (ask (findDocumentIDs plain_codec (doc_of (Obj [(''entities.name'', Str ''e'')])))) (d', demo_world)
      = (Inr [''1''], (d', demo_world))"
proof -
  have pv: "pv_codec demo_provider = plain_codec" "pv_files demo_provider = posix" by (simp_all add: demo_provider_def)
  have p: "''/db/c/1.json'' \<noteq> []" "''/db/c/1.json'' \<noteq> ''/db/c/index.json''" "''1'' \<noteq> []" "text_ok ''1''" by code_simp+
  have old: "f_read (pv_files demo_provider) ''/db/c/1.json'' demo_disk = Some (demo_text ''v'' ''e'')"
    unfolding pv by (simp add: posix_def demo_disk_def)
  have ne: "demo_text ''v'' ''e'' \<noteq> []" by code_simp
  have st: "storable (pv_codec demo_provider) (demo_text ''w'' ''f'') (sample_facts ''w'' ''f'')"
    "storable (pv_codec demo_provider) (demo_text ''v'' ''e'') (sample_facts ''v'' ''e'')"
    unfolding pv by (rule demo_storable)+
  have e: "''e'' \<in> set (f_entities (sample_facts ''v'' ''e''))" "''e'' \<noteq> []"
    "''1'' \<in> snd (meaning demo_index) ''entities.name'' ''e''"
    by (simp_all add: sample_facts_def meaning_def having_def demo_index_def)
  have s: "reads (pv_codec demo_provider) (doc_of (Obj [(''entities.name'', Str ''e'')])) [(''entities.name'', Str ''e'')]"
    unfolding pv by code_simp
  have "sorted_list_of_set (snd (meaning demo_index) ''entities.name'' ''e'') = [''1'']"
    by (simp add: meaning_def having_def demo_index_def)
  then show ?thesis
    using overwritten_document_lingers[OF demo_working demo_indexed p(1,2) st(1) p(3,4) old ne st(2) e s, of demo_world]
    unfolding pv by simp
qed

section \<open>Reading and the duplicate check\<close>

lemma entity_of_array:
  assumes "findChildValue (jd_value user) ''entities'' = Inr (Arr es)"
  shows "or_else [] (entity_of c user) = Inr []"
  using assms by (simp add: entity_of_def findChildDocument_def or_else_def catchE_def any_exn_def)

text \<open>The duplicate check of \<open>writeDocument\<close> means to look for a document with the same version
  and entity, but it never finds the entity in an array of entities: it refuses the document
  exactly when any document of the collection has its version, whatever the entities.\<close>

theorem duplicate_check_by_version_only:
  assumes "working kd qd pv" "collection_has pv d (f_append (pv_files pv) dir search_index_name) m"
    and "value_as_string (pv_codec pv) user ''version'' = Inr v" "v \<noteq> []"
    and "findChildValue (jd_value user) ''entities'' = Inr (Arr es)"
    and "doc_of_string (pv_codec pv) (duplicate_filter v []) = Inr search" "reads (pv_codec pv) search [(''version'', Str v)]"
  shows "refuse_duplicate pv dir user (d, w) =
    ((if snd m ''version'' v = {} then Inr () else Inl Runtime_error), (d, w))"
proof -
  have key: "''version'' \<in> set search_keys" by (simp add: search_keys_def)
  have fin: "finite (snd m ''version'' v)"
    using assms(2) by (auto simp: collection_has_def indexed_def serves_def meaning_def split: option.splits sum.splits)
  let ?body = "bindM (liftE (doc_of_string (pv_codec pv) (duplicate_filter v []))) (\<lambda>search. ask (findDocumentIDs (pv_codec pv) search))"
  have body: "?body = ask (findDocumentIDs (pv_codec pv) search)"
    using assms(6) by (simp add: fun_eq_iff bindM_run liftE_run)
  have "index_scope pv (f_append (pv_files pv) dir search_index_name) ?body (d, w) =
      (Inr (sorted_list_of_set (snd m ''version'' v)), (d, w))"
    unfolding body by (rule search_in_scope[OF assms(1,2,7) key assms(4)])
  then show ?thesis using fin
    by (simp add: refuse_duplicate_def Let_def catchM_run bindM_run liftE_run assms(3) entity_of_array[OF assms(5)] any_exn_def
        throwM_run retM_run)
qed

theorem duplicate_check_by_version_only_witness:
  "fst (refuse_duplicate demo_provider ''/db/c''
      (doc_of (Obj [(''version'', Str ''v''), (''entities'', Arr [Obj [(''name'', Str ''other'')]])])) (demo_disk, demo_world))
    = Inl Runtime_error"
proof -
  let ?u = "doc_of (Obj [(''version'', Str ''v''), (''entities'', Arr [Obj [(''name'', Str ''other'')]])])"
  have pv: "pv_codec demo_provider = plain_codec" "pv_files demo_provider = posix" by (simp_all add: demo_provider_def)
  have path: "f_append (pv_files demo_provider) ''/db/c'' search_index_name = ''/db/c/index.json''"
    unfolding pv by code_simp
  have v: "value_as_string (pv_codec demo_provider) ?u ''version'' = Inr ''v''"
    "findChildValue (jd_value ?u) ''entities'' = Inr (Arr [Obj [(''name'', Str ''other'')]])" unfolding pv by code_simp+
  obtain search where search: "doc_of_string (pv_codec demo_provider) (duplicate_filter ''v'' []) = Inr search"
      "reads (pv_codec demo_provider) search [(''version'', Str ''v'')]"
  proof -
    have "case doc_of_string plain_codec (duplicate_filter ''v'' []) of Inl _ \<Rightarrow> False
      | Inr s \<Rightarrow> reads plain_codec s [(''version'', Str ''v'')]" by code_simp
    then show ?thesis using that unfolding pv by (auto split: sum.splits)
  qed
  have has: "collection_has demo_provider demo_disk (f_append (pv_files demo_provider) ''/db/c'' search_index_name) (meaning demo_index)"
    unfolding path by (rule demo_indexed)
  have "snd (meaning demo_index) ''version'' ''v'' = {''1''}" by (simp add: meaning_def having_def demo_index_def)
  then show ?thesis
    using duplicate_check_by_version_only[OF demo_working has v(1) _ v(2) search, of demo_world] by simp
qed

text \<open>A store that is set up: its metadata record exists, and the directory of the collection.\<close>

definition set_up :: "'d provider \<Rightarrow> 'd \<Rightarrow> string \<Rightarrow> string \<Rightarrow> bool" where
  "set_up pv d name dir \<longleftrightarrow>
     (case expand_environment_variables (pv_files pv) (pv_uri pv @ ''/'' @ system_metadata) of
        Inl _ \<Rightarrow> False | Inr p \<Rightarrow> f_is_directory (pv_files pv) (strip_uri p) d) \<and>
     (case expand_environment_variables (pv_files pv) (pv_uri pv @ ''/'' @ name) of
        Inl _ \<Rightarrow> False | Inr p \<Rightarrow> fst (mkdir (pv_files pv) p d) = Inr dir \<and> snd (mkdir (pv_files pv) p d) = d)"

lemma collection_dir_run:
  assumes "set_up pv d name dir"
  shows "collection_dir pv name (d, w) = (Inr dir, (d, w))"
proof -
  obtain p q where "expand_environment_variables (pv_files pv) (pv_uri pv @ ''/'' @ system_metadata) = Inr p"
    "f_is_directory (pv_files pv) (strip_uri p) d"
    "expand_environment_variables (pv_files pv) (pv_uri pv @ ''/'' @ name) = Inr q"
    "mkdir (pv_files pv) q d = (Inr dir, d)"
    using assms by (auto simp: set_up_def prod_eq_iff split: sum.splits)
  then show ?thesis
    by (simp add: collection_dir_def connection_def expand_def bindM_run liftE_run getM_run retM_run on_files_def)
qed

lemma forR_reads:
  assumes "\<And>x. x \<in> set xs \<Longrightarrow> f x s = (Inr (g x), s)"
  shows "forR xs f s = (Inr (map g xs), s)"
  using assms by (induction xs) (simp_all add: forR_def retM_run bindM_run)

text \<open>The files of a collection that hold documents.\<close>

definition filed :: "'d provider \<Rightarrow> 'd \<Rightarrow> string \<Rightarrow> (string \<Rightarrow> jsondoc) \<Rightarrow> string \<Rightarrow> bool" where
  "filed pv d dir D x \<longleftrightarrow>
     (let p = f_replace_extension (pv_files pv) (f_append (pv_files pv) dir x) ''.json'' in
      p \<noteq> [] \<and> (case f_read (pv_files pv) p d of None \<Rightarrow> False | Some t \<Rightarrow> doc_of_string (pv_codec pv) t = Inr (D x)))"



end
