(* ===== verification/Options.thy ===== *)
theory Options
  imports JsonDocument StringHelpers
begin

text \<open>
  The options of an operation of the client interface: ConfigurationDB/options\_operation\_base.cpp
  and its subclasses for documents, configurations and aliases, with their setters, the JSON form
  they are read from and written to, and the search filter they stand for.
\<close>

section \<open>The options\<close>

datatype data_format_t =
    Format_unknown | Format_origin | Format_json | Format_fhicl | Format_gui | Format_db | Format_xml | Format_csv

fun format_to_string :: "data_format_t \<Rightarrow> string" where
  "format_to_string Format_unknown = ''unknown''"
| "format_to_string Format_fhicl = ''fhicl''"
| "format_to_string Format_json = ''json''"
| "format_to_string Format_gui = ''gui''"
| "format_to_string Format_db = ''db''"
| "format_to_string Format_xml = ''xml''"
| "format_to_string Format_origin = ''origin''"
| "format_to_string Format_csv = ''csv''"

definition to_data_format :: "string \<Rightarrow> exn + data_format_t" where
  "to_data_format f =
     (if f = [] then Inl Runtime_exception
      else if f = ''fhicl'' then Inr Format_fhicl
      else if f = ''json'' then Inr Format_json
      else if f = ''gui'' then Inr Format_gui
      else if f = ''db'' then Inr Format_db
      else if f = ''xml'' then Inr Format_xml
      else if f = ''origin'' then Inr Format_origin
      else if f = ''csv'' then Inr Format_csv
      else Inr Format_unknown)"

definition notprovided :: string where
  "notprovided = ''notprovided''"

text \<open>The base class and, as extensions, its subclasses with their members.\<close>

record operation_base =
  op_process :: string
  op_provider :: string
  op_operation :: string
  op_format :: data_format_t
  op_collection :: string
  op_query :: string
  op_result :: string

record document_options = operation_base +
  opt_version :: string
  opt_entity :: string
  opt_run :: string
  opt_configuration :: string
  opt_source :: string

record config_options = operation_base +
  cfg_version :: string
  cfg_entity :: string
  cfg_configuration :: string

record alias_options = operation_base +
  al_version :: string
  al_version_alias :: string
  al_entity :: string
  al_configuration :: string
  al_configuration_alias :: string
  al_run :: string

text \<open>What the options take from the process: the value of ARTDAQ\_DATABASE\_URI (empty when it is
  not set), the expansion of variables, and the files that can be read.\<close>

record process_env =
  env_uri :: string
  env_expand :: "string \<Rightarrow> exn + string"
  env_file :: "string \<Rightarrow> string option"

text \<open>\<open>_getProviderFromURI\<close>: the comparison stops at the end of a shorter URI, whose terminating
  character differs.\<close>

definition getProviderFromURI :: "process_env \<Rightarrow> string" where
  "getProviderFromURI env = (if prefix ''mongo'' (env_uri env) then ''mongo'' else ''filesystem'')"

definition new_operation_base :: "process_env \<Rightarrow> string \<Rightarrow> operation_base" where
  "new_operation_base env process =
     \<lparr>op_process = process, op_provider = getProviderFromURI env, op_operation = ''load'',
      op_format = Format_unknown, op_collection = notprovided, op_query = notprovided, op_result = notprovided\<rparr>"

definition new_document_options :: "process_env \<Rightarrow> string \<Rightarrow> document_options" where
  "new_document_options env process =
     operation_base.extend (new_operation_base env process)
       (document_options.fields notprovided notprovided notprovided notprovided notprovided)"

definition new_config_options :: "process_env \<Rightarrow> string \<Rightarrow> config_options" where
  "new_config_options env process =
     operation_base.extend (new_operation_base env process) (config_options.fields notprovided notprovided notprovided)"

definition new_alias_options :: "process_env \<Rightarrow> string \<Rightarrow> alias_options" where
  "new_alias_options env process =
     operation_base.extend (new_operation_base env process)
       (alias_options.fields notprovided notprovided notprovided notprovided notprovided notprovided)"

section \<open>Setters and getters\<close>

text \<open>A getter refuses an empty member, and a setter an empty value; both return the member.\<close>

definition getter :: "string \<Rightarrow> exn + string" where
  "getter s = (if s = [] then Inl Runtime_exception else Inr s)"

definition setter :: "((string \<Rightarrow> string) \<Rightarrow> 'o \<Rightarrow> 'o) \<Rightarrow> string \<Rightarrow> ('o, string) prog" where
  "setter upd s = (\<lambda>opts. if s = [] then (Inl Runtime_exception, opts) else (Inr s, upd (\<lambda>_. s) opts))"

definition set_operation :: "string \<Rightarrow> ('o operation_base_scheme, string) prog" where
  "set_operation = setter op_operation_update"

definition set_collection :: "string \<Rightarrow> ('o operation_base_scheme, string) prog" where
  "set_collection = setter op_collection_update"

definition valid_provider :: "string \<Rightarrow> exn + bool" where
  "valid_provider p =
     bindE (not_equal p ''filesystem'') (\<lambda>a. if \<not> a then Inr True
     else bindE (not_equal p ''mongo'') (\<lambda>b. if \<not> b then Inr True
     else bindE (not_equal p ''ucon'') (\<lambda>c. Inr (\<not> c))))"

definition set_provider :: "string \<Rightarrow> ('o operation_base_scheme, string) prog" where
  "set_provider p =
     thenM (confirm (p \<noteq> []))
     (bindM (liftE (valid_provider p)) (\<lambda>ok. if ok then setter op_provider_update p else throwM Invalid_option))"

definition get_format :: "'o operation_base_scheme \<Rightarrow> exn + data_format_t" where
  "get_format opts = (if op_format opts = Format_unknown then Inl Runtime_exception else Inr (op_format opts))"

definition set_format :: "data_format_t \<Rightarrow> ('o operation_base_scheme, data_format_t) prog" where
  "set_format f = (\<lambda>opts. if f = Format_unknown then (Inl Runtime_exception, opts) else (Inr f, opts\<lparr>op_format := f\<rparr>))"

text \<open>The overload for a name accepts \<open>unknown\<close>.\<close>

definition set_format_name :: "string \<Rightarrow> ('o operation_base_scheme, data_format_t) prog" where
  "set_format_name f = bindM (liftE (to_data_format f)) (\<lambda>x opts. (Inr x, opts\<lparr>op_format := x\<rparr>))"

definition set_queryFilter :: "string \<Rightarrow> ('o operation_base_scheme, string) prog" where
  "set_queryFilter q =
     thenM (confirm (q \<noteq> [])) (\<lambda>opts. (Inr (dequote q), opts\<lparr>op_query := dequote q\<rparr>))"

definition set_resultFileName :: "process_env \<Rightarrow> string \<Rightarrow> ('o operation_base_scheme, string) prog" where
  "set_resultFileName env f =
     thenM (confirm (f \<noteq> []))
     (bindM (liftE (env_expand env f)) (\<lambda>x opts. (Inr x, opts\<lparr>op_result := x\<rparr>)))"

definition set_version :: "string \<Rightarrow> (document_options, string) prog" where
  "set_version = setter opt_version_update"

definition set_run :: "string \<Rightarrow> (document_options, string) prog" where
  "set_run = setter opt_run_update"

definition set_entity :: "string \<Rightarrow> (document_options, string) prog" where
  "set_entity = setter opt_entity_update"

definition set_configuration :: "string \<Rightarrow> (document_options, string) prog" where
  "set_configuration = setter opt_configuration_update"

definition set_sourceFileName :: "string \<Rightarrow> (document_options, string) prog" where
  "set_sourceFileName = setter opt_source_update"

definition cfg_set_version :: "string \<Rightarrow> (config_options, string) prog" where
  "cfg_set_version = setter cfg_version_update"

definition cfg_set_entity :: "string \<Rightarrow> (config_options, string) prog" where
  "cfg_set_entity = setter cfg_entity_update"

definition cfg_set_configuration :: "string \<Rightarrow> (config_options, string) prog" where
  "cfg_set_configuration = setter cfg_configuration_update"

definition al_set_version :: "string \<Rightarrow> (alias_options, string) prog" where
  "al_set_version = setter al_version_update"

definition al_set_entity :: "string \<Rightarrow> (alias_options, string) prog" where
  "al_set_entity = setter al_entity_update"

definition al_set_run :: "string \<Rightarrow> (alias_options, string) prog" where
  "al_set_run = setter al_run_update"

definition al_set_configuration :: "string \<Rightarrow> (alias_options, string) prog" where
  "al_set_configuration = setter al_configuration_update"

definition al_set_versionAlias :: "string \<Rightarrow> (alias_options, string) prog" where
  "al_set_versionAlias = setter al_version_alias_update"

definition al_set_configurationAlias :: "string \<Rightarrow> (alias_options, string) prog" where
  "al_set_configurationAlias = setter al_configuration_alias_update"

section \<open>Reading options\<close>

text \<open>\<open>try { setter(...); } catch (...) {}\<close>.\<close>

definition attempt :: "('o, 'a) prog \<Rightarrow> ('o, unit) prog" where
  "attempt m = catchM any_exn (bindM m (\<lambda>_. retM ())) (retM ())"

definition attempt_or :: "('o, 'a) prog \<Rightarrow> ('o, 'a) prog \<Rightarrow> ('o, unit) prog" where
  "attempt_or m n = catchM any_exn (bindM m (\<lambda>_. retM ())) (attempt n)"

definition from_member :: "string \<Rightarrow> object_t \<Rightarrow> (string \<Rightarrow> ('o, 'a) prog) \<Rightarrow> ('o, 'a) prog" where
  "from_member k ast put = bindM (liftE (string_child k ast)) put"

definition parse_options :: "codec \<Rightarrow> string \<Rightarrow> (object_t \<Rightarrow> ('o, unit) prog) \<Rightarrow> ('o, unit) prog" where
  "parse_options c data f =
     bindM (liftE (c_read c data)) (\<lambda>r. case r of None \<Rightarrow> throwM Invalid_option | Some ast \<Rightarrow> f ast)"

definition base_readJsonData :: "process_env \<Rightarrow> codec \<Rightarrow> string \<Rightarrow> ('o operation_base_scheme, unit) prog" where
  "base_readJsonData env c data =
     thenM (confirm (data \<noteq> []))
     (thenM (confirm (data \<noteq> notprovided))
     (parse_options c data (\<lambda>ast.
        seqM [attempt (set_provider (getProviderFromURI env)),
          attempt (from_member ''operation'' ast set_operation),
          attempt (from_member ''dataformat'' ast set_format_name),
          attempt (from_member ''collection'' ast set_collection),
          attempt (bindM (liftE (object_child ''filter'' ast)) (\<lambda>filt.
            if filt = [] then retM []
            else bindM (liftE (c_write c filt)) set_queryFilter))])))"

definition with_filter :: "object_t \<Rightarrow> (object_t \<Rightarrow> ('o operation_base_scheme, unit) prog) \<Rightarrow>
    ('o operation_base_scheme, unit) prog" where
  "with_filter ast f =
     attempt (bindM (liftE (object_child ''filter'' ast)) (\<lambda>filt.
       thenM (if filt = [] then bindM (set_queryFilter notprovided) (\<lambda>_. retM ()) else retM ()) (f filt)))"

definition readJsonData :: "process_env \<Rightarrow> codec \<Rightarrow> string \<Rightarrow> (document_options, unit) prog" where
  "readJsonData env c data =
     thenM (confirm (data \<noteq> []))
     (thenM (base_readJsonData env c data)
     (parse_options c data (\<lambda>ast.
        seqM [attempt (from_member ''configuration'' ast set_configuration),
          attempt (from_member ''version'' ast set_version),
          attempt (from_member ''entity'' ast set_entity),
          attempt (from_member ''run'' ast set_run),
          attempt (from_member ''source'' ast set_sourceFileName),
          with_filter ast (\<lambda>filt. seqM [
            attempt (from_member ''version'' filt set_version),
            attempt (from_member ''entities.name'' filt set_entity),
            attempt (from_member ''configurations.name'' filt set_configuration),
            attempt (from_member ''runs.name'' filt set_run)])])))"

definition cfg_readJsonData :: "process_env \<Rightarrow> codec \<Rightarrow> string \<Rightarrow> (config_options, unit) prog" where
  "cfg_readJsonData env c data =
     thenM (confirm (data \<noteq> []))
     (thenM (base_readJsonData env c data)
     (parse_options c data (\<lambda>ast.
        seqM [attempt (from_member ''configuration'' ast cfg_set_configuration),
          attempt (from_member ''version'' ast cfg_set_version),
          attempt (from_member ''entity'' ast cfg_set_entity),
          with_filter ast (\<lambda>filt. seqM [
            attempt (from_member ''version'' filt cfg_set_version),
            attempt (from_member ''entities.name'' filt cfg_set_entity),
            attempt (from_member ''configurations.name'' filt cfg_set_configuration)])])))"

text \<open>The aliases read every member from the filter first; without a filter none is read.\<close>

definition al_readJsonData :: "process_env \<Rightarrow> codec \<Rightarrow> string \<Rightarrow> (alias_options, unit) prog" where
  "al_readJsonData env c data =
     thenM (confirm (data \<noteq> []))
     (thenM (base_readJsonData env c data)
     (parse_options c data (\<lambda>ast.
        with_filter ast (\<lambda>filt. seqM [
          attempt_or (from_member ''entities.name'' filt al_set_entity) (from_member ''entity'' ast al_set_entity),
          attempt_or (from_member ''aliases.active.name'' filt al_set_versionAlias) (from_member ''alias'' ast al_set_versionAlias),
          attempt_or (from_member ''configaliases.active.name'' filt al_set_configurationAlias)
            (from_member ''configurationalias'' ast al_set_configurationAlias),
          attempt_or (from_member ''version'' filt al_set_version) (from_member ''version'' ast al_set_version),
          attempt_or (from_member ''configurations.name'' filt al_set_configuration)
            (from_member ''configuration'' ast al_set_configuration),
          attempt_or (from_member ''run'' filt al_set_run) (from_member ''run'' ast al_set_run)]))))"

text \<open>\<open>readProgramOptions\<close>: the command line as a map from long names to values.  The base class
  calls the virtual \<open>readJsonData\<close>; the results are exit codes.\<close>

definition exit_SUCCESS :: int where "exit_SUCCESS = 0"
definition exit_HELP :: int where "exit_HELP = 1"
definition exit_INVALID_ARGUMENT :: int where "exit_INVALID_ARGUMENT = 128"

definition from_option :: "string \<Rightarrow> (string \<rightharpoonup> string) \<Rightarrow> (string \<Rightarrow> ('o, 'a) prog) \<Rightarrow> ('o, unit) prog" where
  "from_option k vm put = (case vm k of None \<Rightarrow> retM () | Some v \<Rightarrow> bindM (put v) (\<lambda>_. retM ()))"

definition base_readProgramOptions ::
  "process_env \<Rightarrow> (string \<Rightarrow> ('o operation_base_scheme, unit) prog) \<Rightarrow> (string \<rightharpoonup> string) \<Rightarrow>
    ('o operation_base_scheme, int) prog" where
  "base_readProgramOptions env read_json vm =
     (if vm ''help'' \<noteq> None then retM exit_HELP
      else bindM (set_resultFileName env (case vm ''result'' of Some f \<Rightarrow> f | None \<Rightarrow> ''${HOME}/${0}.result.out'')) (\<lambda>_.
        case vm ''searchquery'' of
          Some q \<Rightarrow>
            thenM (read_json (case env_file env q of Some text \<Rightarrow> text | None \<Rightarrow> q)) (retM exit_SUCCESS)
        | None \<Rightarrow>
            bindM (set_provider (getProviderFromURI env)) (\<lambda>_.
            if vm ''operation'' = None then retM (or exit_INVALID_ARGUMENT 2)
            else thenM (seqM [from_option ''operation'' vm set_operation, from_option ''dataformat'' vm set_format_name,
                from_option ''collection'' vm set_collection, from_option ''filter'' vm set_queryFilter])
              (retM exit_SUCCESS))))"

definition readProgramOptions :: "process_env \<Rightarrow> codec \<Rightarrow> (string \<rightharpoonup> string) \<Rightarrow> (document_options, int) prog" where
  "readProgramOptions env c vm =
     bindM (base_readProgramOptions env (readJsonData env c) vm) (\<lambda>rc.
       if rc \<noteq> exit_SUCCESS then retM rc
       else thenM (seqM [from_option ''version'' vm set_version, from_option ''entity'' vm set_entity,
           from_option ''run'' vm set_run, from_option ''configuration'' vm set_configuration,
           from_option ''source'' vm set_sourceFileName])
         (retM exit_SUCCESS))"

definition cfg_readProgramOptions :: "process_env \<Rightarrow> codec \<Rightarrow> (string \<rightharpoonup> string) \<Rightarrow> (config_options, int) prog" where
  "cfg_readProgramOptions env c vm =
     bindM (base_readProgramOptions env (cfg_readJsonData env c) vm) (\<lambda>rc.
       if rc \<noteq> exit_SUCCESS then retM rc
       else thenM (seqM [from_option ''version'' vm cfg_set_version, from_option ''entity'' vm cfg_set_entity,
           from_option ''configuration'' vm cfg_set_configuration])
         (retM exit_SUCCESS))"

definition al_readProgramOptions :: "process_env \<Rightarrow> codec \<Rightarrow> (string \<rightharpoonup> string) \<Rightarrow> (alias_options, int) prog" where
  "al_readProgramOptions env c vm =
     bindM (base_readProgramOptions env (al_readJsonData env c) vm) (\<lambda>rc.
       if rc \<noteq> exit_SUCCESS then retM rc
       else thenM (seqM [from_option ''entity'' vm al_set_entity, from_option ''configuration'' vm al_set_configuration,
           from_option ''version'' vm al_set_version, from_option ''run'' vm al_set_run,
           from_option ''alias'' vm al_set_versionAlias, from_option ''configurationalias'' vm al_set_configurationAlias])
         (retM exit_SUCCESS))"

section \<open>Writing options\<close>

text \<open>A member that is provided is written under its key.\<close>

definition add_option :: "string \<Rightarrow> string \<Rightarrow> object_t \<Rightarrow> exn + object_t" where
  "add_option k member ast =
     bindE (getter member) (\<lambda>v. Inr (if v \<noteq> notprovided then table_set k (Str v) ast else ast))"

text \<open>A member the filter leaves out for one operation, which is only asked for when the member is
  provided.\<close>

definition add_option_unless :: "string \<Rightarrow> 'o operation_base_scheme \<Rightarrow> string \<Rightarrow> string \<Rightarrow> object_t \<Rightarrow> exn + object_t" where
  "add_option_unless operation opts k member ast =
     bindE (getter member) (\<lambda>v.
       if v = notprovided then Inr ast
       else bindE (getter (op_operation opts)) (\<lambda>op. Inr (if op \<noteq> operation then table_set k (Str v) ast else ast)))"

fun chainE :: "('a \<Rightarrow> exn + 'a) list \<Rightarrow> 'a \<Rightarrow> exn + 'a" where
  "chainE [] x = Inr x"
| "chainE (f # fs) x = bindE (f x) (chainE fs)"

definition read_table :: "codec \<Rightarrow> string \<Rightarrow> exn + object_t" where
  "read_table c t = bindE (c_read c t) (\<lambda>r. case r of None \<Rightarrow> Inl Invalid_option | Some ast \<Rightarrow> Inr ast)"

definition empty_json :: string where
  "empty_json = ''{ }''"

definition base_query_filter :: "'o operation_base_scheme \<Rightarrow> exn + string" where
  "base_query_filter opts =
     bindE (getter (op_query opts)) (\<lambda>q. Inr (if q \<noteq> notprovided then q else empty_json))"

definition base_writeJsonData :: "codec \<Rightarrow> exn + string \<Rightarrow> 'o operation_base_scheme \<Rightarrow> exn + string" where
  "base_writeJsonData c filt opts =
     bindE (bindE filt (read_table c)) (\<lambda>f.
     bindE (getter (op_operation opts)) (\<lambda>operation.
     bindE (getter (op_collection opts)) (\<lambda>collection.
     bindE (get_format opts) (\<lambda>format.
       c_write c (table_set ''dataformat'' (Str (format_to_string format)) (table_set ''collection'' (Str collection)
         (table_set ''operation'' (Str operation) (table_set ''filter'' (Obj f) []))))))))"

text \<open>The search filter: the one given, or one made of the members.\<close>

definition made_filter :: "codec \<Rightarrow> (object_t \<Rightarrow> exn + object_t) list \<Rightarrow> 'o operation_base_scheme \<Rightarrow> exn + string" where
  "made_filter c fs opts =
     bindE (getter (op_query opts)) (\<lambda>q.
       if q \<noteq> notprovided then Inr q
       else bindE (bindE (base_query_filter opts) (read_table c)) (\<lambda>ast.
            bindE (chainE fs ast) (\<lambda>ast'. if ast' = [] then Inr empty_json else c_write c ast')))"

definition query_filter_to_JsonData :: "codec \<Rightarrow> document_options \<Rightarrow> exn + string" where
  "query_filter_to_JsonData c opts =
     made_filter c [add_option ''version'' (opt_version opts), add_option ''entities.name'' (opt_entity opts),
       add_option_unless ''addconfig'' opts ''configurations.name'' (opt_configuration opts)] opts"

definition cfg_query_filter_to_JsonData :: "codec \<Rightarrow> config_options \<Rightarrow> exn + string" where
  "cfg_query_filter_to_JsonData c opts =
     made_filter c [add_option ''version'' (cfg_version opts), add_option ''entities.name'' (cfg_entity opts),
       add_option_unless ''addconfig'' opts ''configurations.name'' (cfg_configuration opts)] opts"

definition al_query_filter_to_JsonData :: "codec \<Rightarrow> alias_options \<Rightarrow> exn + string" where
  "al_query_filter_to_JsonData c opts =
     made_filter c [add_option ''entities.name'' (al_entity opts), add_option ''version'' (al_version opts),
       add_option_unless ''addconfig'' opts ''configurations.name'' (al_configuration opts),
       add_option_unless ''addveralias'' opts ''aliases.active.name'' (al_version_alias opts),
       add_option_unless ''addrun'' opts ''runs.name'' (al_run opts)] opts"

definition written_with :: "codec \<Rightarrow> exn + string \<Rightarrow> (object_t \<Rightarrow> exn + object_t) list \<Rightarrow> exn + string" where
  "written_with c base fs = bindE (bindE base (read_table c)) (\<lambda>ast. bindE (chainE fs ast) (c_write c))"

definition writeJsonData :: "codec \<Rightarrow> document_options \<Rightarrow> exn + string" where
  "writeJsonData c opts =
     written_with c (base_writeJsonData c (query_filter_to_JsonData c opts) opts)
       [add_option ''configuration'' (opt_configuration opts), add_option ''source'' (opt_source opts),
        add_option ''entity'' (opt_entity opts), add_option ''version'' (opt_version opts), add_option ''run'' (opt_run opts)]"

definition cfg_writeJsonData :: "codec \<Rightarrow> config_options \<Rightarrow> exn + string" where
  "cfg_writeJsonData c opts =
     written_with c (base_writeJsonData c (cfg_query_filter_to_JsonData c opts) opts)
       [add_option ''configuration'' (cfg_configuration opts), add_option ''entity'' (cfg_entity opts),
        add_option ''version'' (cfg_version opts)]"

definition al_writeJsonData :: "codec \<Rightarrow> alias_options \<Rightarrow> exn + string" where
  "al_writeJsonData c opts =
     written_with c (base_writeJsonData c (al_query_filter_to_JsonData c opts) opts)
       [add_option ''configuration'' (al_configuration opts), add_option ''alias'' (al_version_alias opts),
        add_option ''configurationalias'' (al_configuration_alias opts), add_option ''version'' (al_version opts),
        add_option ''run'' (al_run opts)]"

text \<open>The small documents the operations hand to the builder.\<close>

definition member_to_JsonData :: "codec \<Rightarrow> string \<Rightarrow> string \<Rightarrow> exn + string" where
  "member_to_JsonData c k member = bindE (getter member) (\<lambda>v. c_write c (table_set k (Str v) []))"

definition configuration_to_JsonData :: "codec \<Rightarrow> document_options \<Rightarrow> exn + string" where
  "configuration_to_JsonData c opts = member_to_JsonData c ''name'' (opt_configuration opts)"

definition configurationsname_to_JsonData :: "codec \<Rightarrow> document_options \<Rightarrow> exn + string" where
  "configurationsname_to_JsonData c opts = member_to_JsonData c ''configurations.name'' (opt_configuration opts)"

definition collection_to_JsonData :: "codec \<Rightarrow> 'o operation_base_scheme \<Rightarrow> exn + string" where
  "collection_to_JsonData c opts = member_to_JsonData c ''collection'' (op_collection opts)"

definition version_to_JsonData :: "codec \<Rightarrow> document_options \<Rightarrow> exn + string" where
  "version_to_JsonData c opts = member_to_JsonData c ''name'' (opt_version opts)"

definition entity_to_JsonData :: "codec \<Rightarrow> document_options \<Rightarrow> exn + string" where
  "entity_to_JsonData c opts = member_to_JsonData c ''name'' (opt_entity opts)"

definition run_to_JsonData :: "codec \<Rightarrow> document_options \<Rightarrow> exn + string" where
  "run_to_JsonData c opts = member_to_JsonData c ''name'' (opt_run opts)"

definition cfg_configuration_to_JsonData :: "codec \<Rightarrow> config_options \<Rightarrow> exn + string" where
  "cfg_configuration_to_JsonData c opts = member_to_JsonData c ''configurations.name'' (cfg_configuration opts)"

definition cfg_version_to_JsonData :: "codec \<Rightarrow> config_options \<Rightarrow> exn + string" where
  "cfg_version_to_JsonData c opts = member_to_JsonData c ''name'' (cfg_version opts)"

definition cfg_entity_to_JsonData :: "codec \<Rightarrow> config_options \<Rightarrow> exn + string" where
  "cfg_entity_to_JsonData c opts = member_to_JsonData c ''name'' (cfg_entity opts)"

definition versionAlias_to_JsonData :: "codec \<Rightarrow> alias_options \<Rightarrow> exn + string" where
  "versionAlias_to_JsonData c opts = member_to_JsonData c ''name'' (al_version_alias opts)"

definition al_run_to_JsonData :: "codec \<Rightarrow> alias_options \<Rightarrow> exn + string" where
  "al_run_to_JsonData c opts = member_to_JsonData c ''name'' (al_run opts)"

section \<open>Bulk operations\<close>

text \<open>\<open>BulkOperations::readJsonData\<close>: the operations read before a bad one stay in the list.\<close>

record bulk_operations =
  bo_process :: string
  bo_text :: string
  bo_list :: "(string \<times> document_options) list"

definition bulk_operation :: "process_env \<Rightarrow> codec \<Rightarrow> value_t \<Rightarrow> (bulk_operations, unit) prog" where
  "bulk_operation env c v =
     bindM (liftE (get_object v)) (\<lambda>ast.
     bindM (liftE (string_child ''operation'' ast)) (\<lambda>name.
     bindM (liftE (c_write c ast)) (\<lambda>buffer.
       (\<lambda>bulk. case readJsonData env c buffer (new_document_options env (bo_process bulk)) of
          (r, opts) \<Rightarrow> (r, bulk\<lparr>bo_list := bo_list bulk @ [(name, opts)]\<rparr>)))))"

definition bulk_readJsonData :: "process_env \<Rightarrow> codec \<Rightarrow> string \<Rightarrow> (bulk_operations, unit) prog" where
  "bulk_readJsonData env c data =
     thenM (confirm (data \<noteq> []))
     (parse_options c data (\<lambda>ast.
        thenM (\<lambda>bulk. (Inr (), bulk\<lparr>bo_text := dequote data\<rparr>))
        (bindM (liftE (array_child ''operations'' ast)) (\<lambda>vs. forM vs (bulk_operation env c)))))"

section \<open>Options survive their JSON form\<close>

lemma format_name_roundtrip: "to_data_format (format_to_string f) = Inr f"
  by (cases f) (simp_all add: to_data_format_def)

definition opt_pair :: "string \<Rightarrow> string \<Rightarrow> object_t" where
  "opt_pair k v = (if v = notprovided then [] else [(k, Str v)])"

lemma opt_pair_keys: "fst ` set (opt_pair k v) \<subseteq> {k}"
  by (simp add: opt_pair_def)

lemma map_of_opt_pair [simp]:
  "map_of (opt_pair k v @ ps) k' = (if k' = k \<and> v \<noteq> notprovided then Some (Str v) else map_of ps k')"
  "map_of (opt_pair k v) k' = (if k' = k \<and> v \<noteq> notprovided then Some (Str v) else None)"
  by (auto simp: opt_pair_def map_add_def)

lemma add_option_run: "v \<noteq> [] \<Longrightarrow> map_of ast k = None \<Longrightarrow> add_option k v ast = Inr (ast @ opt_pair k v)"
  by (simp add: add_option_def getter_def opt_pair_def table_set_absent map_of_eq_None_iff)

lemma add_option_unless_run:
  "v \<noteq> [] \<Longrightarrow> op_operation opts \<noteq> [] \<Longrightarrow> map_of ast k = None \<Longrightarrow>
    add_option_unless x opts k v ast = Inr (ast @ (if op_operation opts = x then [] else opt_pair k v))"
  by (simp add: add_option_unless_def getter_def opt_pair_def table_set_absent map_of_eq_None_iff)

lemma string_child_cases: "string_child k ast =
    (case map_of ast k of None \<Rightarrow> Inl Out_of_range | Some v \<Rightarrow> get_string v)"
  by (simp add: string_child_def table_at_map_of split: option.splits)

text \<open>Reading back a member that was written when it was provided, into options that do not have it yet.\<close>

lemma attempt_member:
  assumes "map_of ast k = (if v = notprovided then None else Some (Str v))" "v \<noteq> []"
    and "v = notprovided \<Longrightarrow> upd (\<lambda>_. v) s = s"
  shows "attempt (from_member k ast (setter upd)) s = (Inr (), upd (\<lambda>_. v) s)"
  using assms
  by (auto simp: attempt_def from_member_def catchM_run bindM_run liftE_run retM_run setter_def string_child_cases)

definition filter_table :: "document_options \<Rightarrow> object_t" where
  "filter_table opts =
     opt_pair ''version'' (opt_version opts) @ opt_pair ''entities.name'' (opt_entity opts) @
     (if op_operation opts = ''addconfig'' then [] else opt_pair ''configurations.name'' (opt_configuration opts))"

definition options_table :: "document_options \<Rightarrow> object_t" where
  "options_table opts =
     [(''filter'', Obj (filter_table opts)), (''operation'', Str (op_operation opts)),
      (''collection'', Str (op_collection opts)), (''dataformat'', Str (format_to_string (op_format opts)))] @
     opt_pair ''configuration'' (opt_configuration opts) @ opt_pair ''source'' (opt_source opts) @
     opt_pair ''entity'' (opt_entity opts) @ opt_pair ''version'' (opt_version opts) @ opt_pair ''run'' (opt_run opts)"

text \<open>Options whose members are printable and whose filter is not given explicitly.\<close>

definition wf_options :: "document_options \<Rightarrow> bool" where
  "wf_options opts \<longleftrightarrow>
     list_all (\<lambda>s. s \<noteq> [] \<and> text_ok s) [op_operation opts, op_collection opts, opt_version opts, opt_entity opts,
       opt_run opts, opt_configuration opts, opt_source opts] \<and>
     op_format opts \<noteq> Format_unknown \<and> op_query opts = notprovided"

lemma printable_opt_pair: "text_ok k \<Longrightarrow> text_ok v \<Longrightarrow> list_all (\<lambda>p. text_ok (fst p) \<and> printable (snd p)) (opt_pair k v)"
  by (simp add: opt_pair_def)

lemma text_ok_names:
  "text_ok ''version''" "text_ok ''entities.name''" "text_ok ''configurations.name''" "text_ok ''filter''" "text_ok ''operation''"
  "text_ok ''collection''" "text_ok ''dataformat''" "text_ok ''configuration''" "text_ok ''source''" "text_ok ''entity''" "text_ok ''run''"
  "text_ok (format_to_string f)"
  by (code_simp, code_simp, code_simp, code_simp, code_simp, code_simp, code_simp, code_simp, code_simp, code_simp, code_simp)
    (cases f; simp add: backslash_def dquote_def)

lemma tables_printable:
  assumes "wf_options opts"
  shows "printable (Obj (filter_table opts))" "printable (Obj (options_table opts))"
proof -
  note names = text_ok_names printable_opt_pair
  have f: "list_all (\<lambda>p. text_ok (fst p) \<and> printable (snd p)) (filter_table opts)"
    using assms by (simp add: filter_table_def wf_options_def names del: text_ok.simps)
  then show "printable (Obj (filter_table opts))" by simp
  show "printable (Obj (options_table opts))"
    using assms f by (simp add: options_table_def wf_options_def names del: text_ok.simps)
qed

lemma read_empty_json: "read_table (boost_codec kd qd) empty_json = Inr []"
proof -
  have "json_parse qd empty_json = Some []" unfolding empty_json_def by code_simp
  then show ?thesis by (simp add: read_table_def boost_codec_def json_read_def empty_json_def)
qed

lemma read_written:
  "boost_ok qd ps \<Longrightarrow> c_write (boost_codec kd qd) ps = Inr t \<Longrightarrow> read_table (boost_codec kd qd) t = Inr ps"
  using boost.read_write by (simp add: read_table_def)

definition filter_text :: "codec \<Rightarrow> document_options \<Rightarrow> exn + string" where
  "filter_text c opts = (if filter_table opts = [] then Inr empty_json else c_write c (filter_table opts))"

lemma query_filter_run:
  assumes "wf_options opts"
  shows "query_filter_to_JsonData (boost_codec kd qd) opts = filter_text (boost_codec kd qd) opts"
proof -
  let ?v = "opt_version opts" and ?e = "opt_entity opts" and ?g = "opt_configuration opts"
  have m: "?v \<noteq> []" "?e \<noteq> []" "?g \<noteq> []" "op_operation opts \<noteq> []" "op_query opts = notprovided" "notprovided \<noteq> []"
    using assms by (simp_all add: wf_options_def notprovided_def)
  have "chainE [add_option ''version'' ?v, add_option ''entities.name'' ?e,
      add_option_unless ''addconfig'' opts ''configurations.name'' ?g] [] = Inr (filter_table opts)"
    using m by (simp add: add_option_run add_option_unless_run filter_table_def)
  then show ?thesis using m read_empty_json[of kd qd]
    by (simp add: query_filter_to_JsonData_def made_filter_def base_query_filter_def getter_def filter_text_def del: chainE.simps)
qed

lemma options_written:
  assumes "wf_options opts" "refuses_other qd"
  shows "\<exists>t. writeJsonData (boost_codec kd qd) opts = Inr t \<and> c_read (boost_codec kd qd) t = Inr (Some (options_table opts)) \<and> t \<noteq> []"
proof -
  let ?c = "boost_codec kd qd"
  let ?F = "filter_table opts"
  let ?B = "[(''filter'', Obj ?F), (''operation'', Str (op_operation opts)),
      (''collection'', Str (op_collection opts)), (''dataformat'', Str (format_to_string (op_format opts)))]"
  have m: "op_operation opts \<noteq> []" "op_collection opts \<noteq> []" "opt_configuration opts \<noteq> []" "opt_source opts \<noteq> []"
    "opt_entity opts \<noteq> []" "opt_version opts \<noteq> []" "opt_run opts \<noteq> []" "op_format opts \<noteq> Format_unknown"
    using assms(1) by (simp_all add: wf_options_def)
  have ok: "boost_ok qd ?F" "boost_ok qd (options_table opts)"
    using tables_printable[OF assms(1)] assms(2) by (simp_all add: boost_ok_def del: printable.simps)
  have okB: "boost_ok qd ?B" using ok(2) by (simp add: boost_ok_def options_table_def del: text_ok.simps)
  obtain ft where ft: "filter_text ?c opts = Inr ft" "read_table ?c ft = Inr ?F"
  proof (cases "?F = []")
    case True
    then show ?thesis using that read_empty_json by (simp add: filter_text_def)
  next
    case False
    then obtain ft where "c_write ?c ?F = Inr ft" using boost.write_ok[OF ok(1)] by blast
    then show ?thesis using that read_written[OF ok(1)] False by (simp add: filter_text_def)
  qed
  obtain bt where bt: "c_write ?c ?B = Inr bt" using boost.write_ok[OF okB] by blast
  have base: "base_writeJsonData ?c (query_filter_to_JsonData ?c opts) opts = Inr bt"
    using m ft bt by (simp add: base_writeJsonData_def query_filter_run[OF assms(1)] getter_def get_format_def)
  have "chainE [add_option ''configuration'' (opt_configuration opts), add_option ''source'' (opt_source opts),
        add_option ''entity'' (opt_entity opts), add_option ''version'' (opt_version opts), add_option ''run'' (opt_run opts)] ?B
      = Inr (options_table opts)"
    using m by (simp add: add_option_run options_table_def)
  then have w: "writeJsonData ?c opts = c_write ?c (options_table opts)"
    using base read_written[OF okB bt] by (simp add: writeJsonData_def written_with_def del: chainE.simps)
  obtain t where t: "c_write ?c (options_table opts) = Inr t"
    using boost.write_ok[OF ok(2)] by (auto simp: options_table_def)
  then show ?thesis using w boost.read_write[OF ok(2) t] by (intro exI[of _ t]) simp
qed

lemma written_not_quoted: "c_write (boost_codec kd qd) ps = Inr t \<Longrightarrow> dequote t = t \<and> t \<noteq> [] \<and> t \<noteq> notprovided"
  by (auto simp: boost_codec_def json_write_def dequote_def enclosed_def dquote_def squote_def notprovided_def split: if_splits)

lemma member_of_options:
  "map_of (options_table opts) ''operation'' = Some (Str (op_operation opts))"
  "map_of (options_table opts) ''collection'' = Some (Str (op_collection opts))"
  "map_of (options_table opts) ''dataformat'' = Some (Str (format_to_string (op_format opts)))"
  "map_of (options_table opts) ''filter'' = Some (Obj (filter_table opts))"
  "map_of (options_table opts) ''configuration'' = (if opt_configuration opts = notprovided then None else Some (Str (opt_configuration opts)))"
  "map_of (options_table opts) ''source'' = (if opt_source opts = notprovided then None else Some (Str (opt_source opts)))"
  "map_of (options_table opts) ''entity'' = (if opt_entity opts = notprovided then None else Some (Str (opt_entity opts)))"
  "map_of (options_table opts) ''version'' = (if opt_version opts = notprovided then None else Some (Str (opt_version opts)))"
  "map_of (options_table opts) ''run'' = (if opt_run opts = notprovided then None else Some (Str (opt_run opts)))"
  by (simp_all add: options_table_def del: map_of_append)

lemma member_of_filter:
  "map_of (filter_table opts) ''version'' = (if opt_version opts = notprovided then None else Some (Str (opt_version opts)))"
  "map_of (filter_table opts) ''entities.name'' = (if opt_entity opts = notprovided then None else Some (Str (opt_entity opts)))"
  "map_of (filter_table opts) ''runs.name'' = None"
  "map_of (filter_table opts) ''configurations.name'' =
    (if op_operation opts = ''addconfig'' \<or> opt_configuration opts = notprovided then None else Some (Str (opt_configuration opts)))"
  by (simp_all add: filter_table_def del: map_of_append)
lemma attempt_run: "m s = (Inr x, s') \<Longrightarrow> attempt m s = (Inr (), s')"
  by (simp add: attempt_def catchM_run bindM_run retM_run)

lemma attempt_failed: "m s = (Inl e, s) \<Longrightarrow> e \<noteq> Undefined \<Longrightarrow> attempt m s = (Inr (), s)"
  by (simp add: attempt_def catchM_run bindM_run retM_run any_exn_def)

text \<open>The query options have after reading: the text of their filter, if there is one.\<close>

definition query_read :: "codec \<Rightarrow> document_options \<Rightarrow> string" where
  "query_read c opts =
     (if filter_table opts = [] then notprovided
      else case c_write c (filter_table opts) of Inr t \<Rightarrow> t | Inl _ \<Rightarrow> [])"

lemma provider_run:
  "set_provider (getProviderFromURI env) s = (Inr (getProviderFromURI env), s\<lparr>op_provider := getProviderFromURI env\<rparr>)"
  by (simp add: set_provider_def getProviderFromURI_def valid_provider_def not_equal_def string_equal_def setter_def
      thenM_run bindM_run confirm_run liftE_run)

lemma base_read_run:
  fixes s :: document_options
  assumes "wf_options opts" "refuses_other qd" "c_read (boost_codec kd qd) t = Inr (Some (options_table opts))" "t \<noteq> []"
    "t \<noteq> notprovided" "op_query s = notprovided"
  shows "base_readJsonData env (boost_codec kd qd) t s = (Inr (), s\<lparr>op_provider := getProviderFromURI env,
    op_operation := op_operation opts, op_format := op_format opts, op_collection := op_collection opts,
    op_query := query_read (boost_codec kd qd) opts\<rparr>)"
proof -
  let ?c = "boost_codec kd qd"
  let ?T = "options_table opts"
  let ?F = "filter_table opts"
  have m: "op_operation opts \<noteq> []" "op_collection opts \<noteq> []" using assms(1) by (simp_all add: wf_options_def)
  have ok: "boost_ok qd ?F" using tables_printable(1)[OF assms(1)] assms(2) by (simp add: boost_ok_def del: printable.simps)
  have p: "attempt (set_provider (getProviderFromURI env)) u = (Inr (), u\<lparr>op_provider := getProviderFromURI env\<rparr>)" for u :: document_options
    by (rule attempt_run) (rule provider_run)
  have o: "attempt (from_member ''operation'' ?T set_operation) u = (Inr (), u\<lparr>op_operation := op_operation opts\<rparr>)" for u :: document_options
    by (rule attempt_run) (simp add: from_member_def string_child_cases member_of_options bindM_run liftE_run set_operation_def
        setter_def m)
  have f: "attempt (from_member ''dataformat'' ?T set_format_name) u = (Inr (), u\<lparr>op_format := op_format opts\<rparr>)" for u :: document_options
    by (rule attempt_run) (simp add: from_member_def string_child_cases member_of_options bindM_run liftE_run set_format_name_def
        format_name_roundtrip)
  have l: "attempt (from_member ''collection'' ?T set_collection) u = (Inr (), u\<lparr>op_collection := op_collection opts\<rparr>)" for u :: document_options
    by (rule attempt_run) (simp add: from_member_def string_child_cases member_of_options bindM_run liftE_run set_collection_def
        setter_def m)
  have F: "object_child ''filter'' ?T = Inr ?F" by (simp add: child_Inr member_of_options)
  have q: "attempt (bindM (liftE (object_child ''filter'' ?T)) (\<lambda>filt. if filt = [] then retM []
        else bindM (liftE (c_write ?c filt)) set_queryFilter)) u = (Inr (), u\<lparr>op_query := query_read ?c opts\<rparr>)"
    if "op_query u = notprovided" for u :: document_options
  proof (cases "?F = []")
    case True
    then show ?thesis using that F by (intro attempt_run) (simp add: bindM_run liftE_run retM_run query_read_def)
  next
    case False
    then obtain ft where ft: "c_write ?c ?F = Inr ft" using boost.write_ok[OF ok] by blast
    then show ?thesis using written_not_quoted[OF ft] False F
      by (intro attempt_run) (simp add: bindM_run liftE_run query_read_def set_queryFilter_def thenM_run confirm_run)
  qed
  show ?thesis using assms(3-6)
    by (simp add: base_readJsonData_def parse_options_def thenM_run bindM_run confirm_run liftE_run p o f l q retM_run)
qed

definition with_members :: "document_options \<Rightarrow> document_options \<Rightarrow> document_options" where
  "with_members opts s = s\<lparr>opt_configuration := opt_configuration opts, opt_version := opt_version opts,
    opt_entity := opt_entity opts, opt_run := opt_run opts, opt_source := opt_source opts\<rparr>"

lemmas member_setters = set_configuration_def set_version_def set_entity_def set_run_def set_sourceFileName_def

lemma members_run:
  assumes "wf_options opts"
    and "list_all (\<lambda>m. m = notprovided) [opt_configuration s, opt_source s, opt_entity s, opt_version s, opt_run s]"
  shows "seqM [attempt (from_member ''configuration'' (options_table opts) set_configuration),
      attempt (from_member ''version'' (options_table opts) set_version),
      attempt (from_member ''entity'' (options_table opts) set_entity),
      attempt (from_member ''run'' (options_table opts) set_run),
      attempt (from_member ''source'' (options_table opts) set_sourceFileName), M] s = thenM M (retM ()) (with_members opts s)"
  using assms unfolding member_setters
  by (simp add: thenM_run attempt_member member_of_options with_members_def wf_options_def)

lemma filter_members_run:
  assumes "wf_options opts"
  shows "seqM [attempt (from_member ''version'' (filter_table opts) set_version),
      attempt (from_member ''entities.name'' (filter_table opts) set_entity),
      attempt (from_member ''configurations.name'' (filter_table opts) set_configuration),
      attempt (from_member ''runs.name'' (filter_table opts) set_run)] (with_members opts s) = (Inr (), with_members opts s)"
proof -
  let ?F = "filter_table opts" and ?s = "with_members opts s"
  have m: "opt_configuration opts \<noteq> []" "opt_entity opts \<noteq> []" "opt_version opts \<noteq> []"
    using assms by (simp_all add: wf_options_def)
  have v: "attempt (from_member ''version'' ?F set_version) ?s = (Inr (), ?s)"
    unfolding set_version_def using m
    by (subst attempt_member[where v = "opt_version opts"]) (simp_all add: member_of_filter with_members_def)
  have e: "attempt (from_member ''entities.name'' ?F set_entity) ?s = (Inr (), ?s)"
    unfolding set_entity_def using m
    by (subst attempt_member[where v = "opt_entity opts"]) (simp_all add: member_of_filter with_members_def)
  have g: "attempt (from_member ''configurations.name'' ?F set_configuration) ?s = (Inr (), ?s)"
  proof (cases "op_operation opts = ''addconfig''")
    case True
    then show ?thesis by (intro attempt_failed) (auto simp: from_member_def string_child_cases member_of_filter bindM_run liftE_run)
  next
    case False
    then show ?thesis unfolding set_configuration_def using m
      by (subst attempt_member[where v = "opt_configuration opts"]) (simp_all add: member_of_filter with_members_def)
  qed
  have r: "attempt (from_member ''runs.name'' ?F set_run) ?s = (Inr (), ?s)"
    by (intro attempt_failed) (auto simp: from_member_def string_child_cases member_of_filter bindM_run liftE_run)
  show ?thesis by (simp add: thenM_run v e g r retM_run)
qed

lemma with_filter_run:
  assumes "f (filter_table opts) s = (Inr (), s)" "filter_table opts = [] \<Longrightarrow> op_query s = notprovided"
  shows "with_filter (options_table opts) f s = (Inr (), s :: document_options)"
proof -
  have o: "object_child ''filter'' (options_table opts) = Inr (filter_table opts)" by (simp add: child_Inr member_of_options)
  have d: "dequote notprovided = notprovided" "notprovided \<noteq> []" by code_simp+
  show ?thesis
  proof (cases "filter_table opts = []")
    case True
    then have "s\<lparr>op_query := notprovided\<rparr> = s" using assms(2) by (cases s) simp
    then show ?thesis using assms(1) o d True unfolding with_filter_def
      by (intro attempt_run[where x = "()"]) (simp add: bindM_run liftE_run thenM_run set_queryFilter_def confirm_run retM_run)
  next
    case False
    then show ?thesis using assms(1) o unfolding with_filter_def
      by (intro attempt_run[where x = "()"]) (simp add: bindM_run liftE_run thenM_run retM_run)
  qed
qed

text \<open>C24.  Options that are written as JSON and read into fresh options come back: every member is
  the one written, the provider is taken from the process again, the result file is not part
  of the text, and the query is the text of the search filter the options stand for.\<close>

theorem options_roundtrip:
  assumes "wf_options opts" "refuses_other qd"
  shows "\<exists>t. writeJsonData (boost_codec kd qd) opts = Inr t \<and>
    readJsonData env (boost_codec kd qd) t (new_document_options env process) =
      (Inr (), opts\<lparr>op_process := process, op_provider := getProviderFromURI env, op_result := notprovided,
        op_query := query_read (boost_codec kd qd) opts\<rparr>)"
proof -
  let ?c = "boost_codec kd qd"
  obtain t where t: "writeJsonData ?c opts = Inr t" "c_read ?c t = Inr (Some (options_table opts))" "t \<noteq> []"
    using options_written[OF assms] by blast
  have np: "t \<noteq> notprovided"
    using t(1) written_not_quoted by (auto simp: writeJsonData_def written_with_def bindE_eq_Inr)
  define s0 where "s0 = new_document_options env process"
  have s0: "op_query s0 = notprovided" "op_process s0 = process" "op_result s0 = notprovided"
    "list_all (\<lambda>m. m = notprovided) [opt_configuration s0, opt_source s0, opt_entity s0, opt_version s0, opt_run s0]"
    by (simp_all add: s0_def new_document_options_def new_operation_base_def operation_base.extend_def document_options.fields_def)
  define s1 where "s1 = s0\<lparr>op_provider := getProviderFromURI env, op_operation := op_operation opts,
    op_format := op_format opts, op_collection := op_collection opts, op_query := query_read ?c opts\<rparr>"
  have base: "base_readJsonData env ?c t s0 = (Inr (), s1)"
    unfolding s1_def by (rule base_read_run[OF assms t(2,3) np s0(1)])
  have "list_all (\<lambda>m. m = notprovided) [opt_configuration s1, opt_source s1, opt_entity s1, opt_version s1, opt_run s1]"
    using s0(4) by (simp add: s1_def)
  note members = members_run[OF assms(1) this]
  have query: "filter_table opts = [] \<Longrightarrow> op_query (with_members opts s1) = notprovided"
    by (simp add: with_members_def s1_def query_read_def)
  have filtered: "with_filter (options_table opts) (\<lambda>filt. seqM [
      attempt (from_member ''version'' filt set_version),
      attempt (from_member ''entities.name'' filt set_entity),
      attempt (from_member ''configurations.name'' filt set_configuration),
      attempt (from_member ''runs.name'' filt set_run)]) (with_members opts s1) = (Inr (), with_members opts s1)"
    by (rule with_filter_run) (rule filter_members_run[OF assms(1)], rule query)
  have "readJsonData env ?c t s0 = (Inr (), with_members opts s1)"
    using t(2,3) base filtered
    by (simp add: readJsonData_def parse_options_def thenM_run bindM_run confirm_run liftE_run retM_run members del: seqM.simps)
  moreover have "with_members opts s1 = opts\<lparr>op_process := process, op_provider := getProviderFromURI env,
        op_result := notprovided, op_query := query_read ?c opts\<rparr>"
    using s0(2,3) by (cases opts; cases s0) (simp add: with_members_def s1_def)
  ultimately show ?thesis using t(1) unfolding s0_def by (intro exI[of _ t]) simp
qed

definition demo_env :: process_env where
  "demo_env = \<lparr>env_uri = ''filesystemdb:///db'', env_expand = Inr, env_file = (\<lambda>_. None)\<rparr>"

definition demo_options :: document_options where
  "demo_options = (new_document_options demo_env ''conftool'')\<lparr>op_operation := ''store'', op_format := Format_json,
     op_collection := ''c'', opt_version := ''v1'', opt_entity := ''e''\<rparr>"

theorem options_roundtrip_witness:
  "\<exists>t. writeJsonData (boost_codec decimal_to_string no_doubles) demo_options = Inr t \<and>
    opt_entity (snd (readJsonData demo_env (boost_codec decimal_to_string no_doubles) t (new_document_options demo_env ''p''))) = ''e''"
proof -
  have "wf_options demo_options" by code_simp
  moreover have "refuses_other no_doubles" by (simp add: refuses_other_def no_doubles_def)
  ultimately obtain t where t: "writeJsonData (boost_codec decimal_to_string no_doubles) demo_options = Inr t"
    "readJsonData demo_env (boost_codec decimal_to_string no_doubles) t (new_document_options demo_env ''p'') =
      (Inr (), demo_options\<lparr>op_process := ''p'', op_provider := getProviderFromURI demo_env, op_result := notprovided,
        op_query := query_read (boost_codec decimal_to_string no_doubles) demo_options\<rparr>)"
    using options_roundtrip by blast
  then show ?thesis by (intro exI[of _ t]) (simp add: demo_options_def)
qed

end
