(* ===== verification/Patterns.thy ===== *)
theory Patterns
  imports JsonCodec
begin

text \<open>
  \<open>std::regex_search\<close> for the part of the ECMAScript grammar the client operations use: the
  matches of a pattern in the order a backtracking matcher tries them, so that the first one
  is the match the library reports.  A group records the text it matched last.
\<close>

datatype re =
    Chr char
  | Space                   \<comment> \<open>a white space class\<close>
  | Except "char list"      \<comment> \<open>a negated set\<close>
  | Eps
  | Both re re
  | Alt re re
  | Star re                 \<comment> \<open>greedy repetition\<close>
  | Group nat re

type_synonym groups = "(nat \<times> string) list"

text \<open>A repetition goes on as long as its body consumes something; \<open>n\<close> bounds the rounds by the
  length of the text.\<close>

fun rounds :: "nat \<Rightarrow> (groups \<times> string \<Rightarrow> (groups \<times> string) list) \<Rightarrow> groups \<times> string \<Rightarrow> (groups \<times> string) list" where
  "rounds 0 f m = [m]"
| "rounds (Suc n) f m = concat (map (rounds n f) (filter (\<lambda>m'. length (snd m') < length (snd m)) (f m))) @ [m]"

fun re_matches :: "re \<Rightarrow> groups \<times> string \<Rightarrow> (groups \<times> string) list" where
  "re_matches (Chr c) (g, s) = (case s of [] \<Rightarrow> [] | d # t \<Rightarrow> if d = c then [(g, t)] else [])"
| "re_matches Space (g, s) = (case s of [] \<Rightarrow> [] | d # t \<Rightarrow> if is_space d then [(g, t)] else [])"
| "re_matches (Except cs) (g, s) = (case s of [] \<Rightarrow> [] | d # t \<Rightarrow> if d \<in> set cs then [] else [(g, t)])"
| "re_matches Eps m = [m]"
| "re_matches (Both r q) m = concat (map (re_matches q) (re_matches r m))"
| "re_matches (Alt r q) m = re_matches r m @ re_matches q m"
| "re_matches (Star r) m = rounds (length (snd m)) (re_matches r) m"
| "re_matches (Group i r) (g, s) =
     map (\<lambda>(g', t). ((i, take (length s - length t) s) # g', t)) (re_matches r (g, s))"

text \<open>The leftmost match: its groups and the text behind it.\<close>

fun re_search :: "re \<Rightarrow> string \<Rightarrow> (groups \<times> string) option" where
  "re_search r [] = (case re_matches r ([], []) of [] \<Rightarrow> None | m # _ \<Rightarrow> Some m)"
| "re_search r (c # s) = (case re_matches r ([], c # s) of [] \<Rightarrow> re_search r s | m # _ \<Rightarrow> Some m)"

definition re_group :: "nat \<Rightarrow> groups \<Rightarrow> string" where
  "re_group i g = (case map_of g i of None \<Rightarrow> [] | Some s \<Rightarrow> s)"

definition re_text :: "string \<Rightarrow> re" where
  "re_text s = foldr (\<lambda>c. Both (Chr c)) s Eps"

definition re_all :: "re list \<Rightarrow> re" where
  "re_all rs = foldr Both rs Eps"

definition re_plus :: "re \<Rightarrow> re" where
  "re_plus r = Both r (Star r)"

section \<open>First matches\<close>

definition first_match :: "re \<Rightarrow> groups \<times> string \<Rightarrow> groups \<times> string \<Rightarrow> bool" where
  "first_match r m m' \<longleftrightarrow> (\<exists>ms. re_matches r m = m' # ms)"

named_theorems firsts \<open>what a pattern matches first\<close>

lemma first_Chr [firsts]: "first_match (Chr c) (g, c # t) (g, t)"
  by (simp add: first_match_def)

lemma first_Space [firsts]: "is_space c \<Longrightarrow> first_match Space (g, c # t) (g, t)"
  by (simp add: first_match_def)

lemma first_Except [firsts]: "c \<notin> set cs \<Longrightarrow> first_match (Except cs) (g, c # t) (g, t)"
  by (simp add: first_match_def)

lemma first_Eps [firsts]: "first_match Eps m m"
  by (simp add: first_match_def)

lemma first_Both [firsts]: "first_match r m m1 \<Longrightarrow> first_match q m1 m2 \<Longrightarrow> first_match (Both r q) m m2"
  by (auto simp: first_match_def)

lemma first_Alt_left [firsts]: "first_match r m m' \<Longrightarrow> first_match (Alt r q) m m'"
  by (auto simp: first_match_def)

lemma first_Alt_right: "re_matches r m = [] \<Longrightarrow> first_match q m m' \<Longrightarrow> first_match (Alt r q) m m'"
  by (auto simp: first_match_def)

lemma first_Group:
  "first_match r (g, x @ t) (g', t) \<Longrightarrow> first_match (Group i r) (g, x @ t) ((i, x) # g', t)"
  by (auto simp: first_match_def)

lemma first_all: "first_match (re_all []) m m"
  "first_match r m m1 \<Longrightarrow> first_match (re_all rs) m1 m2 \<Longrightarrow> first_match (re_all (r # rs)) m m2"
  unfolding re_all_def by (auto intro: firsts)

lemma first_text: "first_match (re_text s) (g, s @ t) (g, t)"
  by (induction s) (auto simp: re_text_def intro!: firsts)

lemma first_Star_stop: "re_matches r m = [] \<Longrightarrow> first_match (Star r) m m"
  by (cases "length (snd m)") (simp_all add: first_match_def)

text \<open>A repetition over characters that its body matches one by one; \<open>P\<close> relates the groups before and
  behind it.\<close>

lemma first_rounds:
  assumes "\<And>c g t. c \<in> set x \<Longrightarrow> \<exists>g' ms. re_matches r (g, c # t) = (g', t) # ms \<and> P g g'"
    and "\<And>g. re_matches r (g, t) = []" "length x + length t \<le> n"
    and "\<And>g. P g g" "\<And>g g1 g2. P g g1 \<Longrightarrow> P g1 g2 \<Longrightarrow> P g g2"
  shows "\<exists>g' ms. rounds n (re_matches r) (g, x @ t) = (g', t) # ms \<and> P g g'"
  using assms(1-3)
proof (induction x arbitrary: g n)
  case Nil
  then show ?case using assms(4) by (cases n) auto
next
  case (Cons c x)
  obtain k where k: "n = Suc k" "length x + length t \<le> k" using Cons.prems(3) by (cases n) auto
  obtain g1 ms1 where m1: "re_matches r (g, c # x @ t) = (g1, x @ t) # ms1" "P g g1" using Cons.prems(1) by fastforce
  obtain g2 ms2 where m2: "rounds k (re_matches r) (g1, x @ t) = (g2, t) # ms2" "P g1 g2"
    using Cons.IH[of k g1] Cons.prems(1,2) k(2) by auto
  have "P g g2" using assms(5) m1(2) m2(2) by blast
  then show ?case using m1(1) m2(1) by (intro exI[of _ g2]) (simp add: k(1))
qed

lemma first_Star:
  assumes "\<And>c g t. c \<in> set x \<Longrightarrow> \<exists>g' ms. re_matches r (g, c # t) = (g', t) # ms \<and> P g g'"
    and "\<And>g. re_matches r (g, t) = []"
    and "\<And>g. P g g" "\<And>g g1 g2. P g g1 \<Longrightarrow> P g1 g2 \<Longrightarrow> P g g2"
  shows "\<exists>g'. first_match (Star r) (g, x @ t) (g', t) \<and> P g g'"
  using first_rounds[where n = "length (x @ t)", OF assms(1,2) _ assms(3,4)] by (auto simp: first_match_def)

lemma search_first: "first_match r ([], s) m \<Longrightarrow> re_search r s = Some m"
  by (cases s) (auto simp: first_match_def)

lemma search_skip: "re_matches r ([], c # s) = [] \<Longrightarrow> re_search r (c # s) = re_search r s"
  by simp

section \<open>Quoted texts\<close>

text \<open>\<open>(\\"|[^"])*\<close> between quotes: the inner group is numbered as well.\<close>

definition quoted_group :: "nat \<Rightarrow> re" where
  "quoted_group i = Both (Chr dquote)
     (Both (Group i (Star (Group (Suc i) (Alt (Both (Chr backslash) (Chr dquote)) (Except [dquote]))))) (Chr dquote))"

definition plain :: "string \<Rightarrow> bool" where
  "plain s \<longleftrightarrow> dquote \<notin> set s \<and> backslash \<notin> set s"

text \<open>A matcher of one group leaves the others alone.\<close>

definition keeps :: "nat set \<Rightarrow> groups \<Rightarrow> groups \<Rightarrow> bool" where
  "keeps K g g' \<longleftrightarrow> (\<forall>j. j \<notin> K \<longrightarrow> map_of g' j = map_of g j)"

lemma keeps_simps [simp]: "keeps K g g" "i \<in> K \<Longrightarrow> keeps K g ((i, x) # g') = keeps K g g'"
  by (auto simp: keeps_def)

lemma keeps_trans: "keeps K g g1 \<Longrightarrow> keeps K g1 g2 \<Longrightarrow> keeps K g g2"
  by (simp add: keeps_def)

lemma first_quoted_group:
  assumes "plain x"
  shows "\<exists>g'. first_match (quoted_group i) (g, quoted x @ t) ((i, x) # g', t) \<and> keeps {Suc i} g g'"
proof -
  let ?r = "Group (Suc i) (Alt (Both (Chr backslash) (Chr dquote)) (Except [dquote]))"
  have "\<exists>g'. first_match (Star ?r) (g, x @ dquote # t) (g', dquote # t) \<and> keeps {Suc i} g g'"
    using assms by (intro first_Star) (auto simp: plain_def dquote_def backslash_def intro: keeps_trans)
  then obtain g' where g': "first_match (Group i (Star ?r)) (g, x @ dquote # t) ((i, x) # g', dquote # t)" "keeps {Suc i} g g'"
    using first_Group by blast
  then show ?thesis unfolding quoted_group_def quoted_def
    by (intro exI[of _ g']) (auto intro!: first_Both first_Chr)
qed

lemma first_blanks:
  assumes "list_all is_space ws" "t = [] \<or> \<not> is_space (hd t)"
  shows "first_match (Star Space) (g, ws @ t) (g, t)"
proof -
  have "\<exists>g'. first_match (Star Space) (g, ws @ t) (g', t) \<and> g = g'"
    using assms by (intro first_Star) (auto simp: list_all_iff split: list.splits)
  then show ?thesis by blast
qed

end
