(* ===== verification/JsonText.thy ===== *)
theory JsonText
  imports JsonCodec
begin

text \<open>
  Texts the code prints by hand.  The client operations and the providers build JSON with string
  streams, around values the writer printed.  What the reader makes of such a text follows from
  the rules below, one per way of putting a text together.  A parser may leave white space in
  front of the rest, which every parser that goes on skips.
\<close>

section \<open>What a text reads as\<close>

definition parses :: "(string \<Rightarrow> (64 word \<times> string) option) \<Rightarrow> string \<Rightarrow> value_t \<Rightarrow> bool" where
  "parses qd s v \<longleftrightarrow>
     (\<forall>n r. length s \<le> n \<longrightarrow> follows r \<longrightarrow> (\<exists>r'. p_value qd n (s @ r) = Some (v, r') \<and> skip r' = skip r))"

definition parses_data :: "(string \<Rightarrow> (64 word \<times> string) option) \<Rightarrow> string \<Rightarrow> data_t \<Rightarrow> bool" where
  "parses_data qd s d \<longleftrightarrow>
     (\<forall>n r. length s \<le> n \<longrightarrow> follows r \<longrightarrow>
       (\<exists>r'. p_data (\<lambda>r. p_value qd n r) (s @ r) = Some (d, r') \<and> skip r' = skip r))"

definition parses_table :: "(string \<Rightarrow> (64 word \<times> string) option) \<Rightarrow> string \<Rightarrow> object_t \<Rightarrow> bool" where
  "parses_table qd s ps \<longleftrightarrow>
     (\<forall>n r. length s \<le> Suc n \<longrightarrow>
       (\<exists>r'. p_bracketed (CHR ''{'') (CHR ''}'') (p_data (\<lambda>r. p_value qd n r)) (\<lambda>r. p_members qd n r) (s @ r)
          = Some (ps, r') \<and> skip r' = skip r))"

section \<open>White space\<close>

lemma skip_spaces: "list_all is_space ws \<Longrightarrow> skip (ws @ r) = skip r"
  by (induction ws) simp_all

lemma follows_skip: "skip r' = skip r \<Longrightarrow> follows r' = follows r"
  by (simp add: follows_def)

lemma p_lit_skip: "skip r' = skip r \<Longrightarrow> p_lit c r' = p_lit c r"
  by (simp add: p_lit_def)

lemma spaces_before:
  assumes "list_all is_space ws"
  shows "p_value qd n (ws @ s) = p_value qd n s" "p_data pv (ws @ s) = p_data pv s"
    "p_bracketed a b p f (ws @ s) = p_bracketed a b p f s"
  using assms by (induction ws) (simp_all add: p_value_skip p_data_skip skip_first)

lemma parses_before:
  assumes "list_all is_space ws"
  shows "parses qd s v \<Longrightarrow> parses qd (ws @ s) v" "parses_data qd s d \<Longrightarrow> parses_data qd (ws @ s) d"
    "parses_table qd s ps \<Longrightarrow> parses_table qd (ws @ s) ps"
  by (simp_all add: parses_def parses_data_def parses_table_def spaces_before[OF assms])

lemma parses_behind:
  assumes "list_all is_space ws"
  shows "parses qd s v \<Longrightarrow> parses qd (s @ ws) v" "parses_data qd s d \<Longrightarrow> parses_data qd (s @ ws) d"
    "parses_table qd s ps \<Longrightarrow> parses_table qd (s @ ws) ps"
proof -
  have f: "follows r \<Longrightarrow> follows (ws @ r)" "skip (ws @ r) = skip r" for r
    using skip_spaces[OF assms, of r] by (simp_all add: follows_def)
  show "parses qd s v \<Longrightarrow> parses qd (s @ ws) v" unfolding parses_def
  proof (intro allI impI)
    fix n r
    assume "\<forall>n r. length s \<le> n \<longrightarrow> follows r \<longrightarrow> (\<exists>r'. p_value qd n (s @ r) = Some (v, r') \<and> skip r' = skip r)"
      "length (s @ ws) \<le> n" "follows r"
    then show "\<exists>r'. p_value qd n ((s @ ws) @ r) = Some (v, r') \<and> skip r' = skip r"
      using f[of r] by (metis append_assoc length_append add_leD1)
  qed
  show "parses_data qd s d \<Longrightarrow> parses_data qd (s @ ws) d" unfolding parses_data_def
  proof (intro allI impI)
    fix n r
    assume "\<forall>n r. length s \<le> n \<longrightarrow> follows r \<longrightarrow>
        (\<exists>r'. p_data (\<lambda>r. p_value qd n r) (s @ r) = Some (d, r') \<and> skip r' = skip r)"
      "length (s @ ws) \<le> n" "follows r"
    then show "\<exists>r'. p_data (\<lambda>r. p_value qd n r) ((s @ ws) @ r) = Some (d, r') \<and> skip r' = skip r"
      using f[of r] by (metis append_assoc length_append add_leD1)
  qed
  show "parses_table qd s ps \<Longrightarrow> parses_table qd (s @ ws) ps" unfolding parses_table_def
  proof (intro allI impI)
    fix n r
    let ?P = "\<lambda>n. p_bracketed (CHR ''{'') (CHR ''}'') (p_data (\<lambda>r. p_value qd n r)) (\<lambda>r. p_members qd n r)"
    assume "\<forall>n r. length s \<le> Suc n \<longrightarrow> (\<exists>r'. ?P n (s @ r) = Some (ps, r') \<and> skip r' = skip r)"
      "length (s @ ws) \<le> Suc n"
    then show "\<exists>r'. ?P n ((s @ ws) @ r) = Some (ps, r') \<and> skip r' = skip r"
      using f(2)[of r] by (metis append_assoc length_append add_leD1)
  qed
qed

section \<open>Values\<close>

lemma parses_written:
  assumes "printable v" "refuses_other qd"
  shows "parses qd (write_value kd v) v"
  unfolding parses_def using p_value_written[OF assms(2,1)] fsize_le_length[OF assms(1), of kd]
  by (metis le_trans)

lemma parses_string: "text_ok x \<Longrightarrow> refuses_other qd \<Longrightarrow> parses qd (quoted x) (Str x)"
  using parses_written[of "Str x"] by simp

lemma parses_table_value:
  assumes "parses_table qd s ps" "s \<noteq> []"
  shows "parses qd s (Obj ps)"
  unfolding parses_def
proof (intro allI impI)
  fix n r
  assume n: "length s \<le> n" "follows r"
  then obtain m where m: "n = Suc m" using assms(2) by (cases n) auto
  obtain r' where "p_bracketed (CHR ''{'') (CHR ''}'') (p_data (\<lambda>r. p_value qd m r)) (\<lambda>r. p_members qd m r) (s @ r)
      = Some (ps, r')" "skip r' = skip r"
    using assms(1) n(1) m by (auto simp: parses_table_def)
  then show "\<exists>r'. p_value qd n (s @ r) = Some (Obj ps, r') \<and> skip r' = skip r" by (simp add: m)
qed

lemma parses_pair:
  assumes "text_ok k" "list_all is_space ws" "parses qd s v"
  shows "parses_data qd (quoted k @ ws @ '':'' @ s) (k, v)"
  unfolding parses_data_def
proof (intro allI impI)
  fix n r
  assume n: "length (quoted k @ ws @ '':'' @ s) \<le> n" "follows r"
  then have "length s \<le> n" by simp
  then obtain r' where r': "p_value qd n (s @ r) = Some (v, r')" "skip r' = skip r"
    using assms(3) n(2) unfolding parses_def by blast
  have "p_lit (CHR '':'') (ws @ CHR '':'' # s @ r) = Some (s @ r)"
    using p_lit_skip[OF skip_spaces[OF assms(2)], of "CHR '':''" "CHR '':'' # s @ r"] by simp
  then show "\<exists>r'. p_data (\<lambda>r. p_value qd n r) ((quoted k @ ws @ '':'' @ s) @ r) = Some ((k, v), r') \<and> skip r' = skip r"
    using r' p_string_quoted[OF assms(1)] by (simp add: p_data_def)
qed

lemmas parses_member = parses_pair[of _ "[]", simplified]

section \<open>Tables\<close>

lemma follows_commas: "follows (concat (map ((#) (CHR '','')) ts) @ r) \<longleftrightarrow> ts \<noteq> [] \<or> follows r"
  by (cases ts) (simp_all add: follows_def)

lemma p_members_reads:
  assumes "list_all2 (parses_data qd) ts ps" "sum_list (map (\<lambda>t. Suc (length t)) ts) \<le> n" "follows r"
    "p_lit (CHR '','') r = None" "skip s0 = skip (concat (map (\<lambda>t. '','' @ t) ts) @ r)"
  shows "\<exists>s. p_members qd n s0 = (ps, s) \<and> skip s = skip r"
  using assms
proof (induction arbitrary: n s0 rule: list_all2_induct)
  case Nil
  then have "p_lit (CHR '','') s0 = None" by (simp add: p_lit_skip[OF Nil.prems(4)])
  then show ?case using Nil.prems(4) by (cases n) simp_all
next
  case (Cons t ts d ps)
  obtain m where m: "n = Suc m" "length t + sum_list (map (\<lambda>t. Suc (length t)) ts) \<le> m" using Cons.prems(1) by (cases n) auto
  let ?rest = "concat (map (\<lambda>t. '','' @ t) ts) @ r"
  have "follows ?rest" using Cons.prems(2) by (simp add: follows_commas)
  moreover have "length t \<le> m" using m(2) by simp
  ultimately obtain r1 where r1: "p_data (\<lambda>r. p_value qd m r) (t @ ?rest) = Some (d, r1)" "skip r1 = skip ?rest"
    using Cons.hyps(1) unfolding parses_data_def by blast
  obtain s where s: "p_members qd m r1 = (ps, s)" "skip s = skip r"
    using Cons.IH[of m r1] m(2) Cons.prems(2,3) r1(2) by auto
  have "p_lit (CHR '','') s0 = Some (t @ ?rest)"
    using p_lit_skip[OF Cons.prems(4), of "CHR '',''"] by simp
  then show ?case using r1(1) s by (simp add: m(1))
qed

lemma join_commas: "join '','' (t # ts) = t @ concat (map (\<lambda>t. '','' @ t) ts)"
  by (simp add: join_Cons)

lemma parses_members:
  assumes "list_all2 (parses_data qd) ts ps"
  shows "parses_table qd (''{'' @ join '','' ts @ ''}'') ps"
  unfolding parses_table_def
proof (intro allI impI)
  fix n r
  assume n: "length (''{'' @ join '','' ts @ ''}'') \<le> Suc n"
  let ?P = "p_bracketed (CHR ''{'') (CHR ''}'') (p_data (\<lambda>r. p_value qd n r)) (\<lambda>r. p_members qd n r)"
  show "\<exists>r'. ?P ((''{'' @ join '','' ts @ ''}'') @ r) = Some (ps, r') \<and> skip r' = skip r"
  proof (cases ts)
    case Nil
    then show ?thesis using assms by (simp add: p_bracketed_def p_data_def p_string_def)
  next
    case (Cons t us)
    then obtain d qs where ps: "ps = d # qs" "parses_data qd t d" "list_all2 (parses_data qd) us qs"
      using assms by (auto simp: list_all2_Cons1)
    let ?rest = "concat (map (\<lambda>t. '','' @ t) us) @ CHR ''}'' # r"
    have close: "follows (CHR ''}'' # r)" "p_lit (CHR '','') (CHR ''}'' # r) = None" by (simp_all add: follows_def)
    have len: "length t + sum_list (map (\<lambda>t. Suc (length t)) us) \<le> n"
      using n by (simp add: Cons join_commas length_concat comp_def)
    have "follows ?rest" using close(1) by (simp add: follows_commas)
    moreover have "length t \<le> n" using len by simp
    ultimately obtain r1 where r1: "p_data (\<lambda>r. p_value qd n r) (t @ ?rest) = Some (d, r1)" "skip r1 = skip ?rest"
      using ps(2) unfolding parses_data_def by blast
    obtain s where s: "p_members qd n r1 = (qs, s)" "skip s = skip (CHR ''}'' # r)"
      using p_members_reads[OF ps(3) _ close r1(2), of n] len by auto
    have "p_lit (CHR ''}'') s = Some r" using p_lit_skip[OF s(2), of "CHR ''}''"] by simp
    then show ?thesis using r1(1) s(1) by (simp add: Cons join_commas ps(1) p_bracketed_def)
  qed
qed

lemma parses_parse:
  assumes "parses_table qd s ps"
  shows "json_parse qd (s @ rest) = Some ps"
proof -
  have "length s \<le> Suc (length (s @ rest))" by simp
  then obtain r' where "p_bracketed (CHR ''{'') (CHR ''}'') (p_data (p_value qd (length (s @ rest))))
      (p_members qd (length (s @ rest))) (s @ rest) = Some (ps, r')"
    using assms unfolding parses_table_def by blast
  then show ?thesis by (simp add: json_parse_def)
qed

section \<open>Arrays\<close>

lemma p_elements_reads:
  assumes "list_all2 (parses qd) ts vs" "sum_list (map (\<lambda>t. Suc (length t)) ts) \<le> n" "follows r"
    "p_lit (CHR '','') r = None" "skip s0 = skip (concat (map (\<lambda>t. '','' @ t) ts) @ r)"
  shows "\<exists>s. p_elements qd n s0 = (vs, s) \<and> skip s = skip r"
  using assms
proof (induction arbitrary: n s0 rule: list_all2_induct)
  case Nil
  then have "p_lit (CHR '','') s0 = None" by (simp add: p_lit_skip[OF Nil.prems(4)])
  then show ?case using Nil.prems(4) by (cases n) simp_all
next
  case (Cons t ts v vs)
  obtain m where m: "n = Suc m" "length t + sum_list (map (\<lambda>t. Suc (length t)) ts) \<le> m" using Cons.prems(1) by (cases n) auto
  let ?rest = "concat (map (\<lambda>t. '','' @ t) ts) @ r"
  have "follows ?rest" using Cons.prems(2) by (simp add: follows_commas)
  moreover have "length t \<le> m" using m(2) by simp
  ultimately obtain r1 where r1: "p_value qd m (t @ ?rest) = Some (v, r1)" "skip r1 = skip ?rest"
    using Cons.hyps(1) unfolding parses_def by blast
  obtain s where s: "p_elements qd m r1 = (vs, s)" "skip s = skip r"
    using Cons.IH[of m r1] m(2) Cons.prems(2,3) r1(2) by auto
  have "p_lit (CHR '','') s0 = Some (t @ ?rest)"
    using p_lit_skip[OF Cons.prems(4), of "CHR '',''"] by simp
  then show ?case using r1(1) s by (simp add: m(1))
qed

lemma no_value_at_bracket:
  assumes "refuses_other qd"
  shows "p_value qd n (CHR '']'' # s) = None"
  using assms by (cases n) (simp_all add: refuses_other_def p_bracketed_def p_string_def p_long_def p_bool_def Let_def is_digit_def)

lemma parses_elements:
  assumes "list_all2 (parses qd) ts vs" "refuses_other qd"
  shows "parses qd (''['' @ join '','' ts @ '']'') (Arr vs)"
  unfolding parses_def
proof (intro allI impI)
  fix n r
  assume n: "length (''['' @ join '','' ts @ '']'') \<le> n" "follows r"
  then obtain m where m: "n = Suc m" by (cases n) auto
  let ?P = "p_bracketed (CHR ''['') (CHR '']'') (\<lambda>r. p_value qd m r) (\<lambda>r. p_elements qd m r)"
  let ?s = "(''['' @ join '','' ts @ '']'') @ r"
  have "\<exists>r'. ?P ?s = Some (vs, r') \<and> skip r' = skip r"
  proof (cases ts)
    case Nil
    then show ?thesis using assms(1) no_value_at_bracket[OF assms(2)] by (simp add: p_bracketed_def)
  next
    case (Cons t us)
    then obtain v ws where vs: "vs = v # ws" "parses qd t v" "list_all2 (parses qd) us ws"
      using assms(1) by (auto simp: list_all2_Cons1)
    let ?rest = "concat (map (\<lambda>t. '','' @ t) us) @ CHR '']'' # r"
    have close: "follows (CHR '']'' # r)" "p_lit (CHR '','') (CHR '']'' # r) = None" by (simp_all add: follows_def)
    have len: "length t + sum_list (map (\<lambda>t. Suc (length t)) us) \<le> m"
      using n(1) by (simp add: m Cons join_commas length_concat comp_def)
    have "follows ?rest" using close(1) by (simp add: follows_commas)
    moreover have "length t \<le> m" using len by simp
    ultimately obtain r1 where r1: "p_value qd m (t @ ?rest) = Some (v, r1)" "skip r1 = skip ?rest"
      using vs(2) unfolding parses_def by blast
    obtain s where s: "p_elements qd m r1 = (ws, s)" "skip s = skip (CHR '']'' # r)"
      using p_elements_reads[OF vs(3) _ close r1(2), of m] len by auto
    have "p_lit (CHR '']'') s = Some r" using p_lit_skip[OF s(2), of "CHR '']''"] by simp
    then show ?thesis using r1(1) s(1) by (simp add: Cons join_commas vs(1) p_bracketed_def)
  qed
  then obtain r' where "?P ?s = Some (vs, r')" "skip r' = skip r" by blast
  moreover have "p_bracketed (CHR ''{'') c pv f ?s = None" for c and pv :: "data_t parser" and f
    by (simp add: p_bracketed_def)
  ultimately show "\<exists>r'. p_value qd n ?s = Some (Arr vs, r') \<and> skip r' = skip r" by (simp add: m)
qed

text \<open>White space inside the brackets, and elements that each carry their comma.\<close>

lemma parses_spaced_elements:
  assumes "list_all2 (parses qd) ts vs" "refuses_other qd" "list_all is_space ws" "ts \<noteq> []"
  shows "parses qd (''['' @ ws @ join '','' ts @ '']'') (Arr vs)"
proof -
  obtain t us where ts: "ts = t # us" using assms(4) by (cases ts) auto
  then obtain v vs' where vs: "vs = v # vs'" "parses qd t v" "list_all2 (parses qd) us vs'" using assms(1) by (auto simp: list_all2_Cons1)
  have "list_all2 (parses qd) ((ws @ t) # us) vs" using vs parses_before(1)[OF assms(3)] by simp
  from parses_elements[OF this assms(2)] show ?thesis by (simp add: ts join_commas)
qed

lemma newline_space: "list_all is_space newline"
  by code_simp

lemma join_snoc: "join sep (ts @ [t]) @ u = join sep (ts @ [t @ u])"
proof (cases ts)
  case (Cons a as)
  then show ?thesis by (simp add: join_Cons)
qed simp

lemma parses_elements_before_space:
  assumes "list_all2 (parses qd) ts vs" "refuses_other qd" "list_all is_space ws" "ts \<noteq> []"
  shows "parses qd (''['' @ join '','' ts @ ws @ '']'') (Arr vs)"
proof -
  obtain us t where ts: "ts = us @ [t]" using assms(4) by (cases ts rule: rev_cases) auto
  then obtain vs' v where vs: "vs = vs' @ [v]" "list_all2 (parses qd) us vs'" "parses qd t v"
    using assms(1) by (auto simp: list_all2_append1 list_all2_Cons1)
  have "list_all2 (parses qd) (us @ [t @ ws]) vs" using vs parses_behind(1)[OF assms(3) vs(3)] by (simp add: list_all2_appendI)
  from parses_elements[OF this assms(2)] show ?thesis by (simp add: ts join_snoc[symmetric])
qed

lemma with_commas: "ts \<noteq> [] \<Longrightarrow> concat (map (\<lambda>t. t @ '','') ts) = join '','' ts @ '',''"
  by (induction ts rule: induct_list012) simp_all

end
