(* ===== verification/Dispatch.thy ===== *)
theory Dispatch
  imports FileProvider Options Patterns JsonText
begin

text \<open>
  ConfigurationDB/dispatch\_filedb.cpp, dispatch\_mongodb.cpp and dispatch\_ucondb.cpp: the
  operations of the client interface on a store.  Each checks the operation and the provider of
  its options, asks the provider and rewrites the answers into entries with a name and a query,
  taking the name out of the printed search filter with a regular expression.  The three files
  share most of their text; what they share is defined once, over the record \<open>storage\<close> of
  what a provider offers.  The file store is the one of \<open>FileProvider\<close>; the providers over the
  client libraries of MongoDB and UconDB are arguments.
\<close>

section \<open>Options\<close>

text \<open>The checks every operation starts with.\<close>

definition require_options :: "string list \<Rightarrow> string \<Rightarrow> 'o operation_base_scheme \<Rightarrow> exn + unit" where
  "require_options operations name opts =
     bindE (getter (op_operation opts)) (\<lambda>op.
       if op \<notin> set operations then Inl Runtime_error
       else bindE (getter (op_provider opts)) (\<lambda>pv. if pv \<noteq> name then Inl Runtime_error else Inr ()))"

text \<open>Options after a sequence of setters.\<close>

definition with_options :: "('o, unit) prog list \<Rightarrow> 'o \<Rightarrow> exn + 'o" where
  "with_options ms opts = (case seqM ms opts of (Inl e, _) \<Rightarrow> Inl e | (Inr _, opts') \<Rightarrow> Inr opts')"

definition ignoring :: "('o, 'a) prog \<Rightarrow> ('o, unit) prog" where
  "ignoring m = bindM m (\<lambda>_. retM ())"

definition options_document :: "codec \<Rightarrow> document_options \<Rightarrow> exn + jsondoc" where
  "options_document c opts = bindE (writeJsonData c opts) (doc_of_string c)"

section \<open>Answers\<close>

text \<open>An entry of an answer: a name and the query that finds it.\<close>

definition named_text :: "codec \<Rightarrow> string \<Rightarrow> jsondoc \<Rightarrow> exn + string" where
  "named_text c name query =
     bindE (doc_text c query) (\<lambda>t. Inr (''{'' @ json_pair ''name'' name @ '','' @ quoted ''query'' @ '':'' @ t @ ''}'' @ newline))"

definition named_query :: "codec \<Rightarrow> string \<Rightarrow> jsondoc \<Rightarrow> exn + jsondoc" where
  "named_query c name query = bindE (named_text c name query) (doc_of_string c)"

text \<open>The printed search filter of an answer.\<close>

definition filter_json :: "codec \<Rightarrow> jsondoc \<Rightarrow> exn + string" where
  "filter_json c d = bindE (findChild d ''filter'') (\<lambda>x. doc_value c (jd_value x))"

definition blanks :: re where
  "blanks = Star Space"

definition version_pattern :: re where
  "version_pattern = re_all [re_text (quoted ''version''), blanks, Chr (CHR '':''), blanks, quoted_group 1, Chr (CHR '',''), blanks,
     re_text (quoted ''entities.name''), blanks, Chr (CHR '':''), blanks, quoted_group 3]"

definition composition_pattern :: re where
  "composition_pattern = re_all [re_text (quoted ''configurations.name''), blanks, Chr (CHR '':''), blanks, quoted_group 1,
     Chr (CHR '',''), blanks, re_text (quoted ''entities.name''), blanks, Chr (CHR '':''), blanks, quoted_group 3]"

definition entity_pattern :: re where
  "entity_pattern = re_all [Space, Chr dquote, Group 1 (re_text ''entities.name''), Chr dquote, Space, Chr (CHR '':''), Space,
     quoted_group 2]"

text \<open>The groups of the first match; an answer without one is refused.\<close>

definition matched :: "re \<Rightarrow> string \<Rightarrow> exn + groups" where
  "matched r s = (case re_search r s of None \<Rightarrow> Inl Runtime_error | Some (g, _) \<Rightarrow> Inr g)"

text \<open>\<open>rewrite\<close> is what a dispatcher does to the text of an entry.\<close>

definition version_entry :: "codec \<Rightarrow> (string \<Rightarrow> exn + string) \<Rightarrow> jsondoc \<Rightarrow> exn + jsondoc" where
  "version_entry c rewrite d =
     bindE (filter_json c d) (\<lambda>f. bindE (matched version_pattern f) (\<lambda>g.
       bindE (named_text c (re_group 1 g) d) (\<lambda>t. bindE (rewrite t) (doc_of_string c))))"

definition entity_entry :: "codec \<Rightarrow> jsondoc \<Rightarrow> exn + jsondoc" where
  "entity_entry c d =
     bindE (filter_json c d) (\<lambda>f. bindE (matched entity_pattern f) (\<lambda>g. named_query c (re_group 2 g) d))"

definition composition_parts :: "codec \<Rightarrow> jsondoc \<Rightarrow> exn + string \<times> string" where
  "composition_parts c d =
     bindE (filter_json c d) (\<lambda>f. bindE (matched composition_pattern f) (\<lambda>g. bindE (doc_text c d) (\<lambda>t.
       Inr (re_group 1 g @ '':'' @ re_group 3 g, t))))"

fun unseen_configs :: "codec \<Rightarrow> string list \<Rightarrow> jsondoc list \<Rightarrow> exn + jsondoc list" where
  "unseen_configs c seen [] = Inr []"
| "unseen_configs c seen (d # ds) =
     bindE (filter_json c d) (\<lambda>f. bindE (doc_of_string c f) (\<lambda>x. bindE (doc_value c (jd_value x)) (\<lambda>name.
       if name = [] then Inl Runtime_exception
       else if name \<in> set seen then unseen_configs c seen ds
       else bindE (named_query c name d) (\<lambda>e. bindE (unseen_configs c (seen @ [name]) ds) (\<lambda>es. Inr (e # es))))))"

definition member_entry :: "codec \<Rightarrow> string \<Rightarrow> jsondoc \<Rightarrow> exn + jsondoc" where
  "member_entry c k d = bindE (value_as_string c d k) (\<lambda>name. named_query c name d)"

section \<open>Stores\<close>

record 'd storage =
  st_provider :: string
  st_codec :: codec
  st_write :: "jsondoc \<Rightarrow> ('d, string) fdb"
  st_read :: "jsondoc \<Rightarrow> ('d, jsondoc list) fdb"
  st_configurations :: "jsondoc \<Rightarrow> ('d, jsondoc list) fdb"
  st_composition :: "jsondoc \<Rightarrow> ('d, jsondoc list) fdb"
  st_versions :: "jsondoc \<Rightarrow> ('d, jsondoc list) fdb"
  st_entities :: "jsondoc \<Rightarrow> ('d, jsondoc list) fdb"
  st_collections :: "jsondoc \<Rightarrow> ('d, jsondoc list) fdb"
  st_databases :: "jsondoc \<Rightarrow> ('d, jsondoc list) fdb"
  st_metadata :: "jsondoc \<Rightarrow> ('d, jsondoc list) fdb"
  st_search :: "jsondoc \<Rightarrow> ('d, jsondoc list) fdb"

definition filesystem :: "'d provider \<Rightarrow> 'd storage" where
  "filesystem pv =
     \<lparr>st_provider = ''filesystem'', st_codec = pv_codec pv, st_write = writeDocument pv, st_read = readDocument pv,
      st_configurations = findConfigurations pv, st_composition = configurationComposition pv,
      st_versions = findVersions pv, st_entities = provider_findEntities pv, st_collections = listCollections pv,
      st_databases = listDatabases pv, st_metadata = databaseMetadata pv, st_search = searchCollection pv\<rparr>"

definition checked_options :: "'d storage \<Rightarrow> string list \<Rightarrow> 'o operation_base_scheme \<Rightarrow> ('d, 'a) fdb \<Rightarrow> ('d, 'a) fdb" where
  "checked_options st operations opts m = thenM (liftE (require_options operations (st_provider st) opts)) m"

section \<open>What the three dispatchers share\<close>

definition write_to :: "'d storage \<Rightarrow> document_options \<Rightarrow> jsondoc \<Rightarrow> ('d, unit) fdb" where
  "write_to st opts payload =
     checked_options st [''store'', ''overwritedocument''] opts (bindM (st_write st payload) (\<lambda>_. retM ()))"

definition read_all_from :: "'d storage \<Rightarrow> document_options \<Rightarrow> jsondoc \<Rightarrow> ('d, jsondoc list) fdb" where
  "read_all_from st opts search = checked_options st [''load''] opts (st_read st search)"

text \<open>\<open>std::max_element\<close> by version: the first of the largest.\<close>

fun max_document :: "codec \<Rightarrow> jsondoc \<Rightarrow> jsondoc list \<Rightarrow> exn + jsondoc" where
  "max_document c best [] = Inr best"
| "max_document c best (d # ds) =
     bindE (compareDocumentVersions c best d) (\<lambda>less. max_document c (if less then d else best) ds)"

definition read_from :: "'d storage \<Rightarrow> document_options \<Rightarrow> jsondoc \<Rightarrow> ('d, jsondoc) fdb" where
  "read_from st opts search =
     bindM (read_all_from st opts search) (\<lambda>docs. case docs of
         [] \<Rightarrow> throwM Runtime_error
       | d # ds \<Rightarrow> liftE (max_document (st_codec st) d ds))"

definition configurations_from :: "'d storage \<Rightarrow> document_options \<Rightarrow> jsondoc \<Rightarrow> ('d, jsondoc list) fdb" where
  "configurations_from st opts search =
     checked_options st [''findconfigs''] opts
       (bindM (st_configurations st search) (\<lambda>ds. liftE (unseen_configs (st_codec st) [notprovided] ds)))"

text \<open>\<open>print\<close> makes the text of the answer out of its entries.\<close>

definition composition_from ::
  "'d storage \<Rightarrow> (string \<times> string \<Rightarrow> string) \<Rightarrow> (string list \<Rightarrow> exn + string) \<Rightarrow> document_options \<Rightarrow> jsondoc \<Rightarrow> ('d, jsondoc) fdb" where
  "composition_from st line print opts search =
     checked_options st [''buildfilter''] opts
     (bindM (st_composition st search) (\<lambda>ds.
       if ds = [] then throwM Runtime_error
       else bindM (liftE (mapE (composition_parts (st_codec st)) ds)) (\<lambda>es.
         liftE (bindE (print (map line es)) (doc_of_string (st_codec st))))))"

definition versions_from :: "'d storage \<Rightarrow> (string \<Rightarrow> exn + string) \<Rightarrow> document_options \<Rightarrow> ('d, jsondoc list) fdb" where
  "versions_from st rewrite opts =
     (let c = st_codec st in
      checked_options st [''findversions''] opts
      (bindM (liftE (options_document c opts)) (\<lambda>query.
       bindM (st_versions st query) (\<lambda>ds. liftE (mapE (version_entry c rewrite) ds)))))"

definition entities_from :: "'d storage \<Rightarrow> document_options \<Rightarrow> ('d, jsondoc list) fdb" where
  "entities_from st opts =
     (let c = st_codec st in
      checked_options st [''findentities''] opts
      (bindM (liftE (options_document c opts)) (\<lambda>query.
       bindM (st_entities st query) (\<lambda>ds. liftE (mapE (entity_entry c) ds)))))"

definition collections_from :: "'d storage \<Rightarrow> document_options \<Rightarrow> jsondoc \<Rightarrow> ('d, jsondoc list) fdb" where
  "collections_from st opts search =
     checked_options st [''listcollections''] opts
       (bindM (st_collections st search) (\<lambda>ds. liftE (mapE (member_entry (st_codec st) ''collection'') ds)))"

definition databases_from :: "'d storage \<Rightarrow> document_options \<Rightarrow> jsondoc \<Rightarrow> ('d, jsondoc list) fdb" where
  "databases_from st opts search =
     checked_options st [''listdatabases''] opts
       (bindM (st_databases st search) (\<lambda>ds. liftE (mapE (member_entry (st_codec st) ''database'') ds)))"

text \<open>The answer when there is no database information is \<open>none\<close>.\<close>

definition info_from :: "'d storage \<Rightarrow> string \<Rightarrow> (jsondoc \<Rightarrow> exn + jsondoc) \<Rightarrow> document_options \<Rightarrow> jsondoc \<Rightarrow> ('d, jsondoc) fdb" where
  "info_from st none answer opts search =
     checked_options st [''readdbinfo''] opts
       (bindM (st_metadata st search) (\<lambda>ds. liftE (case ds of [] \<Rightarrow> doc_of_string (st_codec st) none | d # _ \<Rightarrow> answer d)))"

text \<open>Adding or removing a configuration: the document is read, changed by the builder, written
  back, and the composition of the configuration is the answer.  \<open>print\<close> makes the update out of
  the builder.\<close>

definition change_configuration ::
  "'d storage \<Rightarrow> process_env \<Rightarrow> (document_options \<Rightarrow> jsondoc \<Rightarrow> ('d, jsondoc) fdb) \<Rightarrow> (string \<Rightarrow> string bld) \<Rightarrow> string \<Rightarrow>
    (jsondoc \<Rightarrow> unit bld) \<Rightarrow> document_options \<Rightarrow> jsondoc \<Rightarrow> ('d, jsondoc) fdb" where
  "change_configuration st env composition print operation change opts search_payload =
     (let c = st_codec st in
      checked_options st [operation] opts
      (bindM (liftE (with_options [ignoring (set_operation ''load'')] opts)) (\<lambda>opts1.
       bindM (liftE (doc_text c search_payload)) (\<lambda>payload.
       bindM (liftE (getter (op_collection opts))) (\<lambda>collection.
       bindM (liftE (doc_of_string c (''{'' @ quoted ''filter'' @ '':'' @ payload @ '', '' @ quoted ''collection'' @ '':'' @
           quoted collection @ ''}''))) (\<lambda>search.
       bindM (read_from st opts1 search) (\<lambda>document.
       bindM (liftE (bindE (configuration_to_JsonData c opts1) (doc_of_string c))) (\<lambda>configuration.
       bindM (liftE (with_options [ignoring (set_operation ''store'')] opts1)) (\<lambda>opts2.
       bindM (on_builder (thenM (new_builder document) (thenM (change configuration) (print collection))) empty_doc) (\<lambda>(t, _).
       bindM (liftE (doc_of_string c t)) (\<lambda>upd.
       thenM (write_to st opts2 upd)
       (bindM (liftE (with_options [ignoring (set_operation ''buildfilter'')] opts2)) (\<lambda>opts3.
        bindM (liftE (bindE (getter (opt_configuration opts3)) (\<lambda>name.
          with_options [ignoring (set_operation ''buildfilter''), ignoring (set_format Format_gui),
            ignoring (set_provider (st_provider st)), ignoring (set_configuration name)]
            (new_document_options env operation)))) (\<lambda>find_options.
        bindM (liftE (bindE (configurationsname_to_JsonData c opts) (doc_of_string c))) (\<lambda>query.
          composition find_options query)))))))))))))))"

definition update_text :: "codec \<Rightarrow> string \<Rightarrow> string bld" where
  "update_text c tail =
     bindM recordM (\<lambda>v.
     bindM (liftE (bindE (getObjectID c v) (doc_text c))) (\<lambda>ident.
     bindM (bld_to_string c) (\<lambda>json.
       retM (''{'' @ quoted ''filter'' @ '': '' @ ident @ '',  '' @ quoted ''document'' @ '':'' @ json @ tail @ ''}''))))"

text \<open>An entry of a composition and the answer, as the file store prints them.\<close>

definition composition_text :: "string \<times> string \<Rightarrow> string" where
  "composition_text = (\<lambda>(name, t). ''{'' @ quoted ''name'' @ '':'' @ quoted name @ '','' @ quoted ''query'' @ '':'' @ t @ ''}'')"

definition composition_answer :: "string list \<Rightarrow> string" where
  "composition_answer es = ''{ '' @ quoted ''search'' @ '': [ '' @ join '', '' es @ ''] }''"

text \<open>The same in the other two dispatchers.\<close>

definition composition_line :: "string \<times> string \<Rightarrow> string" where
  "composition_line = (\<lambda>(name, t). ''{'' @ quoted ''name'' @ '':'' @ quoted name @ '','' @ quoted ''query'' @ '' :'' @ t @ ''}'' @ newline)"

definition composition_lines :: "string list \<Rightarrow> string" where
  "composition_lines es = ''{ '' @ quoted ''search'' @ '': ['' @ newline @ '' '' @ join '', '' es @ ''] }''"

text \<open>\<open>replace_all\<close> of an escaped slash; the pattern is not empty, so it returns.\<close>

definition unescape_slashes :: "string \<Rightarrow> exn + string" where
  "unescape_slashes s =
     (case replace_all s [backslash, backslash, CHR ''/''] ''/'' of Some t \<Rightarrow> Inr t | None \<Rightarrow> Inl Undefined)"

section \<open>The file store\<close>

definition fs_writeDocument :: "'d provider \<Rightarrow> document_options \<Rightarrow> jsondoc \<Rightarrow> ('d, unit) fdb" where
  "fs_writeDocument pv = write_to (filesystem pv)"

definition fs_readDocument :: "'d provider \<Rightarrow> document_options \<Rightarrow> jsondoc \<Rightarrow> ('d, jsondoc) fdb" where
  "fs_readDocument pv = read_from (filesystem pv)"

definition fs_readDocuments :: "'d provider \<Rightarrow> document_options \<Rightarrow> jsondoc \<Rightarrow> ('d, jsondoc list) fdb" where
  "fs_readDocuments pv = read_all_from (filesystem pv)"

definition fs_findConfigurations :: "'d provider \<Rightarrow> document_options \<Rightarrow> jsondoc \<Rightarrow> ('d, jsondoc list) fdb" where
  "fs_findConfigurations pv = configurations_from (filesystem pv)"

definition fs_configurationComposition :: "'d provider \<Rightarrow> document_options \<Rightarrow> jsondoc \<Rightarrow> ('d, jsondoc) fdb" where
  "fs_configurationComposition pv = composition_from (filesystem pv) composition_text (\<lambda>es. Inr (composition_answer es))"

definition fs_findVersions :: "'d provider \<Rightarrow> document_options \<Rightarrow> jsondoc \<Rightarrow> ('d, jsondoc list) fdb" where
  "fs_findVersions pv opts search = versions_from (filesystem pv) Inr opts"

definition fs_findEntities :: "'d provider \<Rightarrow> document_options \<Rightarrow> jsondoc \<Rightarrow> ('d, jsondoc list) fdb" where
  "fs_findEntities pv opts search = entities_from (filesystem pv) opts"

definition fs_assignConfiguration :: "'d provider \<Rightarrow> process_env \<Rightarrow> document_options \<Rightarrow> jsondoc \<Rightarrow> ('d, jsondoc) fdb" where
  "fs_assignConfiguration pv env =
     change_configuration (filesystem pv) env (fs_configurationComposition pv) (\<lambda>_. update_text (pv_codec pv) newline)
       ''addconfig'' bld_addConfiguration"

definition fs_removeConfiguration :: "'d provider \<Rightarrow> process_env \<Rightarrow> document_options \<Rightarrow> jsondoc \<Rightarrow> ('d, jsondoc) fdb" where
  "fs_removeConfiguration pv env =
     change_configuration (filesystem pv) env (fs_configurationComposition pv) (\<lambda>_. update_text (pv_codec pv) newline)
       ''rmconfig'' bld_removeConfiguration"

definition fs_findVersionAliases :: "'d provider \<Rightarrow> alias_options \<Rightarrow> jsondoc \<Rightarrow> ('d, jsondoc list) fdb" where
  "fs_findVersionAliases pv opts search = throwM Runtime_error"

definition fs_listCollections :: "'d provider \<Rightarrow> document_options \<Rightarrow> jsondoc \<Rightarrow> ('d, jsondoc list) fdb" where
  "fs_listCollections pv = collections_from (filesystem pv)"

definition fs_listDatabases :: "'d provider \<Rightarrow> document_options \<Rightarrow> jsondoc \<Rightarrow> ('d, jsondoc list) fdb" where
  "fs_listDatabases pv = databases_from (filesystem pv)"

definition empty_search_result :: string where
  "empty_search_result = ''{'' @ quoted ''search'' @ '':[ ]}''"

definition info_answer :: "codec \<Rightarrow> jsondoc \<Rightarrow> exn + jsondoc" where
  "info_answer c d =
     bindE (doc_text c d) (\<lambda>t. doc_of_string c (''{ '' @ quoted ''search'' @ '':'' @ newline @ t @ newline @ ''}''))"

definition fs_readDbInfo :: "'d provider \<Rightarrow> document_options \<Rightarrow> jsondoc \<Rightarrow> ('d, jsondoc) fdb" where
  "fs_readDbInfo pv = info_from (filesystem pv) empty_search_result (info_answer (pv_codec pv))"

definition fs_searchCollection :: "'d provider \<Rightarrow> document_options \<Rightarrow> jsondoc \<Rightarrow> ('d, jsondoc list) fdb" where
  "fs_searchCollection pv opts search = throwM Runtime_error"

section \<open>Compositions that contain a document\<close>

definition configurations_pattern :: re where
  "configurations_pattern = re_all [re_text (quoted ''configurations''), blanks, Chr (CHR '':''), blanks, Chr (CHR ''[''),
     Group 1 (re_plus (Except [CHR '']''])), Chr (CHR '']'')]"

definition name_pattern :: re where
  "name_pattern = re_all [re_text (quoted ''name''), blanks, Chr (CHR '':''), blanks, Chr dquote,
     Group 1 (re_plus (Except [dquote])), Chr dquote]"

text \<open>The names of a section, one search behind the other; the text gets shorter every time.\<close>

fun section_names :: "nat \<Rightarrow> string \<Rightarrow> string list" where
  "section_names 0 s = []"
| "section_names (Suc n) s =
     (case re_search name_pattern s of None \<Rightarrow> [] | Some (g, t) \<Rightarrow> re_group 1 g # section_names n t)"

definition composition_names :: "string \<Rightarrow> string list" where
  "composition_names text =
     (case re_search configurations_pattern text of None \<Rightarrow> []
      | Some (g, _) \<Rightarrow> filter (\<lambda>n. n \<noteq> notprovided) (section_names (length (re_group 1 g)) (re_group 1 g)))"

definition compositions_search :: "string \<Rightarrow> string \<Rightarrow> string \<Rightarrow> string" where
  "compositions_search collection version entity =
     ''{'' @ quoted ''filter'' @ '':{'' @ json_pair ''version'' version @
     (if entity \<noteq> [] \<and> entity \<noteq> notprovided then '','' @ json_pair ''entities.name'' entity else []) @
     ''}, '' @ json_pair ''collection'' collection @ ''}''"

definition compositions_of :: "'d provider \<Rightarrow> jsondoc list \<Rightarrow> exn + jsondoc list" where
  "compositions_of pv docs =
     bindE (mapE (\<lambda>d. or_else [] (bindE (doc_text (pv_codec pv) d) (\<lambda>t. Inr (composition_names t)))) docs) (\<lambda>nss.
     mapE (\<lambda>n. doc_of_string (pv_codec pv) (''{'' @ quoted ''name'' @ '': '' @ quoted n @ ''}''))
       (remdups_adj (sort (concat nss))))"

definition fs_findCompositionsContaining :: "'d provider \<Rightarrow> document_options \<Rightarrow> jsondoc \<Rightarrow> ('d, jsondoc list) fdb" where
  "fs_findCompositionsContaining pv opts search =
     (let c = pv_codec pv; fs = pv_files pv in
      checked_options (filesystem pv) [''findcompositionscontaining''] opts
      (bindM (liftE (getter (op_collection opts))) (\<lambda>collection.
       bindM (liftE (getter (opt_version opts))) (\<lambda>version.
       bindM (liftE (getter (opt_entity opts))) (\<lambda>entity.
       if collection = notprovided then throwM Runtime_error
       else if version = notprovided then throwM Runtime_error
       else
         bindM (connection pv) (\<lambda>conn.
         bindM (expand pv conn) (\<lambda>path.
         bindM (on_files (mkdir fs path)) (\<lambda>dir.
         bindM (on_files (check_if_file_exists fs (dir @ ''/'' @ collection))) (\<lambda>there.
         if \<not> there then retM []
         else
           bindM (liftE (doc_of_string c (compositions_search collection version entity))) (\<lambda>sd.
           bindM (catchM any_exn (readDocument pv sd) (retM [])) (\<lambda>docs.
           liftE (compositions_of pv docs))))))))))))"

section \<open>MongoDB\<close>

definition mongo_writeDocument :: "'d storage \<Rightarrow> document_options \<Rightarrow> jsondoc \<Rightarrow> ('d, unit) fdb" where
  "mongo_writeDocument st = write_to st"

definition mongo_readDocument :: "'d storage \<Rightarrow> document_options \<Rightarrow> jsondoc \<Rightarrow> ('d, jsondoc) fdb" where
  "mongo_readDocument st = read_from st"

definition mongo_readDocuments :: "'d storage \<Rightarrow> document_options \<Rightarrow> jsondoc \<Rightarrow> ('d, jsondoc list) fdb" where
  "mongo_readDocuments st = read_all_from st"

definition mongo_findConfigurations :: "'d storage \<Rightarrow> document_options \<Rightarrow> jsondoc \<Rightarrow> ('d, jsondoc list) fdb" where
  "mongo_findConfigurations st = configurations_from st"

definition mongo_configurationComposition :: "'d storage \<Rightarrow> document_options \<Rightarrow> jsondoc \<Rightarrow> ('d, jsondoc) fdb" where
  "mongo_configurationComposition st = composition_from st composition_line (\<lambda>es. unescape_slashes (composition_lines es))"

definition mongo_findVersions :: "'d storage \<Rightarrow> document_options \<Rightarrow> jsondoc \<Rightarrow> ('d, jsondoc list) fdb" where
  "mongo_findVersions st opts search = versions_from st unescape_slashes opts"

definition mongo_findEntities :: "'d storage \<Rightarrow> document_options \<Rightarrow> jsondoc \<Rightarrow> ('d, jsondoc list) fdb" where
  "mongo_findEntities st opts search = entities_from st opts"

definition mongo_assignConfiguration :: "'d storage \<Rightarrow> process_env \<Rightarrow> document_options \<Rightarrow> jsondoc \<Rightarrow> ('d, jsondoc) fdb" where
  "mongo_assignConfiguration st env =
     change_configuration st env (mongo_configurationComposition st) (\<lambda>_. update_text (st_codec st) [])
       ''addconfig'' bld_addConfiguration"

definition mongo_removeConfiguration :: "'d storage \<Rightarrow> process_env \<Rightarrow> document_options \<Rightarrow> jsondoc \<Rightarrow> ('d, jsondoc) fdb" where
  "mongo_removeConfiguration st env =
     change_configuration st env (mongo_configurationComposition st) (\<lambda>_. update_text (st_codec st) [])
       ''rmconfig'' bld_removeConfiguration"

definition mongo_findVersionAliases :: "'d storage \<Rightarrow> alias_options \<Rightarrow> jsondoc \<Rightarrow> ('d, jsondoc list) fdb" where
  "mongo_findVersionAliases st opts search = throwM Runtime_error"

definition mongo_listCollections :: "'d storage \<Rightarrow> document_options \<Rightarrow> jsondoc \<Rightarrow> ('d, jsondoc list) fdb" where
  "mongo_listCollections st = collections_from st"

definition mongo_listDatabases :: "'d storage \<Rightarrow> document_options \<Rightarrow> jsondoc \<Rightarrow> ('d, jsondoc list) fdb" where
  "mongo_listDatabases st = databases_from st"

definition mongo_readDbInfo :: "'d storage \<Rightarrow> document_options \<Rightarrow> jsondoc \<Rightarrow> ('d, jsondoc) fdb" where
  "mongo_readDbInfo st = info_from st empty_json Inr"

definition query_entry :: "codec \<Rightarrow> jsondoc \<Rightarrow> exn + jsondoc" where
  "query_entry c d = bindE (doc_text c d) (\<lambda>t. doc_of_string c (''{'' @ quoted ''query'' @ '':'' @ t @ ''}'' @ newline))"

definition mongo_searchCollection :: "'d storage \<Rightarrow> document_options \<Rightarrow> jsondoc \<Rightarrow> ('d, jsondoc list) fdb" where
  "mongo_searchCollection st opts search =
     checked_options st [''searchcollection''] opts
       (bindM (st_search st search) (\<lambda>ds. liftE (mapE (query_entry (st_codec st)) ds)))"

text \<open>The aggregation that collects the configurations of the matching documents.\<close>

definition compositions_pipeline :: "string \<Rightarrow> string \<Rightarrow> string" where
  "compositions_pipeline version entity =
     ''[{'' @ quoted ''$match'' @ '':{'' @ json_pair ''version'' version @
     (if entity \<noteq> [] \<and> entity \<noteq> notprovided then '','' @ json_pair ''entities.name'' entity else []) @ ''}},'' @
     ''{'' @ quoted ''$unwind'' @ '':{'' @ json_pair ''path'' ''$configurations'' @ ''}},'' @
     ''{'' @ quoted ''$match'' @ '':{'' @ quoted ''configurations.name'' @ '':{'' @ json_pair ''$ne'' ''notprovided'' @ ''}}},'' @
     ''{'' @ quoted ''$group'' @ '':{'' @ quoted ''_id'' @ '':0,'' @ quoted ''configurations'' @ '':{'' @
       json_pair ''$addToSet'' ''$configurations.name'' @ ''}}},'' @
     ''{'' @ quoted ''$project'' @ '':{'' @ quoted ''_id'' @ '':0,'' @ quoted ''configurations'' @ '':1}}]''"

text \<open>What the loop over the result has put into the answer when something throws stays there.\<close>

fun composition_entries :: "codec \<Rightarrow> array_t \<Rightarrow> (jsondoc list, unit) prog" where
  "composition_entries c [] = retM ()"
| "composition_entries c (v # vs) =
     bindM (liftE (get_string v)) (\<lambda>name.
     bindM (liftE (doc_of_string c (''{'' @ json_pair ''name'' name @ ''}''))) (\<lambda>d.
     thenM (\<lambda>ds. (Inr (), ds @ [d])) (composition_entries c vs)))"

definition aggregated :: "codec \<Rightarrow> jsondoc \<Rightarrow> (jsondoc list, unit) prog" where
  "aggregated c d =
     catchM any_exn
       (bindM (liftE (findChild d ''result'')) (\<lambda>node.
        bindM (liftE (bindE (findChildDocument node ''result'') (doc_text c))) (\<lambda>t.
        bindM (liftE (c_read c t)) (\<lambda>r. case r of
            None \<Rightarrow> throwM Runtime_error
          | Some ast \<Rightarrow> if table_count ''configurations'' ast = 0 then retM ()
              else bindM (liftE (array_child ''configurations'' ast)) (composition_entries c)))))
       (retM ())"

definition mongo_findCompositionsContaining :: "'d storage \<Rightarrow> document_options \<Rightarrow> jsondoc \<Rightarrow> ('d, jsondoc list) fdb" where
  "mongo_findCompositionsContaining st opts search =
     (let c = st_codec st in
      checked_options st [''findcompositionscontaining''] opts
      (bindM (liftE (getter (op_collection opts))) (\<lambda>collection.
       bindM (liftE (getter (opt_version opts))) (\<lambda>version.
       bindM (liftE (getter (opt_entity opts))) (\<lambda>entity.
       if collection = notprovided then throwM Runtime_error
       else if version = notprovided then throwM Runtime_error
       else
         bindM (liftE (doc_of_string c (''{'' @ json_pair ''collection'' collection @ '','' @ quoted ''filter'' @ '':'' @
           compositions_pipeline version entity @ ''}''))) (\<lambda>query.
         bindM (st_search st query) (\<lambda>ds. case ds of
             [] \<Rightarrow> retM []
           | d # _ \<Rightarrow> (case aggregated c d [] of (Inl e, _) \<Rightarrow> throwM e | (Inr _, found) \<Rightarrow> retM found)))))))) "

section \<open>UconDB\<close>

definition ucon_writeDocument :: "'d storage \<Rightarrow> document_options \<Rightarrow> jsondoc \<Rightarrow> ('d, unit) fdb" where
  "ucon_writeDocument st = write_to st"

definition ucon_readDocument :: "'d storage \<Rightarrow> document_options \<Rightarrow> jsondoc \<Rightarrow> ('d, jsondoc) fdb" where
  "ucon_readDocument st = read_from st"

definition ucon_readDocuments :: "'d storage \<Rightarrow> document_options \<Rightarrow> jsondoc \<Rightarrow> ('d, jsondoc list) fdb" where
  "ucon_readDocuments st = read_all_from st"

definition ucon_findConfigurations :: "'d storage \<Rightarrow> document_options \<Rightarrow> jsondoc \<Rightarrow> ('d, jsondoc list) fdb" where
  "ucon_findConfigurations st = configurations_from st"

definition ucon_configurationComposition :: "'d storage \<Rightarrow> document_options \<Rightarrow> jsondoc \<Rightarrow> ('d, jsondoc) fdb" where
  "ucon_configurationComposition st = composition_from st composition_line (\<lambda>es. Inr (composition_lines es))"

definition ucon_findVersions :: "'d storage \<Rightarrow> document_options \<Rightarrow> jsondoc \<Rightarrow> ('d, jsondoc list) fdb" where
  "ucon_findVersions st opts search = versions_from st Inr opts"

definition ucon_findEntities :: "'d storage \<Rightarrow> document_options \<Rightarrow> jsondoc \<Rightarrow> ('d, jsondoc list) fdb" where
  "ucon_findEntities st opts search = entities_from st opts"

text \<open>\<open>extract()\<close> moves the document out of the builder, which the update does twice; what is left
  behind is empty.  (The order of the two is unspecified; either way the update
  starts with a parenthesis.)  The update starts and ends with pieces of a raw string literal.\<close>

definition moved_document :: "jsondoc bld" where
  "moved_document = (\<lambda>(d, w). (Inr d, (d\<lparr>jd_value := Obj [], jd_cache := []\<rparr>, w)))"

definition ucon_update_text :: "codec \<Rightarrow> string \<Rightarrow> string bld" where
  "ucon_update_text c collection =
     bindM moved_document (\<lambda>d.
     bindM (liftE (bindE (fst (deleteChild ''_id'' d)) (\<lambda>i. doc_value c (jd_value i)))) (\<lambda>ident.
     bindM moved_document (\<lambda>d'.
     bindM (liftE (doc_text c d')) (\<lambda>json.
       retM (''({'' @ quoted ''filter'' @ '':{'' @ quoted ''$oid'' @ '':'' @ [dquote] @ '')'' @ ident @ ''('' @ [dquote] @ ''},  '' @
         quoted ''document'' @ '':)'' @ json @ '', '' @ quoted ''collection'' @ '':'' @ quoted collection @ ''}'')))))"

definition ucon_assignConfiguration :: "'d storage \<Rightarrow> process_env \<Rightarrow> document_options \<Rightarrow> jsondoc \<Rightarrow> ('d, jsondoc) fdb" where
  "ucon_assignConfiguration st env =
     change_configuration st env (ucon_configurationComposition st) (ucon_update_text (st_codec st))
       ''addconfig'' bld_addConfiguration"

definition ucon_removeConfiguration :: "'d storage \<Rightarrow> process_env \<Rightarrow> document_options \<Rightarrow> jsondoc \<Rightarrow> ('d, jsondoc) fdb" where
  "ucon_removeConfiguration st env =
     change_configuration st env (ucon_configurationComposition st) (ucon_update_text (st_codec st))
       ''rmconfig'' bld_removeConfiguration"

definition ucon_listCollections :: "'d storage \<Rightarrow> document_options \<Rightarrow> jsondoc \<Rightarrow> ('d, jsondoc list) fdb" where
  "ucon_listCollections st = collections_from st"

definition ucon_listDatabases :: "'d storage \<Rightarrow> document_options \<Rightarrow> jsondoc \<Rightarrow> ('d, jsondoc list) fdb" where
  "ucon_listDatabases st = databases_from st"

definition ucon_readDbInfo :: "'d storage \<Rightarrow> document_options \<Rightarrow> jsondoc \<Rightarrow> ('d, jsondoc) fdb" where
  "ucon_readDbInfo st = info_from st empty_search_result (info_answer (st_codec st))"

text \<open>Not implemented for UconDB.\<close>

definition ucon_findVersionAliases :: "'d storage \<Rightarrow> alias_options \<Rightarrow> jsondoc \<Rightarrow> ('d, jsondoc list) fdb" where
  "ucon_findVersionAliases st opts search = throwM Runtime_error"

definition ucon_searchCollection :: "'d storage \<Rightarrow> document_options \<Rightarrow> jsondoc \<Rightarrow> ('d, jsondoc list) fdb" where
  "ucon_searchCollection st opts search = throwM Runtime_error"

definition ucon_findCompositionsContaining :: "'d storage \<Rightarrow> document_options \<Rightarrow> jsondoc \<Rightarrow> ('d, jsondoc list) fdb" where
  "ucon_findCompositionsContaining st opts search = throwM Runtime_error"

end
