(* ===== verification/GuiConversion.thy ===== *)
theory GuiConversion
  imports JsonDocument StringHelpers
begin

text \<open>
  DataFormats/Json/convertjson2guijson.cpp: the form of a document that the GUI shows and edits.
  \<open>json_node_t\<close>, a variant of references, becomes the value it refers to; what a function appends
  through a reference is returned.
\<close>

section \<open>From the database to the GUI\<close>

text \<open>
  \<open>db2gui\<close> for a node without metadata: every pair becomes an object with a type, a name, a
  comment and either a value with its annotation or an array of children.
\<close>

fun gui_entry :: "string \<Rightarrow> value_t \<Rightarrow> object_t"
  and gui_members :: "object_t \<Rightarrow> array_t"
  and gui_items :: "nat \<Rightarrow> array_t \<Rightarrow> array_t"
where
  "gui_entry key (Obj ps) =
     table_set ''type'' (Str ''table'')
       ([(''type'', Str ''unknown''), (''name'', Str key), (''comment'', Str '' '')] @ [(''children'', Arr (gui_members ps))])"
| "gui_entry key (Arr vs) =
     table_set ''type'' (Str ''sequence'')
       ([(''type'', Str ''unknown''), (''name'', Str key), (''comment'', Str '' '')] @ [(''children'', Arr (gui_items 0 vs))])"
| "gui_entry key v =
     table_set ''type'' (Str ''string'') (table_set ''annotation'' (Str []) (table_set ''value'' v
       [(''type'', Str ''unknown''), (''name'', Str key), (''comment'', Str '' '')]))"
| "gui_members [] = []"
| "gui_members ((k, v) # ps) = Obj (gui_entry k v) # gui_members ps"
| "gui_items i [] = []"
| "gui_items i (v # vs) = Obj (gui_entry (nat_digits i) v) # gui_items (Suc i) vs"

text \<open>
  \<open>metadata_node_t::child\<close>: the metadata of an entry, by name or below \<open>children\<close>.  The node it
  returns refers to a local object of the function, so every use of it is undefined; an entry
  that is not found has no metadata.
\<close>

definition child_found :: "string \<Rightarrow> object_t \<Rightarrow> bool" where
  "child_found k m =
     (case object_child k m of Inr _ \<Rightarrow> True
      | Inl _ \<Rightarrow> (case bindE (object_child ''children'' m) (object_child k) of Inr _ \<Rightarrow> True | Inl _ \<Rightarrow> False))"

definition gui_child :: "object_t \<Rightarrow> data_t \<Rightarrow> exn + value_t" where
  "gui_child m p =
     (if fst p = [] then Inl Runtime_exception
      else if child_found (fst p) m then Inl Undefined
      else Inr (Obj (gui_entry (fst p) (snd p))))"

definition gui_data :: "object_t \<Rightarrow> object_t \<Rightarrow> exn + array_t" where
  "gui_data ps m = mapE (gui_child m) ps"

text \<open>\<open>json_db_to_gui\<close> on the table of the document.\<close>

definition convert_to_gui :: "object_t \<Rightarrow> exn + object_t" where
  "convert_to_gui db =
     bindE (object_child ''document'' db) (\<lambda>doc.
     bindE (object_child ''data'' doc) (\<lambda>ps.
     bindE (object_child ''metadata'' doc) (\<lambda>m.
     bindE (gui_data ps m) (\<lambda>cs.
       let gui = [(''guidata'', Arr cs)];
           gui' = (case bindE (table_at ''changelog'' db) get_string of
                     Inl _ \<Rightarrow> gui | Inr s \<Rightarrow> table_set ''changelog'' (Str s) gui)
       in Inr (put_first ''document'' (Obj (table_set ''converted'' (Obj gui') doc)) db)))))"

definition json_db_to_gui :: "codec \<Rightarrow> string \<Rightarrow> exn + string" where
  "json_db_to_gui c db_json =
     (if db_json = [] then Inl Runtime_exception
      else bindE (c_read c db_json) (\<lambda>r. case r of
          None \<Rightarrow> Inl Runtime_error
        | Some db \<Rightarrow> bindE (convert_to_gui db) (c_write c)))"

section \<open>From the GUI to the database\<close>

text \<open>\<open>makeChild\<close> with what the new child holds in the end: an array has no use for the name.\<close>

definition append_child :: "string \<Rightarrow> value_t \<Rightarrow> value_t \<Rightarrow> exn + value_t" where
  "append_child name x node =
     (case node of Obj ps \<Rightarrow> Inr (Obj (ps @ [(name, x)])) | Arr vs \<Rightarrow> Inr (Arr (vs @ [x])) | _ \<Rightarrow> Inl Runtime_exception)"

definition append_value :: "value_t \<Rightarrow> value_t \<Rightarrow> exn + value_t" where
  "append_value x node = (case node of Arr vs \<Rightarrow> Inr (Arr (vs @ [x])) | _ \<Rightarrow> Inl Bad_get)"

text \<open>\<open>makeChildOfChildren\<close>: the new child goes below \<open>children\<close>, which is created when missing.\<close>

definition append_below_children :: "string \<Rightarrow> value_t \<Rightarrow> object_t \<Rightarrow> exn + object_t" where
  "append_below_children name x m =
     (let m' = (if table_count ''children'' m = 0 then table_set ''children'' (Obj []) m else m) in
      bindE (object_child ''children'' m') (\<lambda>cs.
        Inr (put_first ''children'' (Obj (cs @ [(name, x)])) m')))"

definition leaf_metadata :: "string \<Rightarrow> object_t \<Rightarrow> exn + object_t" where
  "leaf_metadata type_name child =
     bindE (string_child ''comment'' child) (\<lambda>comment.
     bindE (string_child ''annotation'' child) (\<lambda>annotation.
       Inr [(''type'', Str type_name), (''comment'', Str comment), (''annotation'', Str (annotate annotation))]))"

definition sequence_metadata :: "object_t \<Rightarrow> exn + object_t" where
  "sequence_metadata child =
     bindE (string_child ''comment'' child) (\<lambda>comment.
       Inr [(''type'', Str ''sequence''), (''comment'', Str comment),
         (''annotation'', Str (case string_child ''annotation'' child of Inl _ \<Rightarrow> [] | Inr a \<Rightarrow> annotate a))])"

text \<open>A table with a value and without children is taken for a string.\<close>

definition effective_type :: "string \<Rightarrow> object_t \<Rightarrow> string" where
  "effective_type t child =
     (if t = ''table'' \<and> table_count ''value'' child = 1 \<and> table_count ''children'' child = 0 then ''string'' else t)"

lemma bindE_cong [fundef_cong]: "r = r' \<Longrightarrow> (\<And>x. r' = Inr x \<Longrightarrow> f x = g x) \<Longrightarrow> bindE r f = bindE r' g"
  by (cases r') simp_all

lemma table_at_size: "table_at k ps = Inr v \<Longrightarrow> size v < Suc (size_list (size_prod (\<lambda>x. 0) size) ps)"
  by (induction ps) (auto split: if_splits)

lemma array_child_size:
  assumes "array_child k ps = Inr cs"
  shows "size_list size cs < size (Obj ps)"
proof -
  obtain v where v: "table_at k ps = Inr v" "get_array v = Inr cs"
    using assms by (auto simp: array_child_def bindE_eq_Inr)
  then have "v = Arr cs" by (cases v) simp_all
  then show ?thesis using table_at_size[OF v(1)] by simp
qed

text \<open>
  \<open>gui2db\<close>: the entries of a GUI array, with the data node (a table or an array) and the
  metadata table they are added to.
\<close>

function gui2db :: "array_t \<Rightarrow> value_t \<Rightarrow> object_t \<Rightarrow> exn + value_t \<times> object_t" where
  "gui2db [] d m = Inr (d, m)"
| "gui2db (v # vs) d m =
     (case v of Obj child \<Rightarrow>
      if table_count ''type'' child = 0 then bindE (append_value (Obj child) d) (\<lambda>d'. gui2db vs d' m)
      else
        bindE (string_child ''type'' child) (\<lambda>t.
        let type_name = effective_type t child in
        if type_name = ''sequence'' \<or> type_name = ''array'' then
          bindE (array_child ''children'' child) (\<lambda>cs.
          bindE (string_child ''name'' child) (\<lambda>name.
          bindE (sequence_metadata child) (\<lambda>meta.
          bindE (gui2db cs (Arr []) meta) (\<lambda>(x, meta').
          bindE (append_child name x d) (\<lambda>d'. gui2db vs d' (m @ [(name, Obj meta')]))))))
        else if type_name = ''table'' \<or> type_name = ''object'' then
          bindE (string_child ''name'' child) (\<lambda>name.
          bindE (string_child ''comment'' child) (\<lambda>comment.
          bindE (array_child ''children'' child) (\<lambda>cs.
          bindE (gui2db cs (Obj []) []) (\<lambda>(x, below).
          bindE (append_child name x d) (\<lambda>d'.
            gui2db vs d' (m @ [(name, Obj [(''type'', Str ''table''), (''comment'', Str comment), (''children'', Obj below)])]))))))
        else
          bindE (table_at ''value'' child) (\<lambda>x.
          bindE (string_child ''name'' child) (\<lambda>name.
          bindE (leaf_metadata type_name child) (\<lambda>meta.
          bindE (case d of Arr _ \<Rightarrow> append_below_children name (Obj meta) m | _ \<Rightarrow> Inr (m @ [(name, Obj meta)])) (\<lambda>m'.
          bindE (append_child name x d) (\<lambda>d'. gui2db vs d' m'))))))
      | _ \<Rightarrow> bindE (append_value v d) (\<lambda>d'. gui2db vs d' m))"
  by pat_completeness auto

termination
  by (relation "measure (\<lambda>(vs, d, m). size_list size vs)") (auto dest!: array_child_size)

declare gui2db.simps(2) [simp del]

text \<open>\<open>json_gui_to_db\<close> on the table of the document: the converted data replaces the data and the
  metadata, and the GUI data is dropped.\<close>

definition convert_to_db :: "object_t \<Rightarrow> exn + object_t" where
  "convert_to_db gui =
     bindE (object_child ''document'' gui) (\<lambda>doc.
     bindE (object_child ''converted'' doc) (\<lambda>converted.
     bindE (array_child ''guidata'' converted) (\<lambda>cs.
     bindE (gui2db cs (Obj []) []) (\<lambda>(x, meta).
       let gui' = (case string_child ''changelog'' converted of
                     Inl _ \<Rightarrow> gui | Inr s \<Rightarrow> table_set ''changelog'' (Str s) gui)
       in bindE (object_child ''data'' doc) (\<lambda>_.
          bindE (object_child ''metadata'' doc) (\<lambda>_.
            Inr (put_first ''document''
              (Obj (put_first ''converted'' (Obj []) (put_first ''metadata'' (Obj meta) (put_first ''data'' x doc))))
              gui')))))))"

definition json_gui_to_db :: "codec \<Rightarrow> string \<Rightarrow> exn + string" where
  "json_gui_to_db c gui_json =
     (if gui_json = [] then Inl Runtime_exception
      else bindE (c_read c gui_json) (\<lambda>r. case r of
          None \<Rightarrow> Inl Runtime_error
        | Some gui \<Rightarrow> bindE (convert_to_db gui) (c_write c)))"

section \<open>The GUI form keeps the data\<close>

text \<open>A metadata table whose \<open>children\<close>, if any, is a table.\<close>

definition children_ok :: "object_t \<Rightarrow> bool" where
  "children_ok m \<longleftrightarrow> (case map_of m ''children'' of Some v \<Rightarrow> type_visitor v = OBJECT | None \<Rightarrow> True)"

lemma type_visitor_OBJECT: "type_visitor v = OBJECT \<longleftrightarrow> (\<exists>ps. v = Obj ps)"
  by (cases v) simp_all

lemma children_ok_snoc: "children_ok m \<Longrightarrow> children_ok (m @ [(name, Obj x)])"
  by (auto simp: children_ok_def map_add_def split: option.splits)

lemma append_below_children_run:
  assumes "children_ok m"
  shows "\<exists>m'. append_below_children name (Obj x) m = Inr m' \<and> children_ok m'"
proof -
  let ?m = "if table_count ''children'' m = 0 then table_set ''children'' (Obj []) m else m"
  have "\<exists>cs. map_of ?m ''children'' = Some (Obj cs)"
  proof (cases "map_of m ''children''")
    case None
    then have "table_count ''children'' m = 0"
      by (auto simp: table_count_def map_of_eq_None_iff filter_empty_conv)
    then show ?thesis by (simp add: table_simps)
  next
    case (Some v)
    then have "table_count ''children'' m \<noteq> 0"
      by (force simp: table_count_def filter_empty_conv dest!: map_of_SomeD)
    then show ?thesis using Some assms by (simp add: children_ok_def type_visitor_OBJECT)
  qed
  then obtain cs where cs: "map_of ?m ''children'' = Some (Obj cs)" by blast
  then have "''children'' \<in> fst ` set ?m" by (metis domI dom_map_of_conv_image_fst)
  then have "children_ok (put_first ''children'' (Obj (cs @ [(name, Obj x)])) ?m)"
    by (simp add: children_ok_def table_simps)
  then show ?thesis using cs
    by (simp add: append_below_children_def object_child_def table_at_map_of Let_def del: fun_upd_apply)
qed

lemma gui2db_entry:
  "(\<forall>ds m vs. \<exists>x. gui2db (Obj (gui_entry key v) # vs) (Obj ds) m = gui2db vs (Obj (ds @ [(key, v)])) (m @ [(key, Obj x)])) \<and>
   (\<forall>ds m vs. children_ok m \<longrightarrow> (\<exists>m'. children_ok m' \<and>
      gui2db (Obj (gui_entry key v) # vs) (Arr ds) m = gui2db vs (Arr (ds @ [v])) m'))"
  "\<forall>ds m. \<exists>m'. gui2db (gui_members ps) (Obj ds) m = Inr (Obj (ds @ ps), m @ m') \<and> map fst m' = map fst ps"
  "\<forall>ds m. children_ok m \<longrightarrow> (\<exists>m'. children_ok m' \<and> gui2db (gui_items i vs) (Arr ds) m = Inr (Arr (ds @ vs), m'))"
proof (induction key v and ps and i vs rule: gui_entry_gui_members_gui_items.induct)
  case (1 key ps)
  obtain m' where m': "gui2db (gui_members ps) (Obj []) [] = Inr (Obj ps, m')"
    using 1 by (metis append_Nil)
  show ?case
    by (simp add: gui2db.simps(2) table_count_def string_child_def array_child_def effective_type_def append_child_def m' )
      (use children_ok_snoc in blast)
next
  case (2 key vs)
  have "children_ok [(''type'', Str ''sequence''), (''comment'', Str '' ''), (''annotation'', Str [])]"
    by (simp add: children_ok_def)
  then obtain m' where m': "gui2db (gui_items 0 vs) (Arr []) [(''type'', Str ''sequence''), (''comment'', Str '' ''), (''annotation'', Str [])]
      = Inr (Arr vs, m')"
    using 2 by (metis append_Nil)
  show ?case
    by (simp add: gui2db.simps(2) table_count_def string_child_def array_child_def effective_type_def append_child_def
        sequence_metadata_def m') (use children_ok_snoc in blast)
next
  case (5 k v ps)
  show ?case
  proof (intro allI)
    fix ds m
    obtain x where x: "gui2db (Obj (gui_entry k v) # gui_members ps) (Obj ds) m =
        gui2db (gui_members ps) (Obj (ds @ [(k, v)])) (m @ [(k, Obj x)])" using 5(1) by blast
    obtain m' where "gui2db (gui_members ps) (Obj (ds @ [(k, v)])) (m @ [(k, Obj x)]) =
        Inr (Obj ((ds @ [(k, v)]) @ ps), (m @ [(k, Obj x)]) @ m')" "map fst m' = map fst ps" using 5(2) by blast
    then show "\<exists>m'. gui2db (gui_members ((k, v) # ps)) (Obj ds) m = Inr (Obj (ds @ (k, v) # ps), m @ m') \<and>
        map fst m' = map fst ((k, v) # ps)"
      using x by (intro exI[of _ "(k, Obj x) # m'"]) simp
  qed
next
  case (7 i v vs)
  show ?case
  proof (intro allI impI)
    fix ds m
    assume "children_ok m"
    then obtain m1 where m1: "children_ok m1" "gui2db (Obj (gui_entry (nat_digits i) v) # gui_items (Suc i) vs) (Arr ds) m =
        gui2db (gui_items (Suc i) vs) (Arr (ds @ [v])) m1" using 7(1) by blast
    obtain m2 where "children_ok m2" "gui2db (gui_items (Suc i) vs) (Arr (ds @ [v])) m1 = Inr (Arr ((ds @ [v]) @ vs), m2)"
      using 7(2) m1(1) by blast
    then show "\<exists>m'. children_ok m' \<and> gui2db (gui_items i (v # vs)) (Arr ds) m = Inr (Arr (ds @ v # vs), m')"
      using m1(2) by (intro exI[of _ m2]) simp
  qed
qed (simp_all add: gui2db.simps(2) table_count_def string_child_def effective_type_def append_child_def leaf_metadata_def,
    (use append_below_children_run in \<open>metis bindE_simps(2)\<close>)+)

text \<open>The GUI form of printable data can be printed.\<close>

lemma text_ok_digits: "text_ok (nat_digits n)"
proof -
  have "list_all is_digit ds \<Longrightarrow> text_ok ds" for ds
    by (induction ds rule: text_ok.induct) (auto simp: is_digit_def backslash_def dquote_def)
  then show ?thesis using nat_digits_all by blast
qed

lemma gui_entry_printable:
  "text_ok key \<Longrightarrow> printable v \<Longrightarrow> printable (Obj (gui_entry key v))"
  "printable (Obj ps) \<Longrightarrow> list_all printable (gui_members ps)"
  "list_all printable vs \<Longrightarrow> list_all printable (gui_items i vs)"
proof (induction key v and ps and i vs rule: gui_entry_gui_members_gui_items.induct)
  case (7 i v vs)
  then show ?case using text_ok_digits by simp
qed (auto simp: backslash_def dquote_def)

lemma gui_data_run:
  assumes "\<forall>k \<in> fst ` set ps. k \<noteq> [] \<and> \<not> child_found k m"
  shows "gui_data ps m = Inr (gui_members ps)"
  using assms unfolding gui_data_def by (induction ps) (auto simp: gui_child_def)

text \<open>The GUI form as it is written: the data below \<open>guidata\<close>, with the change log when there is one.\<close>

definition gui_table :: "object_t \<Rightarrow> object_t \<Rightarrow> object_t" where
  "gui_table db ps =
     [(''guidata'', Arr (gui_members ps))] @
     (case string_child ''changelog'' db of Inl _ \<Rightarrow> [] | Inr s \<Rightarrow> [(''changelog'', Str s)])"

lemma convert_to_gui_run:
  assumes "object_child ''document'' db = Inr doc" "object_child ''data'' doc = Inr ps" "object_child ''metadata'' doc = Inr m"
    and "\<forall>k \<in> fst ` set ps. k \<noteq> [] \<and> \<not> child_found k m"
  shows "convert_to_gui db =
    Inr (put_first ''document'' (Obj (table_set ''converted'' (Obj (gui_table db ps)) doc)) db)"
  using assms(1-3) gui_data_run[OF assms(4)]
  by (simp add: convert_to_gui_def gui_table_def string_child_def split: sum.splits)

lemma put_first_table_set: "k \<noteq> l \<Longrightarrow> put_first k v (table_set l w ps) = table_set l w (put_first k v ps)"
  by (induction l w ps rule: table_set.induct) auto

lemma put_first_over_table_set: "put_first k v (table_set k w ps) = table_set k v ps"
  by (induction k w ps rule: table_set.induct) auto

lemma convert_to_db_run:
  assumes "map_of db ''document'' = Some (Obj doc)" "map_of doc ''data'' = Some (Obj ps)" "map_of doc ''metadata'' = Some (Obj m)"
  shows "\<exists>meta. map fst meta = map fst ps \<and>
    convert_to_db (put_first ''document'' (Obj (table_set ''converted'' (Obj (gui_table db ps)) doc)) db) =
      Inr (put_first ''document'' (Obj (table_set ''converted'' (Obj []) (put_first ''metadata'' (Obj meta) doc))) db)"
proof -
  let ?conv = "Obj (gui_table db ps)"
  let ?doc = "table_set ''converted'' ?conv doc"
  let ?gui = "put_first ''document'' (Obj ?doc) db"
  obtain meta where meta: "gui2db (gui_members ps) (Obj []) [] = Inr (Obj ps, meta)" "map fst meta = map fst ps"
    using gui2db_entry(2)[of ps] by (metis append_Nil)
  have here: "''document'' \<in> fst ` set db" using assms(1) by (force dest: map_of_SomeD)
  have d: "object_child ''document'' ?gui = Inr ?doc" using here by (simp add: child_Inr table_simps)
  have c: "object_child ''converted'' ?doc = Inr (gui_table db ps)" "object_child ''data'' ?doc = Inr ps"
    "object_child ''metadata'' ?doc = Inr m" using assms(2,3) by (simp_all add: child_Inr table_simps)
  have g: "array_child ''guidata'' (gui_table db ps) = Inr (gui_members ps)" by (simp add: child_Inr gui_table_def)
  have log: "(case string_child ''changelog'' (gui_table db ps) of Inl _ \<Rightarrow> ?gui | Inr s \<Rightarrow> table_set ''changelog'' (Str s) ?gui) = ?gui"
  proof (cases "string_child ''changelog'' db")
    case (Inl e)
    then have "string_child ''changelog'' (gui_table db ps) = Inl Out_of_range"
      by (simp add: gui_table_def string_child_def)
    then show ?thesis by simp
  next
    case (Inr s)
    then have "string_child ''changelog'' (gui_table db ps) = Inr s" by (simp add: gui_table_def string_child_def)
    moreover have "map_of ?gui ''changelog'' = Some (Str s)" using Inr here by (simp add: child_Inr table_simps)
    ultimately show ?thesis by (simp add: table_set_same)
  qed
  have "put_first ''converted'' (Obj []) (put_first ''metadata'' (Obj meta) (put_first ''data'' (Obj ps) ?doc)) =
      table_set ''converted'' (Obj []) (put_first ''metadata'' (Obj meta) doc)"
  proof -
    have "put_first ''data'' (Obj ps) ?doc = ?doc" using c(2) by (simp add: child_Inr put_first_same)
    moreover have "put_first ''metadata'' (Obj meta) ?doc = table_set ''converted'' ?conv (put_first ''metadata'' (Obj meta) doc)"
      by (rule put_first_table_set) simp
    ultimately show ?thesis by (simp add: put_first_over_table_set)
  qed
  then show ?thesis using d c g meta log
    by (intro exI[of _ meta]) (simp add: convert_to_db_def Let_def table_simps)
qed

lemma gui_table_printable:
  assumes "printable (Obj db)" "printable (Obj ps)"
  shows "printable (Obj (gui_table db ps))"
proof -
  have "text_ok s" if "string_child ''changelog'' db = Inr s" for s
    using printable_map_of[of db "''changelog''" "Str s"] that assms(1) by (simp add: child_Inr)
  then show ?thesis using gui_entry_printable(2)[OF assms(2)]
    by (auto simp: gui_table_def backslash_def dquote_def split: sum.splits)
qed

text \<open>C23.  A document that is shown in the GUI and sent back keeps its data: the text of the GUI
  form exists and is converted to the text of the document with the same data, an empty
  converted part and new metadata for exactly the members of the data; nothing else changes.
  This holds for documents whose metadata does not describe the members of the data yet.\<close>

theorem gui_roundtrip:
  assumes "boost_ok qd db" "c_write (boost_codec kd qd) db = Inr t"
    and "object_child ''document'' db = Inr doc" "object_child ''data'' doc = Inr ps" "object_child ''metadata'' doc = Inr m"
    and "\<forall>k \<in> fst ` set ps. k \<noteq> [] \<and> \<not> child_found k m"
  shows "\<exists>g doc' meta. json_db_to_gui (boost_codec kd qd) t = Inr g \<and>
    json_gui_to_db (boost_codec kd qd) g = c_write (boost_codec kd qd) (put_first ''document'' (Obj doc') db) \<and>
    map_of doc' ''data'' = Some (Obj ps) \<and> map_of doc' ''converted'' = Some (Obj []) \<and>
    map_of doc' ''metadata'' = Some (Obj meta) \<and> map fst meta = map fst ps \<and>
    (\<forall>k. k \<notin> {''metadata'', ''converted''} \<longrightarrow> map_of doc' k = map_of doc k)"
proof -
  let ?c = "boost_codec kd qd"
  let ?gui = "put_first ''document'' (Obj (table_set ''converted'' (Obj (gui_table db ps)) doc)) db"
  have here: "map_of db ''document'' = Some (Obj doc)" "map_of doc ''data'' = Some (Obj ps)" "map_of doc ''metadata'' = Some (Obj m)"
    using assms(3-5) by (simp_all add: child_Inr)
  have pr: "printable (Obj db)" "refuses_other qd" using assms(1) by (simp_all add: boost_ok_def del: printable.simps)
  have prd: "printable (Obj doc)" by (rule printable_map_of[OF here(1) pr(1)])
  have "printable (Obj (gui_table db ps))" by (rule gui_table_printable[OF pr(1) printable_map_of[OF here(2) prd]])
  then have "printable (Obj (table_set ''converted'' (Obj (gui_table db ps)) doc))"
    by (intro printable_table_set[OF prd]) (simp_all add: backslash_def dquote_def)
  then have gok: "boost_ok qd ?gui" using printable_put_first[OF pr(1)] pr(2) by (simp add: boost_ok_def del: printable.simps)
  moreover have "?gui \<noteq> []" using here(1) by (cases db) (auto split: if_splits)
  ultimately obtain g where g: "c_write ?c ?gui = Inr g" using boost.write_ok by blast
  have there: "json_db_to_gui ?c t = Inr g"
    using boost.read_write[OF assms(1,2)] convert_to_gui_run[OF assms(3-6)] g by (simp add: json_db_to_gui_def)
  obtain meta where meta: "map fst meta = map fst ps" "convert_to_db ?gui =
      Inr (put_first ''document'' (Obj (table_set ''converted'' (Obj []) (put_first ''metadata'' (Obj meta) doc))) db)"
    using convert_to_db_run[OF here] by blast
  have home: "json_gui_to_db ?c g =
      c_write ?c (put_first ''document'' (Obj (table_set ''converted'' (Obj []) (put_first ''metadata'' (Obj meta) doc))) db)"
    using boost.read_write[OF gok g] meta(2) by (simp add: json_gui_to_db_def)
  have "''metadata'' \<in> fst ` set doc" using here(3) by (force dest: map_of_SomeD)
  then show ?thesis using there home meta(1) here
    by (intro exI[of _ g] exI[of _ "table_set ''converted'' (Obj []) (put_first ''metadata'' (Obj meta) doc)"] exI[of _ meta])
      (simp add: table_simps)
qed

definition gui_sample :: "object_t \<Rightarrow> object_t" where
  "gui_sample m =
     [(''document'', Obj [(''data'', Obj [(''a'', Arr [Str ''x'', Obj [(''b'', Bool True)]])]), (''metadata'', Obj m)]),
      (''changelog'', Str ''log'')]"

lemma gui_sample_text:
  "\<exists>t. c_write (boost_codec decimal_to_string no_doubles) (gui_sample m) = Inr t" if "boost_ok no_doubles (gui_sample m)"
  using boost.write_ok[OF that] by (simp add: gui_sample_def)

theorem gui_roundtrip_witness:
  "\<exists>t g doc'. c_write (boost_codec decimal_to_string no_doubles) (gui_sample []) = Inr t \<and>
    json_db_to_gui (boost_codec decimal_to_string no_doubles) t = Inr g \<and>
    json_gui_to_db (boost_codec decimal_to_string no_doubles) g =
      c_write (boost_codec decimal_to_string no_doubles) (put_first ''document'' (Obj doc') (gui_sample [])) \<and>
    map_of doc' ''data'' = Some (Obj [(''a'', Arr [Str ''x'', Obj [(''b'', Bool True)]])])"
proof -
  let ?data = "[(''a'', Arr [Str ''x'', Obj [(''b'', Bool True)]])]"
  let ?doc = "[(''data'', Obj ?data), (''metadata'', Obj [])]"
  have ok: "boost_ok no_doubles (gui_sample [])" by (auto simp: boost_ok_def refuses_other_def no_doubles_def) code_simp
  obtain t where t: "c_write (boost_codec decimal_to_string no_doubles) (gui_sample []) = Inr t" using gui_sample_text[OF ok] by blast
  have d: "object_child ''document'' (gui_sample []) = Inr ?doc" "object_child ''data'' ?doc = Inr ?data"
    "object_child ''metadata'' ?doc = Inr []" "\<forall>k \<in> fst ` set ?data. k \<noteq> [] \<and> \<not> child_found k []" by code_simp+
  from gui_roundtrip[OF ok t d] show ?thesis using t by (elim exE conjE) (intro exI conjI; assumption)
qed

text \<open>Metadata that describes the first member of the data is reached through a reference to
  a local object of \<open>metadata_node_t::child\<close>, so showing such a document, in particular one that
  came back from the GUI, has no defined result.\<close>

theorem gui_metadata_dangles:
  assumes "boost_ok qd db" "c_write (boost_codec kd qd) db = Inr t"
    and "object_child ''document'' db = Inr doc" "object_child ''data'' doc = Inr ((k, v) # ps)" "object_child ''metadata'' doc = Inr m"
    and "k \<noteq> []" "child_found k m"
  shows "json_db_to_gui (boost_codec kd qd) t = Inl Undefined"
  using boost.read_write[OF assms(1,2)] assms(3-7)
  by (simp add: json_db_to_gui_def convert_to_gui_def gui_data_def gui_child_def)

theorem gui_metadata_dangles_witness:
  "\<exists>t. c_write (boost_codec decimal_to_string no_doubles) (gui_sample [(''a'', Obj [(''type'', Str ''sequence'')])]) = Inr t \<and>
    json_db_to_gui (boost_codec decimal_to_string no_doubles) t = Inl Undefined"
proof -
  let ?db = "gui_sample [(''a'', Obj [(''type'', Str ''sequence'')])]"
  have ok: "boost_ok no_doubles ?db" by (auto simp: boost_ok_def refuses_other_def no_doubles_def) code_simp
  obtain t where t: "c_write (boost_codec decimal_to_string no_doubles) ?db = Inr t" using gui_sample_text[OF ok] by blast
  have d: "object_child ''document'' ?db = Inr [(''data'', Obj [(''a'', Arr [Str ''x'', Obj [(''b'', Bool True)]])]),
      (''metadata'', Obj [(''a'', Obj [(''type'', Str ''sequence'')])])]" by code_simp
  show ?thesis using gui_metadata_dangles[OF ok t d] t by (simp add: object_child_def child_found_def)
qed

end
