(* ===== verification/Operations.thy ===== *)
theory Operations
  imports Dispatch GuiConversion
begin

text \<open>
  The operations of the client interface: ConfigurationDB/detail\_managedocument.cpp,
  detail\_manageconfigs.cpp, detail\_managealiases.cpp, detail\_metadata.cpp,
  detail\_searchcollection.cpp and detail\_findcompositions.cpp, which convert between the formats
  and pick the dispatcher by the provider of the options, and dboperation\_*.cpp, which turn every
  exception into a result.
\<close>

section \<open>Dispatchers\<close>

record 'd backend =
  be_writeDocument :: "document_options \<Rightarrow> jsondoc \<Rightarrow> ('d, unit) fdb"
  be_readDocument :: "document_options \<Rightarrow> jsondoc \<Rightarrow> ('d, jsondoc) fdb"
  be_readDocuments :: "document_options \<Rightarrow> jsondoc \<Rightarrow> ('d, jsondoc list) fdb"
  be_findConfigurations :: "document_options \<Rightarrow> jsondoc \<Rightarrow> ('d, jsondoc list) fdb"
  be_configurationComposition :: "document_options \<Rightarrow> jsondoc \<Rightarrow> ('d, jsondoc) fdb"
  be_findVersions :: "document_options \<Rightarrow> jsondoc \<Rightarrow> ('d, jsondoc list) fdb"
  be_findEntities :: "document_options \<Rightarrow> jsondoc \<Rightarrow> ('d, jsondoc list) fdb"
  be_assignConfiguration :: "document_options \<Rightarrow> jsondoc \<Rightarrow> ('d, jsondoc) fdb"
  be_removeConfiguration :: "document_options \<Rightarrow> jsondoc \<Rightarrow> ('d, jsondoc) fdb"
  be_findVersionAliases :: "alias_options \<Rightarrow> jsondoc \<Rightarrow> ('d, jsondoc list) fdb"
  be_listCollections :: "document_options \<Rightarrow> jsondoc \<Rightarrow> ('d, jsondoc list) fdb"
  be_listDatabases :: "document_options \<Rightarrow> jsondoc \<Rightarrow> ('d, jsondoc list) fdb"
  be_readDbInfo :: "document_options \<Rightarrow> jsondoc \<Rightarrow> ('d, jsondoc) fdb"
  be_searchCollection :: "document_options \<Rightarrow> jsondoc \<Rightarrow> ('d, jsondoc list) fdb"
  be_findCompositionsContaining :: "document_options \<Rightarrow> jsondoc \<Rightarrow> ('d, jsondoc list) fdb"

definition filesystem_backend :: "'d provider \<Rightarrow> process_env \<Rightarrow> 'd backend" where
  "filesystem_backend pv env =
     \<lparr>be_writeDocument = fs_writeDocument pv, be_readDocument = fs_readDocument pv, be_readDocuments = fs_readDocuments pv,
      be_findConfigurations = fs_findConfigurations pv, be_configurationComposition = fs_configurationComposition pv,
      be_findVersions = fs_findVersions pv, be_findEntities = fs_findEntities pv,
      be_assignConfiguration = fs_assignConfiguration pv env, be_removeConfiguration = fs_removeConfiguration pv env,
      be_findVersionAliases = fs_findVersionAliases pv, be_listCollections = fs_listCollections pv,
      be_listDatabases = fs_listDatabases pv, be_readDbInfo = fs_readDbInfo pv, be_searchCollection = fs_searchCollection pv,
      be_findCompositionsContaining = fs_findCompositionsContaining pv\<rparr>"

definition mongo_backend :: "'d storage \<Rightarrow> process_env \<Rightarrow> 'd backend" where
  "mongo_backend st env =
     \<lparr>be_writeDocument = mongo_writeDocument st, be_readDocument = mongo_readDocument st,
      be_readDocuments = mongo_readDocuments st, be_findConfigurations = mongo_findConfigurations st,
      be_configurationComposition = mongo_configurationComposition st, be_findVersions = mongo_findVersions st,
      be_findEntities = mongo_findEntities st, be_assignConfiguration = mongo_assignConfiguration st env,
      be_removeConfiguration = mongo_removeConfiguration st env, be_findVersionAliases = mongo_findVersionAliases st,
      be_listCollections = mongo_listCollections st, be_listDatabases = mongo_listDatabases st,
      be_readDbInfo = mongo_readDbInfo st, be_searchCollection = mongo_searchCollection st,
      be_findCompositionsContaining = mongo_findCompositionsContaining st\<rparr>"

definition ucon_backend :: "'d storage \<Rightarrow> process_env \<Rightarrow> 'd backend" where
  "ucon_backend st env =
     \<lparr>be_writeDocument = ucon_writeDocument st, be_readDocument = ucon_readDocument st,
      be_readDocuments = ucon_readDocuments st, be_findConfigurations = ucon_findConfigurations st,
      be_configurationComposition = ucon_configurationComposition st, be_findVersions = ucon_findVersions st,
      be_findEntities = ucon_findEntities st, be_assignConfiguration = ucon_assignConfiguration st env,
      be_removeConfiguration = ucon_removeConfiguration st env, be_findVersionAliases = ucon_findVersionAliases st,
      be_listCollections = ucon_listCollections st, be_listDatabases = ucon_listDatabases st,
      be_readDbInfo = ucon_readDbInfo st, be_searchCollection = ucon_searchCollection st,
      be_findCompositionsContaining = ucon_findCompositionsContaining st\<rparr>"

text \<open>
  The client: its JSON library and environment, the three dispatchers, the conversions that rest on
  the FHiCL parser (absent in a build without it) and on Xerces, and the text
  \<open>current_exception_diagnostic_information\<close> makes of an exception.
\<close>

record 'd client =
  cl_codec :: codec
  cl_env :: process_env
  cl_mongo :: "'d backend"
  cl_filesystem :: "'d backend"
  cl_ucon :: "'d backend"
  cl_fhicl_to_ast :: "(string \<Rightarrow> string \<Rightarrow> exn + object_t option) option"
  cl_write_fhicl :: "object_t \<Rightarrow> exn + string option"
  cl_xml_to_json :: "string \<Rightarrow> exn + string option"
  cl_json_to_xml :: "string \<Rightarrow> exn + string option"
  cl_write_xml :: "object_t \<Rightarrow> exn + string option"
  cl_diagnostic :: "exn \<Rightarrow> string"

definition validate_dbprovider_name :: "string \<Rightarrow> exn + unit" where
  "validate_dbprovider_name p =
     (if p = [] then Inl Runtime_exception
      else bindE (valid_provider p) (\<lambda>ok. if ok then Inr () else Inl Runtime_error))"

text \<open>\<open>providers.at(name)\<close>.\<close>

definition backend_of :: "'d client \<Rightarrow> string \<Rightarrow> exn + 'd backend" where
  "backend_of cl name =
     (if name = ''mongo'' then Inr (cl_mongo cl)
      else if name = ''filesystem'' then Inr (cl_filesystem cl)
      else if name = ''ucon'' then Inr (cl_ucon cl)
      else Inl Out_of_range)"

definition dispatch :: "'d client \<Rightarrow> 'o operation_base_scheme \<Rightarrow> ('d backend \<Rightarrow> ('d, 'a) fdb) \<Rightarrow> ('d, 'a) fdb" where
  "dispatch cl opts f = bindM (liftE (bindE (getter (op_provider opts)) (backend_of cl))) f"

text \<open>The confirmations every operation starts with: \<open>out\<close> is the reference it answers through.\<close>

definition begin_operation :: "string list \<Rightarrow> 'o operation_base_scheme \<Rightarrow> string \<Rightarrow> ('d, unit) fdb" where
  "begin_operation operations opts out =
     thenM (confirm (out = []))
     (thenM (bindM (liftE (getter (op_operation opts))) (\<lambda>op. confirm (op \<in> set operations)))
     (liftE (bindE (getter (op_provider opts)) validate_dbprovider_name)))"

definition filter_document :: "codec \<Rightarrow> exn + string \<Rightarrow> exn + jsondoc" where
  "filter_document c t = bindE t (doc_of_string c)"

text \<open>A failed conversion is an error.\<close>

definition converted :: "exn + 'a option \<Rightarrow> exn + 'a" where
  "converted r = bindE r (\<lambda>x. case x of None \<Rightarrow> Inl Runtime_error | Some y \<Rightarrow> Inr y)"

section \<open>Writing and reading a document\<close>

text \<open>The document to be stored and, when the text handed in is replaced, its new value.\<close>

definition data_document :: "'d client \<Rightarrow> document_options \<Rightarrow> string \<Rightarrow> exn + jsondoc \<times> string option" where
  "data_document cl opts conf =
     (let c = cl_codec cl in
      bindE (get_format opts) (\<lambda>format.
      case format of
        Format_json \<Rightarrow> bindE (doc_of_string c (''{'' @ quoted ''data'' @ '':'' @ conf @ ''}'')) (\<lambda>d. Inr (d, None))
      | Format_db \<Rightarrow> bindE (doc_of_string c conf) (\<lambda>d. Inr (d, None))
      | Format_gui \<Rightarrow> bindE (json_gui_to_db c conf) (\<lambda>t. bindE (doc_of_string c t) (\<lambda>d. Inr (d, Some t)))
      | Format_fhicl \<Rightarrow>
          (case cl_fhicl_to_ast cl of
             None \<Rightarrow> Inl Runtime_error
           | Some convert \<Rightarrow> bindE (getter (opt_entity opts)) (\<lambda>entity.
               bindE (converted (convert conf entity)) (\<lambda>ast. Inr (doc_of (Obj ast), None))))
      | Format_xml \<Rightarrow>
          bindE (converted (cl_xml_to_json cl conf)) (\<lambda>json.
          bindE (converted (cl_json_to_xml cl json)) (\<lambda>xml.
          bindE (doc_of_string c json) (\<lambda>d. Inr (d, Some xml))))
      | _ \<Rightarrow> Inl Runtime_error))"

definition id_filter :: "codec \<Rightarrow> string bld" where
  "id_filter c = bindM recordM (\<lambda>v. bindM (liftE (bindE (getObjectID c v) (doc_text c))) (\<lambda>t.
     retM ('', '' @ quoted ''filter'' @ '':'' @ t)))"

text \<open>The builder for the format of the options, with the filter the document is stored under.\<close>

definition make_builder :: "'d client \<Rightarrow> document_options \<Rightarrow> jsondoc \<Rightarrow> string \<Rightarrow> string bld" where
  "make_builder cl opts data filt =
     (let c = cl_codec cl; format = op_format opts in
      if format = Format_fhicl \<and> cl_fhicl_to_ast cl \<noteq> None then thenM (new_builder data) (retM filt)
      else if format = Format_gui then
        thenM (new_builder data)
        (thenM bld_newObjectID
        (thenM bld_removeAllConfigurations
        (thenM bld_removeAllEntities (id_filter c))))
      else if format = Format_db then
        thenM (new_builder data)
        (bindM bld_isReadonlyOrDeleted (\<lambda>frozen.
          thenM (whenM (frozen \<and> op_operation opts = ''store'') bld_newObjectID) (id_filter c)))
      else thenM (empty_builder c) (thenM (createFromData c data) (retM filt)))"

text \<open>The members of the options go into the document unless it is frozen.\<close>

definition add_members :: "codec \<Rightarrow> document_options \<Rightarrow> unit bld" where
  "add_members c opts =
     (let member = (\<lambda>t op. bindM (liftE (filter_document c t)) op) in
      bindM bld_isReadonlyOrDeleted (\<lambda>frozen.
      whenM (\<not> frozen) (seqM
        [member (configuration_to_JsonData c opts) bld_addConfiguration,
         member (version_to_JsonData c opts) bld_setVersion,
         member (collection_to_JsonData c opts) bld_setCollection,
         member (entity_to_JsonData c opts) bld_addEntity,
         bindM (liftE (getter (opt_run opts))) (\<lambda>run.
           whenM (run \<noteq> notprovided) (member (run_to_JsonData c opts) bld_addRun))])))"

definition insert_payload :: "codec \<Rightarrow> document_options \<Rightarrow> string \<Rightarrow> jsondoc \<Rightarrow> exn + jsondoc" where
  "insert_payload c opts filt doc =
     bindE (getter (op_collection opts)) (\<lambda>collection.
     bindE (doc_of_string c (''{'' @ quoted ''document'' @ '':{}'' @ filt @ '', '' @ quoted ''collection'' @ '':'' @
        quoted collection @ ''}'')) (\<lambda>payload.
     case replaceChild doc ''document'' payload of (Inl e, _) \<Rightarrow> Inl e | (Inr _, payload') \<Rightarrow> Inr payload'))"

definition write_document :: "'d client \<Rightarrow> document_options \<Rightarrow> string \<Rightarrow> ('d, string) fdb" where
  "write_document cl opts conf =
     (let c = cl_codec cl in
      thenM (bindM (liftE (getter (op_operation opts))) (\<lambda>op. confirm (op = ''store'' \<or> op = ''overwritedocument'')))
      (if conf = [] then throwM Runtime_error
       else
         thenM (liftE (bindE (getter (op_provider opts)) validate_dbprovider_name))
         (bindM (liftE (data_document cl opts conf)) (\<lambda>(data, returned).
          bindM (liftE (query_filter_to_JsonData c opts)) (\<lambda>query.
          bindM (on_builder (bindM (make_builder cl opts data ('', '' @ quoted ''filter'' @ '':'' @ query)) (\<lambda>filt.
              thenM (add_members c opts) (retM filt))) empty_doc) (\<lambda>(filt, doc).
          bindM (liftE (insert_payload c opts filt doc)) (\<lambda>payload.
          thenM (dispatch cl opts (\<lambda>be. be_writeDocument be opts payload))
            (retM (case returned of None \<Rightarrow> conf | Some t \<Rightarrow> t)))))))))"

definition search_text :: "codec \<Rightarrow> document_options \<Rightarrow> string \<Rightarrow> exn + string" where
  "search_text c opts sep =
     bindE (query_filter_to_JsonData c opts) (\<lambda>query.
     bindE (getter (op_collection opts)) (\<lambda>collection.
       Inr (''{'' @ quoted ''filter'' @ '':'' @ query @ sep @ quoted ''collection'' @ '':'' @ quoted collection @ ''}'')))"

definition document_child :: "jsondoc \<Rightarrow> exn + object_t" where
  "document_child d = bindE (get_object (jd_value d)) (object_child ''document'')"

text \<open>The answer in the format of the options; \<open>origin\<close> is the format the document was stored in.\<close>

definition format_document :: "'d client \<Rightarrow> data_format_t \<Rightarrow> jsondoc \<Rightarrow> exn + string" where
  "format_document cl format d =
     (let c = cl_codec cl in
      case format of
        Format_gui \<Rightarrow> bindE (doc_text c d) (json_db_to_gui c)
      | Format_json \<Rightarrow> bindE (document_child d) (\<lambda>doc. bindE (object_child ''data'' doc) (c_write c))
      | Format_unknown \<Rightarrow> Inl Runtime_error
      | Format_fhicl \<Rightarrow> (if cl_fhicl_to_ast cl = None then doc_text c d
          else bindE (document_child d) (\<lambda>doc. converted (cl_write_fhicl cl doc)))
      | Format_xml \<Rightarrow> bindE (document_child d) (\<lambda>doc. converted (cl_write_xml cl doc))
      | _ \<Rightarrow> doc_text c d)"

definition read_document :: "'d client \<Rightarrow> document_options \<Rightarrow> string \<Rightarrow> ('d, string) fdb" where
  "read_document cl opts conf =
     (let c = cl_codec cl in
      thenM (bindM (liftE (getter (op_operation opts))) (\<lambda>op. confirm (op = ''load'')))
      (if conf \<noteq> [] then throwM Runtime_error
       else
         thenM (liftE (bindE (getter (op_provider opts)) validate_dbprovider_name))
         (bindM (liftE (bindE (search_text c opts '', '') (doc_of_string c))) (\<lambda>search.
          bindM (dispatch cl opts (\<lambda>be. be_readDocument be opts search)) (\<lambda>d.
          bindM (liftE (get_format opts)) (\<lambda>format.
          bindM (liftE (if format = Format_origin then bindE (value_as_string c d ''origin.format'') to_data_format
              else Inr format)) (\<lambda>format'.
            liftE (format_document cl format' d))))))))"

section \<open>Searches\<close>

text \<open>\<open>seekp(-1)\<close> makes the closing bracket overwrite the last comma, or the line end when nothing was
  found.  The list of names ends with a comma, unless it is empty, which \<open>back\<close> does not allow.\<close>

definition gui_answer :: "codec \<Rightarrow> jsondoc list \<Rightarrow> exn + string" where
  "gui_answer c ds =
     bindE (mapE (doc_text c) ds) (\<lambda>ts.
       Inr (butlast (''{ '' @ quoted ''search'' @ '': ['' @ newline @ concat (map (\<lambda>t. t @ '','') ts)) @ ''] }''))"

definition csv_answer :: "codec \<Rightarrow> jsondoc list \<Rightarrow> exn + string" where
  "csv_answer c ds =
     bindE (mapE (\<lambda>d. value_as_string c d ''name'') ds) (\<lambda>ns.
       let t = concat (map (\<lambda>n. n @ '','') ns) in
       if t = [] then Inl Undefined else Inr (if last t = CHR '','' then butlast t else t))"

definition list_answer :: "codec \<Rightarrow> document_options \<Rightarrow> jsondoc list \<Rightarrow> exn + string" where
  "list_answer c opts ds =
     bindE (get_format opts) (\<lambda>format. case format of
         Format_gui \<Rightarrow> gui_answer c ds | Format_csv \<Rightarrow> csv_answer c ds | _ \<Rightarrow> Inl Runtime_error)"

definition find_in ::
  "'d client \<Rightarrow> string \<Rightarrow> ('d backend \<Rightarrow> document_options \<Rightarrow> jsondoc \<Rightarrow> ('d, 'a) fdb) \<Rightarrow> document_options \<Rightarrow> string \<Rightarrow>
    ('a \<Rightarrow> exn + string) \<Rightarrow> ('d, string) fdb" where
  "find_in cl operation query opts out answer =
     (let c = cl_codec cl in
      thenM (begin_operation [operation] opts out)
      (bindM (liftE (bindE (getter (op_provider opts)) (backend_of cl))) (\<lambda>be.
       bindM (liftE (filter_document c (query_filter_to_JsonData c opts))) (\<lambda>search.
       bindM (query be opts search) (\<lambda>found. liftE (answer found))))))"

definition find_versions :: "'d client \<Rightarrow> document_options \<Rightarrow> string \<Rightarrow> ('d, string) fdb" where
  "find_versions cl opts out = find_in cl ''findversions'' be_findVersions opts out (list_answer (cl_codec cl) opts)"

definition find_entities :: "'d client \<Rightarrow> document_options \<Rightarrow> string \<Rightarrow> ('d, string) fdb" where
  "find_entities cl opts out = find_in cl ''findentities'' be_findEntities opts out (list_answer (cl_codec cl) opts)"

definition find_configurations :: "'d client \<Rightarrow> document_options \<Rightarrow> string \<Rightarrow> ('d, string) fdb" where
  "find_configurations cl opts out =
     find_in cl ''findconfigs'' be_findConfigurations opts out (list_answer (cl_codec cl) opts)"

definition list_databases :: "'d client \<Rightarrow> document_options \<Rightarrow> string \<Rightarrow> ('d, string) fdb" where
  "list_databases cl opts out =
     find_in cl ''listdatabases'' be_listDatabases opts out (list_answer (cl_codec cl) opts)"

definition list_collections :: "'d client \<Rightarrow> document_options \<Rightarrow> string \<Rightarrow> ('d, string) fdb" where
  "list_collections cl opts out =
     (let c = cl_codec cl in
      thenM (begin_operation [''listcollections''] opts out)
      (bindM (liftE (bindE (getter (op_provider opts)) (backend_of cl))) (\<lambda>be.
       bindM (liftE (filter_document c (collection_to_JsonData c opts))) (\<lambda>search.
       bindM (be_listCollections be opts search) (\<lambda>found. liftE (list_answer c opts found))))))"

text \<open>A format the answer cannot take is converted for the GUI, and the answer is dropped.\<close>

definition composition_result :: "codec \<Rightarrow> document_options \<Rightarrow> jsondoc \<Rightarrow> exn + string" where
  "composition_result c opts d =
     bindE (get_format opts) (\<lambda>format.
       if format = Format_gui then doc_text c d
       else bindE (bindE (doc_text c d) (json_db_to_gui c)) (\<lambda>_. Inr []))"

definition configuration_composition :: "'d client \<Rightarrow> document_options \<Rightarrow> string \<Rightarrow> ('d, string) fdb" where
  "configuration_composition cl opts out =
     find_in cl ''buildfilter'' be_configurationComposition opts out (composition_result (cl_codec cl) opts)"

definition read_dbinfo :: "'d client \<Rightarrow> document_options \<Rightarrow> string \<Rightarrow> ('d, string) fdb" where
  "read_dbinfo cl opts out =
     find_in cl ''readdbinfo'' be_readDbInfo opts out (\<lambda>d.
       let c = cl_codec cl in
       bindE (get_format opts) (\<lambda>format.
         if format = Format_db \<or> format = Format_json \<or> format = Format_gui then doc_text c d
         else bindE (bindE (doc_text c d) (json_db_to_gui c)) (\<lambda>_. Inr [])))"

definition gui_only :: "codec \<Rightarrow> document_options \<Rightarrow> jsondoc \<Rightarrow> exn + string" where
  "gui_only c opts d =
     bindE (get_format opts) (\<lambda>format. if format = Format_gui then doc_text c d else Inl Runtime_error)"

definition assign_configuration :: "'d client \<Rightarrow> document_options \<Rightarrow> string \<Rightarrow> ('d, string) fdb" where
  "assign_configuration cl opts out =
     find_in cl ''addconfig'' be_assignConfiguration opts out (gui_only (cl_codec cl) opts)"

definition remove_configuration :: "'d client \<Rightarrow> document_options \<Rightarrow> string \<Rightarrow> ('d, string) fdb" where
  "remove_configuration cl opts out =
     find_in cl ''rmconfig'' be_removeConfiguration opts out (gui_only (cl_codec cl) opts)"

definition search_collection :: "'d client \<Rightarrow> document_options \<Rightarrow> string \<Rightarrow> ('d, string) fdb" where
  "search_collection cl opts out =
     (let c = cl_codec cl in
      thenM (begin_operation [''searchcollection''] opts out)
      (bindM (liftE (bindE (getter (op_provider opts)) (backend_of cl))) (\<lambda>be.
       bindM (liftE (options_document c opts)) (\<lambda>query.
       bindM (be_searchCollection be opts query) (\<lambda>found.
         liftE (bindE (get_format opts) (\<lambda>format. if format = Format_json then gui_answer c found else Inl Runtime_error)))))))"

text \<open>\<open>find_compositions_containing\<close>: its own check of the provider, and its own lists.  A name in the
  list of names is parsed as a document once more and left out when that fails, and the comma that
  \<open>seekp\<close> steps back over stays in the text.\<close>

definition compositions_gui :: "codec \<Rightarrow> jsondoc list \<Rightarrow> exn + string" where
  "compositions_gui c ds =
     bindE (mapE (doc_text c) ds) (\<lambda>ts.
       Inr (''{ '' @ quoted ''search'' @ '': ['' @ newline @ join ('','' @ newline) ts @ newline @ ''] }''))"

definition compositions_csv :: "codec \<Rightarrow> jsondoc list \<Rightarrow> exn + string" where
  "compositions_csv c ds =
     bindE (mapE (\<lambda>d. or_else [] (bindE (value_as_string c d ''name'') (\<lambda>n.
       bindE (doc_of_string c n) (\<lambda>x. bindE (doc_value c (jd_value x)) (\<lambda>t. Inr (t @ '','')))))) ds) (\<lambda>ns. Inr (concat ns))"

definition find_compositions_containing :: "'d client \<Rightarrow> document_options \<Rightarrow> string \<Rightarrow> ('d, string) fdb" where
  "find_compositions_containing cl opts out =
     (let c = cl_codec cl in
      thenM (confirm (out = []))
      (thenM (bindM (liftE (getter (op_operation opts))) (\<lambda>op. confirm (op = ''findcompositionscontaining'')))
      (bindM (liftE (getter (op_provider opts))) (\<lambda>p.
       if p \<notin> {''mongo'', ''filesystem'', ''ucon''} then throwM Runtime_error
       else
       bindM (liftE (backend_of cl p)) (\<lambda>be.
       bindM (liftE (filter_document c (query_filter_to_JsonData c opts))) (\<lambda>search.
       bindM (be_findCompositionsContaining be opts search) (\<lambda>found.
         liftE (bindE (get_format opts) (\<lambda>format. case format of
             Format_gui \<Rightarrow> compositions_gui c found | Format_csv \<Rightarrow> compositions_csv c found | _ \<Rightarrow> Inl Runtime_error)))))))))"

section \<open>Changing a stored document\<close>

text \<open>The document is read in the database format, changed by the builder, written and read again in
  the format of the options.\<close>

definition rewrite_document ::
  "'d client \<Rightarrow> document_options \<Rightarrow> unit bld \<Rightarrow> string \<Rightarrow> (document_options, unit) prog list \<Rightarrow> data_format_t \<Rightarrow> ('d, string) fdb" where
  "rewrite_document cl opts change operation reading format =
     (let c = cl_codec cl in
      bindM (read_document cl opts []) (\<lambda>document.
      bindM (on_builder (thenM (bindM (liftE (doc_of_string c document)) new_builder) (thenM change (bld_to_string c))) empty_doc)
        (\<lambda>(updated, _).
      bindM (liftE (with_options [ignoring (set_operation operation), ignoring (set_format Format_db)] opts)) (\<lambda>writing.
      thenM (write_document cl writing updated)
      (bindM (liftE (with_options ([ignoring (set_operation ''load''), ignoring (set_format format)] @ reading) writing)) (\<lambda>again.
        read_document cl again []))))))"

definition edit_document ::
  "'d client \<Rightarrow> string \<Rightarrow> (document_options \<Rightarrow> unit bld) \<Rightarrow> string \<Rightarrow> document_options \<Rightarrow> string \<Rightarrow> ('d, string) fdb" where
  "edit_document cl operation change write_operation opts out =
     thenM (begin_operation [operation] opts out)
     (bindM (liftE (with_options [ignoring (set_operation ''load''), ignoring (set_format Format_db),
         ignoring (set_entity notprovided), ignoring (set_queryFilter notprovided)] opts)) (\<lambda>newOptions.
       rewrite_document cl newOptions (change opts) write_operation [] (op_format opts)))"

definition entity_change :: "codec \<Rightarrow> (jsondoc \<Rightarrow> unit bld) \<Rightarrow> document_options \<Rightarrow> unit bld" where
  "entity_change c op opts = bindM (liftE (filter_document c (entity_to_JsonData c opts))) op"

definition add_entity :: "'d client \<Rightarrow> document_options \<Rightarrow> string \<Rightarrow> ('d, string) fdb" where
  "add_entity cl = edit_document cl ''addentity'' (entity_change (cl_codec cl) bld_addEntity) ''store''"

definition remove_entity :: "'d client \<Rightarrow> document_options \<Rightarrow> string \<Rightarrow> ('d, string) fdb" where
  "remove_entity cl = edit_document cl ''rmentity'' (entity_change (cl_codec cl) bld_removeEntity) ''store''"

definition mark_document_readonly :: "'d client \<Rightarrow> document_options \<Rightarrow> string \<Rightarrow> ('d, string) fdb" where
  "mark_document_readonly cl = edit_document cl ''markreadonly'' (\<lambda>_. bld_markReadonly) ''overwritedocument''"

definition mark_document_deleted :: "'d client \<Rightarrow> document_options \<Rightarrow> string \<Rightarrow> ('d, string) fdb" where
  "mark_document_deleted cl = edit_document cl ''markdeleted'' (\<lambda>_. bld_markDeleted) ''overwritedocument''"

text \<open>The aliases.  Only adding one asks for the database format before it reads the document.\<close>

definition document_of_aliases :: "'d client \<Rightarrow> string \<Rightarrow> alias_options \<Rightarrow> exn + document_options" where
  "document_of_aliases cl operation opts =
     bindE (al_writeJsonData (cl_codec cl) opts) (\<lambda>t.
       with_options [readJsonData (cl_env cl) (cl_codec cl) t] (new_document_options (cl_env cl) operation))"

definition alias_change :: "codec \<Rightarrow> (jsondoc \<Rightarrow> unit bld) \<Rightarrow> alias_options \<Rightarrow> unit bld" where
  "alias_change c op opts = bindM (liftE (filter_document c (versionAlias_to_JsonData c opts))) op"

definition add_version_alias :: "'d client \<Rightarrow> alias_options \<Rightarrow> string \<Rightarrow> ('d, string) fdb" where
  "add_version_alias cl opts out =
     thenM (begin_operation [''addveralias''] opts out)
     (bindM (liftE (bindE (document_of_aliases cl ''addveralias'' opts)
         (with_options [ignoring (set_operation ''load''), ignoring (set_format Format_db)]))) (\<lambda>newOptions.
       rewrite_document cl newOptions (alias_change (cl_codec cl) bld_addAlias opts) ''store'' [] (op_format opts)))"

definition remove_version_alias :: "'d client \<Rightarrow> alias_options \<Rightarrow> string \<Rightarrow> ('d, string) fdb" where
  "remove_version_alias cl opts out =
     thenM (begin_operation [''rmveralias''] opts out)
     (bindM (liftE (bindE (document_of_aliases cl ''rmveralias'' opts) (with_options [ignoring (set_operation ''load'')])))
       (\<lambda>newOptions.
       rewrite_document cl newOptions (alias_change (cl_codec cl) bld_removeAlias opts) ''store''
         [ignoring (set_queryFilter notprovided)] (op_format opts)))"

definition find_version_aliases :: "'d client \<Rightarrow> alias_options \<Rightarrow> string \<Rightarrow> ('d, string) fdb" where
  "find_version_aliases cl opts out =
     (let c = cl_codec cl in
      thenM (begin_operation [''findveralias''] opts out)
      (bindM (liftE (bindE (getter (op_provider opts)) (backend_of cl))) (\<lambda>be.
       bindM (liftE (filter_document c (al_query_filter_to_JsonData c opts))) (\<lambda>search.
       bindM (be_findVersionAliases be opts search) (\<lambda>found.
         liftE (bindE (get_format opts) (\<lambda>format. case format of
             Format_gui \<Rightarrow> gui_answer c found | Format_csv \<Rightarrow> csv_answer c found | _ \<Rightarrow> Inl Runtime_error)))))))"

section \<open>Several documents\<close>

definition read_documents :: "'d client \<Rightarrow> document_options \<Rightarrow> jsondoc list \<Rightarrow> ('d, jsondoc list) fdb" where
  "read_documents cl opts out =
     (let c = cl_codec cl in
      thenM (confirm (out = []))
      (thenM (bindM (liftE (getter (op_operation opts))) (\<lambda>op. confirm (op = ''load'')))
      (thenM (liftE (bindE (getter (op_provider opts)) validate_dbprovider_name))
      (bindM (liftE (bindE (search_text c opts '','') (doc_of_string c))) (\<lambda>search.
        dispatch cl opts (\<lambda>be. be_readDocuments be opts search))))))"

text \<open>A frozen document is stored under a new id, as it was.\<close>

definition write_one :: "'d client \<Rightarrow> document_options \<Rightarrow> jsondoc \<Rightarrow> ('d, unit) fdb" where
  "write_one cl opts document =
     (let c = cl_codec cl in
      bindM (on_builder (thenM (new_builder document)
          (thenM (bindM bld_isReadonlyOrDeleted (\<lambda>frozen. whenM frozen bld_newObjectID))
          (bindM recordM (\<lambda>v. liftE (bindE (getObjectID c v) (doc_text c)))))) empty_doc) (\<lambda>(ident, _).
      bindM (liftE (doc_text c document)) (\<lambda>t.
      bindM (liftE (getter (op_collection opts))) (\<lambda>collection.
      bindM (liftE (doc_of_string c (''{'' @ quoted ''document'' @ '':'' @ t @ '','' @ quoted ''filter'' @ '':'' @ ident @ '','' @
          quoted ''collection'' @ '':'' @ quoted collection @ ''}''))) (\<lambda>payload.
        dispatch cl opts (\<lambda>be. be_writeDocument be opts payload))))))"

definition write_documents :: "'d client \<Rightarrow> document_options \<Rightarrow> jsondoc list \<Rightarrow> ('d, unit) fdb" where
  "write_documents cl opts docs =
     thenM (confirm (docs \<noteq> []))
     (thenM (bindM (liftE (getter (op_operation opts))) (\<lambda>op. confirm (op = ''store'')))
       (forM docs (write_one cl opts)))"

text \<open>\<open>create_configuration\<close>: one assignment per operation; the answer is that of the last one.\<close>

fun assign_all :: "'d client \<Rightarrow> array_t \<Rightarrow> string \<Rightarrow> ('d, string) fdb" where
  "assign_all cl [] out = retM out"
| "assign_all cl (v # vs) out =
     bindM (liftE (bindE (get_object v) (c_write (cl_codec cl)))) (\<lambda>buff.
     bindM (liftE (with_options [readJsonData (cl_env cl) (cl_codec cl) buff] (new_document_options (cl_env cl) ''operations'')))
       (\<lambda>addconfig. bindM (assign_configuration cl addconfig []) (assign_all cl vs)))"

definition create_configuration :: "'d client \<Rightarrow> string \<Rightarrow> string \<Rightarrow> ('d, string) fdb" where
  "create_configuration cl operations out =
     thenM (confirm (operations \<noteq> []))
     (thenM (confirm (out = []))
     (bindM (liftE (converted (c_read (cl_codec cl) operations))) (\<lambda>ast.
      bindM (liftE (array_child ''operations'' ast)) (\<lambda>vs. assign_all cl vs out))))"

section \<open>Results\<close>

text \<open>The \<open>noexcept\<close> operations: every exception becomes a failure.\<close>

definition as_result :: "'d client \<Rightarrow> ('d, string) fdb \<Rightarrow> ('d, result_t) fdb" where
  "as_result cl m =
     (\<lambda>s. case m s of (Inr t, s') \<Rightarrow> (Inr (Success t), s')
        | (Inl e, s') \<Rightarrow> (if any_exn e then Inr (Failure (cl_diagnostic cl e)) else Inl e, s'))"

definition msg_EmptyFilter :: string where
  "msg_EmptyFilter = ''{'' @ json_pair ''message'' ''empty_filter'' @ ''}''"

definition msg_EmptyDocument :: string where
  "msg_EmptyDocument = ''{'' @ json_pair ''message'' ''Json document is empty'' @ ''}''"

definition opts_write_document :: "'d client \<Rightarrow> document_options \<Rightarrow> string \<Rightarrow> ('d, result_t) fdb" where
  "opts_write_document cl opts conf = as_result cl (write_document cl opts conf)"

definition opts_read_document :: "'d client \<Rightarrow> document_options \<Rightarrow> string \<Rightarrow> ('d, result_t) fdb" where
  "opts_read_document cl opts conf = as_result cl (read_document cl opts conf)"

definition opts_find_versions :: "'d client \<Rightarrow> document_options \<Rightarrow> ('d, result_t) fdb" where
  "opts_find_versions cl opts = as_result cl (find_versions cl opts [])"

definition opts_find_entities :: "'d client \<Rightarrow> document_options \<Rightarrow> ('d, result_t) fdb" where
  "opts_find_entities cl opts = as_result cl (find_entities cl opts [])"

definition opts_add_entity :: "'d client \<Rightarrow> document_options \<Rightarrow> ('d, result_t) fdb" where
  "opts_add_entity cl opts = as_result cl (add_entity cl opts [])"

definition opts_remove_entity :: "'d client \<Rightarrow> document_options \<Rightarrow> ('d, result_t) fdb" where
  "opts_remove_entity cl opts = as_result cl (remove_entity cl opts [])"

definition opts_mark_document_readonly :: "'d client \<Rightarrow> document_options \<Rightarrow> ('d, result_t) fdb" where
  "opts_mark_document_readonly cl opts = as_result cl (mark_document_readonly cl opts [])"

definition opts_mark_document_deleted :: "'d client \<Rightarrow> document_options \<Rightarrow> ('d, result_t) fdb" where
  "opts_mark_document_deleted cl opts = as_result cl (mark_document_deleted cl opts [])"

definition opts_find_configurations :: "'d client \<Rightarrow> document_options \<Rightarrow> ('d, result_t) fdb" where
  "opts_find_configurations cl opts = as_result cl (find_configurations cl opts [])"

definition opts_configuration_composition :: "'d client \<Rightarrow> document_options \<Rightarrow> ('d, result_t) fdb" where
  "opts_configuration_composition cl opts = as_result cl (configuration_composition cl opts [])"

definition opts_assign_configuration :: "'d client \<Rightarrow> document_options \<Rightarrow> ('d, result_t) fdb" where
  "opts_assign_configuration cl opts = as_result cl (assign_configuration cl opts [])"

definition opts_remove_configuration :: "'d client \<Rightarrow> document_options \<Rightarrow> ('d, result_t) fdb" where
  "opts_remove_configuration cl opts = as_result cl (remove_configuration cl opts [])"

definition opts_create_configuration :: "document_options \<Rightarrow> ('d, result_t) fdb" where
  "opts_create_configuration opts = retM (Failure ''Not Implemented'')"

definition opts_list_databases :: "'d client \<Rightarrow> document_options \<Rightarrow> string \<Rightarrow> ('d, result_t) fdb" where
  "opts_list_databases cl opts conf = as_result cl (list_databases cl opts conf)"

definition opts_read_dbinfo :: "'d client \<Rightarrow> document_options \<Rightarrow> string \<Rightarrow> ('d, result_t) fdb" where
  "opts_read_dbinfo cl opts conf = as_result cl (read_dbinfo cl opts conf)"

definition opts_list_collections :: "'d client \<Rightarrow> document_options \<Rightarrow> ('d, result_t) fdb" where
  "opts_list_collections cl opts = as_result cl (list_collections cl opts [])"

definition opts_search_collection :: "'d client \<Rightarrow> document_options \<Rightarrow> string \<Rightarrow> ('d, result_t) fdb" where
  "opts_search_collection cl opts results = as_result cl (search_collection cl opts results)"

definition opts_find_compositions_containing :: "'d client \<Rightarrow> document_options \<Rightarrow> ('d, result_t) fdb" where
  "opts_find_compositions_containing cl opts = as_result cl (find_compositions_containing cl opts [])"

text \<open>The operations on a JSON request: the name handed to the constructor of the options is the name
  of the process; the operation is the one of the request.\<close>

definition requested :: "'d client \<Rightarrow> string \<Rightarrow> string \<Rightarrow> (document_options \<Rightarrow> ('d, string) fdb) \<Rightarrow> ('d, string) fdb" where
  "requested cl process payload f =
     bindM (liftE (with_options [readJsonData (cl_env cl) (cl_codec cl) payload] (new_document_options (cl_env cl) process))) f"

definition json_request :: "'d client \<Rightarrow> string \<Rightarrow> string \<Rightarrow> (document_options \<Rightarrow> ('d, string) fdb) \<Rightarrow> ('d, result_t) fdb" where
  "json_request cl process payload f =
     (if payload = [] then retM (Failure msg_EmptyFilter) else as_result cl (requested cl process payload f))"

definition json_write_document :: "'d client \<Rightarrow> string \<Rightarrow> string \<Rightarrow> ('d, result_t) fdb" where
  "json_write_document cl payload conf =
     (if payload = [] then retM (Failure msg_EmptyFilter)
      else if conf = [] then retM (Failure msg_EmptyDocument)
      else as_result cl (requested cl ''store'' payload (\<lambda>opts. write_document cl opts conf)))"

definition json_read_document :: "'d client \<Rightarrow> string \<Rightarrow> ('d, result_t) fdb" where
  "json_read_document cl payload = json_request cl ''load'' payload (\<lambda>opts. read_document cl opts [])"

definition json_find_versions :: "'d client \<Rightarrow> string \<Rightarrow> ('d, result_t) fdb" where
  "json_find_versions cl payload = json_request cl ''findversions'' payload (\<lambda>opts. find_versions cl opts [])"

definition json_find_entities :: "'d client \<Rightarrow> string \<Rightarrow> ('d, result_t) fdb" where
  "json_find_entities cl payload = json_request cl ''findentities'' payload (\<lambda>opts. find_entities cl opts [])"

definition json_add_entity :: "'d client \<Rightarrow> string \<Rightarrow> ('d, result_t) fdb" where
  "json_add_entity cl payload = json_request cl ''addentity'' payload (\<lambda>opts. add_entity cl opts [])"

definition json_remove_entity :: "'d client \<Rightarrow> string \<Rightarrow> ('d, result_t) fdb" where
  "json_remove_entity cl payload = json_request cl ''rmentity'' payload (\<lambda>opts. remove_entity cl opts [])"

definition json_mark_document_readonly :: "'d client \<Rightarrow> string \<Rightarrow> ('d, result_t) fdb" where
  "json_mark_document_readonly cl payload =
     json_request cl ''markreadonly'' payload (\<lambda>opts. mark_document_readonly cl opts [])"

definition json_mark_document_deleted :: "'d client \<Rightarrow> string \<Rightarrow> ('d, result_t) fdb" where
  "json_mark_document_deleted cl payload =
     as_result cl (requested cl ''markdeleted'' payload (\<lambda>opts. mark_document_deleted cl opts []))"

definition json_find_configurations :: "'d client \<Rightarrow> string \<Rightarrow> ('d, result_t) fdb" where
  "json_find_configurations cl payload =
     as_result cl (requested cl ''findconfigs'' payload (\<lambda>opts. find_configurations cl opts []))"

definition json_configuration_composition :: "'d client \<Rightarrow> string \<Rightarrow> ('d, result_t) fdb" where
  "json_configuration_composition cl payload =
     as_result cl (requested cl ''buildfilter'' payload (\<lambda>opts. configuration_composition cl opts []))"

definition json_assign_configuration :: "'d client \<Rightarrow> string \<Rightarrow> ('d, result_t) fdb" where
  "json_assign_configuration cl payload = json_request cl ''addconfig'' payload (\<lambda>opts. assign_configuration cl opts [])"

definition json_remove_configuration :: "'d client \<Rightarrow> string \<Rightarrow> ('d, result_t) fdb" where
  "json_remove_configuration cl payload = json_request cl ''rmconfig'' payload (\<lambda>opts. remove_configuration cl opts [])"

definition json_create_configuration :: "'d client \<Rightarrow> string \<Rightarrow> ('d, result_t) fdb" where
  "json_create_configuration cl operations =
     (if operations = [] then retM (Failure msg_EmptyFilter) else as_result cl (create_configuration cl operations []))"

definition json_list_databases :: "'d client \<Rightarrow> string \<Rightarrow> ('d, result_t) fdb" where
  "json_list_databases cl payload = json_request cl ''listdatabases'' payload (\<lambda>opts. list_databases cl opts [])"

definition json_read_dbinfo :: "'d client \<Rightarrow> string \<Rightarrow> ('d, result_t) fdb" where
  "json_read_dbinfo cl payload = json_request cl ''readdbinfo'' payload (\<lambda>opts. read_dbinfo cl opts [])"

definition json_list_collections :: "'d client \<Rightarrow> string \<Rightarrow> ('d, result_t) fdb" where
  "json_list_collections cl payload = json_request cl ''listcollections'' payload (\<lambda>opts. list_collections cl opts [])"

definition json_search_collection :: "'d client \<Rightarrow> string \<Rightarrow> ('d, result_t) fdb" where
  "json_search_collection cl payload = json_request cl ''listdatabases'' payload (\<lambda>opts. search_collection cl opts [])"

text \<open>The request is handed to the constructor, whose argument is the name of the process; it is never
  read.\<close>

definition json_find_compositions_containing :: "'d client \<Rightarrow> string \<Rightarrow> ('d, result_t) fdb" where
  "json_find_compositions_containing cl payload =
     bindM (as_result cl (thenM (confirm (payload \<noteq> [])) (retM []))) (\<lambda>res.
       if \<not> fst res then retM res
       else opts_find_compositions_containing cl (new_document_options (cl_env cl) payload))"

definition requested_aliases :: "'d client \<Rightarrow> string \<Rightarrow> string \<Rightarrow> (alias_options \<Rightarrow> ('d, string) fdb) \<Rightarrow> ('d, result_t) fdb" where
  "requested_aliases cl process payload f =
     (if payload = [] then retM (Failure msg_EmptyFilter)
      else as_result cl (bindM (liftE (with_options [al_readJsonData (cl_env cl) (cl_codec cl) payload]
          (new_alias_options (cl_env cl) process))) f))"

definition json_add_version_alias :: "'d client \<Rightarrow> string \<Rightarrow> ('d, result_t) fdb" where
  "json_add_version_alias cl payload = requested_aliases cl ''addveralias'' payload (\<lambda>opts. add_version_alias cl opts [])"

definition json_remove_version_alias :: "'d client \<Rightarrow> string \<Rightarrow> ('d, result_t) fdb" where
  "json_remove_version_alias cl payload =
     requested_aliases cl ''rmveralias'' payload (\<lambda>opts. remove_version_alias cl opts [])"

definition json_find_version_aliases :: "'d client \<Rightarrow> string \<Rightarrow> ('d, result_t) fdb" where
  "json_find_version_aliases cl payload =
     requested_aliases cl ''rmveralias'' payload (\<lambda>opts. find_version_aliases cl opts [])"

end
