(* ===== verification/Multitasker.thy ===== *)
theory Multitasker
  imports JsonText "HOL-Library.Multiset"
begin

text \<open>
  ConfigurationDB/Multitasker.cpp: a queue of tasks, worker threads that run them, and their
  results.  Every member function holds the one mutex while it touches the members, so it is one
  step; a worker takes a task in one step and stores its result in another, and runs the
  task in between.  The condition variable is left out: a thread that waits for a condition is one
  whose step is not enabled.
\<close>

section \<open>State\<close>

text \<open>\<open>tk_running\<close> holds the local variable \<open>task\<close> of the workers that are between the two steps, and
  \<open>tk_exited\<close> counts the workers that left their loop.\<close>

record 'a tasker =
  tk_owner :: nat
  tk_threads :: nat
  tk_tasks :: "'a list"
  tk_running :: "'a list"
  tk_exited :: nat
  tk_results :: "result_t list"
  tk_total :: nat
  tk_stop :: bool

text \<open>The constructor: \<open>cores\<close> is \<open>std::thread::hardware_concurrency\<close>.\<close>

definition new_tasker :: "nat \<Rightarrow> nat \<Rightarrow> nat \<Rightarrow> 'a tasker" where
  "new_tasker cores thread numThreads =
     \<lparr>tk_owner = thread, tk_threads = min numThreads (cores div 2), tk_tasks = [], tk_running = [], tk_exited = 0,
      tk_results = [], tk_total = 0, tk_stop = False\<rparr>"

definition checkSameThreadOrThrow :: "nat \<Rightarrow> ('a tasker, unit) prog" where
  "checkSameThreadOrThrow thread = bindM getM (\<lambda>t. if thread \<noteq> tk_owner t then throwM Runtime_error else retM ())"

definition isBusy :: "'a tasker \<Rightarrow> bool" where
  "isBusy t \<longleftrightarrow> tk_tasks t \<noteq> [] \<or> length (tk_results t) < tk_total t"

definition addTask :: "nat \<Rightarrow> 'a \<Rightarrow> ('a tasker, unit) prog" where
  "addTask thread a =
     thenM (checkSameThreadOrThrow thread)
     (bindM getM (\<lambda>t.
       if tk_stop t then throwM Runtime_error
       else putM (t\<lparr>tk_tasks := tk_tasks t @ [a], tk_total := Suc (tk_total t)\<rparr>)))"

definition getResults :: "nat \<Rightarrow> ('a tasker, result_t list) prog" where
  "getResults thread =
     thenM (checkSameThreadOrThrow thread)
     (bindM getM (\<lambda>t.
       if isBusy t then throwM Runtime_error
       else thenM (putM (t\<lparr>tk_results := [], tk_total := 0\<rparr>)) (retM (tk_results t))))"

text \<open>\<open>waitForResults\<close>: \<open>None\<close> is to go on waiting.\<close>

definition waitForResults :: "nat \<Rightarrow> 'a tasker \<Rightarrow> (exn + unit) option" where
  "waitForResults thread t =
     (if thread \<noteq> tk_owner t then Some (Inl Runtime_error) else if isBusy t then None else Some (Inr ()))"

definition signalStop :: "('a tasker, unit) prog" where
  "signalStop = bindM getM (\<lambda>t. putM (t\<lparr>tk_stop := True\<rparr>))"

text \<open>The merged results: \<open>seekp(-1)\<close> makes the line end overwrite the last comma, or the bracket
  when there are no results.\<close>

definition result_line :: "result_t \<Rightarrow> string" where
  "result_line = (\<lambda>(ok, message). newline @ ''{'' @ quoted ''status'' @ '':'' @ (if ok then ''1'' else ''0'') @ '','' @
     quoted ''message'' @ '':'' @ quoted message @ ''},'')"

definition merged_text :: "result_t list \<Rightarrow> string" where
  "merged_text rs =
     butlast (''{'' @ newline @ quoted ''results'' @ '':['' @ concat (map result_line rs)) @
     newline @ ''],'' @ newline @ quoted ''total'' @ '':'' @ nat_digits (length rs) @ '','' @
     quoted ''errors'' @ '':'' @ nat_digits (length (filter (\<lambda>r. \<not> fst r) rs)) @ newline @ ''}''"

definition merge_results :: "result_t list \<Rightarrow> result_t" where
  "merge_results rs = (list_all fst rs, merged_text rs)"

definition getMergedResults :: "nat \<Rightarrow> ('a tasker, result_t) prog" where
  "getMergedResults thread =
     thenM (checkSameThreadOrThrow thread) (bindM (getResults thread) (\<lambda>rs. retM (merge_results rs)))"

section \<open>Steps\<close>

text \<open>\<open>outcome a r\<close>: running the task \<open>a\<close> can end with the result or exception \<open>r\<close>; \<open>what\<close> is the text
  of an exception.  An exception becomes a failure.\<close>

definition task_result :: "(exn \<Rightarrow> string) \<Rightarrow> exn + result_t \<Rightarrow> result_t" where
  "task_result what r = (case r of Inr x \<Rightarrow> x | Inl e \<Rightarrow> (False, what e))"

datatype 'a event =
    Added 'a
  | Taken 'a
  | Finished 'a result_t
  | Collected "result_t list"
  | Stopped
  | Exited

definition idle_worker :: "'a tasker \<Rightarrow> bool" where
  "idle_worker t \<longleftrightarrow> length (tk_running t) + tk_exited t < tk_threads t"

text \<open>The loop of \<open>workerThread\<close>: it waits until there is a task or a stop was asked for, leaves when there
  is none, and takes the first one otherwise.\<close>

inductive worker :: "(exn \<Rightarrow> string) \<Rightarrow> ('a \<Rightarrow> exn + result_t \<Rightarrow> bool) \<Rightarrow> 'a tasker \<Rightarrow> 'a event \<Rightarrow> 'a tasker \<Rightarrow> bool"
  for what outcome where
  take_task: "tk_tasks t = a # as \<Longrightarrow> idle_worker t \<Longrightarrow>
    worker what outcome t (Taken a) (t\<lparr>tk_tasks := as, tk_running := tk_running t @ [a]\<rparr>)"
| finish_task: "tk_running t = before @ a # after \<Longrightarrow> outcome a r \<Longrightarrow>
    worker what outcome t (Finished a (task_result what r))
      (t\<lparr>tk_running := before @ after, tk_results := tk_results t @ [task_result what r]\<rparr>)"
| leave: "tk_stop t \<Longrightarrow> tk_tasks t = [] \<Longrightarrow> idle_worker t \<Longrightarrow>
    worker what outcome t Exited (t\<lparr>tk_exited := Suc (tk_exited t)\<rparr>)"

text \<open>A step of the program: a worker, or a member function called by some thread.\<close>

inductive tasker_step :: "(exn \<Rightarrow> string) \<Rightarrow> ('a \<Rightarrow> exn + result_t \<Rightarrow> bool) \<Rightarrow> 'a tasker \<Rightarrow> 'a event \<Rightarrow> 'a tasker \<Rightarrow> bool"
  for what outcome where
  by_worker: "worker what outcome t e t' \<Longrightarrow> tasker_step what outcome t e t'"
| add: "addTask thread a t = (Inr (), t') \<Longrightarrow> tasker_step what outcome t (Added a) t'"
| collect: "getResults thread t = (Inr rs, t') \<Longrightarrow> tasker_step what outcome t (Collected rs) t'"
| stop: "signalStop t = (Inr (), t') \<Longrightarrow> tasker_step what outcome t Stopped t'"

inductive tasker_run :: "(exn \<Rightarrow> string) \<Rightarrow> ('a \<Rightarrow> exn + result_t \<Rightarrow> bool) \<Rightarrow> 'a tasker \<Rightarrow> 'a event list \<Rightarrow> 'a tasker \<Rightarrow> bool"
  for what outcome where
  start: "tasker_run what outcome t [] t"
| more: "tasker_run what outcome t es t' \<Longrightarrow> tasker_step what outcome t' e t'' \<Longrightarrow> tasker_run what outcome t (es @ [e]) t''"

inductive_cases workerE: "worker what outcome t e t'"
inductive_cases tasker_stepE: "tasker_step what outcome t e t'"

section \<open>Runs\<close>

lemma addTask_run: "addTask thread a t = (Inr (), t') \<longleftrightarrow> thread = tk_owner t \<and> \<not> tk_stop t \<and>
    t' = t\<lparr>tk_tasks := tk_tasks t @ [a], tk_total := Suc (tk_total t)\<rparr>"
  by (auto simp: addTask_def checkSameThreadOrThrow_def thenM_run bindM_run getM_run retM_run throwM_run putM_run)

lemma getResults_run: "getResults thread t = (Inr rs, t') \<longleftrightarrow> thread = tk_owner t \<and> \<not> isBusy t \<and> rs = tk_results t \<and>
    t' = t\<lparr>tk_results := [], tk_total := 0\<rparr>"
  by (auto simp: getResults_def checkSameThreadOrThrow_def thenM_run bindM_run getM_run retM_run throwM_run putM_run)

lemma signalStop_run: "signalStop t = (Inr (), t') \<longleftrightarrow> t' = t\<lparr>tk_stop := True\<rparr>"
  by (auto simp: signalStop_def bindM_run getM_run putM_run)

text \<open>The events behind the last collection, and the tasks that were added and finished in them.\<close>

fun uncollected :: "'a event list \<Rightarrow> 'a event list \<Rightarrow> 'a event list" where
  "uncollected acc [] = acc"
| "uncollected acc (e # es) = uncollected (case e of Collected rs \<Rightarrow> [] | _ \<Rightarrow> acc @ [e]) es"

fun added_tasks :: "'a event list \<Rightarrow> 'a list" where
  "added_tasks [] = []"
| "added_tasks (e # es) = (case e of Added a \<Rightarrow> a # added_tasks es | _ \<Rightarrow> added_tasks es)"

fun finished_tasks :: "'a event list \<Rightarrow> ('a \<times> result_t) list" where
  "finished_tasks [] = []"
| "finished_tasks (e # es) = (case e of Finished a r \<Rightarrow> (a, r) # finished_tasks es | _ \<Rightarrow> finished_tasks es)"

lemma uncollected_snoc: "uncollected acc (es @ [e]) = (case e of Collected rs \<Rightarrow> [] | _ \<Rightarrow> uncollected acc es @ [e])"
  by (induction acc es rule: uncollected.induct) (simp_all split: event.splits)

lemma events_snoc: "added_tasks (es @ es') = added_tasks es @ added_tasks es'"
    "finished_tasks (es @ es') = finished_tasks es @ finished_tasks es'"
  by (induction es) (simp_all split: event.splits)

text \<open>The invariant: every accepted task waits, runs or has its result in the list, and the
  counter counts them.\<close>

definition accounted :: "'a tasker \<Rightarrow> 'a event list \<Rightarrow> bool" where
  "accounted t es \<longleftrightarrow>
     mset (added_tasks es) = mset (map fst (finished_tasks es)) + mset (tk_running t) + mset (tk_tasks t) \<and>
     tk_results t = map snd (finished_tasks es) \<and> tk_total t = length (added_tasks es)"

lemma accounted_step:
  assumes "tasker_step what outcome t e t'" "accounted t es"
  shows "accounted t' (case e of Collected rs \<Rightarrow> [] | _ \<Rightarrow> es @ [e])"
  using assms(1)
proof (cases rule: tasker_step.cases)
  case by_worker
  then show ?thesis
    by (cases rule: worker.cases) (use assms(2) in \<open>auto simp: accounted_def events_snoc\<close>)
next
  case (add thread a)
  then show ?thesis using assms(2) by (auto simp: accounted_def events_snoc addTask_run)
next
  case (collect thread rs)
  then have idle: "\<not> isBusy t" "e = Collected rs" "t' = t\<lparr>tk_results := [], tk_total := 0\<rparr>"
    by (simp_all add: getResults_run)
  have "size (mset (added_tasks es)) = length (finished_tasks es) + length (tk_running t) + length (tk_tasks t)"
    using assms(2) by (simp add: accounted_def)
  then have "tk_running t = []" "tk_tasks t = []" using idle(1) assms(2) by (auto simp: isBusy_def accounted_def)
  then show ?thesis using idle by (simp add: accounted_def)
next
  case stop
  then show ?thesis using assms(2) by (auto simp: accounted_def events_snoc signalStop_run)
qed

lemma accounted_run: "tasker_run what outcome t0 es t \<Longrightarrow> accounted t0 [] \<Longrightarrow> accounted t (uncollected [] es)"
proof (induction rule: tasker_run.induct)
  case (more t es t' e t'')
  then show ?case using accounted_step[OF more.hyps(2), of "uncollected [] es"] by (simp add: uncollected_snoc split: event.splits)
qed simp

lemma accounted_new: "accounted (new_tasker cores thread n) []"
  by (simp add: accounted_def new_tasker_def)

text \<open>What finished is an outcome of its task.\<close>

lemma finished_outcome:
  assumes "tasker_run what outcome t0 es t" "(a, r) \<in> set (finished_tasks es)"
  shows "\<exists>q. outcome a q \<and> r = task_result what q"
  using assms
proof (induction rule: tasker_run.induct)
  case (more t es t' e t'')
  have "\<exists>q. outcome b q \<and> s = task_result what q" if "e = Finished b s" for b s
    using more.hyps(2) that by (auto elim!: tasker_stepE workerE)
  then show ?case using more by (auto simp: events_snoc split: event.splits)
qed simp

lemma uncollected_part: "set (finished_tasks (uncollected acc es)) \<subseteq> set (finished_tasks acc) \<union> set (finished_tasks es)"
proof (induction acc es rule: uncollected.induct)
  case (2 acc e es)
  then show ?case by (cases e) (auto simp: events_snoc)
qed simp

text \<open>C30.  The results are complete.  In every run of a new multitasker, with any number of
  threads and in any interleaving, the results that are collected are those of exactly the
  tasks added since the last collection, each of them once and with an outcome the task can have,
  in the order in which they finished; no task is lost, none is run twice, and none is still
  running.\<close>

theorem collected_results_complete:
  assumes "tasker_run what outcome (new_tasker cores thread n) es t" "getResults caller t = (Inr rs, t')"
  shows "\<exists>fin. mset (map fst fin) = mset (added_tasks (uncollected [] es)) \<and> rs = map snd fin \<and>
    (\<forall>(a, r) \<in> set fin. \<exists>q. outcome a q \<and> r = task_result what q) \<and>
    tk_tasks t = [] \<and> tk_running t = [] \<and> accounted t' [] \<and> caller = thread"
proof -
  let ?es = "uncollected [] es"
  have acc: "accounted t ?es" using accounted_run[OF assms(1) accounted_new] .
  have idle: "\<not> isBusy t" "rs = tk_results t" "t' = t\<lparr>tk_results := [], tk_total := 0\<rparr>" "caller = tk_owner t"
    using assms(2) by (simp_all add: getResults_run)
  have "size (mset (added_tasks ?es)) = length (finished_tasks ?es) + length (tk_running t) + length (tk_tasks t)"
    using acc by (simp add: accounted_def)
  then have none: "tk_running t = []" "tk_tasks t = []" using idle(1) acc by (auto simp: isBusy_def accounted_def)
  have out: "\<exists>q. outcome a q \<and> r = task_result what q" if "(a, r) \<in> set (finished_tasks ?es)" for a r
    using finished_outcome[OF assms(1), of a r] that uncollected_part[of "[]" es] by auto
  have "tk_owner t = thread"
    using assms(1)
  proof (induction "new_tasker cores thread n :: 'a tasker" es t rule: tasker_run.induct)
    case start
    then show ?case by (simp add: new_tasker_def)
  next
    case (more es t' e t'')
    then show ?case by (auto elim!: tasker_stepE workerE simp: addTask_run getResults_run signalStop_run)
  qed
  then show ?thesis using acc idle none out
    by (intro exI[of _ "finished_tasks ?es"]) (auto simp: accounted_def)
qed

text \<open>A task that fails and one that answers, run by one thread.\<close>

definition demo_outcome :: "string \<Rightarrow> exn + result_t \<Rightarrow> bool" where
  "demo_outcome a r \<longleftrightarrow> r = (if a = ''bad'' then Inl Runtime_error else Inr (True, a))"

theorem collected_results_complete_witness:
  "\<exists>es t. tasker_run (\<lambda>_. ''failed'') demo_outcome (new_tasker 4 7 2) es t \<and>
    (\<exists>fin. mset (map fst fin) = mset (added_tasks (uncollected [] es)) \<and> [(False, ''failed'')] = map snd fin) \<and> added_tasks (uncollected [] es) = [''bad'']"
proof -
  let ?t0 = "new_tasker 4 7 2 :: string tasker"
  let ?t1 = "?t0\<lparr>tk_tasks := [''bad''], tk_total := 1\<rparr>"
  let ?t2 = "?t1\<lparr>tk_tasks := [], tk_running := [''bad'']\<rparr>"
  let ?t3 = "?t2\<lparr>tk_running := [], tk_results := [(False, ''failed'')]\<rparr>"
  let ?w = "\<lambda>_. ''failed''"
  let ?es = "[Added ''bad'', Taken ''bad'', Finished ''bad'' (False, ''failed'')]"
  have "addTask 7 ''bad'' ?t0 = (Inr (), ?t1)" by (simp add: addTask_run new_tasker_def)
  then have s1: "tasker_step ?w demo_outcome ?t0 (Added ''bad'') ?t1" by (rule tasker_step.add)
  have "worker ?w demo_outcome ?t1 (Taken ''bad'') (?t1\<lparr>tk_tasks := [], tk_running := tk_running ?t1 @ [''bad'']\<rparr>)"
    by (rule worker.take_task) (simp_all add: idle_worker_def new_tasker_def)
  then have s2: "tasker_step ?w demo_outcome ?t1 (Taken ''bad'') ?t2" by (intro tasker_step.by_worker) (simp add: new_tasker_def)
  have "worker ?w demo_outcome ?t2 (Finished ''bad'' (task_result ?w (Inl Runtime_error)))
      (?t2\<lparr>tk_running := [] @ [], tk_results := tk_results ?t2 @ [task_result ?w (Inl Runtime_error)]\<rparr>)"
    by (rule worker.finish_task) (simp_all add: demo_outcome_def)
  then have s3: "tasker_step ?w demo_outcome ?t2 (Finished ''bad'' (False, ''failed'')) ?t3"
    by (intro tasker_step.by_worker) (simp add: new_tasker_def task_result_def)
  have run: "tasker_run ?w demo_outcome ?t0 ?es ?t3"
    using tasker_run.more[OF tasker_run.more[OF tasker_run.more[OF tasker_run.start s1] s2] s3] by simp
  have get: "getResults 7 ?t3 = (Inr [(False, ''failed'')], ?t3\<lparr>tk_results := [], tk_total := 0\<rparr>)"
    by (simp add: getResults_run isBusy_def new_tasker_def)
  show ?thesis using run collected_results_complete[OF run get] by (intro exI[of _ ?es] exI[of _ ?t3]) auto
qed

section \<open>Waiting\<close>

text \<open>While its owner waits, only the workers take steps.\<close>

definition works :: "(exn \<Rightarrow> string) \<Rightarrow> ('a \<Rightarrow> exn + result_t \<Rightarrow> bool) \<Rightarrow> 'a tasker \<Rightarrow> 'a tasker \<Rightarrow> bool" where
  "works what outcome t t' \<longleftrightarrow> (\<exists>e. worker what outcome t e t')"

definition pending :: "'a tasker \<Rightarrow> nat" where
  "pending t = 2 * length (tk_tasks t) + length (tk_running t)"

definition settled :: "'a tasker \<Rightarrow> bool" where
  "settled t \<longleftrightarrow> \<not> tk_stop t \<and> tk_exited t = 0 \<and> tk_total t = length (tk_results t) + length (tk_running t) + length (tk_tasks t)"

lemma accounted_settled: "accounted t es \<Longrightarrow> \<not> tk_stop t \<Longrightarrow> tk_exited t = 0 \<Longrightarrow> settled t"
proof -
  assume a: "accounted t es" "\<not> tk_stop t" "tk_exited t = 0"
  then have "size (mset (added_tasks es)) = length (finished_tasks es) + length (tk_running t) + length (tk_tasks t)"
    by (simp add: accounted_def)
  then show "settled t" using a by (simp add: accounted_def settled_def)
qed

lemma run_without_stop:
  assumes "tasker_run what outcome (new_tasker cores thread n) es t" "Stopped \<notin> set es"
  shows "\<not> tk_stop t \<and> tk_exited t = 0 \<and> tk_threads t = min n (cores div 2)"
  using assms
proof (induction "new_tasker cores thread n :: 'a tasker" es t rule: tasker_run.induct)
  case start
  then show ?case by (simp add: new_tasker_def)
next
  case (more es t' e t'')
  then show ?case by (auto elim!: tasker_stepE workerE simp: addTask_run getResults_run)
qed

lemma works_step: "works what outcome t t' \<Longrightarrow> settled t \<Longrightarrow> settled t' \<and> pending t' < pending t \<and> tk_threads t' = tk_threads t"
  by (auto simp: works_def settled_def pending_def elim!: workerE)

lemma works_steps:
  "(works what outcome ^^ k) t t' \<Longrightarrow> settled t \<Longrightarrow> settled t' \<and> k + pending t' \<le> pending t \<and> tk_threads t' = tk_threads t"
proof (induction k arbitrary: t')
  case (Suc k)
  then obtain u where u: "(works what outcome ^^ k) t u" "works what outcome u t'" by auto
  then have "settled u \<and> k + pending u \<le> pending t \<and> tk_threads u = tk_threads t" using Suc by blast
  then show ?case using works_step[OF u(2)] by fastforce
qed simp

lemma busy_works:
  assumes "settled t" "isBusy t" "0 < tk_threads t" "\<And>a. \<exists>r. outcome a r"
  shows "\<exists>t'. works what outcome t t'"
proof (cases "tk_running t")
  case Nil
  then obtain a as where "tk_tasks t = a # as" using assms(1,2) by (cases "tk_tasks t") (auto simp: settled_def isBusy_def)
  moreover have "idle_worker t" using Nil assms(1,3) by (simp add: idle_worker_def settled_def)
  ultimately show ?thesis unfolding works_def by (blast intro: worker.take_task)
next
  case (Cons a as)
  obtain r where "outcome a r" using assms(4) by blast
  moreover have "tk_running t = [] @ a # as" using Cons by simp
  ultimately show ?thesis unfolding works_def by (blast intro: worker.finish_task)
qed

text \<open>C31.  Waiting ends.  On a machine with more than one core, as long as no stop was asked for, the workers of a busy
  multitasker always have a step to take, whichever steps they took before, and they can take no more than two
  per waiting task and one per running one; so they end in a state in which waiting returns.\<close>

theorem waiting_ends:
  assumes "tasker_run what outcome (new_tasker cores thread n) es t" "Stopped \<notin> set es" "2 \<le> cores" "0 < n"
    and "\<And>a. \<exists>r. outcome a r" "(works what outcome ^^ k) t t'"
  shows "k \<le> 2 * length (tk_tasks t) + length (tk_running t) \<and>
    (waitForResults thread t' = None \<longrightarrow> (\<exists>t''. works what outcome t' t''))"
proof -
  have s: "\<not> tk_stop t" "tk_exited t = 0" "tk_threads t = min n (cores div 2)" using run_without_stop[OF assms(1,2)] by simp_all
  have "settled t" using accounted_settled[OF accounted_run[OF assms(1) accounted_new] s(1,2)] .
  from works_steps[OF assms(6) this] s(3) assms(3,4)
  have t': "settled t'" "k + pending t' \<le> pending t" "0 < tk_threads t'" by auto
  show ?thesis using t'(2) busy_works[OF t'(1) _ t'(3) assms(5)] by (auto simp: pending_def waitForResults_def split: if_splits)
qed

theorem waiting_ends_witness:
  "\<exists>t'. works (\<lambda>_. ''failed'') demo_outcome ((new_tasker 4 7 2)\<lparr>tk_tasks := [''bad''], tk_total := 1\<rparr>) t'"
proof -
  let ?t0 = "new_tasker 4 7 2 :: string tasker"
  let ?t1 = "?t0\<lparr>tk_tasks := [''bad''], tk_total := 1\<rparr>"
  have "addTask 7 ''bad'' ?t0 = (Inr (), ?t1)" by (simp add: addTask_run new_tasker_def)
  then have run: "tasker_run (\<lambda>_. ''failed'') demo_outcome ?t0 [Added ''bad''] ?t1"
    using tasker_run.more[OF tasker_run.start tasker_step.add] by (metis append_Nil)
  have out: "\<exists>r. demo_outcome a r" for a by (simp add: demo_outcome_def)
  have "waitForResults 7 ?t1 = None" by (simp add: waitForResults_def isBusy_def new_tasker_def)
  moreover have "(works (\<lambda>_. ''failed'') demo_outcome ^^ 0) ?t1 ?t1" by simp
  ultimately show ?thesis using waiting_ends[OF run _ _ _ out] by fastforce
qed



section \<open>Merged results\<close>

definition merged_table :: "result_t list \<Rightarrow> object_t" where
  "merged_table rs =
     [(''results'', Arr (map (\<lambda>(ok, message). Obj [(''status'', Integer (if ok then 1 else 0)), (''message'', Str message)]) rs)),
      (''total'', Integer (of_nat (length rs))), (''errors'', Integer (of_nat (length (filter (\<lambda>r. \<not> fst r) rs))))]"

lemma parses_number:
  assumes "n < 2 ^ 63" "refuses_other qd"
  shows "parses qd (nat_digits n) (Integer (of_nat n))"
proof -
  have "sint (of_nat n :: 64 word) = int n" 
    using assms(1) signed_take_bit_int_eq_self[of 63 "int n"] by (simp add: signed_of_nat)
  then have "write_value kd (Integer (of_nat n)) = nat_digits n" for kd
    by (simp add: integer_to_string_def int_digits_def)
  then show ?thesis using parses_written[of "Integer (of_nat n)" qd undefined] assms(2) by simp
qed

lemma parses_result:
  assumes "text_ok message" "refuses_other qd"
  shows "parses qd (newline @ ''{'' @ quoted ''status'' @ '':'' @ (if ok then ''1'' else ''0'') @ '','' @ quoted ''message'' @ '':'' @ quoted message @ ''}'')
    (Obj [(''status'', Integer (if ok then 1 else 0)), (''message'', Str message)])"
proof -
  have ws: "list_all is_space newline" by code_simp
  have names: "text_ok ''status''" "text_ok ''message''" by code_simp+
  have "nat_digits 1 = ''1''" "nat_digits 0 = ''0''" by code_simp+
  then have "parses qd (if ok then ''1'' else ''0'') (Integer (if ok then 1 else 0))"
    using parses_number[of 1 qd] parses_number[of 0 qd] assms(2) by simp
  then have "list_all2 (parses_data qd) [quoted ''status'' @ CHR '':'' # (if ok then ''1'' else ''0''), quoted ''message'' @ CHR '':'' # quoted message]
      [(''status'', Integer (if ok then 1 else 0)), (''message'', Str message)]"
    using parses_member[OF names(1)] parses_member[OF names(2) parses_string[OF assms]] by simp
  from parses_before(1)[OF ws parses_table_value[OF parses_members[OF this]]] show ?thesis by simp
qed

lemma result_lines: "concat (map result_line rs) =
    concat (map (\<lambda>t. t @ '','') (map (\<lambda>(ok, message). newline @ ''{'' @ quoted ''status'' @ '':'' @ (if ok then ''1'' else ''0'') @ '','' @
      quoted ''message'' @ '':'' @ quoted message @ ''}'') rs))"
  by (induction rs) (auto simp: result_line_def)

text \<open>The merged results are JSON: with at least one result, and messages that are texts, they read back as
  the list of statuses and messages in the order of the results, with their number and the number of
  failures; without results the bracket of the list is overwritten, and the text cannot be read.\<close>

theorem merged_results_read_back:
  assumes "list_all (\<lambda>r. text_ok (snd r)) rs" "length rs < 2 ^ 63" "refuses_other qd"
  shows "json_parse qd (snd (merge_results rs)) = (if rs = [] then None else Some (merged_table rs)) \<and>
    fst (merge_results rs) = (length (filter (\<lambda>r. \<not> fst r) rs) = 0)"
proof (cases "rs = []")
  case True
  let ?r = "CHR '','' # newline @ quoted ''total'' @ '':'' @ nat_digits 0 @ '','' @ quoted ''errors'' @ '':'' @ nat_digits 0 @ newline @ ''}''"
  have shape: "merged_text [] = CHR ''{'' # newline @ quoted ''results'' @ CHR '':'' # newline @ CHR '']'' # ?r"
    by (simp add: merged_text_def newline_def butlast_append)
  have "p_value qd n (newline @ CHR '']'' # ?r) = None" for n
    using spaces_before(1)[OF newline_space] no_value_at_bracket[OF assms(3)] by simp
  then have "p_data (p_value qd n) (newline @ quoted ''results'' @ CHR '':'' # newline @ CHR '']'' # ?r) = None" for n
    using spaces_before(2)[OF newline_space] p_string_quoted[of "''results''"] by (simp add: p_data_def dquote_def backslash_def)
  moreover have "p_lit (CHR ''}'') (newline @ quoted ''results'' @ t) = None" for t
    by (simp add: newline_def quoted_def)
  ultimately have "json_parse qd (merged_text []) = None"
    unfolding json_parse_def shape by (simp add: p_bracketed_def)
  then show ?thesis using True by (simp add: merge_results_def)
next
  case False
  let ?line = "\<lambda>(ok, message). newline @ ''{'' @ quoted ''status'' @ '':'' @ (if ok then ''1'' else ''0'') @ '','' @
      quoted ''message'' @ '':'' @ quoted message @ ''}''"
  let ?v = "\<lambda>(ok, message). Obj [(''status'', Integer (if ok then 1 else 0)), (''message'', Str message)]"
  let ?n = "nat_digits (length rs)" and ?k = "nat_digits (length (filter (\<lambda>r. \<not> fst r) rs))"
  have names: "text_ok ''results''" "text_ok ''total''" "text_ok ''errors''" by code_simp+
  have "list_all2 (parses qd) (map ?line rs) (map ?v rs)"
    using assms(1,3) unfolding list_all2_map1 list_all2_map2
    by (intro list.rel_refl_strong) (auto simp: list_all_iff intro!: parses_result[simplified] simp del: text_ok.simps)
  then have arr: "parses qd (''['' @ join '','' (map ?line rs) @ newline @ '']'') (Arr (map ?v rs))"
    using parses_elements_before_space[OF _ assms(3) newline_space] False by simp
  have k: "length (filter (\<lambda>r. \<not> fst r) rs) < 2 ^ 63" using assms(2) length_filter_le[of "\<lambda>r. \<not> fst r" rs] by linarith
  have "list_all2 (parses_data qd)
      [newline @ quoted ''results'' @ CHR '':'' # ''['' @ join '','' (map ?line rs) @ newline @ '']'', newline @ quoted ''total'' @ CHR '':'' # ?n,
       (quoted ''errors'' @ CHR '':'' # ?k) @ newline] (merged_table rs)"
    using parses_before(2)[OF newline_space parses_member[OF names(1) arr]]
      parses_before(2)[OF newline_space parses_member[OF names(2) parses_number[OF assms(2,3)]]]
      parses_behind(2)[OF newline_space parses_member[OF names(3) parses_number[OF k assms(3)]]]
    by (simp add: merged_table_def)
  from parses_parse[OF parses_members[OF this], of "[]"]
  have "json_parse qd (merged_text rs) = Some (merged_table rs)"
    unfolding merged_text_def result_lines using False by (subst with_commas) (simp_all add: butlast_append newline_def)
  then show ?thesis using False by (auto simp: merge_results_def list_all_iff filter_empty_conv)
qed

theorem merged_results_read_back_witness:
  "json_parse no_doubles (snd (merge_results [(True, ''a''), (False, ''b'')])) = Some (merged_table [(True, ''a''), (False, ''b'')])"
proof -
  have "refuses_other no_doubles" by (simp add: refuses_other_def no_doubles_def)
  moreover have "list_all (\<lambda>r. text_ok (snd r)) [(True, ''a''), (False, ''b'')]" by code_simp
  ultimately show ?thesis using merged_results_read_back[of "[(True, ''a''), (False, ''b'')]" no_doubles] by simp
qed

end
