(* ===== verification/Facade.thy ===== *)
theory Facade
  imports Operations Multitasker
begin

text \<open>
  ConfigurationDB/configurationdbifc.h and configurationdbifc\_base.h: the C++ interface of the
  database.  It stores and loads the configurations of a program through serializers the program
  specialises, lists versions and collections, and stores global configurations: compositions of
  versions, of which only the difference to the stored one is assigned.
\<close>

section \<open>The interface\<close>

text \<open>The client, the text \<open>what()\<close> of an exception, and the number of cores.\<close>

record 'd facade =
  fa_client :: "'d client"
  fa_what :: "exn \<Rightarrow> string"
  fa_cores :: nat

definition apiname :: string where
  "apiname = ''ConfigurationInterface''"

text \<open>The specialisations for a type of configurations: its name (which falls back to the name of the type), its text
  (\<open>None\<close> when the function answers \<open>false\<close>), and reading a text.\<close>

record serializer =
  sz_name :: string
  sz_write :: "exn + string option"
  sz_read :: "string \<Rightarrow> exn + bool"

definition make_error_msg :: "string \<Rightarrow> string" where
  "make_error_msg msg = ''{error:'' @ [dquote] @ msg @ [dquote] @ ''}''"

definition status_msg :: "bool \<Rightarrow> string" where
  "status_msg ok = make_error_msg (if ok then ''Success'' else ''Failure'')"

text \<open>\<open>ConfigurationSerializer\<close>: the text, unless the answer is a failure, and the answer.\<close>

definition sz_writeDocument :: "'d facade \<Rightarrow> serializer \<Rightarrow> string \<Rightarrow> result_t \<times> string" where
  "sz_writeDocument fa sz data =
     (case sz_write sz of
        Inl e \<Rightarrow> ((False, make_error_msg (fa_what fa e)), data)
      | Inr None \<Rightarrow> ((False, status_msg False), data)
      | Inr (Some t) \<Rightarrow> ((True, status_msg True), t))"

definition sz_readDocument :: "'d facade \<Rightarrow> serializer \<Rightarrow> string \<Rightarrow> result_t" where
  "sz_readDocument fa sz data =
     (case sz_read sz data of Inl e \<Rightarrow> (False, make_error_msg (fa_what fa e)) | Inr ok \<Rightarrow> (ok, status_msg ok))"

record version_info =
  vi_configuration :: string
  vi_version :: string
  vi_entity :: string

definition validate :: "version_info \<Rightarrow> exn + unit" where
  "validate vi =
     (if vi_configuration vi = [] then Inl Runtime_exception
      else if vi_version vi = [] then Inl Runtime_exception
      else if vi_entity vi = [] then Inl Runtime_exception
      else Inr ())"

text \<open>\<open>catch (std::exception const& e)\<close> at the end of a function: a failure with a message.\<close>

definition or_failure :: "(exn \<Rightarrow> string) \<Rightarrow> ('d, result_t) fdb \<Rightarrow> ('d, result_t) fdb" where
  "or_failure msg m =
     (\<lambda>s. case m s of (Inl e, t) \<Rightarrow> (if any_exn e then (Inr (False, msg e), t) else (Inl e, t)) | (Inr r, t) \<Rightarrow> (Inr r, t))"

text \<open>The result of an operation, or an exception.\<close>

definition require_success :: "('d, result_t) fdb \<Rightarrow> ('d, result_t) fdb" where
  "require_success m = bindM m (\<lambda>r. if fst r then retM r else throwM Runtime_exception)"

definition fresh_options :: "'d facade \<Rightarrow> (document_options, unit) prog list \<Rightarrow> exn + document_options" where
  "fresh_options fa ms = with_options ms (new_document_options (cl_env (fa_client fa)) apiname)"

definition unless_empty :: "string \<Rightarrow> (string \<Rightarrow> (document_options, string) prog) \<Rightarrow> (document_options, unit) prog" where
  "unless_empty s put = (if s = [] then retM () else ignoring (put s))"

section \<open>Versions\<close>

text \<open>\<open>format\<close> is that of the template argument: JSON or FHiCL.\<close>

definition storeVersion :: "'d facade \<Rightarrow> data_format_t \<Rightarrow> serializer \<Rightarrow> string \<Rightarrow> string \<Rightarrow> ('d, result_t) fdb" where
  "storeVersion fa format sz version entity =
     or_failure (fa_what fa)
     (if version = [] then throwM Invalid_option
      else
        bindM (liftE (fresh_options fa [ignoring (set_operation ''store''), ignoring (set_collection (sz_name sz)),
          ignoring (set_version version), ignoring (set_format format), unless_empty entity set_entity])) (\<lambda>opts.
        case sz_writeDocument fa sz ''{}'' of (res, buffer) \<Rightarrow>
          if \<not> fst res then throwM Runtime_exception
          else require_success (opts_write_document (fa_client fa) opts buffer)))"

text \<open>\<open>dbRecord["document"].swap(newRecord["document"])\<close>.\<close>

definition swap_document :: "object_t \<Rightarrow> object_t \<Rightarrow> object_t" where
  "swap_document record newRecord =
     put_first ''document'' (fst (table_index ''document'' newRecord)) (snd (table_index ''document'' record))"

definition overwriteVersion :: "'d facade \<Rightarrow> data_format_t \<Rightarrow> serializer \<Rightarrow> string \<Rightarrow> string \<Rightarrow> ('d, result_t) fdb" where
  "overwriteVersion fa format sz version entity =
     (let cl = fa_client fa; c = cl_codec cl in
      or_failure (fa_what fa)
      (if version = [] then throwM Invalid_option
       else
         bindM (liftE (fresh_options fa [ignoring (set_collection (sz_name sz)), ignoring (set_version version),
           unless_empty entity set_entity, ignoring (set_format Format_db), ignoring (set_operation ''load'')])) (\<lambda>opts.
         bindM (require_success (opts_read_document cl opts [])) (\<lambda>found.
         bindM (liftE (with_options [ignoring (set_format format)] opts)) (\<lambda>opts1.
         case sz_writeDocument fa sz ''{}'' of (res, data) \<Rightarrow>
           if \<not> fst res then throwM Runtime_exception
           else
             bindM (liftE (doc_of_string c (''{'' @ quoted ''data'' @ '':'' @ data @ ''}''))) (\<lambda>wrapped.
             bindM (on_builder (thenM (empty_builder c) (thenM (createFromData c wrapped) (bld_to_string c))) empty_doc) (\<lambda>(t, _).
             bindM (liftE (converted (c_read c t))) (\<lambda>newRecord.
             bindM (liftE (converted (c_read c (snd found)))) (\<lambda>dbRecord.
             bindM (liftE (c_write c (swap_document dbRecord newRecord))) (\<lambda>buffer.
             bindM (liftE (with_options [ignoring (set_operation ''overwritedocument''), ignoring (set_format Format_db)] opts1)) (\<lambda>opts2.
               require_success (opts_write_document cl opts2 buffer)))))))))))) "

definition markVersionReadonly :: "'d facade \<Rightarrow> serializer \<Rightarrow> string \<Rightarrow> string \<Rightarrow> ('d, result_t) fdb" where
  "markVersionReadonly fa sz version entity =
     or_failure (fa_what fa)
     (if version = [] then throwM Invalid_option
      else
        bindM (liftE (fresh_options fa [ignoring (set_operation ''markreadonly''), ignoring (set_collection (sz_name sz)),
          ignoring (set_version version), ignoring (set_format Format_db), unless_empty entity set_entity])) (\<lambda>opts.
        require_success (opts_mark_document_readonly (fa_client fa) opts)))"

definition loadVersion :: "'d facade \<Rightarrow> data_format_t \<Rightarrow> serializer \<Rightarrow> string \<Rightarrow> string \<Rightarrow> ('d, result_t) fdb" where
  "loadVersion fa format sz version entity =
     or_failure (fa_what fa)
     (if version = [] then throwM Invalid_option
      else
        bindM (liftE (fresh_options fa [ignoring (set_operation ''load''), ignoring (set_collection (sz_name sz)),
          ignoring (set_version version), ignoring (set_format format), unless_empty entity set_entity])) (\<lambda>opts.
        bindM (require_success (opts_read_document (fa_client fa) opts [])) (\<lambda>found.
        let res = sz_readDocument fa sz (snd found) in if fst res then retM res else throwM Runtime_exception)))"

section \<open>Answers\<close>

text \<open>The list under \<open>search\<close>, and the members of the queries in it.\<close>

definition searches :: "codec \<Rightarrow> string \<Rightarrow> exn + array_t" where
  "searches c t = bindE (converted (c_read c t)) (array_child ''search'')"

definition query_of :: "value_t \<Rightarrow> exn + object_t" where
  "query_of v = bindE (get_object v) (object_child ''query'')"

definition filter_member :: "string \<Rightarrow> object_t \<Rightarrow> exn + string" where
  "filter_member k query = bindE (object_child ''filter'' query) (string_child k)"

text \<open>Everything but undefined behaviour becomes a \<open>runtime_exception\<close>.\<close>

definition rethrown :: "('s, 'a) prog \<Rightarrow> ('s, 'a) prog" where
  "rethrown m = catchM any_exn m (throwM Runtime_exception)"

text \<open>A \<open>std::set\<close> of names.\<close>

definition name_set :: "string list \<Rightarrow> string list" where
  "name_set ns = remdups_adj (sort ns)"

definition getVersions :: "'d facade \<Rightarrow> serializer \<Rightarrow> string \<Rightarrow> ('d, string list) fdb" where
  "getVersions fa sz entity =
     rethrown
     (bindM (liftE (fresh_options fa [ignoring (set_operation ''findversions''), ignoring (set_collection (sz_name sz)),
        ignoring (set_format Format_gui), unless_empty entity set_entity])) (\<lambda>opts.
      bindM (require_success (opts_find_versions (fa_client fa) opts)) (\<lambda>found.
      liftE (bindE (searches (cl_codec (fa_client fa)) (snd found)) (mapE (\<lambda>v. bindE (query_of v) (filter_member ''version'')))))))"

definition findGlobalConfigurations :: "'d facade \<Rightarrow> string \<Rightarrow> ('d, string list) fdb" where
  "findGlobalConfigurations fa search =
     rethrown
     (bindM (liftE (fresh_options fa [ignoring (set_operation ''findconfigs''), ignoring (set_format Format_gui),
        ignoring (set_configuration ''*''), unless_empty search set_configuration])) (\<lambda>opts.
      bindM (require_success (opts_find_configurations (fa_client fa) opts)) (\<lambda>found.
      liftE (bindE (bindE (searches (cl_codec (fa_client fa)) (snd found))
          (mapE (\<lambda>v. bindE (query_of v) (filter_member ''configurations.name'')))) (\<lambda>ns. Inr (name_set ns))))))"

definition to_VersionInfo :: "object_t \<Rightarrow> exn + version_info" where
  "to_VersionInfo query =
     bindE (string_child ''collection'' query) (\<lambda>configuration.
     bindE (filter_member ''version'' query) (\<lambda>version.
     bindE (filter_member ''entities.name'' query) (\<lambda>entity.
       Inr \<lparr>vi_configuration = configuration, vi_version = version, vi_entity = entity\<rparr>)))"

text \<open>A member of a composition: its query asks for the versions, of which there has to be exactly one.\<close>

definition composition_member :: "'d facade \<Rightarrow> value_t \<Rightarrow> ('d, version_info) fdb" where
  "composition_member fa v =
     (let cl = fa_client fa; c = cl_codec cl in
      bindM (liftE (query_of v)) (\<lambda>query.
      bindM (liftE (c_write c (table_set ''operation'' (Str ''findversions'') query))) (\<lambda>buffer.
      bindM (require_success (json_find_versions cl buffer)) (\<lambda>found.
      liftE (bindE (searches c (snd found)) (\<lambda>vs. case vs of
          [w] \<Rightarrow> bindE (query_of w) to_VersionInfo
        | _ \<Rightarrow> Inl Runtime_exception))))))"

definition loadGlobalConfiguration :: "'d facade \<Rightarrow> string \<Rightarrow> ('d, version_info list) fdb" where
  "loadGlobalConfiguration fa configuration =
     (if configuration = [] then throwM Invalid_option
      else rethrown
        (bindM (liftE (fresh_options fa [ignoring (set_operation ''buildfilter''), ignoring (set_format Format_gui),
           ignoring (set_configuration configuration)])) (\<lambda>opts.
         bindM (require_success (opts_configuration_composition (fa_client fa) opts)) (\<lambda>found.
         bindM (liftE (searches (cl_codec (fa_client fa)) (snd found))) (\<lambda>vs. forR vs (composition_member fa))))))"

section \<open>Compositions\<close>

type_synonym membership_key = "string \<times> string"

definition makeMembershipKey :: "version_info \<Rightarrow> membership_key" where
  "makeMembershipKey vi = (vi_configuration vi, vi_entity vi)"

record composition_diff =
  to_unassign :: "version_info list"
  to_assign :: "version_info list"
  unchanged :: "membership_key list"

text \<open>The map of the new members: a later one overwrites an earlier one with the same key.\<close>

definition new_map :: "version_info list \<Rightarrow> membership_key \<rightharpoonup> string" where
  "new_map ms = map_of (rev (map (\<lambda>m. (makeMembershipKey m, vi_version m)) ms))"

definition computeCompositionDiff :: "version_info list \<Rightarrow> version_info list \<Rightarrow> composition_diff" where
  "computeCompositionDiff old_members new_members =
     (let keeps = (\<lambda>m. new_map new_members (makeMembershipKey m) = Some (vi_version m));
          kept = map makeMembershipKey (filter keeps old_members) in
      \<lparr>to_unassign = filter (\<lambda>m. \<not> keeps m) old_members,
       to_assign = filter (\<lambda>m. makeMembershipKey m \<notin> set kept) new_members,
       unchanged = kept\<rparr>)"

definition build_operation :: "string \<Rightarrow> string \<Rightarrow> version_info \<Rightarrow> object_t" where
  "build_operation operation configuration vi =
     [(''configuration'', Str configuration), (''collection'', Str (vi_configuration vi)), (''dataformat'', Str (format_to_string Format_gui)),
      (''operation'', Str operation),
      (''filter'', Obj [(''version'', Str (vi_version vi)), (''entities.name'', Str (vi_entity vi))])]"

definition buildAssignOperation :: "string \<Rightarrow> version_info \<Rightarrow> object_t" where
  "buildAssignOperation = build_operation ''addconfig''"

definition buildUnassignOperation :: "string \<Rightarrow> version_info \<Rightarrow> object_t" where
  "buildUnassignOperation = build_operation ''rmconfig''"

text \<open>Whether a composition is stored: it may be only if it may be overwritten.\<close>

definition composition_exists :: "'d facade \<Rightarrow> string \<Rightarrow> bool \<Rightarrow> ('d, bool) fdb" where
  "composition_exists fa configuration allowOverwrite =
     catchM (\<lambda>e. any_exn e \<and> e \<noteq> Runtime_exception)
       (bindM (findGlobalConfigurations fa configuration) (\<lambda>names.
          if configuration \<in> set names \<and> \<not> allowOverwrite then throwM Runtime_exception
          else retM (configuration \<in> set names)))
       (retM False)"

definition unassign_member :: "'d facade \<Rightarrow> string \<Rightarrow> version_info \<Rightarrow> ('d, unit) fdb" where
  "unassign_member fa configuration m =
     (let cl = fa_client fa in
      catchM any_exn
        (bindM (liftE (c_write (cl_codec cl) (buildUnassignOperation configuration m))) (\<lambda>buffer.
         bindM (json_remove_configuration cl buffer) (\<lambda>_. retM ())))
        (retM ()))"

definition assign_payload :: "codec \<Rightarrow> string \<Rightarrow> version_info list \<Rightarrow> exn + string" where
  "assign_payload c configuration ms =
     bindE (mapE (\<lambda>m. bindE (validate m) (\<lambda>_. Inr (Obj (buildAssignOperation configuration m)))) ms) (\<lambda>ops.
       c_write c [(''operations'', Arr ops)])"

definition storeGlobalConfiguration :: "'d facade \<Rightarrow> version_info list \<Rightarrow> string \<Rightarrow> bool \<Rightarrow> ('d, result_t) fdb" where
  "storeGlobalConfiguration fa members configuration allowOverwrite =
     (let cl = fa_client fa in
      or_failure (\<lambda>e. make_error_msg (fa_what fa e))
      (if members = [] then throwM Invalid_option
       else if configuration = [] then throwM Invalid_option
       else
         bindM (composition_exists fa configuration allowOverwrite) (\<lambda>there.
         bindM (if there \<and> allowOverwrite then catchM any_exn (loadGlobalConfiguration fa configuration) (retM []) else retM []) (\<lambda>old.
         let diff = computeCompositionDiff old members in
         thenM (forM (to_unassign diff) (unassign_member fa configuration))
           (let ms = (if there \<and> allowOverwrite then to_assign diff else members) in
            if ms = [] then retM (True, ''Success'')
            else bindM (liftE (assign_payload (cl_codec cl) configuration ms)) (\<lambda>buffer.
                 require_success (json_create_configuration cl buffer)))))))"

section \<open>Compositions with several threads\<close>

text \<open>The tasks of a multitasker act on the same store.  An operation is taken to be one action on it; \<open>order n\<close> is the order
  in which \<open>n\<close> tasks take effect and end, an argument of the model.  \<open>None\<close> is the value when the caller
  waits for ever, for want of a thread.\<close>

type_synonym schedule = "nat \<Rightarrow> nat list"

definition run_task :: "(exn \<Rightarrow> string) \<Rightarrow> ('d, result_t) fdb \<Rightarrow> ('d, result_t) fdb" where
  "run_task what m = (\<lambda>s. case m s of (Inl e, t) \<Rightarrow> (if any_exn e then (Inr (task_result what (Inl e)), t) else (Inl e, t)) | (Inr r, t) \<Rightarrow> (Inr r, t))"

definition run_tasks :: "'d facade \<Rightarrow> schedule \<Rightarrow> ('d, result_t) fdb list \<Rightarrow> ('d, result_t list) fdb" where
  "run_tasks fa order tasks = forR (order (length tasks)) (\<lambda>i. run_task (fa_what fa) (tasks ! i))"

definition worker_threads :: "'d facade \<Rightarrow> 'a list \<Rightarrow> nat" where
  "worker_threads fa tasks = tk_threads (new_tasker (fa_cores fa) 0 (min (length tasks) (fa_cores fa div 2)) :: unit tasker)"

definition request_task :: "'d facade \<Rightarrow> object_t \<Rightarrow> (string \<Rightarrow> ('d, result_t) fdb) \<Rightarrow> ('d, result_t) fdb" where
  "request_task fa operation f = bindM (liftE (c_write (cl_codec (fa_client fa)) operation)) f"

definition unassign_tasks :: "'d facade \<Rightarrow> string \<Rightarrow> version_info list \<Rightarrow> ('d, result_t) fdb list" where
  "unassign_tasks fa configuration ms =
     map (\<lambda>m. request_task fa (buildUnassignOperation configuration m) (json_remove_configuration (fa_client fa))) ms"

definition assign_tasks :: "'d facade \<Rightarrow> string \<Rightarrow> version_info list \<Rightarrow> ('d, result_t) fdb list" where
  "assign_tasks fa configuration ms =
     map (\<lambda>m. request_task fa (buildAssignOperation configuration m) (json_assign_configuration (fa_client fa))) ms"

definition valid_member :: "version_info \<Rightarrow> bool" where
  "valid_member m \<longleftrightarrow> validate m = Inr ()"

text \<open>Every member is validated when its task is added.  When that throws, the destructor lets the threads finish
  the tasks that were added before.\<close>

definition assign_in_parallel :: "'d facade \<Rightarrow> schedule \<Rightarrow> string \<Rightarrow> version_info list \<Rightarrow> ('d, result_t) fdb option" where
  "assign_in_parallel fa order configuration ms =
     (if list_all valid_member ms then
        if worker_threads fa ms = 0 then None
        else Some (bindM (run_tasks fa order (assign_tasks fa configuration ms)) (\<lambda>rs.
               require_success (retM (merge_results rs))))
      else Some
        (thenM (if worker_threads fa ms = 0 then retM []
                else run_tasks fa order (assign_tasks fa configuration (takeWhile valid_member ms)))
               (throwM Runtime_exception)))"

text \<open>The check of the multi-threaded version: every exception of the two searches is only reported.\<close>

definition existing_members :: "'d facade \<Rightarrow> string \<Rightarrow> ('d, bool \<times> version_info list) fdb" where
  "existing_members fa configuration =
     catchM any_exn
       (bindM (findGlobalConfigurations fa configuration) (\<lambda>names.
          if configuration \<in> set names
          then catchM any_exn (bindM (loadGlobalConfiguration fa configuration) (\<lambda>old. retM (True, old))) (retM (True, []))
          else retM (False, [])))
       (retM (False, []))"

text \<open>The parts before and after the threads that unassign; each may wait for ever.\<close>

definition or_waits :: "('d, 'a) fdb option \<Rightarrow> 'd \<times> world \<Rightarrow> ((exn + 'a) \<times> ('d \<times> world)) option" where
  "or_waits m s = (case m of None \<Rightarrow> None | Some m \<Rightarrow> Some (m s))"

definition storeGlobalConfiguration_mt ::
  "'d facade \<Rightarrow> schedule \<Rightarrow> version_info list \<Rightarrow> string \<Rightarrow> bool \<Rightarrow> 'd \<times> world \<Rightarrow> ((exn + result_t) \<times> ('d \<times> world)) option" where
  "storeGlobalConfiguration_mt fa order members configuration overwrite s =
     (let answer = or_failure (\<lambda>e. make_error_msg (fa_what fa e)) in
      if members = [] \<or> configuration = [] then Some (answer (throwM Invalid_option) s)
      else case existing_members fa configuration s of
          (Inl e, t) \<Rightarrow> Some (Inl e, t)
        | (Inr (there, old), t) \<Rightarrow>
            if there \<and> \<not> overwrite then Some (answer (throwM Runtime_exception) t)
            else if \<not> there then or_waits (map_option answer (assign_in_parallel fa order configuration members)) t
            else
              let diff = computeCompositionDiff old members;
                  assign = (\<lambda>u. if to_assign diff = [] then Some (Inr (True, ''Success''), u)
                                else or_waits (map_option answer (assign_in_parallel fa order configuration (to_assign diff))) u)
              in if to_unassign diff = [] then assign t
                 else if worker_threads fa (to_unassign diff) = 0 then None
                 else case run_tasks fa order (unassign_tasks fa configuration (to_unassign diff)) t of
                     (Inl e, u) \<Rightarrow> Some (Inl e, u)
                   | (Inr _, u) \<Rightarrow> assign u)"

section \<open>Searches\<close>

definition facade_listCollections :: "'d facade \<Rightarrow> string \<Rightarrow> ('d, string list) fdb" where
  "facade_listCollections fa name_prefix =
     bindM (liftE (fresh_options fa [ignoring (set_operation ''listcollections''), ignoring (set_format Format_gui),
        unless_empty name_prefix set_collection])) (\<lambda>opts.
     bindM (require_success (opts_list_collections (fa_client fa) opts)) (\<lambda>found.
     liftE (bindE (bindE (searches (cl_codec (fa_client fa)) (snd found))
         (mapE (\<lambda>v. bindE (query_of v) (string_child ''collection'')))) (\<lambda>ns. Inr (name_set ns)))))"

text \<open>The names of an answer up to the first entry that has none; the empty ones are left out.\<close>

fun leading_names :: "array_t \<Rightarrow> string list" where
  "leading_names [] = []"
| "leading_names (v # vs) =
     (case string_member ''name'' v of
        Inl e \<Rightarrow> []
      | Inr n \<Rightarrow> (if n = [] then leading_names vs else n # leading_names vs))"

definition optimized_search :: "'d facade \<Rightarrow> string \<Rightarrow> string \<Rightarrow> string \<Rightarrow> ('d, string list option) fdb" where
  "optimized_search fa configurationType version entity =
     (let cl = fa_client fa in
      catchM any_exn
        (bindM (liftE (fresh_options fa [ignoring (set_provider (getProviderFromURI (cl_env cl))),
           ignoring (set_operation ''findcompositionscontaining''), ignoring (set_collection configurationType),
           ignoring (set_version version), unless_empty entity set_entity, ignoring (set_format Format_gui)])) (\<lambda>opts.
         bindM (opts_find_compositions_containing cl opts) (\<lambda>res.
         if \<not> fst res \<or> snd res = [] then retM None
         else bindM (liftE (c_read (cl_codec cl) (snd res))) (\<lambda>r. case r of
             None \<Rightarrow> retM None
           | Some ast \<Rightarrow> retM (case array_child ''search'' ast of Inl e \<Rightarrow> None | Inr vs \<Rightarrow> Some (leading_names vs))))))
        (retM None))"

definition contains_member :: "string \<Rightarrow> string \<Rightarrow> string \<Rightarrow> version_info \<Rightarrow> bool" where
  "contains_member configurationType version entity m \<longleftrightarrow>
     vi_configuration m = configurationType \<and> vi_version m = version \<and> (entity = [] \<or> vi_entity m = entity)"

definition brute_force :: "'d facade \<Rightarrow> string \<Rightarrow> string \<Rightarrow> string \<Rightarrow> ('d, string list) fdb" where
  "brute_force fa configurationType version entity =
     bindM (findGlobalConfigurations fa []) (\<lambda>names.
     bindM (forR names (\<lambda>n. catchM any_exn
        (bindM (loadGlobalConfiguration fa n) (\<lambda>ms.
           retM (if list_ex (contains_member configurationType version entity) ms then [n] else [])))
        (retM []))) (\<lambda>nss. retM (concat nss)))"

definition findGlobalConfigurationsContaining :: "'d facade \<Rightarrow> string \<Rightarrow> string \<Rightarrow> string \<Rightarrow> ('d, string list) fdb" where
  "findGlobalConfigurationsContaining fa configurationType version entity =
     rethrown
     (if configurationType = [] then throwM Invalid_option
      else if version = [] then throwM Invalid_option
      else bindM (optimized_search fa configurationType version entity) (\<lambda>found. case found of
          Some ns \<Rightarrow> retM (name_set ns)
        | None \<Rightarrow> bindM (brute_force fa configurationType version entity) (\<lambda>ns. retM (name_set ns))))"

text \<open>The versions that answer a result: on an exception the list is cleared.\<close>

definition safely :: "'d facade \<Rightarrow> ('d, 'a list) fdb \<Rightarrow> ('d, result_t \<times> 'a list) fdb" where
  "safely fa m =
     (\<lambda>s. case m s of
        (Inr xs, t) \<Rightarrow> (Inr ((True, ''Success''), xs), t)
      | (Inl e, t) \<Rightarrow> (if any_exn e then (Inr ((False, make_error_msg (fa_what fa e)), []), t) else (Inl e, t)))"

definition getVersions_safe :: "'d facade \<Rightarrow> serializer \<Rightarrow> string \<Rightarrow> ('d, result_t \<times> string list) fdb" where
  "getVersions_safe fa sz entity = safely fa (getVersions fa sz entity)"

definition findGlobalConfigurations_safe :: "'d facade \<Rightarrow> string \<Rightarrow> ('d, result_t \<times> string list) fdb" where
  "findGlobalConfigurations_safe fa search = safely fa (findGlobalConfigurations fa search)"

definition loadGlobalConfiguration_safe :: "'d facade \<Rightarrow> string \<Rightarrow> ('d, result_t \<times> version_info list) fdb" where
  "loadGlobalConfiguration_safe fa configuration = safely fa (loadGlobalConfiguration fa configuration)"

definition listCollections_safe :: "'d facade \<Rightarrow> string \<Rightarrow> ('d, result_t \<times> string list) fdb" where
  "listCollections_safe fa name_prefix = safely fa (facade_listCollections fa name_prefix)"

definition findGlobalConfigurationsContaining_safe ::
  "'d facade \<Rightarrow> string \<Rightarrow> string \<Rightarrow> string \<Rightarrow> ('d, result_t \<times> string list) fdb" where
  "findGlobalConfigurationsContaining_safe fa configurationType version entity =
     safely fa (findGlobalConfigurationsContaining fa configurationType version entity)"

end
