(* ===== verification/AnswerLaws.thy ===== *)
theory AnswerLaws
  imports Dispatch
begin

text \<open>
  What the dispatchers make of the provider's answers: the names their regular expressions take
  out of a printed filter, the entries they build around them, and that the query of an entry,
  handed in as a request, asks for what the entry names.
\<close>

section \<open>The printed filter\<close>

lemma plain_text_ok: "plain s \<Longrightarrow> text_ok s"
  by (induction s) (auto simp: plain_def)

lemma no_match: "c \<noteq> d \<Longrightarrow> re_matches (re_all (re_text (d # s) # rs)) (g, c # t) = []"
  by (simp add: re_all_def re_text_def)

text \<open>A member of a printed filter: its name, a colon between blanks and the group.\<close>

lemma first_member:
  assumes "plain x"
  shows "\<exists>g'. keeps {Suc i} g g' \<and> (\<forall>rs m. first_match (re_all rs) ((i, x) # g', t) m \<longrightarrow>
    first_match (re_all (re_text (quoted k) # blanks # Chr (CHR '':'') # blanks # quoted_group i # rs)) (g, quoted k @ '' : '' @ quoted x @ t) m)"
proof -
  obtain g' where g': "first_match (quoted_group i) (g, quoted x @ t) ((i, x) # g', t)" "keeps {Suc i} g g'"
    using first_quoted_group[OF assms] by blast
  have b1: "first_match blanks (g, '' : '' @ quoted x @ t) (g, '': '' @ quoted x @ t)"
    using first_blanks[of "'' ''" "'': '' @ quoted x @ t" g] by (simp add: blanks_def)
  have b2: "first_match blanks (g, '' '' @ quoted x @ t) (g, quoted x @ t)"
    using first_blanks[of "'' ''" "quoted x @ t" g] by (simp add: blanks_def quoted_def)
  have "first_match (re_all (re_text (quoted k) # blanks # Chr (CHR '':'') # blanks # quoted_group i # rs))
      (g, quoted k @ '' : '' @ quoted x @ t) m" if "first_match (re_all rs) ((i, x) # g', t) m" for rs m
    using first_text b1 first_Chr b2 g'(1) that by (intro first_all) auto
  then show ?thesis using g'(2) by blast
qed

text \<open>The filter of two members, as the writer prints it, and what the patterns find in it.\<close>

lemma two_members_text: "write_value kd (Obj [(k, Str x), (k', Str y)]) =
    CHR ''{'' # CHR 0x0A # quoted k @ '' : '' @ quoted x @ CHR '','' # CHR 0x0A # quoted k' @ '' : '' @ quoted y @ newline @ ''}''"
  by (simp add: newline_def)

lemma two_members_found:
  assumes "plain x" "plain y"
  shows "\<exists>g u. re_search (re_all [re_text (quoted k), blanks, Chr (CHR '':''), blanks, quoted_group 1, Chr (CHR '',''), blanks,
      re_text (quoted k'), blanks, Chr (CHR '':''), blanks, quoted_group 3]) (write_value kd (Obj [(k, Str x), (k', Str y)])) = Some (g, u)
    \<and> re_group 1 g = x \<and> re_group 3 g = y"
proof -
  let ?second = "[re_text (quoted k'), blanks, Chr (CHR '':''), blanks, quoted_group 3]"
  let ?t2 = "quoted k' @ '' : '' @ quoted y @ newline @ ''}''"
  obtain g1 where g1: "keeps {Suc 1} [] g1"
    "\<And>rs m. first_match (re_all rs) ((1, x) # g1, CHR '','' # CHR 0x0A # ?t2) m \<Longrightarrow>
      first_match (re_all (re_text (quoted k) # blanks # Chr (CHR '':'') # blanks # quoted_group 1 # rs))
        ([], quoted k @ '' : '' @ quoted x @ CHR '','' # CHR 0x0A # ?t2) m"
    using first_member[OF assms(1)] by blast
  obtain g2 where g2: "keeps {Suc 3} ((1, x) # g1) g2"
    "\<And>rs m. first_match (re_all rs) ((3, y) # g2, newline @ ''}'') m \<Longrightarrow>
      first_match (re_all (re_text (quoted k') # blanks # Chr (CHR '':'') # blanks # quoted_group 3 # rs)) ((1, x) # g1, ?t2) m"
    using first_member[OF assms(2)] by blast
  have b: "first_match blanks (g, CHR 0x0A # ?t2) (g, ?t2)" for g
    using first_blanks[of newline ?t2 g] by (simp add: blanks_def newline_def quoted_def)
  have "first_match (re_all ?second) ((1, x) # g1, ?t2) ((3, y) # g2, newline @ ''}'')" by (rule g2(2)) (rule first_all)
  then have "first_match (re_all (Chr (CHR '','') # blanks # ?second)) ((1, x) # g1, CHR '','' # CHR 0x0A # ?t2) ((3, y) # g2, newline @ ''}'')"
    by (intro first_all(2)[OF first_Chr] first_all(2)[OF b])
  note found = search_first[OF g1(2)[OF this]]
  have "map_of g2 1 = Some x" using g2(1) by (simp add: keeps_def)
  then have groups: "re_group 1 ((3, y) # g2) = x" "re_group 3 ((3, y) # g2) = y" by (simp_all add: re_group_def)
  have "CHR 0x0A \<noteq> dquote" by code_simp
  then have "re_search (re_all (re_text (quoted k) # rs)) (CHR ''{'' # CHR 0x0A # s) = re_search (re_all (re_text (quoted k) # rs)) s" for rs s
    by (simp add: search_skip no_match quoted_def)
  then show ?thesis using found groups by (simp add: two_members_text del: re_search.simps write_value.simps)
qed

section \<open>Requests the provider prints\<close>

lemma parses_json_pair: "text_ok k \<Longrightarrow> text_ok v \<Longrightarrow> refuses_other qd \<Longrightarrow> parses_data qd (json_pair k v) (k, Str v)"
  using parses_member[OF _ parses_string, of k v qd] by (simp add: json_pair_def del: text_ok.simps)

lemma filter_text_join: "search_filter_text ps = quoted ''filter'' @ '':'' @ ''{'' @ join '','' (map (\<lambda>(k, v). json_pair k v) ps) @ ''}''"
proof -
  let ?f = "\<lambda>(i, k, v). (if i = (0::nat) then [] else '','') @ json_pair k v"
  have rest: "0 < i \<Longrightarrow> concat (map ?f (enumerate i qs)) = concat (map (\<lambda>t. '','' @ t) (map (\<lambda>(k, v). json_pair k v) qs))" for i and qs
    by (induction qs arbitrary: i) auto
  have "concat (map ?f (enumerate 0 ps)) = join '','' (map (\<lambda>(k, v). json_pair k v) ps)"
  proof (cases ps)
    case (Cons p qs)
    then show ?thesis using rest[of 1 qs] by (cases p) (simp add: join_commas)
  qed simp
  then show ?thesis by (simp add: search_filter_text_def)
qed

definition operation_table :: "string \<Rightarrow> string \<Rightarrow> (string \<times> string) list \<Rightarrow> object_t" where
  "operation_table collection operation ps =
     [(''collection'', Str collection), (''dbprovider'', Str ''filesystem''), (''dataformat'', Str ''gui''),
      (''operation'', Str operation), (''filter'', Obj (map (\<lambda>(k, v). (k, Str v)) ps))]"

lemma parses_operation:
  assumes "collection \<noteq> []" "list_all text_ok [collection, operation]" "list_all (\<lambda>(k, v). text_ok k \<and> text_ok v) ps" "refuses_other qd"
  shows "parses_table qd (operation_text collection operation ps) (operation_table collection operation ps)"
proof -
  have names: "text_ok ''collection''" "text_ok ''dbprovider''" "text_ok ''dataformat''" "text_ok ''operation''" "text_ok ''filter''"
    "text_ok ''filesystem''" "text_ok ''gui''" by code_simp+
  have "list_all2 (parses_data qd) (map (\<lambda>(k, v). json_pair k v) ps) (map (\<lambda>(k, v). (k, Str v)) ps)"
    using assms(3,4) unfolding list_all2_map1 list_all2_map2
    by (intro list.rel_refl_strong) (auto simp: list_all_iff intro!: parses_json_pair simp del: text_ok.simps)
  then have "parses qd (''{'' @ join '','' (map (\<lambda>(k, v). json_pair k v) ps) @ ''}'') (Obj (map (\<lambda>(k, v). (k, Str v)) ps))"
    by (intro parses_table_value parses_members) auto
  then have "parses_data qd (search_filter_text ps) (''filter'', Obj (map (\<lambda>(k, v). (k, Str v)) ps))"
    using parses_member[OF names(5)] by (simp add: filter_text_join)
  then have "list_all2 (parses_data qd) [json_pair ''collection'' collection, json_pair ''dbprovider'' ''filesystem'',
      json_pair ''dataformat'' ''gui'', json_pair ''operation'' operation, search_filter_text ps] (operation_table collection operation ps)"
    using assms(2,4) names by (simp add: operation_table_def parses_json_pair del: text_ok.simps)
  from parses_members[OF this] show ?thesis using assms(1) by (simp add: operation_text_def)
qed

lemma parsed_document:
  "parses_table qd s ps \<Longrightarrow> s \<noteq> [] \<Longrightarrow> doc_of_string (boost_codec kd qd) (s @ rest) = Inr (doc_of (Obj ps))"
  by (simp add: doc_of_string_def readJson_def boost_codec_def json_read_def parses_parse)

lemma operation_document:
  assumes "collection \<noteq> []" "list_all text_ok [collection, operation]" "list_all (\<lambda>(k, v). text_ok k \<and> text_ok v) ps" "refuses_other qd"
  shows "doc_of_string (boost_codec kd qd) (operation_text collection operation ps) = Inr (doc_of (Obj (operation_table collection operation ps)))"
  using parsed_document[OF parses_operation[OF assms], of kd "[]"] by (simp add: operation_text_def)

section \<open>Entries of an answer\<close>

lemma filter_json_run:
  assumes "map_of ps ''filter'' = Some (Obj F)" "F \<noteq> []"
  shows "filter_json (boost_codec kd qd) (doc_of (Obj ps)) = Inr (write_value kd (Obj F))"
proof -
  have "split_path ''filter'' = [''filter'']" by code_simp
  then have "findChildValue (Obj ps) ''filter'' = Inr (Obj F)"
    using find_at_last[OF assms(1)] by (simp add: findChildValue_eq)
  then show ?thesis using assms(2)
    by (simp add: filter_json_def findChild_def doc_of_def doc_value_def getPayloadValueForKey_def table_count_def
      writeJson_def boost_codec_def json_write_def)
qed

text \<open>An entry of an answer reads as its name and the query.\<close>

lemma named_text_run:
  assumes "boost_ok qd ps" "ps \<noteq> []" "text_ok name"
  shows "named_text (boost_codec kd qd) name (doc_of (Obj ps)) =
      Inr (''{'' @ join '','' [json_pair ''name'' name, quoted ''query'' @ '':'' @ write_value kd (Obj ps)] @ ''}'' @ newline)"
    and "parses_table qd (''{'' @ join '','' [json_pair ''name'' name, quoted ''query'' @ '':'' @ write_value kd (Obj ps)] @ ''}'')
      [(''name'', Str name), (''query'', Obj ps)]"
proof -
  show "named_text (boost_codec kd qd) name (doc_of (Obj ps)) =
      Inr (''{'' @ join '','' [json_pair ''name'' name, quoted ''query'' @ '':'' @ write_value kd (Obj ps)] @ ''}'' @ newline)"
    using assms(2) by (simp add: named_text_def doc_text_def doc_to_string_def doc_of_def writeJson_def boost_codec_def json_write_def
        del: write_value.simps)
  have "text_ok ''name''" "text_ok ''query''" by code_simp+
  moreover have "parses qd (write_value kd (Obj ps)) (Obj ps)" using assms(1) by (intro parses_written) (simp_all add: boost_ok_def)
  ultimately show "parses_table qd (''{'' @ join '','' [json_pair ''name'' name, quoted ''query'' @ '':'' @ write_value kd (Obj ps)] @ ''}'')
      [(''name'', Str name), (''query'', Obj ps)]"
    using assms(1,3) by (intro parses_members) (simp add: parses_json_pair parses_member boost_ok_def del: text_ok.simps write_value.simps printable.simps)
qed

lemma named_query_run:
  assumes "boost_ok qd ps" "ps \<noteq> []" "text_ok name"
  shows "bindE (named_text (boost_codec kd qd) name (doc_of (Obj ps))) (doc_of_string (boost_codec kd qd)) =
    Inr (doc_of (Obj [(''name'', Str name), (''query'', Obj ps)]))"
  using parsed_document[OF named_text_run(2)[OF assms, of kd], of kd newline] by (simp add: named_text_run(1)[OF assms] del: join.simps write_value.simps)

section \<open>Entries and the requests they hold\<close>

lemma doc_text_run: "ps \<noteq> [] \<Longrightarrow> doc_text (boost_codec kd qd) (doc_of (Obj ps)) = Inr (write_value kd (Obj ps))"
  by (simp add: doc_text_def doc_to_string_def doc_of_def writeJson_def boost_codec_def json_write_def del: write_value.simps)

lemma operation_table_not_Nil: "operation_table collection operation ps \<noteq> []"
  by (simp add: operation_table_def)

lemma operation_table_filter:
  "ps \<noteq> [] \<Longrightarrow> filter_json (boost_codec kd qd) (doc_of (Obj (operation_table collection operation ps))) =
    Inr (write_value kd (Obj (map (\<lambda>(k, v). (k, Str v)) ps)))"
  by (rule filter_json_run) (simp_all add: operation_table_def)

lemma operation_table_ok:
  assumes "list_all text_ok [collection, operation]" "list_all (\<lambda>(k, v). text_ok k \<and> text_ok v) ps" "refuses_other qd"
  shows "boost_ok qd (operation_table collection operation ps)" "boost_ok qd (map (\<lambda>(k, v). (k, Str v)) ps)"
proof -
  have names: "text_ok ''collection''" "text_ok ''dbprovider''" "text_ok ''dataformat''" "text_ok ''operation''" "text_ok ''filter''"
    "text_ok ''filesystem''" "text_ok ''gui''" by code_simp+
  show f: "boost_ok qd (map (\<lambda>(k, v). (k, Str v)) ps)" using assms(2,3) by (auto simp: boost_ok_def list_all_iff simp del: text_ok.simps)
  then show "boost_ok qd (operation_table collection operation ps)"
    using assms(1) names by (simp add: boost_ok_def operation_table_def del: text_ok.simps)
qed

lemma version_entry_run:
  assumes "plain v" "plain e" "list_all text_ok [collection, operation]" "refuses_other qd"
  shows "version_entry (boost_codec kd qd) Inr
      (doc_of (Obj (operation_table collection operation [(''version'', v), (''entities.name'', e)]))) =
    Inr (doc_of (Obj [(''name'', Str v), (''query'', Obj (operation_table collection operation [(''version'', v), (''entities.name'', e)]))]))"
proof -
  let ?T = "operation_table collection operation [(''version'', v), (''entities.name'', e)]"
  have names: "text_ok ''version''" "text_ok ''entities.name''" by code_simp+
  have ok: "boost_ok qd ?T" "?T \<noteq> []"
    using operation_table_ok(1)[OF assms(3) _ assms(4), of "[(''version'', v), (''entities.name'', e)]"] names assms(1,2)
    by (simp_all add: plain_text_ok operation_table_def del: text_ok.simps)
  obtain g u where "re_search version_pattern (write_value kd (Obj [(''version'', Str v), (''entities.name'', Str e)])) = Some (g, u)"
      "re_group 1 g = v"
    using two_members_found[OF assms(1,2), of "''version''" "''entities.name''" kd] unfolding version_pattern_def by blast
  then show ?thesis using named_query_run[OF ok plain_text_ok[OF assms(1)], of kd]
    by (simp add: version_entry_def operation_table_filter matched_def del: re_search.simps write_value.simps)
qed

lemma composition_parts_run:
  assumes "plain g" "plain e"
  shows "composition_parts (boost_codec kd qd)
      (doc_of (Obj (operation_table collection operation [(''configurations.name'', g), (''entities.name'', e)]))) =
    Inr (g @ '':'' @ e, write_value kd (Obj (operation_table collection operation [(''configurations.name'', g), (''entities.name'', e)])))"
proof -
  obtain gs u where "re_search composition_pattern (write_value kd (Obj [(''configurations.name'', Str g), (''entities.name'', Str e)])) = Some (gs, u)"
      "re_group 1 gs = g" "re_group 3 gs = e"
    using two_members_found[OF assms, of "''configurations.name''" "''entities.name''" kd] unfolding composition_pattern_def by blast
  then show ?thesis
    by (simp add: composition_parts_def operation_table_filter matched_def doc_text_run operation_table_not_Nil
        del: re_search.simps write_value.simps)
qed

lemma entity_found:
  assumes "plain e"
  shows "\<exists>g u. re_search entity_pattern (write_value kd (Obj [(''entities.name'', Str e)])) = Some (g, u) \<and> re_group 2 g = e"
proof -
  let ?t = "'' : '' @ quoted e @ newline @ ''}''"
  obtain g' where g': "first_match (quoted_group 2) ([(1, ''entities.name'')], quoted e @ newline @ ''}'') ((2, e) # g', newline @ ''}'')"
    using first_quoted_group[OF assms] by blast
  have q: "first_match (Group 1 (re_text ''entities.name'')) (g, ''entities.name'' @ dquote # ?t) ((1, ''entities.name'') # g, dquote # ?t)" for g
    by (intro first_Group first_text)
  have "first_match entity_pattern ([], CHR 0x0A # dquote # ''entities.name'' @ dquote # ?t) ((2, e) # g', newline @ ''}'')"
    unfolding entity_pattern_def
    by (rule first_all(2)[OF first_Space], simp, rule first_all(2)[OF first_Chr], rule first_all(2)[OF q], rule first_all(2)[OF first_Chr],
        simp only: append.simps, rule first_all(2)[OF first_Space], simp, rule first_all(2)[OF first_Chr],
        rule first_all(2)[OF first_Space], simp, rule first_all(2)[OF g'], rule first_all)
  note found = search_first[OF this]
  have "re_search entity_pattern (CHR ''{'' # s) = re_search entity_pattern s" for s
    by (rule search_skip) (simp add: entity_pattern_def re_all_def is_space_def)
  then show ?thesis using found by (intro exI[of _ "(2, e) # g'"]) (simp add: newline_def quoted_def re_group_def del: re_search.simps)
qed

lemma entity_entry_run:
  assumes "plain e" "list_all text_ok [collection, operation]" "refuses_other qd"
  shows "entity_entry (boost_codec kd qd) (doc_of (Obj (operation_table collection operation [(''entities.name'', e)]))) =
    Inr (doc_of (Obj [(''name'', Str e), (''query'', Obj (operation_table collection operation [(''entities.name'', e)]))]))"
proof -
  let ?T = "operation_table collection operation [(''entities.name'', e)]"
  have "text_ok ''entities.name''" by code_simp
  then have ok: "boost_ok qd ?T" "?T \<noteq> []"
    using operation_table_ok(1)[OF assms(2) _ assms(3), of "[(''entities.name'', e)]"] assms(1)
    by (simp_all add: plain_text_ok operation_table_def del: text_ok.simps)
  obtain g u where "re_search entity_pattern (write_value kd (Obj [(''entities.name'', Str e)])) = Some (g, u)" "re_group 2 g = e"
    using entity_found[OF assms(1), of kd] by blast
  then show ?thesis using named_query_run[OF ok plain_text_ok[OF assms(1)], of kd]
    by (simp add: entity_entry_def named_query_def operation_table_filter matched_def del: re_search.simps write_value.simps)
qed

section \<open>Answers lead back\<close>

text \<open>The options a request stands for: what every operation on JSON makes of its argument.\<close>

definition read_request :: "process_env \<Rightarrow> codec \<Rightarrow> string \<Rightarrow> jsondoc \<Rightarrow> exn + document_options" where
  "read_request env c process d =
     bindE (doc_text c d) (\<lambda>t. with_options [readJsonData env c t] (new_document_options env process))"

lemma attempt_given:
  assumes "map_of ast k = Some (Str v)" "v \<noteq> []"
  shows "attempt (from_member k ast (setter upd)) s = (Inr (), upd (\<lambda>_. v) s)"
  using assms by (simp add: attempt_def from_member_def catchM_run bindM_run liftE_run retM_run setter_def string_child_cases)

lemma attempt_missing: "map_of ast k = None \<Longrightarrow> attempt (from_member k ast put) s = (Inr (), s)"
  by (simp add: attempt_def from_member_def catchM_run bindM_run liftE_run retM_run string_child_cases)

definition given :: "(string \<times> string) list \<Rightarrow> string \<Rightarrow> string" where
  "given ps k = (case map_of ps k of None \<Rightarrow> notprovided | Some v \<Rightarrow> v)"

lemma attempt_filter:
  assumes "list_all (\<lambda>(k, v). v \<noteq> []) ps" "upd (\<lambda>_. notprovided) s = s"
  shows "attempt (from_member k (map (\<lambda>(k, v). (k, Str v)) ps) (setter upd)) s = (Inr (), upd (\<lambda>_. given ps k) s)"
proof -
  have m: "map_of (map (\<lambda>(k, v). (k, Str v)) ps) k = map_option Str (map_of ps k)" for k by (induction ps) auto
  show ?thesis
  proof (cases "map_of ps k")
    case None
    then show ?thesis using assms(2) m by (simp add: attempt_missing given_def)
  next
    case (Some v)
    then have "v \<noteq> []" using assms(1) by (auto simp: list_all_iff dest: map_of_SomeD)
    then show ?thesis using Some m by (simp add: attempt_given given_def)
  qed
qed

lemma operation_members:
  "map_of (operation_table collection operation ps) ''operation'' = Some (Str operation)"
  "map_of (operation_table collection operation ps) ''collection'' = Some (Str collection)"
  "map_of (operation_table collection operation ps) ''dataformat'' = Some (Str ''gui'')"
  "map_of (operation_table collection operation ps) ''filter'' = Some (Obj (map (\<lambda>(k, v). (k, Str v)) ps))"
  "map_of (operation_table collection operation ps) ''configuration'' = None"
  "map_of (operation_table collection operation ps) ''version'' = None"
  "map_of (operation_table collection operation ps) ''entity'' = None"
  "map_of (operation_table collection operation ps) ''run'' = None"
  "map_of (operation_table collection operation ps) ''source'' = None"
  by (simp_all add: operation_table_def)

lemma request_read:
  assumes "collection \<noteq> []" "operation \<noteq> []" "ps \<noteq> []" "list_all (\<lambda>(k, v). v \<noteq> []) ps"
    and ok: "list_all text_ok [collection, operation]" "list_all (\<lambda>(k, v). text_ok k \<and> text_ok v) ps" "refuses_other qd"
  shows "read_request env (boost_codec kd qd) process (doc_of (Obj (operation_table collection operation ps))) =
    Inr ((new_document_options env process)\<lparr>op_operation := operation, op_format := Format_gui, op_collection := collection,
      op_query := write_value kd (Obj (map (\<lambda>(k, v). (k, Str v)) ps)), opt_version := given ps ''version'',
      opt_entity := given ps ''entities.name'', opt_configuration := given ps ''configurations.name'',
      opt_run := given ps ''runs.name''\<rparr>)"
proof -
  let ?c = "boost_codec kd qd"
  let ?T = "operation_table collection operation ps" and ?F = "map (\<lambda>(k, v). (k, Str v)) ps"
  define t where "t = write_value kd (Obj ?T)"
  define s0 where "s0 = new_document_options env process"
  have s0: "op_query s0 = notprovided" "op_provider s0 = getProviderFromURI env" "opt_version s0 = notprovided"
    "opt_entity s0 = notprovided" "opt_configuration s0 = notprovided" "opt_run s0 = notprovided"
    by (simp_all add: s0_def new_document_options_def new_operation_base_def operation_base.extend_def document_options.fields_def)
  have w: "c_write ?c ?T = Inr t" "c_write ?c ?F = Inr (write_value kd (Obj ?F))"
    using assms(3) by (simp_all add: boost_codec_def json_write_def t_def operation_table_not_Nil del: write_value.simps)
  have r: "c_read ?c t = Inr (Some ?T)" "t \<noteq> []" using boost.read_write[OF operation_table_ok(1)[OF ok] w(1)] by simp_all
  have np: "t \<noteq> notprovided" "dequote (write_value kd (Obj ?F)) = write_value kd (Obj ?F)" "write_value kd (Obj ?F) \<noteq> []"
    using written_not_quoted[OF w(1)] written_not_quoted[OF w(2)] by simp_all
  have F: "object_child ''filter'' ?T = Inr ?F" by (simp add: child_Inr operation_members)
  define s1 where "s1 = s0\<lparr>op_operation := operation, op_format := Format_gui, op_collection := collection,
    op_query := write_value kd (Obj ?F)\<rparr>"
  have p: "attempt (set_provider (getProviderFromURI env)) s0 = (Inr (), s0)"
    using s0(2) by (subst attempt_run[OF provider_run]) (cases s0, simp)
  have o: "attempt (from_member ''operation'' ?T set_operation) u = (Inr (), u\<lparr>op_operation := operation\<rparr>)" for u :: document_options
    unfolding set_operation_def using assms(2) by (simp add: attempt_given operation_members)
  have "to_data_format ''gui'' = Inr Format_gui" by (simp add: to_data_format_def)
  then have f: "attempt (from_member ''dataformat'' ?T set_format_name) u = (Inr (), u\<lparr>op_format := Format_gui\<rparr>)" for u :: document_options
    by (intro attempt_run) (simp add: from_member_def string_child_cases operation_members bindM_run liftE_run set_format_name_def)
  have l: "attempt (from_member ''collection'' ?T set_collection) u = (Inr (), u\<lparr>op_collection := collection\<rparr>)" for u :: document_options
    unfolding set_collection_def using assms(1) by (simp add: attempt_given operation_members)
  have q: "attempt (bindM (liftE (object_child ''filter'' ?T)) (\<lambda>filt. if filt = [] then retM []
        else bindM (liftE (c_write ?c filt)) set_queryFilter)) u = (Inr (), u\<lparr>op_query := write_value kd (Obj ?F)\<rparr>)"
    for u :: document_options
    using np assms(3) w(2) F
    by (intro attempt_run) (simp add: bindM_run liftE_run set_queryFilter_def thenM_run confirm_run del: write_value.simps)
  have base: "base_readJsonData env ?c t s0 = (Inr (), s1)"
    unfolding s1_def using r np(1)
    by (simp add: base_readJsonData_def parse_options_def thenM_run bindM_run confirm_run liftE_run p o f l q retM_run del: write_value.simps)
  have members: "seqM [attempt (from_member ''configuration'' ?T set_configuration), attempt (from_member ''version'' ?T set_version),
      attempt (from_member ''entity'' ?T set_entity), attempt (from_member ''run'' ?T set_run),
      attempt (from_member ''source'' ?T set_sourceFileName), M] s1 = thenM M (retM ()) s1" for M
    by (simp add: thenM_run attempt_missing operation_members)
  let ?s2 = "s1\<lparr>opt_version := given ps ''version'', opt_entity := given ps ''entities.name'',
    opt_configuration := given ps ''configurations.name'', opt_run := given ps ''runs.name''\<rparr>"
  have filtered: "seqM [attempt (from_member ''version'' ?F set_version), attempt (from_member ''entities.name'' ?F set_entity),
      attempt (from_member ''configurations.name'' ?F set_configuration), attempt (from_member ''runs.name'' ?F set_run)] s1 = (Inr (), ?s2)"
    unfolding member_setters using s0
    by (simp add: thenM_run attempt_filter[OF assms(4)] s1_def retM_run)
  have "with_filter ?T (\<lambda>filt. seqM [attempt (from_member ''version'' filt set_version),
      attempt (from_member ''entities.name'' filt set_entity), attempt (from_member ''configurations.name'' filt set_configuration),
      attempt (from_member ''runs.name'' filt set_run)]) s1 = (Inr (), ?s2)"
    unfolding with_filter_def using filtered F assms(3)
    by (intro attempt_run[where x = "()"]) (simp add: bindM_run liftE_run thenM_run retM_run del: seqM.simps)
  then have "readJsonData env ?c t s0 = (Inr (), ?s2)"
    using r base by (simp add: readJsonData_def parse_options_def thenM_run bindM_run confirm_run liftE_run retM_run members del: seqM.simps)
  then show ?thesis
    by (simp add: read_request_def doc_text_run operation_table_not_Nil t_def[symmetric] s0_def[symmetric] with_options_def
        thenM_run retM_run del: write_value.simps) (simp add: s1_def)
qed

lemma plain_names: "list_all text_ok [''load'', ''findversions'', ''version'', ''entities.name'', ''configurations.name'']"
  by code_simp

text \<open>C26.  The answers lead back to the documents.  Let a collection, a version, a
  configuration and an entity have names without quotes and backslashes.  What the provider
  prints for a version is turned by the dispatcher into an entry named after it, and the query of the
  entry, handed in as a request, becomes options that load exactly that version and
  entity of the collection.  The same holds for the entries of entities, which ask for
  their versions, and for those of a composition, which are named after the configuration and the entity.\<close>

theorem answers_lead_back:
  assumes "list_all plain [collection, v, g, e]" "list_all (\<lambda>s. s \<noteq> []) [collection, v, g, e]" "refuses_other qd"
  shows "(\<exists>d opts. doc_of_string (boost_codec kd qd) (found_version collection v e) = Inr d \<and>
      version_entry (boost_codec kd qd) Inr d = Inr (doc_of (Obj [(''name'', Str v), (''query'', jd_value d)])) \<and>
      read_request env (boost_codec kd qd) process d = Inr opts \<and>
      op_operation opts = ''load'' \<and> op_collection opts = collection \<and> op_format opts = Format_gui \<and>
      opt_version opts = v \<and> opt_entity opts = e \<and> opt_configuration opts = notprovided) \<and>
    (\<exists>d opts. doc_of_string (boost_codec kd qd) (operation_text collection ''findversions'' [(''entities.name'', e)]) = Inr d \<and>
      entity_entry (boost_codec kd qd) d = Inr (doc_of (Obj [(''name'', Str e), (''query'', jd_value d)])) \<and>
      read_request env (boost_codec kd qd) process d = Inr opts \<and>
      op_operation opts = ''findversions'' \<and> op_collection opts = collection \<and> op_format opts = Format_gui \<and>
      opt_version opts = notprovided \<and> opt_entity opts = e \<and> opt_configuration opts = notprovided) \<and>
    (\<exists>d t opts. doc_of_string (boost_codec kd qd)
        (operation_text collection ''load'' [(''configurations.name'', g), (''entities.name'', e)]) = Inr d \<and>
      composition_parts (boost_codec kd qd) d = Inr (g @ '':'' @ e, t) \<and> doc_text (boost_codec kd qd) d = Inr t \<and>
      read_request env (boost_codec kd qd) process d = Inr opts \<and>
      op_operation opts = ''load'' \<and> op_collection opts = collection \<and> op_format opts = Format_gui \<and>
      opt_version opts = notprovided \<and> opt_entity opts = e \<and> opt_configuration opts = g)"
proof (intro conjI)
  have ok: "list_all text_ok [collection, op]" if "text_ok op" for op using assms(1) that by (simp add: plain_text_ok)
  have np: "list_all (\<lambda>(k, s). text_ok k \<and> text_ok s) [(''version'', v), (''entities.name'', e)]"
    "list_all (\<lambda>(k, s). text_ok k \<and> text_ok s) [(''entities.name'', e)]"
    "list_all (\<lambda>(k, s). text_ok k \<and> text_ok s) [(''configurations.name'', g), (''entities.name'', e)]"
    using assms(1) plain_names by (simp_all add: plain_text_ok del: text_ok.simps)
  have pl: "plain v" "plain e" "plain g" "collection \<noteq> []" "v \<noteq> []" "e \<noteq> []" "g \<noteq> []" "text_ok ''load''" "text_ok ''findversions''"
    using assms(1,2) plain_names by (simp_all del: text_ok.simps)
  note read = operation_document[OF pl(4) ok _ assms(3)] request_read[OF pl(4) _ _ _ ok _ assms(3)]
  let ?T = "operation_table collection"
  show "\<exists>d opts. doc_of_string (boost_codec kd qd) (found_version collection v e) = Inr d \<and>
      version_entry (boost_codec kd qd) Inr d = Inr (doc_of (Obj [(''name'', Str v), (''query'', jd_value d)])) \<and>
      read_request env (boost_codec kd qd) process d = Inr opts \<and>
      op_operation opts = ''load'' \<and> op_collection opts = collection \<and> op_format opts = Format_gui \<and>
      opt_version opts = v \<and> opt_entity opts = e \<and> opt_configuration opts = notprovided"
    using read(1)[OF pl(8) np(1), of kd] read(2)[OF _ _ _ pl(8) np(1), of env kd process]
      version_entry_run[OF pl(1,2) ok[OF pl(8)] assms(3), of kd] pl(5,6)
    by (intro exI[of _ "doc_of (Obj (?T ''load'' [(''version'', v), (''entities.name'', e)]))"])
      (simp add: found_version_def given_def doc_of_def)
  show "\<exists>d opts. doc_of_string (boost_codec kd qd) (operation_text collection ''findversions'' [(''entities.name'', e)]) = Inr d \<and>
      entity_entry (boost_codec kd qd) d = Inr (doc_of (Obj [(''name'', Str e), (''query'', jd_value d)])) \<and>
      read_request env (boost_codec kd qd) process d = Inr opts \<and>
      op_operation opts = ''findversions'' \<and> op_collection opts = collection \<and> op_format opts = Format_gui \<and>
      opt_version opts = notprovided \<and> opt_entity opts = e \<and> opt_configuration opts = notprovided"
    using read(1)[OF pl(9) np(2), of kd] read(2)[OF _ _ _ pl(9) np(2), of env kd process]
      entity_entry_run[OF pl(2) ok[OF pl(9)] assms(3), of kd] pl(6)
    by (intro exI[of _ "doc_of (Obj (?T ''findversions'' [(''entities.name'', e)]))"]) (simp add: given_def doc_of_def)
  show "\<exists>d t opts. doc_of_string (boost_codec kd qd)
        (operation_text collection ''load'' [(''configurations.name'', g), (''entities.name'', e)]) = Inr d \<and>
      composition_parts (boost_codec kd qd) d = Inr (g @ '':'' @ e, t) \<and> doc_text (boost_codec kd qd) d = Inr t \<and>
      read_request env (boost_codec kd qd) process d = Inr opts \<and>
      op_operation opts = ''load'' \<and> op_collection opts = collection \<and> op_format opts = Format_gui \<and>
      opt_version opts = notprovided \<and> opt_entity opts = e \<and> opt_configuration opts = g"
    using read(1)[OF pl(8) np(3), of kd] read(2)[OF _ _ _ pl(8) np(3), of env kd process]
      composition_parts_run[OF pl(3,2), of kd qd collection "''load''"] pl(6,7)
      doc_text_run[OF operation_table_not_Nil, of kd qd collection "''load''" "[(''configurations.name'', g), (''entities.name'', e)]"]
    by (intro exI[of _ "doc_of (Obj (?T ''load'' [(''configurations.name'', g), (''entities.name'', e)]))"])
      (simp add: given_def del: write_value.simps)
qed

theorem answers_lead_back_witness:
  "\<exists>d opts. doc_of_string (boost_codec decimal_to_string no_doubles) (found_version ''c'' ''v1'' ''e'') = Inr d \<and>
    version_entry (boost_codec decimal_to_string no_doubles) Inr d = Inr (doc_of (Obj [(''name'', Str ''v1''), (''query'', jd_value d)])) \<and>
    read_request demo_env (boost_codec decimal_to_string no_doubles) ''p'' d = Inr opts \<and> opt_version opts = ''v1''"
proof -
  have "list_all plain [''c'', ''v1'', ''g'', ''e'']" by code_simp
  moreover have "list_all (\<lambda>s. s \<noteq> []) [''c'', ''v1'', ''g'', ''e'']" by simp
  moreover have "refuses_other no_doubles" by (simp add: refuses_other_def no_doubles_def)
  ultimately show ?thesis using answers_lead_back[of "''c''" "''v1''" "''g''" "''e''" no_doubles decimal_to_string demo_env "''p''"] by blast
qed

end
