(* ===== verification/OptionLaws.thy ===== *)
theory OptionLaws
  imports Options
begin

text \<open>
  The type of options: which members are never empty, and that every reader keeps that.  The
  locale states what the readers of the base class need; document, configuration and alias options
  are its instances.
\<close>

section \<open>Typed options\<close>

text \<open>What the getters rely on: the provider is one of the three, and the members the setters guard are not empty.  The
  query and the result file are not among them: an empty text in quotes and a variable that
  expands to nothing make them empty.\<close>

definition base_typed :: "'o operation_base_scheme \<Rightarrow> bool" where
  "base_typed opts \<longleftrightarrow> op_provider opts \<in> {''filesystem'', ''mongo'', ''ucon''} \<and> op_operation opts \<noteq> [] \<and> op_collection opts \<noteq> []"

definition document_typed :: "document_options \<Rightarrow> bool" where
  "document_typed opts \<longleftrightarrow> base_typed opts \<and> opt_version opts \<noteq> [] \<and> opt_entity opts \<noteq> [] \<and> opt_run opts \<noteq> [] \<and>
     opt_configuration opts \<noteq> [] \<and> opt_source opts \<noteq> []"

definition config_typed :: "config_options \<Rightarrow> bool" where
  "config_typed opts \<longleftrightarrow> base_typed opts \<and> cfg_version opts \<noteq> [] \<and> cfg_entity opts \<noteq> [] \<and> cfg_configuration opts \<noteq> []"

definition alias_typed :: "alias_options \<Rightarrow> bool" where
  "alias_typed opts \<longleftrightarrow> base_typed opts \<and> al_version opts \<noteq> [] \<and> al_version_alias opts \<noteq> [] \<and> al_entity opts \<noteq> [] \<and>
     al_configuration opts \<noteq> [] \<and> al_configuration_alias opts \<noteq> [] \<and> al_run opts \<noteq> []"

text \<open>The readers are the same for the three kinds of options: what they do to the members of the base class keeps a type that
  only looks at the three typed ones.\<close>

locale typed_options =
  fixes ok :: "'o operation_base_scheme \<Rightarrow> bool"
  assumes operation: "ok s \<Longrightarrow> v \<noteq> [] \<Longrightarrow> ok (s\<lparr>op_operation := v\<rparr>)"
    and collection: "ok s \<Longrightarrow> v \<noteq> [] \<Longrightarrow> ok (s\<lparr>op_collection := v\<rparr>)"
    and provider: "ok s \<Longrightarrow> v \<in> {''filesystem'', ''mongo'', ''ucon''} \<Longrightarrow> ok (s\<lparr>op_provider := v\<rparr>)"
    and others: "ok s \<Longrightarrow> ok (s\<lparr>op_query := q\<rparr>)" "ok s \<Longrightarrow> ok (s\<lparr>op_format := f\<rparr>)" "ok s \<Longrightarrow> ok (s\<lparr>op_result := q\<rparr>)"

sublocale typed_options \<subseteq> run_relation "\<lambda>s t. ok s \<longrightarrow> ok t"
  by unfold_locales auto

context typed_options
begin

abbreviation keeps_type :: "('o operation_base_scheme, 'a) prog \<Rightarrow> bool" where
  "keeps_type \<equiv> stays_in (\<lambda>s t. ok s \<longrightarrow> ok t)"

lemma set_member: "(\<And>s. ok s \<Longrightarrow> v \<noteq> [] \<Longrightarrow> ok (upd (\<lambda>_. v) s)) \<Longrightarrow> keeps_type (setter upd v)"
  by (simp add: stays_in_def setter_def)

lemma base_setters: "keeps_type (set_operation v)" "keeps_type (set_collection v)" "keeps_type (set_provider v)"
    "keeps_type (set_format_name v)" "keeps_type (set_queryFilter v)" "keeps_type (set_resultFileName env v)"
proof -
  show "keeps_type (set_operation v)" "keeps_type (set_collection v)"
    unfolding set_operation_def set_collection_def by (intro set_member operation collection; assumption)+
  show "keeps_type (set_provider v)"
    using provider by (auto simp: stays_in_def set_provider_def setter_def thenM_run bindM_run confirm_run liftE_run throwM_run
        valid_provider_def not_equal_def string_equal_def split: sum.splits)
  show "keeps_type (set_format_name v)" "keeps_type (set_queryFilter v)" "keeps_type (set_resultFileName env v)"
    using others by (auto simp: stays_in_def set_format_name_def set_queryFilter_def set_resultFileName_def thenM_run bindM_run
        confirm_run liftE_run split: sum.splits)
qed

lemma attempts: "keeps_type m \<Longrightarrow> keeps_type (attempt m)" "keeps_type m \<Longrightarrow> keeps_type n \<Longrightarrow> keeps_type (attempt_or m n)"
  unfolding attempt_def attempt_or_def by (intro combined; assumption)+

lemma member: "(\<And>v. keeps_type (put v)) \<Longrightarrow> keeps_type (from_member k ast put)" "(\<And>v. keeps_type (put v)) \<Longrightarrow> keeps_type (from_option k vm put)"
  unfolding from_member_def from_option_def by (auto intro!: combined split: option.splits)

lemma parsed: "(\<And>ast. keeps_type (f ast)) \<Longrightarrow> keeps_type (parse_options c t f)"
  unfolding parse_options_def by (auto intro!: combined split: option.splits)

lemma sequences: "keeps_type (seqM [])" "keeps_type m \<Longrightarrow> keeps_type (seqM ms) \<Longrightarrow> keeps_type (seqM (m # ms))"
  by (simp_all add: lifted sequenced)

lemma base_read: "keeps_type (base_readJsonData env c t)"
  unfolding base_readJsonData_def
  by (intro sequenced lifted parsed sequences attempts member base_setters bound) (auto intro: lifted bound base_setters)

lemma filtered: "(\<And>ast. keeps_type (f ast)) \<Longrightarrow> keeps_type (with_filter ast f)"
  unfolding with_filter_def by (intro attempts bound lifted sequenced) (auto intro: lifted bound base_setters)

lemma base_command_line: "(\<And>t. keeps_type (read t)) \<Longrightarrow> keeps_type (base_readProgramOptions env read vm)"
  unfolding base_readProgramOptions_def
  by (auto intro!: bound lifted sequenced sequences member base_setters simp del: seqM.simps split: option.splits)

lemmas readers = sequenced lifted parsed sequences attempts member base_setters base_read filtered base_command_line

end

interpretation typed_document: typed_options document_typed
  by unfold_locales (simp_all add: document_typed_def base_typed_def)

interpretation typed_config: typed_options config_typed
  by unfold_locales (simp_all add: config_typed_def base_typed_def)

interpretation typed_alias: typed_options alias_typed
  by unfold_locales (simp_all add: alias_typed_def base_typed_def)

lemma document_setters:
  "typed_document.keeps_type (set_version v)" "typed_document.keeps_type (set_entity v)" "typed_document.keeps_type (set_run v)"
  "typed_document.keeps_type (set_configuration v)" "typed_document.keeps_type (set_sourceFileName v)"
  unfolding member_setters by (rule typed_document.set_member, simp add: document_typed_def base_typed_def)+

lemma config_setters:
  "typed_config.keeps_type (cfg_set_version v)" "typed_config.keeps_type (cfg_set_entity v)" "typed_config.keeps_type (cfg_set_configuration v)"
  unfolding cfg_set_version_def cfg_set_entity_def cfg_set_configuration_def
  by (rule typed_config.set_member, simp add: config_typed_def base_typed_def)+

lemma alias_setters:
  "typed_alias.keeps_type (al_set_version v)" "typed_alias.keeps_type (al_set_entity v)" "typed_alias.keeps_type (al_set_run v)"
  "typed_alias.keeps_type (al_set_configuration v)" "typed_alias.keeps_type (al_set_versionAlias v)"
  "typed_alias.keeps_type (al_set_configurationAlias v)"
  unfolding al_set_version_def al_set_entity_def al_set_run_def al_set_configuration_def al_set_versionAlias_def al_set_configurationAlias_def
  by (rule typed_alias.set_member, simp add: alias_typed_def base_typed_def)+

lemma document_readers: "typed_document.keeps_type (readJsonData env c t)" "typed_document.keeps_type (readProgramOptions env c vm)"
proof -
  show read: "typed_document.keeps_type (readJsonData env c t)" for t
    unfolding readJsonData_def by (intro typed_document.readers document_setters)
  show "typed_document.keeps_type (readProgramOptions env c vm)"
    unfolding readProgramOptions_def
    by (auto intro!: typed_document.bound typed_document.readers document_setters read simp del: seqM.simps)
qed

lemma config_readers: "typed_config.keeps_type (cfg_readJsonData env c t)" "typed_config.keeps_type (cfg_readProgramOptions env c vm)"
proof -
  show read: "typed_config.keeps_type (cfg_readJsonData env c t)" for t
    unfolding cfg_readJsonData_def by (intro typed_config.readers config_setters)
  show "typed_config.keeps_type (cfg_readProgramOptions env c vm)"
    unfolding cfg_readProgramOptions_def
    by (auto intro!: typed_config.bound typed_config.readers config_setters read simp del: seqM.simps)
qed

lemma alias_readers: "typed_alias.keeps_type (al_readJsonData env c t)" "typed_alias.keeps_type (al_readProgramOptions env c vm)"
proof -
  show read: "typed_alias.keeps_type (al_readJsonData env c t)" for t
    unfolding al_readJsonData_def by (intro typed_alias.readers alias_setters)
  show "typed_alias.keeps_type (al_readProgramOptions env c vm)"
    unfolding al_readProgramOptions_def
    by (auto intro!: typed_alias.bound typed_alias.readers alias_setters read simp del: seqM.simps)
qed

lemma new_options_typed: "document_typed (new_document_options env p)" "config_typed (new_config_options env p)"
    "alias_typed (new_alias_options env p)"
  by (simp_all add: document_typed_def config_typed_def alias_typed_def base_typed_def new_document_options_def new_config_options_def
      new_alias_options_def new_operation_base_def operation_base.extend_def document_options.fields_def config_options.fields_def
      alias_options.fields_def getProviderFromURI_def notprovided_def)

text \<open>C25.  Options stay typed: their provider is one of the three, and no member a setter guards is
  empty, in new options and after reading any JSON text or command line, also when the
  reader fails half way.  So the getters of these members never throw.\<close>

theorem options_stay_typed:
  assumes "document_typed o1" "config_typed o2" "alias_typed o3"
  shows "document_typed (new_document_options env p) \<and> config_typed (new_config_options env p) \<and> alias_typed (new_alias_options env p) \<and>
    document_typed (snd (readJsonData env c t o1)) \<and> document_typed (snd (readProgramOptions env c vm o1)) \<and>
    config_typed (snd (cfg_readJsonData env c t o2)) \<and> config_typed (snd (cfg_readProgramOptions env c vm o2)) \<and>
    alias_typed (snd (al_readJsonData env c t o3)) \<and> alias_typed (snd (al_readProgramOptions env c vm o3)) \<and>
    mapE getter [op_provider o1, op_operation o1, op_collection o1, opt_version o1, opt_entity o1, opt_run o1, opt_configuration o1,
        opt_source o1] =
      Inr [op_provider o1, op_operation o1, op_collection o1, opt_version o1, opt_entity o1, opt_run o1, opt_configuration o1, opt_source o1] \<and>
    mapE getter [cfg_version o2, cfg_entity o2, cfg_configuration o2] = Inr [cfg_version o2, cfg_entity o2, cfg_configuration o2] \<and>
    mapE getter [al_version o3, al_version_alias o3, al_entity o3, al_configuration o3, al_configuration_alias o3, al_run o3] =
      Inr [al_version o3, al_version_alias o3, al_entity o3, al_configuration o3, al_configuration_alias o3, al_run o3]"
proof -
  have g: "mapE getter xs = Inr xs" if "list_all (\<lambda>s. s \<noteq> []) xs" for xs
    using that by (induction xs) (simp_all add: getter_def)
  have provider: "op_provider o1 \<noteq> []" using assms(1) by (auto simp: document_typed_def base_typed_def)
  show ?thesis
    using assms new_options_typed document_readers config_readers alias_readers provider unfolding stays_in_def
    by (intro conjI g) (auto simp: document_typed_def config_typed_def alias_typed_def base_typed_def)
qed

theorem options_stay_typed_witness:
  "alias_typed (snd (al_readProgramOptions demo_env (boost_codec decimal_to_string no_doubles) [''operation'' \<mapsto> ''findveralias'', ''run'' \<mapsto> ''7'']
      (new_alias_options demo_env ''p'')))"
  using options_stay_typed[OF new_options_typed(1)[of demo_env "''p''"] new_options_typed(2)[of demo_env "''p''"]
      new_options_typed(3)[of demo_env "''p''"]] by blast

end
