(* ===== verification/OperationLaws.thy ===== *)
theory OperationLaws
  imports AnswerLaws Operations OptionLaws
begin

text \<open>
  The operations of the client interface: lists of documents read back, reading takes the newest
  version, misdirected operations are refused, and two operations that cannot succeed.
\<close>

section \<open>Lists of documents\<close>

lemma doc_text_parses:
  assumes "boost_ok qd ps"
  shows "\<exists>t. doc_text (boost_codec kd qd) (doc_of (Obj ps)) = Inr t \<and> parses qd t (Obj ps)"
proof (cases "ps = []")
  case True
  have "parses qd ''{}'' (Obj [])" using parses_table_value[OF parses_members[of qd "[]" "[]"]] by simp
  then show ?thesis using True by (simp add: doc_text_def doc_to_string_def doc_of_def writeJson_def)
next
  case False
  have "parses qd (write_value kd (Obj ps)) (Obj ps)" using assms by (intro parses_written) (simp_all add: boost_ok_def)
  then show ?thesis using doc_text_run[OF False] by (simp del: write_value.simps)
qed

lemma doc_texts_parse:
  assumes "list_all (boost_ok qd) pss"
  shows "\<exists>ts. mapE (doc_text (boost_codec kd qd)) (map (\<lambda>ps. doc_of (Obj ps)) pss) = Inr ts \<and> list_all2 (parses qd) ts (map Obj pss)"
  using assms
proof (induction pss)
  case (Cons ps pss)
  obtain t where "doc_text (boost_codec kd qd) (doc_of (Obj ps)) = Inr t" "parses qd t (Obj ps)"
    using Cons.prems doc_text_parses by fastforce
  then show ?case using Cons by auto
qed simp

lemma search_answer_parses:
  assumes "parses qd s v"
  shows "parses_table qd (''{ '' @ quoted ''search'' @ '': '' @ s @ '' }'') [(''search'', v)]"
proof -
  have sp: "list_all is_space '' ''" by code_simp
  have n: "text_ok ''search''" by code_simp
  have "parses qd ('' '' @ s @ '' '') v" using parses_before(1)[OF sp parses_behind(1)[OF sp assms]] .
  from parses_before(2)[OF sp parses_member[OF n this]]
  have "list_all2 (parses_data qd) ['' '' @ quoted ''search'' @ CHR '':'' # '' '' @ s @ '' ''] [(''search'', v)]" by simp
  from parses_members[OF this] show ?thesis by simp
qed

text \<open>C27.  The list of documents a search answers with is JSON for every number of
  documents: in the format of the GUI it reads back as exactly these documents under
  \<open>search\<close>, the comma behind the last one being overwritten, and as a list of
  names they are separated by commas; without any document the list of names reads the last
  character of an empty string.\<close>

theorem answers_read_back:
  assumes "list_all (boost_ok qd) pss" "refuses_other qd"
  shows "\<exists>t. gui_answer (boost_codec kd qd) (map (\<lambda>ps. doc_of (Obj ps)) pss) = Inr t \<and>
      c_read (boost_codec kd qd) t = Inr (Some [(''search'', Arr (map Obj pss))]) \<and>
      (\<forall>names. map (\<lambda>ps. value_as_string (boost_codec kd qd) (doc_of (Obj ps)) ''name'') pss = map Inr names \<longrightarrow>
        csv_answer (boost_codec kd qd) (map (\<lambda>ps. doc_of (Obj ps)) pss) =
          (if pss = [] then Inl Undefined else Inr (join '','' names)))"
proof -
  let ?c = "boost_codec kd qd" and ?ds = "map (\<lambda>ps. doc_of (Obj ps)) pss"
  obtain ts where ts: "mapE (doc_text ?c) ?ds = Inr ts" "list_all2 (parses qd) ts (map Obj pss)"
    using doc_texts_parse[OF assms(1)] by blast
  let ?a = "butlast (''{ '' @ quoted ''search'' @ '': ['' @ newline @ concat (map (\<lambda>t. t @ '','') ts)) @ ''] }''"
  have "\<exists>s. ?a = ''{ '' @ quoted ''search'' @ '': '' @ s @ '' }'' \<and> parses qd s (Arr (map Obj pss))"
  proof (cases "ts = []")
    case True
    then show ?thesis using parses_elements[of qd "[]" "[]"] ts(2) assms(2)
      by (intro exI[of _ "''[]''"]) (simp add: newline_def butlast_append)
  next
    case False
    then have a: "?a = ''{ '' @ quoted ''search'' @ '': '' @ (''['' @ newline @ join '','' ts @ '']'') @ '' }''"
      unfolding with_commas[OF False] by (simp add: butlast_append newline_def)
    have "list_all is_space newline" by code_simp
    from a parses_spaced_elements[OF ts(2) assms(2) this False] show ?thesis by blast
  qed
  then obtain s where s: "?a = ''{ '' @ quoted ''search'' @ '': '' @ s @ '' }''" "parses qd s (Arr (map Obj pss))" by blast
  from parses_parse[OF search_answer_parses[OF s(2)], of "[]"]
  have g: "gui_answer ?c ?ds = Inr ?a" "c_read ?c ?a = Inr (Some [(''search'', Arr (map Obj pss))])"
    unfolding s(1) using ts(1) s(1) by (simp_all add: gui_answer_def boost_codec_def json_read_def)
  have "csv_answer ?c ?ds = (if pss = [] then Inl Undefined else Inr (join '','' names))"
    if n: "map (\<lambda>ps. value_as_string ?c (doc_of (Obj ps)) ''name'') pss = map Inr names" for names
  proof -
    have m: "mapE (\<lambda>d. value_as_string ?c d ''name'') ?ds = Inr names"
      using n by (induction pss arbitrary: names) auto
    have ne: "pss \<noteq> [] \<longleftrightarrow> names \<noteq> []" using n by (metis list.map_disc_iff)
    show ?thesis
    proof (cases "pss = []")
      case True
      then show ?thesis using m n by (simp add: csv_answer_def)
    next
      case False
      then have "names \<noteq> []" using ne by simp
      then show ?thesis using False m by (simp add: csv_answer_def Let_def with_commas)
    qed
  qed
  then show ?thesis using g by (intro exI[of _ ?a]) blast
qed

theorem answers_read_back_witness:
  "\<exists>t. gui_answer plain_codec [doc_of (Obj [(''name'', Str ''a'')]), doc_of (Obj [(''name'', Str ''b'')])] = Inr t \<and>
    c_read plain_codec t = Inr (Some [(''search'', Arr [Obj [(''name'', Str ''a'')], Obj [(''name'', Str ''b'')]])]) \<and>
    csv_answer plain_codec [doc_of (Obj [(''name'', Str ''a'')]), doc_of (Obj [(''name'', Str ''b'')])] = Inr ''a,b''"
proof -
  have "boost_ok no_doubles [(''name'', Str ''a'')]" "boost_ok no_doubles [(''name'', Str ''b'')]"
    by (auto simp: boost_ok_def refuses_other_def no_doubles_def) code_simp+
  then have ok: "list_all (boost_ok no_doubles) [[(''name'', Str ''a'')], [(''name'', Str ''b'')]]" by simp
  have no: "refuses_other no_doubles" by (simp add: refuses_other_def no_doubles_def)
  have n: "map (\<lambda>ps. value_as_string plain_codec (doc_of (Obj ps)) ''name'') [[(''name'', Str ''a'')], [(''name'', Str ''b'')]] =
      map Inr [''a'', ''b'']" by code_simp
  obtain t where t: "gui_answer plain_codec (map (\<lambda>ps. doc_of (Obj ps)) [[(''name'', Str ''a'')], [(''name'', Str ''b'')]]) = Inr t"
      "c_read plain_codec t = Inr (Some [(''search'', Arr (map Obj [[(''name'', Str ''a'')], [(''name'', Str ''b'')]]))])"
      "csv_answer plain_codec (map (\<lambda>ps. doc_of (Obj ps)) [[(''name'', Str ''a'')], [(''name'', Str ''b'')]]) = Inr (join '','' [''a'', ''b''])"
    using answers_read_back[OF ok no, of decimal_to_string] n unfolding plain_codec_def by (metis list.distinct(1))
  moreover have "join '','' [''a'', ''b''] = ''a,b''" by code_simp
  ultimately show ?thesis by auto
qed

section \<open>Reading the newest version\<close>

lemma max_document_run:
  assumes "\<forall>d \<in> set (best # ds). value_as_string c d ''version'' = Inr (ver d)"
  shows "\<exists>d before after. max_document c best ds = Inr d \<and> best # ds = before @ d # after \<and>
    (\<forall>x \<in> set before. ver x < ver d) \<and> (\<forall>x \<in> set after. ver x \<le> ver d)"
  using assms
proof (induction ds arbitrary: best)
  case Nil
  then show ?case by (intro exI[of _ best] exI[of _ "[]"]) simp
next
  case (Cons e es)
  have cmp: "compareDocumentVersions c best e = Inr (ver best < ver e)"
    using Cons.prems by (simp add: compareDocumentVersions_def)
  show ?case
  proof (cases "ver best < ver e")
    case True
    obtain d before after where d: "max_document c e es = Inr d" "e # es = before @ d # after"
      "\<forall>x \<in> set before. ver x < ver d" "\<forall>x \<in> set after. ver x \<le> ver d"
      using Cons.IH[of e] Cons.prems by auto
    have "ver best < ver d"
    proof (cases before)
      case Nil
      then show ?thesis using True d(2) by simp
    next
      case (Cons x xs)
      then have "ver e < ver d" using d(2,3) by simp
      then show ?thesis using True by (rule less_trans[rotated])
    qed
    then have "\<forall>x \<in> set (best # before). ver x < ver d" using d(3) by simp
    moreover have "max_document c best (e # es) = Inr d" using True cmp d(1) by simp
    moreover have "best # e # es = (best # before) @ d # after" using d(2) by simp
    ultimately show ?thesis using d(4) by blast
  next
    case False
    obtain d before after where d: "max_document c best es = Inr d" "best # es = before @ d # after"
      "\<forall>x \<in> set before. ver x < ver d" "\<forall>x \<in> set after. ver x \<le> ver d"
      using Cons.IH[of best] Cons.prems by auto
    have le: "ver e \<le> ver best" using False by simp
    show ?thesis
    proof (cases before)
      case Nil
      then show ?thesis using False cmp d le
        by (intro exI[of _ d] exI[of _ "[]"] exI[of _ "e # after"]) simp
    next
      case (Cons x xs)
      then have "x = best" "es = xs @ d # after" using d(2) by simp_all
      then show ?thesis using False cmp d le Cons
        by (intro exI[of _ d] exI[of _ "best # e # xs"] exI[of _ after]) (auto intro: le_less_trans)
    qed
  qed
qed

text \<open>C28.  Reading one document takes the one of the greatest version, whatever the
  order the store lists them in, and the first one among equals; without a match it is an
  error, and options that ask for another operation or provider are refused before the
  store is asked.\<close>

theorem newest_version_read:
  assumes "st_read st search s = (Inr ds, s')" "\<forall>d \<in> set ds. value_as_string (st_codec st) d ''version'' = Inr (ver d)"
  shows "case require_options [''load''] (st_provider st) opts of
      Inl e \<Rightarrow> read_from st opts search s = (Inl e, s)
    | Inr _ \<Rightarrow> (if ds = [] then read_from st opts search s = (Inl Runtime_error, s')
        else \<exists>d before after. read_from st opts search s = (Inr d, s') \<and> ds = before @ d # after \<and>
          (\<forall>x \<in> set before. ver x < ver d) \<and> (\<forall>x \<in> set after. ver x \<le> ver d))"
proof (cases "require_options [''load''] (st_provider st) opts")
  case (Inl e)
  then show ?thesis by (simp add: read_from_def read_all_from_def checked_options_def thenM_run bindM_run liftE_run)
next
  case (Inr u)
  have run: "read_from st opts search s = (case ds of [] \<Rightarrow> (Inl Runtime_error, s') | d # ds \<Rightarrow> (max_document (st_codec st) d ds, s'))"
    using Inr assms(1)
    by (simp add: read_from_def read_all_from_def checked_options_def thenM_run bindM_run liftE_run throwM_run split: list.splits)
  show ?thesis
  proof (cases ds)
    case Nil
    then show ?thesis using Inr run by simp
  next
    case (Cons b es)
    obtain d before after where d: "max_document (st_codec st) b es = Inr d" "b # es = before @ d # after"
      "\<forall>x \<in> set before. ver x < ver d" "\<forall>x \<in> set after. ver x \<le> ver d"
      using max_document_run[of b es "st_codec st" ver] assms(2) Cons by blast
    have "read_from st opts search s = (Inr d, s')" using run d(1) unfolding Cons by simp
    moreover have "ds = before @ d # after" "ds \<noteq> []" using d(2) Cons by simp_all
    ultimately show ?thesis using Inr d(3,4) by (simp only: sum.case if_False) blast
  qed
qed

text \<open>A store of fixed answers.\<close>

definition demo_storage :: "jsondoc list \<Rightarrow> unit storage" where
  "demo_storage ds =
     \<lparr>st_provider = ''mongo'', st_codec = demo_codec, st_write = (\<lambda>_. retM []), st_read = (\<lambda>_. retM ds),
      st_configurations = (\<lambda>_. retM ds), st_composition = (\<lambda>_. retM ds), st_versions = (\<lambda>_. retM ds), st_entities = (\<lambda>_. retM ds),
      st_collections = (\<lambda>_. retM ds), st_databases = (\<lambda>_. retM ds), st_metadata = (\<lambda>_. retM ds), st_search = (\<lambda>_. retM ds)\<rparr>"

definition demo_version :: "string \<Rightarrow> jsondoc" where
  "demo_version v = doc_of (Obj [(''version'', Str v)])"

theorem newest_version_read_witness:
  "fst (read_from (demo_storage [demo_version ''v1'', demo_version ''v3'', demo_version ''v2''])
      (demo_options\<lparr>op_operation := ''load'', op_provider := ''mongo''\<rparr>) empty_doc ((), demo_world)) = Inr (demo_version ''v3'')"
proof -
  let ?ds = "[demo_version ''v1'', demo_version ''v3'', demo_version ''v2'']"
  let ?o = "demo_options\<lparr>op_operation := ''load'', op_provider := ''mongo''\<rparr>"
  let ?ver = "\<lambda>d. case value_as_string demo_codec d ''version'' of Inl _ \<Rightarrow> [] | Inr v \<Rightarrow> v"
  have run: "st_read (demo_storage ?ds) empty_doc ((), demo_world) = (Inr ?ds, ((), demo_world))"
    by (simp add: demo_storage_def retM_run)
  have v: "value_as_string demo_codec (demo_version ''v1'') ''version'' = Inr ''v1''"
    "value_as_string demo_codec (demo_version ''v2'') ''version'' = Inr ''v2''"
    "value_as_string demo_codec (demo_version ''v3'') ''version'' = Inr ''v3''" by code_simp+
  then have "\<forall>d \<in> set ?ds. value_as_string (st_codec (demo_storage ?ds)) d ''version'' = Inr (?ver d)"
    by (simp add: demo_storage_def)
  note read = newest_version_read[OF run this, of ?o]
  have "require_options [''load''] (st_provider (demo_storage ?ds)) ?o = Inr ()"
    by (simp add: require_options_def demo_storage_def getter_def)
  with read obtain d before after where d: "read_from (demo_storage ?ds) ?o empty_doc ((), demo_world) = (Inr d, ((), demo_world))"
    "?ds = before @ d # after" "\<forall>x \<in> set before. ?ver x < ?ver d" "\<forall>x \<in> set after. ?ver x \<le> ?ver d" by auto
  have cmp: "''v1'' < (''v3'' :: string)" "''v1'' < (''v2'' :: string)" "''v2'' < (''v3'' :: string)" by code_simp+
  have "d = demo_version ''v3''"
    using d(2-4) v cmp by (cases before; cases "tl before"; cases "tl (tl before)") (auto simp: Cons_eq_append_conv)
  then show ?thesis using d(1) by simp
qed

section \<open>Operations that cannot succeed\<close>

interpretation same_disk: run_relation "\<lambda>s t. fst s = fst t"
  by unfold_locales auto

text \<open>Refused: an error, and the disk stays as it is.\<close>

definition refused :: "('d, 'a) fdb \<Rightarrow> bool" where
  "refused m \<longleftrightarrow> (\<forall>s. \<exists>e t. m s = (Inl e, t) \<and> fst t = fst s)"

lemma refused_lifted: "refused (liftE (Inl e))"
  by (simp add: refused_def liftE_run)

lemma refused_bind:
  assumes "stays_in (\<lambda>s t. fst s = fst t) m" "\<And>s x t. m s = (Inr x, t) \<Longrightarrow> refused (f x)"
  shows "refused (bindM m f)"
  unfolding refused_def
proof
  fix s
  obtain r t where m: "m s = (r, t)" by (cases "m s")
  then have t: "fst t = fst s" using stays_inD[OF assms(1) m] by simp
  show "\<exists>e t. bindM m f s = (Inl e, t) \<and> fst t = fst s"
  proof (cases r)
    case (Inl e)
    then show ?thesis using m t by (simp add: bindM_run)
  next
    case (Inr x)
    then obtain e u where "f x t = (Inl e, u)" "fst u = fst t" using assms(2) m unfolding refused_def by blast
    then show ?thesis using Inr m t by (simp add: bindM_run)
  qed
qed

lemma refused_at_once: "refused m \<Longrightarrow> refused (bindM m f)"
  unfolding refused_def bindM_run
proof
  fix s
  assume "\<forall>s. \<exists>e t. m s = (Inl e, t) \<and> fst t = fst s"
  then obtain e t where "m s = (Inl e, t)" "fst t = fst s" by blast
  then show "\<exists>e t. (case m s of (Inl e, t) \<Rightarrow> (Inl e, t) | (Inr x, t) \<Rightarrow> f x t) = (Inl e, t) \<and> fst t = fst s" by simp
qed

lemma on_builder_disk: "stays_in (\<lambda>s t. fst s = fst t) (on_builder m d)"
  by (auto simp: stays_in_def on_builder_def split: prod.splits sum.splits)

lemma checked_refused: "refused m \<Longrightarrow> refused (checked_options st ops opts m)"
  unfolding checked_options_def thenM_def by (rule refused_bind[OF same_disk.lifted(1)])

lemma read_from_disk:
  assumes "\<And>q. stays_in (\<lambda>s t. fst s = fst t) (st_read st q)"
  shows "stays_in (\<lambda>s t. fst s = fst t) (read_from st opts search)"
  unfolding read_from_def read_all_from_def checked_options_def
  by (intro same_disk.combined assms) (simp add: same_disk.lifted split: list.splits)

lemma no_table: "c \<noteq> CHR ''{'' \<Longrightarrow> \<not> is_space c \<Longrightarrow> doc_of_string (boost_codec kd qd) (c # s) = Inl Invalid_argument"
  by (simp add: doc_of_string_def readJson_def boost_codec_def json_read_def json_parse_def p_bracketed_other)

lemma ucon_text_parenthesis: "ucon_update_text c collection s = (Inr t, s') \<Longrightarrow> \<exists>r. t = CHR ''('' # r"
  by (auto simp: ucon_update_text_def bindM_Inr retM_run)

lemma change_refused:
  assumes "\<And>q. stays_in (\<lambda>s t. fst s = fst t) (st_read st q)" "st_codec st = boost_codec kd qd"
    and "\<And>collection s t s'. print collection s = (Inr t, s') \<Longrightarrow> \<exists>r. t = CHR ''('' # r"
  shows "refused (change_configuration st env composition print operation change opts search)"
proof -
  have t: "\<exists>r. t = CHR ''('' # r"
    if "on_builder (thenM m (thenM n (print collection))) d s = (Inr (t, d'), s')" for m n collection d s t d' s'
    using that assms(3) by (auto simp: on_builder_def thenM_Inr split: prod.splits sum.splits)
  have refuse: "refused (liftE (doc_of_string (st_codec st) t))" if "\<exists>r. t = CHR ''('' # r" for t
    using that by (auto simp: assms(2) no_table is_space_def refused_lifted)
  show ?thesis unfolding change_configuration_def Let_def
    by (intro checked_refused refused_bind same_disk.lifted read_from_disk assms(1) on_builder_disk)
      (auto intro!: refused_at_once refuse dest: t)
qed

text \<open>Assigning a configuration to a document of a UconDB store, and removing one, never
  succeeds, whatever the document and the options: the update is printed with the
  delimiters of its string literal and cannot be read, so the operation ends with an error
  before anything is written.\<close>

theorem ucon_configurations_never_change:
  assumes "\<And>q. stays_in (\<lambda>s t. fst s = fst t) (st_read st q)" "st_codec st = boost_codec kd qd"
  shows "\<exists>e t. ucon_assignConfiguration st env opts search s = (Inl e, t) \<and> fst t = fst s \<and>
    (\<exists>e' t'. ucon_removeConfiguration st env opts search s = (Inl e', t') \<and> fst t' = fst s)"
proof -
  have "refused (ucon_assignConfiguration st env opts search)" "refused (ucon_removeConfiguration st env opts search)"
    unfolding ucon_assignConfiguration_def ucon_removeConfiguration_def assms(2)
    by (rule change_refused[OF assms], erule ucon_text_parenthesis)+
  then show ?thesis unfolding refused_def by metis
qed
theorem ucon_configurations_never_change_witness:
  "\<exists>e t. ucon_assignConfiguration (demo_storage [demo_version ''v1'']) demo_env
      (demo_options\<lparr>op_operation := ''addconfig'', op_provider := ''mongo''\<rparr>) empty_doc ((), demo_world) = (Inl e, t)"
proof -
  have "stays_in (\<lambda>s t. fst s = fst t) (st_read (demo_storage [demo_version ''v1'']) q)" for q
    by (simp add: demo_storage_def stays_in_def retM_run)
  moreover have "st_codec (demo_storage [demo_version ''v1'']) = boost_codec decimal_to_string no_doubles"
    by (simp add: demo_storage_def demo_codec_def)
  ultimately show ?thesis
    using ucon_configurations_never_change[of "demo_storage [demo_version ''v1'']"] by blast
qed

section \<open>Guards\<close>

text \<open>The operations that answer through a reference, with the operation their options have to name.\<close>

definition answering :: "'d client \<Rightarrow> (string \<times> (document_options \<Rightarrow> string \<Rightarrow> ('d, string) fdb)) list" where
  "answering cl =
     [(''findversions'', find_versions cl), (''findentities'', find_entities cl), (''findconfigs'', find_configurations cl),
      (''listdatabases'', list_databases cl), (''listcollections'', list_collections cl),
      (''buildfilter'', configuration_composition cl), (''readdbinfo'', read_dbinfo cl),
      (''addconfig'', assign_configuration cl), (''rmconfig'', remove_configuration cl),
      (''searchcollection'', search_collection cl), (''findcompositionscontaining'', find_compositions_containing cl),
      (''addentity'', add_entity cl), (''rmentity'', remove_entity cl),
      (''markreadonly'', mark_document_readonly cl), (''markdeleted'', mark_document_deleted cl)]"

lemma begin_refuses:
  assumes "op_operation opts \<noteq> operation \<or> out \<noteq> [] \<or> op_provider opts \<notin> {''filesystem'', ''mongo'', ''ucon''}"
  shows "\<exists>e. begin_operation [operation] opts out s = (Inl e, s) \<and> e \<in> {Runtime_exception, Runtime_error}"
proof -
  have p: "\<exists>e. validate_dbprovider_name p = Inl e \<and> e \<in> {Runtime_exception, Runtime_error}" if "p \<notin> {''filesystem'', ''mongo'', ''ucon''}" for p
    using that by (simp add: validate_dbprovider_name_def valid_provider_def not_equal_def string_equal_def)
  show ?thesis
    using assms p[of "op_provider opts"]
    by (auto simp: begin_operation_def thenM_run bindM_run confirm_run liftE_run getter_def validate_dbprovider_name_def)
qed

definition demo_client :: "unit client" where
  "demo_client =
     (let be = mongo_backend (demo_storage []) demo_env in
      \<lparr>cl_codec = demo_codec, cl_env = demo_env, cl_mongo = be, cl_filesystem = be, cl_ucon = be, cl_fhicl_to_ast = None,
       cl_write_fhicl = (\<lambda>_. Inr None), cl_xml_to_json = (\<lambda>_. Inr None), cl_json_to_xml = (\<lambda>_. Inr None),
       cl_write_xml = (\<lambda>_. Inr None), cl_diagnostic = (\<lambda>_. ''failed'')\<rparr>)"


text \<open>Searching for the compositions that contain a document with a request in JSON
  always fails: the request is taken for the name of the process and never read, so the
  options keep the operation \<open>load\<close>, which the search refuses.  The store is not touched.\<close>

theorem compositions_request_never_read:
  "json_find_compositions_containing cl payload s = (Inr (Failure (cl_diagnostic cl Runtime_exception)), s)"
proof -
  let ?o = "new_document_options (cl_env cl) payload"
  have "op_operation ?o = ''load''"
    by (simp add: new_document_options_def new_operation_base_def operation_base.extend_def)
  then have "find_compositions_containing cl ?o [] s = (Inl Runtime_exception, s)"
    by (simp add: find_compositions_containing_def Let_def thenM_run bindM_run confirm_run liftE_run getter_def)
  then show ?thesis
    by (simp add: json_find_compositions_containing_def opts_find_compositions_containing_def as_result_def bindM_run thenM_run
        confirm_run retM_run Failure_def Success_def)
qed

end
