(* ===== verification/FacadeLaws.thy ===== *)
theory FacadeLaws
  imports Facade OperationLaws
begin

text \<open>
  Compositions through the C++ interface: the difference that is assigned is exact, storing asks
  before it assigns, and where the version with several threads departs from it.
\<close>

section \<open>Differences of compositions\<close>

lemma new_map_run:
  assumes "distinct (map makeMembershipKey ms)"
  shows "new_map ms (makeMembershipKey m) = Some (vi_version m) \<longleftrightarrow> m \<in> set ms"
proof -
  have d: "distinct (map fst (rev (map (\<lambda>m. (makeMembershipKey m, vi_version m)) ms)))"
    using assms by (simp add: comp_def rev_map[symmetric])
  have "new_map ms (makeMembershipKey m) = Some (vi_version m) \<longleftrightarrow>
      (makeMembershipKey m, vi_version m) \<in> set (rev (map (\<lambda>m. (makeMembershipKey m, vi_version m)) ms))"
    unfolding new_map_def using d by (rule map_of_eq_Some_iff)
  also have "\<dots> \<longleftrightarrow> m \<in> set ms"
  proof
    assume "(makeMembershipKey m, vi_version m) \<in> set (rev (map (\<lambda>m. (makeMembershipKey m, vi_version m)) ms))"
    then obtain m' where m': "m' \<in> set ms" "makeMembershipKey m' = makeMembershipKey m" "vi_version m' = vi_version m" by auto
    have "m' = m" by (rule version_info.equality) (use m'(2,3) in \<open>simp_all add: makeMembershipKey_def\<close>)
    then show "m \<in> set ms" using m'(1) by simp
  qed auto
  finally show ?thesis .
qed

text \<open>C33.  The difference of two compositions is exact.  Whatever the stored composition, and for a new one that
  names no collection and entity twice: unassigned are the stored members that are not in the new composition,
  assigned the new members that are not stored, each in their order, so that taking away the ones and adding the others
  turns the stored composition into the new one, and members in both are left alone.\<close>

theorem composition_diff_exact:
  assumes "distinct (map makeMembershipKey new_members)"
  shows "to_unassign (computeCompositionDiff old_members new_members) = filter (\<lambda>m. m \<notin> set new_members) old_members \<and>
    to_assign (computeCompositionDiff old_members new_members) = filter (\<lambda>m. m \<notin> set old_members) new_members \<and>
    set (unchanged (computeCompositionDiff old_members new_members)) = makeMembershipKey ` (set old_members \<inter> set new_members) \<and>
    (set old_members - set (to_unassign (computeCompositionDiff old_members new_members))) \<union>
      set (to_assign (computeCompositionDiff old_members new_members)) = set new_members"
proof -
  let ?d = "computeCompositionDiff old_members new_members"
  have keeps: "new_map new_members (makeMembershipKey m) = Some (vi_version m) \<longleftrightarrow> m \<in> set new_members" for m
    using new_map_run[OF assms] .
  have u: "to_unassign ?d = filter (\<lambda>m. m \<notin> set new_members) old_members"
    by (simp add: computeCompositionDiff_def Let_def keeps)
  have same: "makeMembershipKey m \<in> set (map makeMembershipKey (filter (\<lambda>m. m \<in> set new_members) old_members)) \<longleftrightarrow> m \<in> set old_members"
    if m: "m \<in> set new_members" for m
  proof
    assume "makeMembershipKey m \<in> set (map makeMembershipKey (filter (\<lambda>m. m \<in> set new_members) old_members))"
    then obtain m' where m': "m' \<in> set old_members" "m' \<in> set new_members" "makeMembershipKey m' = makeMembershipKey m" by auto
    then have "m' = m" using assms m by (auto simp: distinct_map dest: inj_onD)
    then show "m \<in> set old_members" using m'(1) by simp
  qed (use m in auto)
  have a: "to_assign ?d = filter (\<lambda>m. m \<notin> set old_members) new_members"
    using same by (simp add: computeCompositionDiff_def Let_def keeps cong: filter_cong)
  have "set (unchanged ?d) = makeMembershipKey ` (set old_members \<inter> set new_members)"
    by (auto simp: computeCompositionDiff_def Let_def keeps)
  then show ?thesis using u a by auto
qed

definition demo_member :: "string \<Rightarrow> string \<Rightarrow> version_info" where
  "demo_member entity version = \<lparr>vi_configuration = ''c'', vi_version = version, vi_entity = entity\<rparr>"

theorem composition_diff_exact_witness:
  "to_assign (computeCompositionDiff [demo_member ''a'' ''v1'', demo_member ''b'' ''v1''] [demo_member ''a'' ''v2'', demo_member ''b'' ''v1''])
    = [demo_member ''a'' ''v2'']"
proof -
  have "distinct (map makeMembershipKey [demo_member ''a'' ''v2'', demo_member ''b'' ''v1''])" by code_simp
  from composition_diff_exact[OF this, of "[demo_member ''a'' ''v1'', demo_member ''b'' ''v1'']"]
  show ?thesis by (simp add: demo_member_def)
qed

text \<open>When the new composition names a collection and entity twice, the last version counts, and the other one is
  never assigned if the last one is stored.\<close>

lemma repeated_member_lost:
  "to_assign (computeCompositionDiff [demo_member ''a'' ''v2''] [demo_member ''a'' ''v1'', demo_member ''a'' ''v2'']) = []"
  by code_simp

section \<open>Storing compositions\<close>

text \<open>C34.  Storing a composition asks first.  When the search for its name succeeds, then: an
  existing one that may not be overwritten is refused; one that is stored with the same members is
  left alone, without any operation; and a new one is created from all its members.  Nothing else has touched the store.\<close>

theorem storing_composition_asks_first:
  assumes "findGlobalConfigurations fa configuration s = (Inr names, s1)" "members \<noteq> []" "configuration \<noteq> []"
  shows "(configuration \<in> set names \<and> \<not> allowOverwrite \<longrightarrow>
      storeGlobalConfiguration fa members configuration allowOverwrite s =
        (Inr (False, make_error_msg (fa_what fa Runtime_exception)), s1)) \<and>
    (configuration \<in> set names \<and> allowOverwrite \<and> loadGlobalConfiguration fa configuration s1 = (Inr old, s2) \<and>
        set old = set members \<and> distinct (map makeMembershipKey members) \<longrightarrow>
      storeGlobalConfiguration fa members configuration allowOverwrite s = (Inr (True, ''Success''), s2)) \<and>
    (configuration \<notin> set names \<longrightarrow>
      storeGlobalConfiguration fa members configuration allowOverwrite s =
        or_failure (\<lambda>e. make_error_msg (fa_what fa e))
          (bindM (liftE (assign_payload (cl_codec (fa_client fa)) configuration members)) (\<lambda>buffer.
             require_success (json_create_configuration (fa_client fa) buffer))) s1)"
proof -
  have ex: "composition_exists fa configuration allowOverwrite s =
      (if configuration \<in> set names \<and> \<not> allowOverwrite then (Inl Runtime_exception, s1) else (Inr (configuration \<in> set names), s1))"
    using assms(1) by (simp add: composition_exists_def catchM_run bindM_run throwM_run retM_run)
  have same: "to_unassign (computeCompositionDiff old members) = [] \<and> to_assign (computeCompositionDiff old members) = []"
    if "set old = set members" "distinct (map makeMembershipKey members)" for old
    using composition_diff_exact[OF that(2), of old] that(1) by (auto simp: filter_empty_conv)
  have none: "to_unassign (computeCompositionDiff [] members) = []" by (simp add: computeCompositionDiff_def)
  show ?thesis
    using assms(2,3) ex same none
    by (auto simp: storeGlobalConfiguration_def Let_def or_failure_def bindM_run thenM_run throwM_run retM_run catchM_run)
qed

text \<open>The version with several threads does not ask that way: when the search for the name fails, the version with one
  thread ends with a failure, while the other one goes on and assigns all members, to whatever is
  stored under that name, also when that may not be overwritten.\<close>

theorem failed_search_overlooked:
  assumes "findGlobalConfigurations fa configuration s = (Inl e, s1)" "any_exn e" "members \<noteq> []" "configuration \<noteq> []"
  shows "storeGlobalConfiguration_mt fa order members configuration overwrite s =
      or_waits (map_option (or_failure (\<lambda>e. make_error_msg (fa_what fa e))) (assign_in_parallel fa order configuration members)) s1 \<and>
    storeGlobalConfiguration fa members configuration overwrite s = (Inr (False, make_error_msg (fa_what fa Runtime_exception)), s1)"
proof -
  have "e = Runtime_exception"
    using assms(1,2) by (auto simp: findGlobalConfigurations_def rethrown_def catchM_run throwM_run split: prod.splits sum.splits if_splits)
  moreover have "existing_members fa configuration s = (Inr (False, []), s1)"
    using assms(1,2) by (simp add: existing_members_def catchM_run bindM_run retM_run)
  ultimately show ?thesis
    using assms by (simp add: storeGlobalConfiguration_mt_def storeGlobalConfiguration_def composition_exists_def Let_def or_failure_def
        catchM_run bindM_run)
qed

text \<open>With one core the version with several threads never returns: as soon as valid members are to be
  assigned, it waits for ever.\<close>

theorem parallel_store_needs_cores:
  assumes "fa_cores fa < 2" "list_all valid_member members" "members \<noteq> []" "configuration \<noteq> []"
    and "findGlobalConfigurations fa configuration s = (Inr names, s1)" "configuration \<notin> set names"
  shows "storeGlobalConfiguration_mt fa order members configuration overwrite s = None"
proof -
  have "existing_members fa configuration s = (Inr (False, []), s1)"
    using assms(5,6) by (simp add: existing_members_def catchM_run bindM_run retM_run)
  moreover have "worker_threads fa members = 0" using assms(1) by (simp add: worker_threads_def new_tasker_def)
  ultimately show ?thesis
    using assms(2-4) by (simp add: storeGlobalConfiguration_mt_def assign_in_parallel_def or_waits_def)
qed

text \<open>An interface to a store without documents, on a machine with one core.\<close>

definition demo_facade :: "unit facade" where
  "demo_facade =
     \<lparr>fa_client = demo_client\<lparr>cl_filesystem := mongo_backend ((demo_storage [])\<lparr>st_provider := ''filesystem''\<rparr>) demo_env\<rparr>,
      fa_what = (\<lambda>_. ''failed''), fa_cores = 1\<rparr>"

lemma demo_search: "case findGlobalConfigurations demo_facade ''g'' ((), demo_world) of (Inl e, t) \<Rightarrow> False | (Inr ns, t) \<Rightarrow> ns = []"
  by code_simp

theorem storing_composition_asks_first_witness:
  "\<exists>s1. findGlobalConfigurations demo_facade ''g'' ((), demo_world) = (Inr [], s1) \<and>
    storeGlobalConfiguration demo_facade [demo_member ''a'' ''v1''] ''g'' False ((), demo_world) =
      or_failure (\<lambda>e. make_error_msg ''failed'')
        (bindM (liftE (assign_payload (cl_codec (fa_client demo_facade)) ''g'' [demo_member ''a'' ''v1''])) (\<lambda>buffer.
           require_success (json_create_configuration (fa_client demo_facade) buffer))) s1"
proof -
  obtain s1 where s1: "findGlobalConfigurations demo_facade ''g'' ((), demo_world) = (Inr [], s1)"
    using demo_search by (cases "findGlobalConfigurations demo_facade ''g'' ((), demo_world)") (auto split: sum.splits)
  have "fa_what demo_facade = (\<lambda>_. ''failed'')" by (simp add: demo_facade_def)
  then show ?thesis
    using s1 storing_composition_asks_first[OF s1, of "[demo_member ''a'' ''v1'']" False "[]" s1] by simp
qed

theorem failed_search_overlooked_witness:
  "\<exists>s1. storeGlobalConfiguration (demo_facade\<lparr>fa_client := demo_client\<rparr>) [demo_member ''a'' ''v1''] ''g'' True ((), demo_world) =
    (Inr (False, make_error_msg ''failed''), s1)"
proof -
  let ?fa = "demo_facade\<lparr>fa_client := demo_client\<rparr>"
  have "case findGlobalConfigurations ?fa ''g'' ((), demo_world) of (Inl e, t) \<Rightarrow> e = Runtime_exception | (Inr ns, t) \<Rightarrow> False"
    by code_simp
  then obtain s1 where s1: "findGlobalConfigurations ?fa ''g'' ((), demo_world) = (Inl Runtime_exception, s1)"
    by (cases "findGlobalConfigurations ?fa ''g'' ((), demo_world)") (auto split: sum.splits)
  have "fa_what ?fa = (\<lambda>_. ''failed'')" by (simp add: demo_facade_def)
  then show ?thesis
    using failed_search_overlooked[OF s1, of "[demo_member ''a'' ''v1'']" "\<lambda>n. [0..<n]" True] by (intro exI[of _ s1]) simp
qed

theorem parallel_store_needs_cores_witness:
  "storeGlobalConfiguration_mt demo_facade (\<lambda>n. [0..<n]) [demo_member ''a'' ''v1''] ''g'' False ((), demo_world) = None"
proof -
  obtain s1 where s1: "findGlobalConfigurations demo_facade ''g'' ((), demo_world) = (Inr [], s1)"
    using demo_search by (cases "findGlobalConfigurations demo_facade ''g'' ((), demo_world)") (auto split: sum.splits)
  have "fa_cores demo_facade < 2" "list_all valid_member [demo_member ''a'' ''v1'']"
    by (simp_all add: demo_facade_def valid_member_def validate_def demo_member_def)
  then show ?thesis using parallel_store_needs_cores[OF _ _ _ _ s1] by simp
qed

end
