(* ===== verification/ExportImport.thy ===== *)
theory ExportImport
  imports Operations
begin

text \<open>
  Export and import: ConfigurationDB/dboperation\_exportimport.cpp, detail\_exportimport.cpp, and
  the file functions of SharedCommon/fileststem\_functions.cpp they rest on.  The shell is a
  parameter, handed the command lines the code hands to \<open>system\<close>.
\<close>

section \<open>The shell and the file functions\<close>

text \<open>
  \<open>ho_available\<close> is \<open>system(nullptr)\<close>, \<open>ho_system\<close> answers with the exit status, \<open>ho_time\<close> is
  \<open>time\<close> in seconds and \<open>ho_rand\<close> the first number after seeding with it.  \<open>ho_depth\<close> bounds how
  deep \<open>list_files\<close> may call itself.
\<close>

record 'd host =
  ho_files :: "'d files"
  ho_available :: bool
  ho_system :: "string \<Rightarrow> 'd \<Rightarrow> int \<times> 'd"
  ho_time :: "'d \<Rightarrow> nat"
  ho_rand :: "nat \<Rightarrow> nat"
  ho_depth :: nat

definition run_command :: "'d host \<Rightarrow> string \<Rightarrow> ('d, int) prog" where
  "run_command h command = (\<lambda>d. case ho_system h command d of (status, d') \<Rightarrow> (Inr status, d'))"

text \<open>\<open>basename\<close> and \<open>dirname\<close> of libgen.h.\<close>

definition strip_slashes :: "string \<Rightarrow> string" where
  "strip_slashes p = rev (dropWhile (\<lambda>c. c = CHR ''/'') (rev p))"

definition basename :: "string \<Rightarrow> string" where
  "basename p =
     (if p = [] then ''.''
      else if strip_slashes p = [] then ''/''
      else rev (takeWhile (\<lambda>c. c \<noteq> CHR ''/'') (rev (strip_slashes p))))"

definition dirname :: "string \<Rightarrow> string" where
  "dirname p =
     (let s = strip_slashes p; parent = rev (dropWhile (\<lambda>c. c \<noteq> CHR ''/'') (rev s)) in
      if p \<noteq> [] \<and> s = [] then ''/''
      else if parent = [] then ''.''
      else if strip_slashes parent = [] then ''/''
      else strip_slashes parent)"

text \<open>A directory that cannot be listed raises the library's own error.\<close>

fun list_files :: "'d host \<Rightarrow> nat \<Rightarrow> string \<Rightarrow> ('d, string list) prog" where
  "list_files h 0 path = throwM Undefined"
| "list_files h (Suc n) path =
     (let fs = ho_files h in
      thenM (confirm (path \<noteq> []))
      (bindM getM (\<lambda>d.
        if \<not> f_exists fs path d \<or> \<not> f_is_directory fs path d then throwM Logic_error
        else bindM (forR (f_entries fs path d) (\<lambda>entry.
               if f_is_regular fs entry d then retM [entry]
               else if f_is_directory fs entry d then list_files h n entry
               else retM []))
             (\<lambda>files. retM (concat files)))))"

definition collection_name_from_relative_path :: "string \<Rightarrow> string" where
  "collection_name_from_relative_path file_path =
     (let names = [basename (dirname file_path), basename file_path] in
      butlast (concat (map (\<lambda>name. name @ ''.'') names)))"

text \<open>Every dot before the character in front of the last dot becomes a slash.  With the dot at the
  very beginning that range ends before it begins, and \<open>std::replace\<close> runs out of the string.\<close>

definition relative_path_from_collection_name :: "string \<Rightarrow> exn + string" where
  "relative_path_from_collection_name name =
     (if name = [] then Inl Runtime_exception
      else if CHR ''.'' \<notin> set name then Inr name
      else let pos = length name - 1 - length (takeWhile (\<lambda>c. c \<noteq> CHR ''.'') (rev name)) in
        if pos = 0 then Inl Undefined
        else Inr (map (\<lambda>c. if c = CHR ''.'' then CHR ''/'' else c) (take (pos - 1) name) @ drop (pos - 1) name))"

definition mkdir_path :: "'d host \<Rightarrow> string \<Rightarrow> ('d, bool) prog" where
  "mkdir_path h path =
     thenM (confirm (path \<noteq> [])) (bindM (run_command h (''mkdir -p '' @ path)) (\<lambda>status. retM (status = 0)))"

definition mkdirfile :: "'d host \<Rightarrow> string \<Rightarrow> ('d, bool) prog" where
  "mkdirfile h file = thenM (confirm (file \<noteq> [])) (mkdir_path h (dirname file))"

definition tmpdirprefix :: string where
  "tmpdirprefix = ''/tmp/adb''"

definition dbexport_extension :: string where
  "dbexport_extension = ''.tar-bzip2-base64''"

definition make_temp_dir :: "'d host \<Rightarrow> ('d, string) prog" where
  "make_temp_dir h =
     bindM getM (\<lambda>d.
       let name = tmpdirprefix @ nat_digits (ho_rand h (ho_time h d) mod 9000000 + 1000000) in
       bindM (run_command h (''mkdir -p '' @ name)) (\<lambda>status.
         if status \<noteq> 0 then throwM Runtime_error else retM name))"

text \<open>\<open>std::equal\<close> with the range of the prefix: it stops at a difference, and reads past the end of
  a name that is shorter and has none.\<close>

fun equal_range :: "string \<Rightarrow> string \<Rightarrow> exn + bool" where
  "equal_range [] s = Inr True"
| "equal_range (p # ps) [] = Inl Undefined"
| "equal_range (p # ps) (c # s) = (if p = c then equal_range ps s else Inr False)"

definition delete_temp_dir :: "'d host \<Rightarrow> string \<Rightarrow> ('d, unit) prog" where
  "delete_temp_dir h name =
     thenM (confirm (name \<noteq> []))
     (thenM (bindM (liftE (equal_range tmpdirprefix name)) confirm)
     (bindM (run_command h (''rm -rf '' @ name)) (\<lambda>status.
       if status \<noteq> 0 then throwM Runtime_error else retM ())))"

definition pack_command :: "string \<Rightarrow> string \<Rightarrow> string" where
  "pack_command dir archive =
     ''tar cjf - '' @ dir @ ''/* -C '' @ dir @ '' 2>/dev/null'' @ ''|base64 --wrap=0 > '' @ archive"

definition unpack_command :: "string \<Rightarrow> string \<Rightarrow> string" where
  "unpack_command archive dir = ''cat '' @ archive @ '' |base64 -d |tar xjf - -C '' @ dir"

definition dir_to_tarbzip2base64 :: "'d host \<Rightarrow> string \<Rightarrow> string \<Rightarrow> ('d, string) prog" where
  "dir_to_tarbzip2base64 h dir archive =
     thenM (confirm (dir \<noteq> []))
     (thenM (confirm (archive \<noteq> []))
     (bindM (mkdirfile h archive) (\<lambda>made.
       if \<not> made then throwM Runtime_error
       else bindM (run_command h (pack_command dir archive)) (\<lambda>status.
         if status \<noteq> 0 then throwM Runtime_error else retM archive))))"

definition tarbzip2base64_to_dir :: "'d host \<Rightarrow> string \<Rightarrow> string \<Rightarrow> ('d, string) prog" where
  "tarbzip2base64_to_dir h archive dir =
     thenM (confirm (archive \<noteq> []))
     (thenM (confirm (dir \<noteq> []))
     (bindM (mkdir_path h dir) (\<lambda>made.
       if \<not> made then throwM Runtime_error
       else bindM (run_command h (unpack_command archive dir)) (\<lambda>status.
         if status \<noteq> 0 then throwM Runtime_error else retM dir))))"

text \<open>The extension is what the stem leaves of the file name.\<close>

definition extract_collectionname_from_filename :: "'d files \<Rightarrow> string \<Rightarrow> exn + string option" where
  "extract_collectionname_from_filename fs file_name =
     (if file_name = [] then Inl Runtime_exception
      else if drop (length (f_stem fs file_name)) (f_filename fs file_name) \<noteq> dbexport_extension then Inr None
      else Inr (Some (f_stem fs file_name)))"

section \<open>Results\<close>

text \<open>\<open>noexcept\<close> operations that answer with a result of their own.\<close>

definition noexcept :: "'d client \<Rightarrow> ('d, result_t) fdb \<Rightarrow> ('d, result_t) fdb" where
  "noexcept cl m =
     (\<lambda>s. case m s of (Inr r, s') \<Rightarrow> (Inr r, s')
        | (Inl e, s') \<Rightarrow> (if any_exn e then Inr (Failure (cl_diagnostic cl e)) else Inl e, s'))"

definition error_msg :: "string \<Rightarrow> string" where
  "error_msg msg = ''{'' @ quoted ''error'' @ '':'' @ dquote # msg @ dquote # ''}''"

definition msg_SystemCallFailed :: string where
  "msg_SystemCallFailed =
     ''{'' @ json_pair ''message'' (''Unable to call system() from this API; check if either set-user-ID or set-group-ID check if either '' @
       ''set-user-ID or set-group-ID '') @ ''}''"

text \<open>The list of file names: \<open>seekp(-1)\<close> makes the bracket overwrite the last comma.\<close>

definition name_list :: "string \<Rightarrow> string \<Rightarrow> string" where
  "name_list key names = butlast (''{'' @ quoted key @ '':['' @ names) @ '']}''"

definition one_name :: "string \<Rightarrow> string \<Rightarrow> string" where
  "one_name key name = ''{'' @ quoted key @ '':['' @ quoted name @ '']}''"

text \<open>What the operations on a request share: an empty request or a missing shell is a failure, the
  request is read into fresh options, and its operation is confirmed.\<close>

definition shell_request ::
  "'d client \<Rightarrow> 'd host \<Rightarrow> string \<Rightarrow> string \<Rightarrow> (document_options \<Rightarrow> ('d, result_t) fdb) \<Rightarrow> ('d, result_t) fdb" where
  "shell_request cl h operation payload f =
     noexcept cl
       (if payload = [] then retM (Failure msg_EmptyFilter)
        else if \<not> ho_available h then retM (Failure msg_SystemCallFailed)
        else bindM (liftE (with_options [readJsonData (cl_env cl) (cl_codec cl) payload] (new_document_options (cl_env cl) operation)))
          (\<lambda>opts. thenM (bindM (liftE (getter (op_operation opts))) (\<lambda>op. confirm (op = operation))) (f opts)))"

text \<open>The operations on options write them as a request.\<close>

definition by_request :: "'d client \<Rightarrow> (string \<Rightarrow> ('d, result_t) fdb) \<Rightarrow> document_options \<Rightarrow> ('d, result_t) fdb" where
  "by_request cl f opts = noexcept cl (bindM (liftE (writeJsonData (cl_codec cl) opts)) f)"

definition changed_options :: "document_options \<Rightarrow> string \<Rightarrow> data_format_t \<Rightarrow> exn + document_options" where
  "changed_options opts operation format = with_options [ignoring (set_operation operation), ignoring (set_format format)] opts"

section \<open>Collections\<close>

text \<open>One file per document, named after its identifier.\<close>

definition export_document :: "'d client \<Rightarrow> 'd host \<Rightarrow> string \<Rightarrow> jsondoc \<Rightarrow> ('d, unit) fdb" where
  "export_document cl h dir document =
     bindM (on_builder (thenM (new_builder document) (bindM recordM (\<lambda>v. liftE (getObjectOUID v)))) empty_doc) (\<lambda>(ouid, _).
     bindM (liftE (doc_text (cl_codec cl) document)) (\<lambda>text.
     bindM (on_files (write_buffer_to_file (ho_files h) text (dir @ ''/'' @ ouid @ ''.json''))) (\<lambda>written.
       if \<not> written then throwM Runtime_error else retM ())))"

definition json_export_collection :: "'d client \<Rightarrow> 'd host \<Rightarrow> string \<Rightarrow> ('d, result_t) fdb" where
  "json_export_collection cl h payload =
     shell_request cl h ''exportcollection'' payload (\<lambda>opts0.
       bindM (liftE (changed_options opts0 ''load'' Format_db)) (\<lambda>opts.
       bindM (read_documents cl opts []) (\<lambda>document_list.
       bindM (liftE (getter (op_collection opts))) (\<lambda>collection.
         if document_list = [] then retM (Failure (error_msg (collection @ '' is empty.'')))
         else
           bindM (on_files (make_temp_dir h)) (\<lambda>tmp.
           thenM (forM document_list (export_document cl h (tmp @ ''/'' @ collection)))
           (bindM (liftE (getter (opt_source opts))) (\<lambda>source.
            bindM (on_files (dir_to_tarbzip2base64 h tmp source)) (\<lambda>archive.
            thenM (on_files (delete_temp_dir h tmp))
              (retM (Success (one_name ''result'' archive)))))))))))"

definition opts_export_collection :: "'d client \<Rightarrow> 'd host \<Rightarrow> document_options \<Rightarrow> ('d, result_t) fdb" where
  "opts_export_collection cl h = by_request cl (json_export_collection cl h)"

definition import_document :: "'d client \<Rightarrow> 'd host \<Rightarrow> string \<Rightarrow> ('d, jsondoc) fdb" where
  "import_document cl h file =
     bindM (on_files (read_buffer_from_file (ho_files h) file)) (\<lambda>buffer.
     bindM (liftE (doc_of_string (cl_codec cl) buffer)) (\<lambda>doc.
     bindM (on_builder (thenM (new_builder doc) bld_extract) empty_doc) (\<lambda>(document, _). retM document)))"

text \<open>A file that cannot be read is an exception, so the list of files that failed stays empty.\<close>

definition json_import_collection :: "'d client \<Rightarrow> 'd host \<Rightarrow> string \<Rightarrow> ('d, result_t) fdb" where
  "json_import_collection cl h payload =
     shell_request cl h ''importcollection'' payload (\<lambda>opts0.
       bindM (liftE (changed_options opts0 ''store'' Format_db)) (\<lambda>opts.
       bindM (on_files (make_temp_dir h)) (\<lambda>tmp.
       bindM (liftE (getter (opt_source opts))) (\<lambda>source.
       bindM (on_files (tarbzip2base64_to_dir h source tmp)) (\<lambda>_.
       bindM (on_files (list_files h (ho_depth h) tmp)) (\<lambda>files.
       bindM (forR files (import_document cl h)) (\<lambda>document_list.
       thenM (on_files (delete_temp_dir h tmp))
         (if document_list = [] then
            bindM (liftE (getter (op_collection opts))) (\<lambda>collection. retM (Failure (error_msg (collection @ '' is empty.''))))
          else thenM (write_documents cl opts document_list)
            (retM (Success (one_name ''source'' source)))))))))))"

definition opts_import_collection :: "'d client \<Rightarrow> 'd host \<Rightarrow> document_options \<Rightarrow> ('d, result_t) fdb" where
  "opts_import_collection cl h = by_request cl (json_import_collection cl h)"

section \<open>Databases\<close>

text \<open>One step of the loops: the options move on to the collection and its file, the operation runs,
  and a failure adds its text to the errors.\<close>

definition bulk_step ::
  "(document_options \<Rightarrow> ('d, result_t) fdb) \<Rightarrow> string \<Rightarrow> string \<Rightarrow> document_options \<Rightarrow>
    ('d, document_options \<times> string \<times> string) fdb" where
  "bulk_step operation dir collection opts0 =
     bindM (liftE (with_options [ignoring (set_collection collection),
         ignoring (set_sourceFileName (dir @ ''/'' @ collection @ dbexport_extension))] opts0)) (\<lambda>opts.
     bindM (operation opts) (\<lambda>result.
     bindM (liftE (getter (opt_source opts))) (\<lambda>source.
       retM (opts, quoted source @ '','', if fst result then [] else snd result @ '', ''))))"

fun bulk_loop ::
  "(document_options \<Rightarrow> ('d, result_t) fdb) \<Rightarrow> string \<Rightarrow> (string \<Rightarrow> exn + string option) \<Rightarrow> string list \<Rightarrow>
    document_options \<Rightarrow> ('d, string \<times> string) fdb" where
  "bulk_loop operation dir name [] opts = retM ([], [])"
| "bulk_loop operation dir name (x # xs) opts =
     bindM (liftE (name x)) (\<lambda>found. case found of
       None \<Rightarrow> bulk_loop operation dir name xs opts
     | Some collection \<Rightarrow>
         bindM (bulk_step operation dir collection opts) (\<lambda>(opts', file, error).
         bindM (bulk_loop operation dir name xs opts') (\<lambda>(files, errors). retM (file @ files, error @ errors))))"

definition bulk_result :: "string \<Rightarrow> string \<times> string \<Rightarrow> result_t" where
  "bulk_result key = (\<lambda>(names, errors). if errors \<noteq> [] then Failure errors else Success (name_list key names))"

definition collections_of :: "string \<Rightarrow> string list" where
  "collections_of names = sort (words_from [] (map (\<lambda>c. if c = CHR '','' then CHR '' '' else c) names))"

definition json_export_database :: "'d client \<Rightarrow> 'd host \<Rightarrow> string \<Rightarrow> ('d, result_t) fdb" where
  "json_export_database cl h payload =
     shell_request cl h ''exportdatabase'' payload (\<lambda>opts0.
       bindM (liftE (with_options [ignoring (set_format Format_csv), ignoring (set_operation ''listcollections'')] opts0)) (\<lambda>opts1.
       bindM (opts_list_collections cl opts1) (\<lambda>result.
         if \<not> fst result then retM (Failure (snd result))
         else
           bindM (liftE (changed_options opts1 ''exportcollection'' Format_db)) (\<lambda>opts.
           bindM (liftE (getter (opt_source opts))) (\<lambda>dir.
           bindM (bulk_loop (opts_export_collection cl h) dir (\<lambda>name. Inr (Some name)) (collections_of (snd result)) opts) (\<lambda>out.
             retM (bulk_result ''result'' out)))))))"

definition opts_export_database :: "'d client \<Rightarrow> 'd host \<Rightarrow> document_options \<Rightarrow> ('d, result_t) fdb" where
  "opts_export_database cl h = by_request cl (json_export_database cl h)"

definition json_import_database :: "'d client \<Rightarrow> 'd host \<Rightarrow> string \<Rightarrow> ('d, result_t) fdb" where
  "json_import_database cl h payload =
     shell_request cl h ''importdatabase'' payload (\<lambda>opts0.
       bindM (liftE (changed_options opts0 ''importcollection'' Format_db)) (\<lambda>opts.
       bindM (liftE (getter (opt_source opts))) (\<lambda>dir.
       bindM (on_files (list_files h (ho_depth h) dir)) (\<lambda>files.
       bindM (bulk_loop (opts_import_collection cl h) dir (extract_collectionname_from_filename (ho_files h)) files opts) (\<lambda>out.
         retM (bulk_result ''source'' out))))))"

definition opts_import_database :: "'d client \<Rightarrow> 'd host \<Rightarrow> document_options \<Rightarrow> ('d, result_t) fdb" where
  "opts_import_database cl h = by_request cl (json_import_database cl h)"

section \<open>Configurations\<close>

text \<open>\<open>detail::read_document_file\<close> and \<open>write_document_file\<close> answer with a failure for every exception.\<close>

definition read_document_file :: "'d client \<Rightarrow> 'd host \<Rightarrow> document_options \<Rightarrow> string \<Rightarrow> ('d, result_t) fdb" where
  "read_document_file cl h opts file_out_name =
     noexcept cl
       (thenM (confirm (file_out_name \<noteq> []))
       (bindM (read_document cl opts []) (\<lambda>test_document.
        bindM (on_files (write_buffer_to_file (ho_files h) test_document file_out_name)) (\<lambda>written.
          retM (if written then Success msg_Success else Failure msg_Failure)))))"

definition write_document_file :: "'d client \<Rightarrow> 'd host \<Rightarrow> document_options \<Rightarrow> string \<Rightarrow> ('d, result_t) fdb" where
  "write_document_file cl h opts file_src_name =
     noexcept cl
       (thenM (confirm (file_src_name \<noteq> []))
       (bindM (on_files (read_buffer_from_file (ho_files h) file_src_name)) (\<lambda>test_document.
        bindM (write_document cl opts test_document) (\<lambda>_. retM (Success msg_Success)))))"

text \<open>The format a file is written in; the extension is searched for in the whole path.\<close>

definition format_of_file :: "string \<Rightarrow> data_format_t option" where
  "format_of_file name =
     (if find_sub ''.fcl'' name \<noteq> None \<or> find_sub ''.fhicl'' name \<noteq> None then Some Format_fhicl
      else if find_sub ''.jsn'' name \<noteq> None \<or> find_sub ''.json'' name \<noteq> None then Some Format_json
      else if find_sub ''.xml'' name \<noteq> None then Some Format_xml
      else None)"

definition failed_import :: "string \<Rightarrow> result_t \<Rightarrow> string" where
  "failed_import name result =
     (if fst result then [] else ''Failed to import '' @ name @ '', details:'' @ snd result)"

fun write_files :: "'d client \<Rightarrow> 'd host \<Rightarrow> document_options \<Rightarrow> string list \<Rightarrow> ('d, string) fdb" where
  "write_files cl h opts [] = retM []"
| "write_files cl h opts (file_name # files) =
     bindM (liftE (with_options [ignoring (set_collection (collection_name_from_relative_path file_name))] opts)) (\<lambda>opts1.
       case format_of_file file_name of
         None \<Rightarrow> write_files cl h opts1 files
       | Some format \<Rightarrow>
           bindM (liftE (with_options [ignoring (set_format format)] opts1)) (\<lambda>opts2.
           bindM (write_document_file cl h opts2 file_name) (\<lambda>result.
           bindM (write_files cl h opts2 files) (\<lambda>errors. retM (failed_import file_name result @ errors)))))"

definition json_write_configuration :: "'d client \<Rightarrow> 'd host \<Rightarrow> string \<Rightarrow> string \<Rightarrow> ('d, result_t) fdb" where
  "json_write_configuration cl h payload tarbzip2_base64 =
     (if payload \<noteq> [] \<and> tarbzip2_base64 = [] then retM (Failure msg_EmptyDocument)
      else shell_request cl h ''globalconfstore'' payload (\<lambda>opts0.
        bindM (liftE (with_options [ignoring (set_operation ''store'')] opts0)) (\<lambda>opts.
        bindM (on_files (make_temp_dir h)) (\<lambda>tmp.
        let userdata = tmp @ ''/userdata'' @ dbexport_extension in
        bindM (on_files (write_buffer_to_file (ho_files h) tarbzip2_base64 userdata)) (\<lambda>written.
          if \<not> written then retM (Failure (error_msg ''Unable to write userdata''))
          else
            bindM (on_files (tarbzip2base64_to_dir h userdata tmp)) (\<lambda>_.
            bindM (on_files (list_files h (ho_depth h) tmp)) (\<lambda>files.
            bindM (write_files cl h opts files) (\<lambda>errors.
            thenM (on_files (delete_temp_dir h tmp))
              (retM (if errors \<noteq> [] then Failure (error_msg errors) else Success msg_Success))))))))))"

definition read_one_file :: "'d client \<Rightarrow> 'd host \<Rightarrow> string \<Rightarrow> value_t \<Rightarrow> ('d, string) fdb" where
  "read_one_file cl h tmp confElement =
     bindM (liftE (bindE (get_object confElement) (object_child ''query''))) (\<lambda>query.
     bindM (liftE (c_write (cl_codec cl) query)) (\<lambda>configuration.
     bindM (liftE (with_options [readJsonData (cl_env cl) (cl_codec cl) configuration, ignoring (set_format Format_origin)]
         (new_document_options (cl_env cl) ''globalconfload''))) (\<lambda>tmpOpts.
     bindM (liftE (bindE (getter (op_collection tmpOpts)) relative_path_from_collection_name)) (\<lambda>path.
     let file_name = tmp @ ''/'' @ path in
     bindM (read_document_file cl h tmpOpts file_name) (\<lambda>result. retM (failed_import file_name result))))))"

text \<open>The answer is also what the reference \<open>tarbzip2_base64\<close> receives; a document that cannot be
  read leaves the temporary directory behind.\<close>

definition json_read_configuration :: "'d client \<Rightarrow> 'd host \<Rightarrow> string \<Rightarrow> string \<Rightarrow> ('d, result_t) fdb" where
  "json_read_configuration cl h payload tarbzip2_base64 =
     (if payload \<noteq> [] \<and> ho_available h \<and> tarbzip2_base64 \<noteq> []
      then retM (Failure (error_msg ''Invalid tarbzip2_base64 stream; buffer is not empty.''))
      else shell_request cl h ''globalconfload'' payload (\<lambda>opts0.
        bindM (liftE (with_options [ignoring (set_operation ''buildfilter'')] opts0)) (\<lambda>opts.
        bindM (configuration_composition cl opts []) (\<lambda>configuration_list.
        bindM (liftE (converted (c_read (cl_codec cl) configuration_list))) (\<lambda>resultAST.
        bindM (on_files (make_temp_dir h)) (\<lambda>tmp.
        bindM (liftE (array_child ''search'' resultAST)) (\<lambda>confArray.
        bindM (forR confArray (read_one_file cl h tmp)) (\<lambda>errors.
          if concat errors \<noteq> [] then retM (Failure (error_msg (concat errors)))
          else
            let userdata = tmp @ ''/userdata'' @ dbexport_extension in
            bindM (on_files (dir_to_tarbzip2base64 h tmp userdata)) (\<lambda>_.
            bindM (on_files (read_buffer_from_file (ho_files h) userdata)) (\<lambda>buffer.
            thenM (on_files (delete_temp_dir h tmp))
              (retM (Success (''{'' @ quoted ''collection.tar.bzip2.base64'' @ '':'' @ dquote # buffer @ dquote # ''}'')))))))))))))"

section \<open>What is not implemented\<close>

definition detail_export_configuration :: "'d client \<Rightarrow> document_options \<Rightarrow> ('d, string) fdb" where
  "detail_export_configuration cl opts = throwM Runtime_error"

definition detail_import_configuration :: "'d client \<Rightarrow> document_options \<Rightarrow> ('d, string) fdb" where
  "detail_import_configuration cl opts = throwM Runtime_error"

definition opts_export_configuration :: "'d client \<Rightarrow> document_options \<Rightarrow> ('d, result_t) fdb" where
  "opts_export_configuration cl opts = as_result cl (detail_export_configuration cl opts)"

definition opts_import_configuration :: "'d client \<Rightarrow> document_options \<Rightarrow> ('d, result_t) fdb" where
  "opts_import_configuration cl opts = as_result cl (detail_import_configuration cl opts)"

definition json_export_configuration :: "'d client \<Rightarrow> string \<Rightarrow> ('d, result_t) fdb" where
  "json_export_configuration cl payload =
     as_result cl (requested cl ''importconfig'' payload (detail_export_configuration cl))"

definition json_import_configuration :: "'d client \<Rightarrow> string \<Rightarrow> ('d, result_t) fdb" where
  "json_import_configuration cl payload =
     as_result cl (requested cl ''importconfig'' payload (detail_import_configuration cl))"

end
