(* ===== verification/ExportLaws.thy ===== *)
theory ExportLaws
  imports ExportImport OperationLaws ProviderLaws "HOL-Library.Multiset"
begin

text \<open>
  Export and import: the names files get as collections, walking a directory, and an exported
  collection imported again.  What the shell commands do is a hypothesis, \<open>host_laws\<close>, which a
  disk at the end of the theory has.
\<close>

section \<open>Names and paths\<close>

definition name_ok :: "string \<Rightarrow> bool" where
  "name_ok t \<longleftrightarrow> t \<noteq> [] \<and> CHR ''.'' \<notin> set t \<and> CHR ''/'' \<notin> set t"

lemma strip_slashes_id: "p \<noteq> [] \<Longrightarrow> last p \<noteq> CHR ''/'' \<Longrightarrow> strip_slashes p = p"
  by (cases p rule: rev_cases) (simp_all add: strip_slashes_def)

lemma last_notin: "x \<noteq> [] \<Longrightarrow> c \<notin> set x \<Longrightarrow> last x \<noteq> c"
  using last_in_set[of x] by blast

lemma takeWhile_upto: "c \<notin> set x \<Longrightarrow> takeWhile (\<lambda>a. a \<noteq> c) (x @ c # y) = x"
  by (induction x) auto

lemma dropWhile_upto: "c \<notin> set x \<Longrightarrow> dropWhile (\<lambda>a. a \<noteq> c) (x @ c # y) = c # y"
  by (induction x) auto

lemma path_parts:
  assumes "x \<noteq> []" "CHR ''/'' \<notin> set x"
  shows "basename (p @ CHR ''/'' # x) = x"
    and "p \<noteq> [] \<Longrightarrow> last p \<noteq> CHR ''/'' \<Longrightarrow> dirname (p @ CHR ''/'' # x) = p"
proof -
  have l: "last (p @ CHR ''/'' # x) \<noteq> CHR ''/''" using assms by (simp add: last_notin)
  have r: "CHR ''/'' \<notin> set (rev x)" using assms(2) by simp
  show "basename (p @ CHR ''/'' # x) = x"
    using takeWhile_upto[OF r, of "rev p"] strip_slashes_id[OF _ l] by (simp add: basename_def)
  show "dirname (p @ CHR ''/'' # x) = p" if "p \<noteq> []" "last p \<noteq> CHR ''/''"
  proof -
    have s: "strip_slashes (p @ [CHR ''/'']) = p"
      using strip_slashes_id[OF that] by (simp add: strip_slashes_def)
    show ?thesis
      using dropWhile_upto[OF r, of "rev p"] strip_slashes_id[OF _ l] s that(1) by (simp add: dirname_def Let_def)
  qed
qed

text \<open>The name a file gets as a collection leads back to the file below its directory when the
  file has an extension and neither name has a dot of its own; without an extension the
  directory is lost, and a name that starts with its only dot is not defined.\<close>

theorem collection_path_roundtrip:
  assumes "name_ok d" "name_ok f" "e = [] \<or> (\<exists>x. name_ok x \<and> e = CHR ''.'' # x)"
  shows "collection_name_from_relative_path (p @ CHR ''/'' # d @ CHR ''/'' # f @ e) = d @ CHR ''.'' # f @ e \<and>
    relative_path_from_collection_name (d @ CHR ''.'' # f @ e) = Inr (d @ (if e = [] then CHR ''.'' else CHR ''/'') # f @ e) \<and>
    relative_path_from_collection_name (CHR ''.'' # f) = Inl Undefined"
proof -
  let ?dots = "map (\<lambda>c. if c = CHR ''.'' then CHR ''/'' else c)"
  have d: "d \<noteq> []" "CHR ''.'' \<notin> set d" "CHR ''/'' \<notin> set d" and f: "f \<noteq> []" "CHR ''.'' \<notin> set f" "CHR ''/'' \<notin> set f"
    using assms(1,2) by (simp_all add: name_ok_def)
  have fe: "f @ e \<noteq> []" "CHR ''/'' \<notin> set (f @ e)" using f assms(3) by (auto simp: name_ok_def)
  have l: "last (p @ CHR ''/'' # d) \<noteq> CHR ''/''" using d(1,3) by (simp add: last_notin)
  have "basename (p @ CHR ''/'' # d @ CHR ''/'' # f @ e) = f @ e" "dirname (p @ CHR ''/'' # d @ CHR ''/'' # f @ e) = p @ CHR ''/'' # d"
    using path_parts(1)[OF fe, of "p @ CHR ''/'' # d"] path_parts(2)[OF fe _ l] by (simp_all del: set_append)
  then have c: "collection_name_from_relative_path (p @ CHR ''/'' # d @ CHR ''/'' # f @ e) = d @ CHR ''.'' # f @ e"
    by (simp add: collection_name_from_relative_path_def Let_def butlast_append path_parts(1)[OF d(1,3)])
  have id: "?dots x = x" if "CHR ''.'' \<notin> set x" for x using that by (intro map_idI) auto
  have "relative_path_from_collection_name (d @ CHR ''.'' # f @ e) = Inr (d @ (if e = [] then CHR ''.'' else CHR ''/'') # f @ e)"
  proof (cases "e = []")
    case True
    have "takeWhile (\<lambda>c. c \<noteq> CHR ''.'') (rev (d @ CHR ''.'' # f)) = rev f" using takeWhile_upto[of _ "rev f"] f by simp
    moreover have "?dots (take (length d - 1) d) = take (length d - 1) d" using d(2) by (intro id) (auto dest: in_set_takeD)
    ultimately show ?thesis using True d(1)
      by (simp add: relative_path_from_collection_name_def Let_def)
  next
    case False
    then obtain x where x: "name_ok x" "e = CHR ''.'' # x" using assms(3) by blast
    have "takeWhile (\<lambda>c. c \<noteq> CHR ''.'') (rev (d @ CHR ''.'' # f @ e)) = rev x"
      using takeWhile_upto[of _ "rev x"] x by (simp add: name_ok_def)
    then have pos: "length (d @ CHR ''.'' # f @ e) - 1 - length (takeWhile (\<lambda>c. c \<noteq> CHR ''.'') (rev (d @ CHR ''.'' # f @ e))) =
        Suc (length (d @ f))" using x(2) by simp
    obtain b z where bz: "f = b @ [z]" using f(1) by (cases f rule: rev_cases) auto
    have "take (length (d @ f)) (d @ CHR ''.'' # f @ e) = d @ CHR ''.'' # b" "drop (length (d @ f)) (d @ CHR ''.'' # f @ e) = z # e"
      using bz by simp_all
    moreover have "?dots (d @ CHR ''.'' # b) = d @ CHR ''/'' # b" using id[OF d(2)] id[of b] f(2) bz by simp
    ultimately show ?thesis using False pos bz
      by (simp add: relative_path_from_collection_name_def Let_def)
  qed
  moreover have "relative_path_from_collection_name (CHR ''.'' # f) = Inl Undefined"
  proof -
    have "takeWhile (\<lambda>c. c \<noteq> CHR ''.'') (rev f @ [CHR ''.'']) = rev f" using takeWhile_upto[of _ "rev f"] f by simp
    then show ?thesis by (simp add: relative_path_from_collection_name_def Let_def)
  qed
  ultimately show ?thesis using c by blast
qed

theorem collection_path_roundtrip_witness:
  "collection_name_from_relative_path ''/tmp/adb1/tmp/x/a/b.fcl'' = ''a.b.fcl'' \<and>
    relative_path_from_collection_name ''a.b.fcl'' = Inr ''a/b.fcl''"
  using collection_path_roundtrip[of "''a''" "''b''" "''.fcl''" "''/tmp/adb1/tmp/x''"] by (simp add: name_ok_def)

section \<open>Walking a directory\<close>

datatype node = Regular | Directory "(string \<times> node) list"

text \<open>\<open>laid_out fs d p n\<close>: the disk shows the tree \<open>n\<close> at the path \<open>p\<close>.\<close>

fun laid_out :: "'d files \<Rightarrow> 'd \<Rightarrow> string \<Rightarrow> node \<Rightarrow> bool" where
  "laid_out fs d p Regular \<longleftrightarrow> f_is_regular fs p d"
| "laid_out fs d p (Directory es) \<longleftrightarrow>
     f_exists fs p d \<and> f_is_directory fs p d \<and> \<not> f_is_regular fs p d \<and>
     f_entries fs p d = map (\<lambda>e. p @ CHR ''/'' # fst e) es \<and>
     list_all (\<lambda>e. laid_out fs d (p @ CHR ''/'' # fst e) (snd e)) es"

fun files_of :: "string \<Rightarrow> node \<Rightarrow> string list" where
  "files_of p Regular = [p]"
| "files_of p (Directory es) = concat (map (\<lambda>e. files_of (p @ CHR ''/'' # fst e) (snd e)) es)"

text \<open>The tree nests at most \<open>n\<close> directories.\<close>

fun fits :: "nat \<Rightarrow> node \<Rightarrow> bool" where
  "fits n Regular \<longleftrightarrow> True"
| "fits 0 (Directory es) \<longleftrightarrow> False"
| "fits (Suc n) (Directory es) \<longleftrightarrow> list_all (\<lambda>e. fits n (snd e)) es"

lemma forR_run: "(\<And>x. x \<in> set xs \<Longrightarrow> f x s = (Inr (g x), s)) \<Longrightarrow> forR xs f s = (Inr (map g xs), s)"
  by (induction xs) (simp_all add: forR_def bindM_run retM_run)

lemma files_named: "p \<noteq> [] \<Longrightarrow> [] \<notin> set (files_of p n)"
  by (induction p n rule: files_of.induct) auto

lemma walk_run:
  assumes "laid_out (ho_files h) d p (Directory es)" "fits n (Directory es)" "p \<noteq> []"
  shows "list_files h n p d = (Inr (files_of p (Directory es)), d)"
  using assms
proof (induction n arbitrary: p es)
  case (Suc n)
  let ?fs = "ho_files h" and ?p = "\<lambda>e. p @ CHR ''/'' # fst e"
  have step: "(if f_is_regular ?fs (?p e) d then retM [?p e] else if f_is_directory ?fs (?p e) d then list_files h n (?p e) else retM []) d =
      (Inr (files_of (?p e) (snd e)), d)" if e: "e \<in> set es" for e
  proof (cases "snd e")
    case Regular
    then show ?thesis using e Suc.prems(1) by (auto simp: list_all_iff retM_run)
  next
    case (Directory es')
    moreover have "laid_out ?fs d (?p e) (snd e)" "fits n (snd e)"
      using e Suc.prems(1,2) by (auto simp: list_all_iff simp del: append_assoc)
    ultimately have l: "laid_out ?fs d (?p e) (Directory es')" "fits n (Directory es')" by simp_all
    then have "list_files h n (?p e) d = (Inr (files_of (?p e) (Directory es')), d)" by (rule Suc.IH) simp
    then show ?thesis using l(1) Directory by simp
  qed
  have "forR (map ?p es) (\<lambda>x. if f_is_regular ?fs x d then retM [x] else if f_is_directory ?fs x d then list_files h n x else retM []) d =
      (Inr (map (\<lambda>e. files_of (?p e) (snd e)) es), d)"
    using step
    by (induction es) (simp_all add: forR_def bindM_run retM_run)
  then show ?case
    using Suc.prems by (simp add: Let_def thenM_run confirm_run bindM_run getM_run retM_run)
qed simp

text \<open>Listing the files below a directory returns every regular file of the tree once, at every
  depth, and leaves the disk as it is, as soon as the calls may nest as deep as the tree.\<close>

theorem list_files_complete:
  assumes "laid_out (ho_files h) d p (Directory es)" "fits n (Directory es)" "p \<noteq> []"
  shows "list_files h n p d = (Inr (files_of p (Directory es)), d)"
  using assms by (rule walk_run)

section \<open>What the operations rely on\<close>

definition shell_word :: "string \<Rightarrow> bool" where
  "shell_word p \<longleftrightarrow> p \<noteq> [] \<and> list_all (\<lambda>c. \<not> is_space c) p"

definition temp_dir :: "nat \<Rightarrow> string" where
  "temp_dir k = tmpdirprefix @ nat_digits k"

text \<open>The files below a path, by their names relative to it.\<close>

definition content :: "'d files \<Rightarrow> string \<Rightarrow> 'd \<Rightarrow> (string \<times> string) set" where
  "content fs p d = {(r, t). f_read fs (p @ CHR ''/'' # r) d = Some t}"

definition unused :: "'d files \<Rightarrow> string \<Rightarrow> 'd \<Rightarrow> bool" where
  "unused fs p d \<longleftrightarrow> (\<forall>q. prefix p q \<longrightarrow> f_read fs q d = None)"

definition unchanged_outside :: "'d files \<Rightarrow> string \<Rightarrow> 'd \<Rightarrow> 'd \<Rightarrow> bool" where
  "unchanged_outside fs p d d' \<longleftrightarrow> (\<forall>q. \<not> prefix p q \<longrightarrow> f_read fs q d' = f_read fs q d)"

text \<open>
  The documented behaviour of the commands: \<open>mkdir -p\<close> touches no file; \<open>rm -rf\<close> touches none
  outside the directory; \<open>tar | base64\<close> leaves a text that stands for the files below the directory,
  \<open>held\<close> being the files an archive holds, unless its visible part is empty; and unpacking it
  into an unused directory lays out a tree with the same texts, not deeper than the stack.
\<close>

definition mkdir_law :: "'d host \<Rightarrow> bool" where
  "mkdir_law h \<longleftrightarrow> (\<forall>p d. shell_word p \<longrightarrow>
     (\<exists>d'. ho_system h (''mkdir -p '' @ p) d = (0, d') \<and> (\<forall>q. f_read (ho_files h) q d' = f_read (ho_files h) q d)))"

definition remove_law :: "'d host \<Rightarrow> bool" where
  "remove_law h \<longleftrightarrow> (\<forall>k d. \<exists>d'. ho_system h (''rm -rf '' @ temp_dir k) d = (0, d') \<and>
     unchanged_outside (ho_files h) (temp_dir k) d d')"

definition packable :: "'d files \<Rightarrow> string \<Rightarrow> 'd \<Rightarrow> bool" where
  "packable fs p d \<longleftrightarrow> finite (content fs p d) \<and> content fs p d \<noteq> {} \<and>
     (\<forall>x \<in> content fs p d. fst x \<noteq> [] \<and> hd (fst x) \<noteq> CHR ''.'')"

definition pack_law :: "'d host \<Rightarrow> (string \<Rightarrow> (string \<times> string) set) \<Rightarrow> bool" where
  "pack_law h held \<longleftrightarrow>
     (\<forall>k a d. shell_word a \<longrightarrow> \<not> prefix (temp_dir k) a \<longrightarrow> packable (ho_files h) (temp_dir k) d \<longrightarrow>
       (\<exists>d' t. ho_system h (pack_command (temp_dir k) a) d = (0, d') \<and> held t = content (ho_files h) (temp_dir k) d \<and>
         (\<forall>q. f_read (ho_files h) q d' = (if q = a then Some t else f_read (ho_files h) q d))))"

definition unpack_law :: "'d host \<Rightarrow> (string \<Rightarrow> (string \<times> string) set) \<Rightarrow> bool" where
  "unpack_law h held \<longleftrightarrow>
     (\<forall>k a t d. shell_word a \<longrightarrow> f_read (ho_files h) a d = Some t \<longrightarrow> finite (held t) \<longrightarrow> held t \<noteq> {} \<longrightarrow>
       unused (ho_files h) (temp_dir k) d \<longrightarrow>
       (\<exists>d' es. ho_system h (unpack_command a (temp_dir k)) d = (0, d') \<and>
         laid_out (ho_files h) d' (temp_dir k) (Directory es) \<and> fits (ho_depth h) (Directory es) \<and>
         image_mset (\<lambda>q. f_read (ho_files h) q d') (mset (files_of (temp_dir k) (Directory es))) =
           image_mset (\<lambda>x. Some (snd x)) (mset_set (held t)) \<and>
         unchanged_outside (ho_files h) (temp_dir k) d d'))"

definition host_laws :: "'d host \<Rightarrow> (string \<Rightarrow> (string \<times> string) set) \<Rightarrow> bool" where
  "host_laws h held \<longleftrightarrow> file_laws (ho_files h) \<and> mkdir_law h \<and> remove_law h \<and> pack_law h held \<and> unpack_law h held"

lemma host_lawsD:
  assumes "host_laws h held"
  shows "file_laws (ho_files h)" "mkdir_law h" "remove_law h" "pack_law h held" "unpack_law h held"
  using assms by (simp_all add: host_laws_def)

text \<open>The directory the next \<open>make_temp_dir\<close> makes: within one second it is always the same.\<close>

definition next_temp :: "'d host \<Rightarrow> 'd \<Rightarrow> nat" where
  "next_temp h d = ho_rand h (ho_time h d) mod 9000000 + 1000000"

lemma digit_no_space: "is_digit c \<Longrightarrow> \<not> is_space c"
  by (auto simp: is_digit_def is_space_def)

lemma temp_dir_word: "shell_word (temp_dir k)"
proof -
  have "list_all (\<lambda>c. \<not> is_space c) tmpdirprefix" by code_simp
  then show ?thesis using nat_digits_all[of k]
    by (auto simp: shell_word_def temp_dir_def list_all_iff digit_no_space)
qed

lemma make_temp_dir_run:
  assumes "host_laws h held"
  shows "\<exists>d'. make_temp_dir h d = (Inr (temp_dir (next_temp h d)), d') \<and> (\<forall>q. f_read (ho_files h) q d' = f_read (ho_files h) q d)"
proof -
  obtain d' where "ho_system h (''mkdir -p '' @ temp_dir (next_temp h d)) d = (0, d')"
      "\<forall>q. f_read (ho_files h) q d' = f_read (ho_files h) q d"
    using host_lawsD(2)[OF assms] temp_dir_word unfolding mkdir_law_def by blast
  then show ?thesis
    by (intro exI[of _ d']) (simp add: make_temp_dir_def bindM_run getM_run retM_run Let_def run_command_def
        temp_dir_def[symmetric] next_temp_def)
qed

lemma equal_range_prefix: "equal_range p (p @ s) = Inr True"
  by (induction p) auto

lemma delete_temp_dir_run:
  assumes "host_laws h held"
  shows "\<exists>d'. delete_temp_dir h (temp_dir k) d = (Inr (), d') \<and> unchanged_outside (ho_files h) (temp_dir k) d d'"
proof -
  obtain d' where "ho_system h (''rm -rf '' @ temp_dir k) d = (0, d')" "unchanged_outside (ho_files h) (temp_dir k) d d'"
    using host_lawsD(3)[OF assms] unfolding remove_law_def by blast
  moreover have "equal_range tmpdirprefix (temp_dir k) = Inr True" by (simp add: temp_dir_def equal_range_prefix)
  moreover have "temp_dir k \<noteq> []" by (simp add: temp_dir_def)
  ultimately show ?thesis
    by (intro exI[of _ d']) (simp add: delete_temp_dir_def thenM_run bindM_run confirm_run liftE_run retM_run run_command_def)
qed

lemma strip_slashes_subset: "set (strip_slashes p) \<subseteq> set p"
  by (auto simp: strip_slashes_def dest: set_dropWhileD)

lemma dirname_word: "shell_word p \<Longrightarrow> shell_word (dirname p)"
proof -
  assume p: "shell_word p"
  let ?q = "rev (dropWhile (\<lambda>c. c \<noteq> CHR ''/'') (rev (strip_slashes p)))"
  have "set ?q \<subseteq> set p" using strip_slashes_subset[of p] by (auto dest!: set_dropWhileD)
  then have "set (strip_slashes ?q) \<subseteq> set p" using strip_slashes_subset[of ?q] by blast
  then have "list_all (\<lambda>c. \<not> is_space c) (strip_slashes ?q)" using p by (auto simp: shell_word_def list_all_iff)
  moreover have "shell_word ''/''" "shell_word ''.''" by code_simp+
  moreover have "p \<noteq> []" using p by (simp add: shell_word_def)
  ultimately show ?thesis by (simp add: dirname_def Let_def shell_word_def)
qed

section \<open>Exporting a collection\<close>

lemma shell_request_run:
  assumes "payload \<noteq> []" "ho_available h" "operation \<noteq> []" "op_operation opts = operation"
    and "with_options [readJsonData (cl_env cl) (cl_codec cl) payload] (new_document_options (cl_env cl) operation) = Inr opts"
  shows "shell_request cl h operation payload f s = noexcept cl (f opts) s"
  using assms by (simp add: shell_request_def noexcept_def bindM_run thenM_run liftE_run getter_def confirm_run)

lemma changed_options_run:
  "operation \<noteq> [] \<Longrightarrow> format \<noteq> Format_unknown \<Longrightarrow>
    changed_options opts operation format = Inr (opts\<lparr>op_operation := operation, op_format := format\<rparr>)"
  by (simp add: changed_options_def with_options_def ignoring_def set_operation_def setter_def set_format_def thenM_run bindM_run
      retM_run)

text \<open>A stored record: printable, complete, and with an identifier.\<close>

definition stored :: "(string \<Rightarrow> (64 word \<times> string) option) \<Rightarrow> object_t \<Rightarrow> string \<Rightarrow> bool" where
  "stored qd ps ident \<longleftrightarrow> boost_ok qd ps \<and> wf_record (Obj ps) \<and> getObjectOUID (Obj ps) = Inr ident"

lemma stored_not_Nil: "stored qd ps ident \<Longrightarrow> ps \<noteq> []"
proof
  assume "stored qd ps ident" "ps = []"
  then have "getObjectOUID (Obj []) = Inr ident" by (simp add: stored_def)
  moreover have "getObjectOUID (Obj []) = Inl Out_of_range" by code_simp
  ultimately show False by simp
qed

lemma stored_text: "stored qd ps ident \<Longrightarrow> doc_text (boost_codec kd qd) (doc_of (Obj ps)) = Inr (write_value kd (Obj ps))"
  using doc_text_run[OF stored_not_Nil] by blast

lemma stored_read:
  assumes "stored qd ps ident"
  shows "doc_of_string (boost_codec kd qd) (write_value kd (Obj ps)) = Inr (doc_of (Obj ps))"
proof -
  have "json_parse qd (write_value kd (Obj ps)) = Some ps"
    using json_roundtrip_exact assms unfolding stored_def by blast
  moreover have "write_value kd (Obj ps) \<noteq> []" by simp
  ultimately show ?thesis by (simp add: doc_of_string_def readJson_def boost_codec_def json_read_def del: write_value.simps)
qed

lemma builder_keeps:
  assumes "wf_record v"
  shows "new_builder (doc_of v) (x, w) = (Inr (), (doc_of v, w))"
  using recrd.settled[OF assms, of w] by (simp add: new_builder_def thenM_run put_document_def on_record_def doc_of_def)

lemma export_document_run:
  assumes "cl_codec cl = boost_codec kd qd" "stored qd ps ident" "dir \<noteq> []"
    and "f_write (ho_files h) (dir @ ''/'' @ ident @ ''.json'') (write_value kd (Obj ps)) d = Some d'"
  shows "export_document cl h dir (doc_of (Obj ps)) (d, w) = (Inr (), (d', w))"
proof -
  have "new_builder (doc_of (Obj ps)) (empty_doc, w) = (Inr (), (doc_of (Obj ps), w))"
    using builder_keeps assms(2) by (simp add: stored_def)
  moreover have "getObjectOUID (jd_value (doc_of (Obj ps))) = Inr ident" using assms(2) by (simp add: stored_def doc_of_def)
  ultimately have b: "on_builder (thenM (new_builder (doc_of (Obj ps))) (bindM recordM (\<lambda>v. liftE (getObjectOUID v)))) empty_doc (d, w) =
      (Inr (ident, doc_of (Obj ps)), (d, w))"
    by (simp add: on_builder_def thenM_run bindM_run recordM_def liftE_run)
  have "write_buffer_to_file (ho_files h) (write_value kd (Obj ps)) (dir @ ''/'' @ ident @ ''.json'') d = (Inr True, d')"
    using write_buffer_run[OF _ assms(4)] by simp
  then show ?thesis using b stored_text[OF assms(2), of kd] assms(1)
    by (simp add: export_document_def bindM_run liftE_run on_files_def retM_run del: write_value.simps)
qed

definition exported_files :: "(64 word \<Rightarrow> string) \<Rightarrow> string \<Rightarrow> (object_t \<times> string) list \<Rightarrow> (string \<times> string) list" where
  "exported_files kd dir xs = map (\<lambda>(ps, ident). (dir @ ''/'' @ ident @ ''.json'', write_value kd (Obj ps))) xs"

lemma export_documents_run:
  assumes "cl_codec cl = boost_codec kd qd" "list_all (\<lambda>(ps, ident). stored qd ps ident) xs" "distinct (map snd xs)" "dir \<noteq> []"
    and fs: "file_laws (ho_files h)" "writable (ho_files h)"
  shows "\<exists>d'. forM (map (\<lambda>x. doc_of (Obj (fst x))) xs) (export_document cl h dir) (d, w) = (Inr (), (d', w)) \<and>
    (\<forall>q. f_read (ho_files h) q d' = (case map_of (exported_files kd dir xs) q of Some t \<Rightarrow> Some t | None \<Rightarrow> f_read (ho_files h) q d))"
  using assms(2,3)
proof (induction xs arbitrary: d)
  case Nil
  then show ?case by (simp add: retM_run exported_files_def)
next
  case (Cons x xs)
  obtain ps ident where x: "x = (ps, ident)" by (cases x)
  let ?p = "dir @ ''/'' @ ident @ ''.json''" and ?t = "write_value kd (Obj ps)"
  obtain d1 where d1: "f_write (ho_files h) ?p ?t d = Some d1" using fs(2) unfolding writable_def by blast
  have head: "export_document cl h dir (doc_of (Obj ps)) (d, w) = (Inr (), (d1, w))"
    using export_document_run[OF assms(1) _ assms(4) d1] Cons.prems(1) x by simp
  obtain d2 where d2: "forM (map (\<lambda>x. doc_of (Obj (fst x))) xs) (export_document cl h dir) (d1, w) = (Inr (), (d2, w))"
    "\<forall>q. f_read (ho_files h) q d2 = (case map_of (exported_files kd dir xs) q of Some t \<Rightarrow> Some t | None \<Rightarrow> f_read (ho_files h) q d1)"
    using Cons.IH[of d1] Cons.prems by auto
  have "map_of (exported_files kd dir xs) ?p = None"
    using Cons.prems(2) x by (force simp: map_of_eq_None_iff exported_files_def)
  then have "f_read (ho_files h) q d2 = (case map_of (exported_files kd dir (x # xs)) q of Some t \<Rightarrow> Some t | None \<Rightarrow> f_read (ho_files h) q d)" for q
    using d2(2) file_lawsD(1)[OF fs(1) d1, of q] x
    by (cases "q = ?p") (simp_all add: exported_files_def del: write_value.simps split: option.split)
  then show ?case using head d2(1) x
    by (intro exI[of _ d2]) (simp add: thenM_run)
qed

lemma mkdir_path_run:
  assumes "mkdir_law h" "shell_word p"
  shows "\<exists>d'. mkdir_path h p d = (Inr True, d') \<and> (\<forall>q. f_read (ho_files h) q d' = f_read (ho_files h) q d)"
proof -
  obtain d' where d': "ho_system h (''mkdir -p '' @ p) d = (0, d')" "\<forall>q. f_read (ho_files h) q d' = f_read (ho_files h) q d"
    using assms unfolding mkdir_law_def by blast
  have "p \<noteq> []" using assms(2) by (simp add: shell_word_def)
  then show ?thesis using d'
    by (intro exI[of _ d']) (simp add: mkdir_path_def thenM_run bindM_run confirm_run retM_run run_command_def)
qed

lemma content_same: "\<forall>q. f_read fs q d' = f_read fs q d \<Longrightarrow> content fs p d' = content fs p d"
  by (simp add: content_def)

lemma packed_run:
  assumes "host_laws h held" "shell_word a" "\<not> prefix (temp_dir k) a" "packable (ho_files h) (temp_dir k) d"
  shows "\<exists>d' t. dir_to_tarbzip2base64 h (temp_dir k) a d = (Inr a, d') \<and> held t = content (ho_files h) (temp_dir k) d \<and>
    f_read (ho_files h) a d' = Some t"
proof -
  obtain d1 where d1: "mkdir_path h (dirname a) d = (Inr True, d1)" "\<forall>q. f_read (ho_files h) q d1 = f_read (ho_files h) q d"
    using mkdir_path_run[OF host_lawsD(2)[OF assms(1)] dirname_word[OF assms(2)]] by blast
  have "packable (ho_files h) (temp_dir k) d1" using assms(4) content_same[OF d1(2)] by (simp add: packable_def)
  then obtain d2 t where d2: "ho_system h (pack_command (temp_dir k) a) d1 = (0, d2)" "held t = content (ho_files h) (temp_dir k) d1"
      "\<forall>q. f_read (ho_files h) q d2 = (if q = a then Some t else f_read (ho_files h) q d1)"
    using host_lawsD(4)[OF assms(1)] assms(2,3) unfolding pack_law_def by blast
  have "temp_dir k \<noteq> []" "a \<noteq> []" using assms(2) by (simp_all add: temp_dir_def tmpdirprefix_def shell_word_def)
  then have "dir_to_tarbzip2base64 h (temp_dir k) a d = (Inr a, d2)"
    using d1(1) d2(1)
    by (simp add: dir_to_tarbzip2base64_def mkdirfile_def thenM_run bindM_run confirm_run retM_run run_command_def)
  then show ?thesis using d2(2,3) content_same[OF d1(2)] by auto
qed

definition archive_of :: "(64 word \<Rightarrow> string) \<Rightarrow> string \<Rightarrow> (object_t \<times> string) list \<Rightarrow> (string \<times> string) set" where
  "archive_of kd collection xs = (\<lambda>(ps, ident). (collection @ ''/'' @ ident @ ''.json'', write_value kd (Obj ps))) ` set xs"

lemma exported_content:
  assumes "distinct (map snd xs)" "unused fs p d"
    and "\<forall>q. f_read fs q d' = (case map_of (exported_files kd (p @ ''/'' @ collection) xs) q of Some t \<Rightarrow> Some t | None \<Rightarrow> f_read fs q d)"
  shows "content fs p d' = archive_of kd collection xs"
proof -
  define es where "es = exported_files kd (p @ ''/'' @ collection) xs"
  have dist: "distinct (map fst es)"
    unfolding es_def using assms(1) by (induction xs) (force simp: exported_files_def)+
  have "f_read fs (p @ CHR ''/'' # r) d' = Some t \<longleftrightarrow> (p @ CHR ''/'' # r, t) \<in> set es" for r t
  proof -
    have "f_read fs (p @ CHR ''/'' # r) d = None" using assms(2) unfolding unused_def by (auto simp: prefix_def)
    then show ?thesis using assms(3)[folded es_def] by (simp add: map_of_eq_Some_iff[OF dist, symmetric] split: option.split)
  qed
  moreover have "(p @ CHR ''/'' # r, t) \<in> set es \<longleftrightarrow> (r, t) \<in> archive_of kd collection xs" for r t
    by (auto simp: es_def exported_files_def archive_of_def image_iff Bex_def split_beta simp del: write_value.simps)
  ultimately show ?thesis by (auto simp: content_def)
qed

lemma archive_packable:
  assumes "content fs p d = archive_of kd collection xs" "xs \<noteq> []" "collection \<noteq> []" "hd collection \<noteq> CHR ''.''"
  shows "packable fs p d"
  using assms by (auto simp: packable_def archive_of_def)

text \<open>A request that is read as the options \<open>opts\<close>.\<close>

definition asks :: "'d client \<Rightarrow> 'd host \<Rightarrow> string \<Rightarrow> string \<Rightarrow> document_options \<Rightarrow> bool" where
  "asks cl h operation payload opts \<longleftrightarrow> ho_available h \<and> payload \<noteq> [] \<and>
     with_options [readJsonData (cl_env cl) (cl_codec cl) payload] (new_document_options (cl_env cl) operation) = Inr opts \<and>
     op_operation opts = operation \<and> op_collection opts \<noteq> [] \<and> hd (op_collection opts) \<noteq> CHR ''.'' \<and>
     shell_word (opt_source opts) \<and> \<not> prefix tmpdirprefix (opt_source opts)"

lemma asks_source: "asks cl h operation payload opts \<Longrightarrow> \<not> prefix (temp_dir k) (opt_source opts)"
  unfolding asks_def temp_dir_def by (metis append_prefixD)

lemma asks_run:
  "asks cl h operation payload opts \<Longrightarrow> operation \<noteq> [] \<Longrightarrow> shell_request cl h operation payload f s = noexcept cl (f opts) s"
  by (rule shell_request_run) (simp_all add: asks_def)

definition storing :: "(string \<Rightarrow> (64 word \<times> string) option) \<Rightarrow> (object_t \<times> string) list \<Rightarrow> bool" where
  "storing qd xs \<longleftrightarrow> xs \<noteq> [] \<and> list_all (\<lambda>(ps, ident). stored qd ps ident) xs \<and> distinct (map snd xs)"

definition docs_of :: "(object_t \<times> string) list \<Rightarrow> jsondoc list" where
  "docs_of xs = map (\<lambda>x. doc_of (Obj (fst x))) xs"

lemma export_collection_run:
  assumes laws: "host_laws h held" "writable (ho_files h)" and c: "cl_codec cl = boost_codec kd qd"
    and xs: "storing qd xs" and req: "asks cl h ''exportcollection'' payload opts"
    and read: "read_documents cl (opts\<lparr>op_operation := ''load'', op_format := Format_db\<rparr>) [] (d, w) = (Inr (docs_of xs), (d0, w0))"
    and free: "unused (ho_files h) (temp_dir (next_temp h d0)) d0"
  shows "\<exists>d1 t. json_export_collection cl h payload (d, w) = (Inr (Success (one_name ''result'' (opt_source opts))), (d1, w0)) \<and>
    f_read (ho_files h) (opt_source opts) d1 = Some t \<and> held t = archive_of kd (op_collection opts) xs"
proof -
  let ?k = "next_temp h d0" and ?col = "op_collection opts" and ?src = "opt_source opts"
  have ne: "?col \<noteq> []" "?src \<noteq> []" "docs_of xs \<noteq> []" "hd ?col \<noteq> CHR ''.''" "shell_word ?src"
    using req xs by (simp_all add: asks_def shell_word_def storing_def docs_of_def)
  obtain d1 where d1: "make_temp_dir h d0 = (Inr (temp_dir ?k), d1)" "\<forall>q. f_read (ho_files h) q d1 = f_read (ho_files h) q d0"
    using make_temp_dir_run[OF laws(1)] by blast
  have free1: "unused (ho_files h) (temp_dir ?k) d1" using free d1(2) by (simp add: unused_def)
  have "temp_dir ?k @ ''/'' @ ?col \<noteq> []" by simp
  from export_documents_run[OF c _ _ this host_lawsD(1)[OF laws(1)] laws(2)]
  obtain d2 where d2: "forM (docs_of xs) (export_document cl h (temp_dir ?k @ ''/'' @ ?col)) (d1, w0) = (Inr (), (d2, w0))"
    "\<forall>q. f_read (ho_files h) q d2 = (case map_of (exported_files kd (temp_dir ?k @ ''/'' @ ?col) xs) q of Some t \<Rightarrow> Some t
      | None \<Rightarrow> f_read (ho_files h) q d1)"
    using xs unfolding storing_def docs_of_def by blast
  have cont: "content (ho_files h) (temp_dir ?k) d2 = archive_of kd ?col xs"
    using exported_content[OF _ free1 d2(2)] xs by (simp add: storing_def)
  have pk: "packable (ho_files h) (temp_dir ?k) d2" using archive_packable[OF cont _ ne(1,4)] xs by (simp add: storing_def)
  obtain d3 t where d3: "dir_to_tarbzip2base64 h (temp_dir ?k) ?src d2 = (Inr ?src, d3)" "held t = archive_of kd ?col xs"
      "f_read (ho_files h) ?src d3 = Some t"
    using packed_run[OF laws(1) ne(5) asks_source[OF req] pk] cont by auto
  obtain d4 where d4: "delete_temp_dir h (temp_dir ?k) d3 = (Inr (), d4)" "unchanged_outside (ho_files h) (temp_dir ?k) d3 d4"
    using delete_temp_dir_run[OF laws(1)] by blast
  have "f_read (ho_files h) ?src d4 = Some t" using d4(2) d3(3) asks_source[OF req] by (simp add: unchanged_outside_def)
  moreover have "json_export_collection cl h payload (d, w) = (Inr (Success (one_name ''result'' ?src)), (d4, w0))"
    using read d1(1) d2(1) d3(1) d4(1) ne
    by (simp add: json_export_collection_def asks_run[OF req] noexcept_def changed_options_run bindM_run thenM_run liftE_run
        getter_def on_files_def retM_run)
  ultimately show ?thesis using d3(2) by blast
qed

section \<open>Importing a collection\<close>

lemma unpacked_run:
  assumes "host_laws h held" "shell_word a" "f_read (ho_files h) a d = Some t" "finite (held t)" "held t \<noteq> {}"
    and "unused (ho_files h) (temp_dir k) d"
  shows "\<exists>d' files. tarbzip2base64_to_dir h a (temp_dir k) d = (Inr (temp_dir k), d') \<and>
    list_files h (ho_depth h) (temp_dir k) d' = (Inr files, d') \<and>
    image_mset (\<lambda>q. f_read (ho_files h) q d') (mset files) = image_mset (\<lambda>x. Some (snd x)) (mset_set (held t)) \<and>
    unchanged_outside (ho_files h) (temp_dir k) d d' \<and> [] \<notin> set files"
proof -
  obtain d1 where d1: "mkdir_path h (temp_dir k) d = (Inr True, d1)" "\<forall>q. f_read (ho_files h) q d1 = f_read (ho_files h) q d"
    using mkdir_path_run[OF host_lawsD(2)[OF assms(1)] temp_dir_word] by blast
  have "f_read (ho_files h) a d1 = Some t" "unused (ho_files h) (temp_dir k) d1"
    using d1(2) assms(3,6) by (simp_all add: unused_def)
  then obtain d2 es where d2: "ho_system h (unpack_command a (temp_dir k)) d1 = (0, d2)"
      "laid_out (ho_files h) d2 (temp_dir k) (Directory es)" "fits (ho_depth h) (Directory es)"
      "image_mset (\<lambda>q. f_read (ho_files h) q d2) (mset (files_of (temp_dir k) (Directory es))) =
        image_mset (\<lambda>x. Some (snd x)) (mset_set (held t))" "unchanged_outside (ho_files h) (temp_dir k) d1 d2"
    using host_lawsD(5)[OF assms(1)] assms(2,4,5) unfolding unpack_law_def by blast
  have ne: "temp_dir k \<noteq> []" "a \<noteq> []" using assms(2) by (simp_all add: temp_dir_def tmpdirprefix_def shell_word_def)
  then have "tarbzip2base64_to_dir h a (temp_dir k) d = (Inr (temp_dir k), d2)"
    using d1(1) d2(1) by (simp add: tarbzip2base64_to_dir_def thenM_run bindM_run confirm_run retM_run run_command_def)
  moreover have "unchanged_outside (ho_files h) (temp_dir k) d d2" using d2(5) d1(2) by (simp add: unchanged_outside_def)
  moreover have "[] \<notin> set (files_of (temp_dir k) (Directory es))" using ne(1) by (intro files_named) simp
  ultimately show ?thesis using walk_run[OF d2(2,3) ne(1)] d2(4) by blast
qed

lemma import_document_run:
  assumes "cl_codec cl = boost_codec kd qd" "stored qd ps ident" "file \<noteq> []"
    and "f_read (ho_files h) file d = Some (write_value kd (Obj ps))"
  shows "import_document cl h file (d, w) = (Inr (doc_of (Obj ps)), (d, w))"
proof -
  have "new_builder (doc_of (Obj ps)) (empty_doc, w) = (Inr (), (doc_of (Obj ps), w))"
    using builder_keeps assms(2) by (simp add: stored_def)
  then show ?thesis
    using read_buffer_run[OF assms(3,4)] stored_read[OF assms(2), of kd] assms(1)
    by (simp add: import_document_def bindM_run thenM_run on_files_def liftE_run on_builder_def bld_extract_def retM_run
        del: write_value.simps)
qed

lemma archived_texts:
  assumes "storing qd xs"
  shows "mset_set (archive_of kd collection xs) =
      image_mset (\<lambda>(ps, ident). (collection @ ''/'' @ ident @ ''.json'', write_value kd (Obj ps))) (mset xs)"
    and "finite (archive_of kd collection xs)" "archive_of kd collection xs \<noteq> {}"
proof -
  have "distinct (map snd xs)" using assms by (simp add: storing_def)
  then have d: "distinct xs" "inj_on (\<lambda>(ps, ident). (collection @ ''/'' @ ident @ ''.json'', write_value kd (Obj ps))) (set xs)"
    by (auto simp: distinct_map inj_on_def split_beta)
  show "mset_set (archive_of kd collection xs) =
      image_mset (\<lambda>(ps, ident). (collection @ ''/'' @ ident @ ''.json'', write_value kd (Obj ps))) (mset xs)"
    unfolding archive_of_def using d by (simp add: image_mset_mset_set[symmetric] mset_set_set)
  show "finite (archive_of kd collection xs)" "archive_of kd collection xs \<noteq> {}"
    using assms by (simp_all add: archive_of_def storing_def)
qed

lemma import_documents_run:
  assumes c: "cl_codec cl = boost_codec kd qd" and xs: "storing qd xs" and names: "[] \<notin> set files"
    and texts: "image_mset (\<lambda>q. f_read (ho_files h) q d) (mset files) =
      image_mset (\<lambda>x. Some (snd x)) (mset_set (archive_of kd collection xs))"
  shows "\<exists>docs. forR files (import_document cl h) (d, w) = (Inr docs, (d, w)) \<and> mset docs = mset (docs_of xs)"
proof -
  let ?t = "\<lambda>x. Some (write_value kd (Obj (fst x)))"
  define doc where "doc = (\<lambda>r. case r of None \<Rightarrow> empty_doc | Some t \<Rightarrow>
    (case doc_of_string (boost_codec kd qd) t of Inl _ \<Rightarrow> empty_doc | Inr x \<Rightarrow> x))"
  have again: "doc (?t x) = doc_of (Obj (fst x))" if "x \<in> set xs" for x
  proof -
    have "stored qd (fst x) (snd x)" using xs that by (auto simp: storing_def list_all_iff)
    then show ?thesis by (simp add: doc_def stored_read del: write_value.simps)
  qed
  have m: "image_mset (\<lambda>q. f_read (ho_files h) q d) (mset files) = image_mset ?t (mset xs)"
    unfolding texts archived_texts(1)[OF xs] by (simp add: image_mset.compositionality comp_def split_beta del: write_value.simps)
  have "import_document cl h q (d, w) = (Inr (doc (f_read (ho_files h) q d)), (d, w))" if q: "q \<in> set files" for q
  proof -
    have "f_read (ho_files h) q d \<in># image_mset ?t (mset xs)" using q by (simp add: m[symmetric] del: write_value.simps)
    then obtain x where x: "x \<in> set xs" "f_read (ho_files h) q d = ?t x" by auto
    have "stored qd (fst x) (snd x)" using xs x(1) by (auto simp: storing_def list_all_iff)
    from import_document_run[OF c this _ x(2)] show ?thesis using again[OF x(1)] names q unfolding x(2) by metis
  qed
  then have run: "forR files (import_document cl h) (d, w) = (Inr (map (\<lambda>q. doc (f_read (ho_files h) q d)) files), (d, w))"
    by (rule forR_run)
  have "mset (map (\<lambda>q. doc (f_read (ho_files h) q d)) files) = image_mset doc (image_mset (\<lambda>q. f_read (ho_files h) q d) (mset files))"
    by (simp add: image_mset.compositionality comp_def)
  also have "\<dots> = image_mset (\<lambda>x. doc (?t x)) (mset xs)"
    unfolding m by (simp add: image_mset.compositionality comp_def del: write_value.simps)
  also have "\<dots> = image_mset (\<lambda>x. doc_of (Obj (fst x))) (mset xs)"
    by (rule image_mset_cong) (use again in simp)
  finally show ?thesis using run by (auto simp: docs_of_def)
qed

lemma import_collection_run:
  assumes laws: "host_laws h held" and c: "cl_codec cl = boost_codec kd qd"
    and xs: "storing qd xs" and req: "asks cl h ''importcollection'' payload opts"
    and archive: "f_read (ho_files h) (opt_source opts) d = Some t" "held t = archive_of kd collection xs"
    and free: "unused (ho_files h) (temp_dir (next_temp h d)) d"
  shows "\<exists>docs d1. mset docs = mset (docs_of xs) \<and> unchanged_outside (ho_files h) (temp_dir (next_temp h d)) d d1 \<and>
    json_import_collection cl h payload (d, w) =
      noexcept cl (thenM (write_documents cl (opts\<lparr>op_operation := ''store'', op_format := Format_db\<rparr>) docs)
        (retM (Success (one_name ''source'' (opt_source opts))))) (d1, w)"
proof -
  let ?k = "next_temp h d" and ?src = "opt_source opts"
  have src: "shell_word ?src" "?src \<noteq> []" using req by (simp_all add: asks_def shell_word_def)
  obtain d1 where d1: "make_temp_dir h d = (Inr (temp_dir ?k), d1)" "\<forall>q. f_read (ho_files h) q d1 = f_read (ho_files h) q d"
    using make_temp_dir_run[OF laws] by blast
  have "unused (ho_files h) (temp_dir ?k) d1" "f_read (ho_files h) ?src d1 = Some t" using free archive(1) d1(2) by (simp_all add: unused_def)
  moreover have "finite (held t)" "held t \<noteq> {}" using archived_texts(2,3)[OF xs] archive(2) by simp_all
  ultimately obtain d2 files where d2: "tarbzip2base64_to_dir h ?src (temp_dir ?k) d1 = (Inr (temp_dir ?k), d2)"
      "list_files h (ho_depth h) (temp_dir ?k) d2 = (Inr files, d2)"
      "image_mset (\<lambda>q. f_read (ho_files h) q d2) (mset files) = image_mset (\<lambda>x. Some (snd x)) (mset_set (held t))"
      "unchanged_outside (ho_files h) (temp_dir ?k) d1 d2" "[] \<notin> set files"
    using unpacked_run[OF laws src(1)] by blast
  obtain docs where docs: "forR files (import_document cl h) (d2, w) = (Inr docs, (d2, w))" "mset docs = mset (docs_of xs)"
    using import_documents_run[OF c xs d2(5) d2(3)[unfolded archive(2)]] by blast
  obtain d3 where d3: "delete_temp_dir h (temp_dir ?k) d2 = (Inr (), d3)" "unchanged_outside (ho_files h) (temp_dir ?k) d2 d3"
    using delete_temp_dir_run[OF laws] by blast
  have ne: "docs \<noteq> []" using docs(2) xs by (auto simp: docs_of_def storing_def)
  have "unchanged_outside (ho_files h) (temp_dir ?k) d d3"
    using d1(2) d2(4) d3(2) by (simp add: unchanged_outside_def)
  moreover have "json_import_collection cl h payload (d, w) =
      noexcept cl (thenM (write_documents cl (opts\<lparr>op_operation := ''store'', op_format := Format_db\<rparr>) docs)
        (retM (Success (one_name ''source'' ?src)))) (d3, w)"
    using d1(1) d2(1,2) docs(1) d3(1) ne src(2)
    by (simp add: json_import_collection_def asks_run[OF req] noexcept_def changed_options_run bindM_run thenM_run liftE_run
        getter_def on_files_def)
  ultimately show ?thesis using docs(2) by blast
qed


section \<open>Databases\<close>

lemma bulk_nothing: "bulk_loop operation dir name [] opts s = (Inr ([], []), s)"
  by (simp add: retM_run)

lemma bulk_skips:
  assumes "\<And>x. x \<in> set xs \<Longrightarrow> name x = Inr None"
  shows "bulk_loop operation dir name xs opts s = (Inr ([], []), s)"
  using assms by (induction xs) (simp_all add: retM_run bindM_run liftE_run)

lemma empty_list_text: "bulk_result key ([], []) = Success (''{'' @ quoted key @ '':'' @ '']}'')"
  by (simp add: bulk_result_def name_list_def butlast_append)

text \<open>Importing a directory without any archive succeeds, but the list of files is not JSON: the
  bracket that is to overwrite the last comma overwrites the opening one.\<close>

theorem import_of_nothing_not_json:
  assumes "asks cl h ''importdatabase'' payload opts" "cl_codec cl = boost_codec kd qd" "refuses_other qd"
    and "laid_out (ho_files h) d (opt_source opts) (Directory es)" "fits (ho_depth h) (Directory es)"
    and "\<And>file. file \<in> set (files_of (opt_source opts) (Directory es)) \<Longrightarrow>
      extract_collectionname_from_filename (ho_files h) file = Inr None"
  shows "json_import_database cl h payload (d, w) = (Inr (Success ''{\"source\":]}''), (d, w)) \<and>
    c_read (cl_codec cl) ''{\"source\":]}'' = Inr None"
proof -
  have src: "opt_source opts \<noteq> []" using assms(1) by (simp add: asks_def shell_word_def)
  define files where "files = files_of (opt_source opts) (Directory es)"
  have b: "bulk_loop operation dir (extract_collectionname_from_filename (ho_files h)) files opts' s = (Inr ([], []), s)"
    for operation dir opts' s using assms(6) unfolding files_def by (rule bulk_skips)
  have "json_import_database cl h payload (d, w) = (Inr (Success ''{\"source\":]}''), (d, w))"
    using walk_run[OF assms(4,5) src, folded files_def] src
    by (simp add: json_import_database_def asks_run[OF assms(1)] noexcept_def changed_options_run bindM_run liftE_run getter_def
        on_files_def retM_run empty_list_text b quoted_def dquote_def)
  moreover have "json_parse qd ''{\"source\":]}'' = None"
  proof -
    have q: "qd '']}'' = None" using assms(3) by (simp add: refuses_other_def)
    have b: "p_bool '']}'' = None" by code_simp
    have l: "p_lit (CHR ''}'') [CHR 0x22, CHR ''s'', CHR ''o'', CHR ''u'', CHR ''r'', CHR ''c'', CHR ''e'', CHR 0x22, CHR '':'', CHR '']'', CHR ''}''] = None"
      by code_simp
    show ?thesis by code_simp (simp add: q b l)
  qed
  ultimately show ?thesis using assms(2) by (simp add: boost_codec_def json_read_def)
qed

section \<open>A host that has the laws\<close>

text \<open>A disk whose archives are the texts of a list of names and contents, in a code that marks every
  character; unpacking numbers the files.\<close>

definition encode_text :: "string \<Rightarrow> string" where
  "encode_text s = concat (map (\<lambda>c. [CHR ''c'', c]) s) @ ''e''"

fun decode_texts :: "string \<Rightarrow> string \<Rightarrow> string list" where
  "decode_texts cur (m # s) =
     (if m = CHR ''e'' then cur # decode_texts [] s
      else case s of [] \<Rightarrow> [] | c # s' \<Rightarrow> decode_texts (cur @ [c]) s')"
| "decode_texts cur [] = []"

fun paired :: "string list \<Rightarrow> (string \<times> string) list" where
  "paired (a # b # xs) = (a, b) # paired xs"
| "paired xs = []"

definition pack_files :: "(string \<times> string) list \<Rightarrow> string" where
  "pack_files fs = concat (map (\<lambda>(n, t). encode_text n @ encode_text t) fs)"

definition unpack_files :: "string \<Rightarrow> (string \<times> string) list" where
  "unpack_files t = remdups (paired (decode_texts [] t))"

lemma decode_text: "decode_texts cur (encode_text s @ rest) = (cur @ s) # decode_texts [] rest"
  by (induction s arbitrary: cur) (simp_all add: encode_text_def)

lemma unpack_pack: "unpack_files (pack_files fs) = remdups fs"
proof -
  have "paired (decode_texts [] (pack_files fs)) = fs"
    by (induction fs) (auto simp: pack_files_def decode_text)
  then show ?thesis by (simp add: unpack_files_def)
qed

definition numbered :: "string \<Rightarrow> string list \<Rightarrow> disk" where
  "numbered p ts = zip (map (\<lambda>i. p @ CHR ''/'' # replicate (Suc i) (CHR ''x'')) [0..<length ts]) ts"

definition demo_files :: "disk files" where
  "demo_files = posix\<lparr>f_exists := (\<lambda>_ _. True)\<rparr>"

definition files_below :: "string \<Rightarrow> disk \<Rightarrow> (string \<times> string) list" where
  "files_below p d = map (\<lambda>q. (drop (Suc (length p)) q, the (map_of d q))) (filter (prefix (p @ ''/'')) (remdups (map fst d)))"

definition demo_system :: "string \<Rightarrow> disk \<Rightarrow> int \<times> disk" where
  "demo_system command d =
     (let ws = words_from [] command in
      if take 1 ws = [''mkdir''] then (0, d)
      else if take 1 ws = [''rm''] then (0, filter (\<lambda>x. \<not> prefix (last ws) (fst x)) d)
      else if take 1 ws = [''tar''] then (0, (last ws, pack_files (files_below (ws ! 5) d)) # d)
      else case map_of d (ws ! 1) of
          None \<Rightarrow> (1, d)
        | Some t \<Rightarrow> (0, numbered (last ws) (map snd (unpack_files t)) @ d))"

definition demo_host :: "disk host" where
  "demo_host = \<lparr>ho_files = demo_files, ho_available = True, ho_system = demo_system, ho_time = (\<lambda>_. 0), ho_rand = id, ho_depth = 1\<rparr>"

lemma demo_files_laws: "file_laws demo_files" "writable demo_files"
  by (auto simp: file_laws_def writable_def demo_files_def posix_def)

lemma demo_read [simp]: "f_read demo_files q d = map_of d q"
  by (simp add: demo_files_def posix_def)

lemma words_word: "shell_word p \<Longrightarrow> words_from [] (p @ s) = words_from p s"
  using words_from_run[of p "[]" s] by (simp add: shell_word_def)

lemma words_last: "shell_word p \<Longrightarrow> words_from [] p = [p]"
  using words_word[of p "[]"] by (simp add: shell_word_def)

lemma command_words:
  assumes "shell_word p"
  shows "words_from [] (''mkdir -p '' @ p) = [''mkdir'', ''-p'', p]" "words_from [] (''rm -rf '' @ p) = [''rm'', ''-rf'', p]"
    and "shell_word a \<Longrightarrow> words_from [] (pack_command p a) =
      [''tar'', ''cjf'', ''-'', p @ ''/*'', ''-C'', p, ''2>/dev/null|base64'', ''--wrap=0'', ''>'', a]"
    and "shell_word a \<Longrightarrow> words_from [] (unpack_command a p) =
      [''cat'', a, ''|base64'', ''-d'', ''|tar'', ''xjf'', ''-'', ''-C'', p]"
proof -
  have p: "p \<noteq> []" using assms by (simp add: shell_word_def)
  show "words_from [] (''mkdir -p '' @ p) = [''mkdir'', ''-p'', p]" "words_from [] (''rm -rf '' @ p) = [''rm'', ''-rf'', p]"
    using words_last[OF assms] by (simp_all add: is_space_def)
  assume a: "shell_word a"
  then have ne: "a \<noteq> []" by (simp add: shell_word_def)
  show "words_from [] (pack_command p a) =
      [''tar'', ''cjf'', ''-'', p @ ''/*'', ''-C'', p, ''2>/dev/null|base64'', ''--wrap=0'', ''>'', a]"
    using words_last[OF a] p by (simp add: pack_command_def is_space_def words_word[OF assms])
  show "words_from [] (unpack_command a p) = [''cat'', a, ''|base64'', ''-d'', ''|tar'', ''xjf'', ''-'', ''-C'', p]"
    using words_last[OF assms] ne by (simp add: unpack_command_def is_space_def words_word[OF a])
qed

lemma files_below_content: "set (files_below p d) = content demo_files p d"
proof -
  have "(r, t) \<in> set (files_below p d) \<longleftrightarrow> map_of d (p @ CHR ''/'' # r) = Some t" for r t
  proof
    assume "(r, t) \<in> set (files_below p d)"
    then obtain q where q: "q \<in> fst ` set d" "prefix (p @ ''/'') q" "r = drop (Suc (length p)) q" "t = the (map_of d q)"
      by (auto simp: files_below_def)
    then have "q = p @ CHR ''/'' # r" by (auto simp: prefix_def)
    moreover have "map_of d q \<noteq> None" using q(1) by (simp add: map_of_eq_None_iff)
    ultimately show "map_of d (p @ CHR ''/'' # r) = Some t" using q(4) by auto
  next
    assume s: "map_of d (p @ CHR ''/'' # r) = Some t"
    then have k: "p @ CHR ''/'' # r \<in> fst ` set d" by (metis map_of_eq_None_iff option.distinct(1))
    show "(r, t) \<in> set (files_below p d)"
      unfolding files_below_def set_map
      by (rule image_eqI[where x = "p @ CHR ''/'' # r"]) (use s k in \<open>auto simp: prefix_def\<close>)
  qed
  then show ?thesis by (auto simp: content_def)
qed

lemma numbered_facts:
  shows "map fst (numbered p ts) = map (\<lambda>i. p @ CHR ''/'' # replicate (Suc i) (CHR ''x'')) [0..<length ts]"
    and "distinct (map fst (numbered p ts))" "map snd (numbered p ts) = ts"
proof -
  show n: "map fst (numbered p ts) = map (\<lambda>i. p @ CHR ''/'' # replicate (Suc i) (CHR ''x'')) [0..<length ts]"
    by (simp add: numbered_def)
  have "inj_on (\<lambda>i. p @ CHR ''/'' # replicate (Suc i) (CHR ''x'')) (set [0..<length ts])"
    by (auto simp: inj_on_def replicate_eq_replicate)
  then show "distinct (map fst (numbered p ts))" unfolding n by (simp add: distinct_map)
  show "map snd (numbered p ts) = ts" by (simp add: numbered_def)
qed

lemma remdups_fresh: "distinct xs \<Longrightarrow> set xs \<inter> set ys = {} \<Longrightarrow> remdups (xs @ ys) = xs @ remdups ys"
  by (induction xs) auto

lemma parent_below: "posix_parent (p @ CHR ''/'' # replicate n (CHR ''x'')) = p"
proof -
  have "dropWhile (\<lambda>c. c \<noteq> CHR ''/'') (replicate n (CHR ''x'') @ CHR ''/'' # rev p) = CHR ''/'' # rev p"
    by (induction n) simp_all
  then show ?thesis by (simp add: posix_parent_def)
qed

lemma parent_prefix:
  assumes "posix_parent q = p" "p \<noteq> []"
  shows "prefix p q"
proof -
  have "rev q = takeWhile (\<lambda>c. c \<noteq> CHR ''/'') (rev q) @ dropWhile (\<lambda>c. c \<noteq> CHR ''/'') (rev q)" by simp
  moreover have "dropWhile (\<lambda>c. c \<noteq> CHR ''/'') (rev q) = take 1 (dropWhile (\<lambda>c. c \<noteq> CHR ''/'') (rev q)) @ rev p"
    using assms(1) by (auto simp: posix_parent_def)
  ultimately have "rev q = (takeWhile (\<lambda>c. c \<noteq> CHR ''/'') (rev q) @ take 1 (dropWhile (\<lambda>c. c \<noteq> CHR ''/'') (rev q))) @ rev p"
    by simp
  from arg_cong[OF this, of rev] have "q = p @ rev (takeWhile (\<lambda>c. c \<noteq> CHR ''/'') (rev q) @ take 1 (dropWhile (\<lambda>c. c \<noteq> CHR ''/'') (rev q)))"
    by simp
  then show ?thesis by (rule prefixI)
qed

lemma unpacked_layout:
  assumes "\<forall>q. prefix p q \<longrightarrow> map_of d q = None" "p \<noteq> []"
  shows "laid_out demo_files (numbered p ts @ d) p
    (Directory (map (\<lambda>i. (replicate (Suc i) (CHR ''x''), Regular)) [0..<length ts]))"
proof -
  let ?d = "numbered p ts @ d" and ?n = "\<lambda>i. p @ CHR ''/'' # replicate (Suc i) (CHR ''x'')"
  have keys: "q \<notin> fst ` set d" if "prefix p q" for q using assms(1) that by (metis map_of_eq_None_iff)
  have old: "filter (\<lambda>q. posix_parent q = p) (remdups (map fst d)) = []"
    using parent_prefix[OF _ assms(2)] keys by (auto simp: filter_empty_conv)
  have new: "set (map fst (numbered p ts)) \<inter> set (map fst d) = {}"
  proof -
    have "prefix p q" if "q \<in> set (map fst (numbered p ts))" for q using that unfolding numbered_facts(1) by (auto simp: prefix_def)
    then show ?thesis using keys by auto
  qed
  have rd: "remdups (map fst ?d) = map fst (numbered p ts) @ remdups (map fst d)"
    using remdups_fresh[OF numbered_facts(2) new] by simp
  have own: "filter (\<lambda>q. posix_parent q = p) (map fst (numbered p ts)) = map fst (numbered p ts)"
    unfolding numbered_facts(1) using parent_below[of p "Suc _"] by (intro filter_True) (auto simp del: replicate_Suc)
  have e: "f_entries demo_files p ?d = map ?n [0..<length ts]"
    using rd own old numbered_facts(1)[of p ts] by (simp add: demo_files_def posix_def)
  have none: "map_of ?d p = None"
  proof -
    have "p \<notin> set (map fst (numbered p ts))" unfolding numbered_facts(1) by auto
    then show ?thesis using keys[of p] by (simp add: map_of_eq_None_iff)
  qed
  have "map_of ?d (?n i) \<noteq> None" if "i < length ts" for i
  proof -
    have "?n i \<in> set (map fst (numbered p ts))" unfolding numbered_facts(1) using that by auto
    then show ?thesis by (simp add: map_of_eq_None_iff)
  qed
  then show ?thesis using e none
    by (simp add: list_all_iff demo_files_def posix_def comp_def del: replicate_Suc map_of_append)
qed

lemma unpacked_texts:
  assumes "\<forall>q. prefix p q \<longrightarrow> map_of d q = None"
  shows "image_mset (map_of (numbered p ts @ d))
    (mset (files_of p (Directory (map (\<lambda>i. (replicate (Suc i) (CHR ''x''), Regular)) [0..<length ts])))) = image_mset Some (mset ts)"
proof -
  have f: "files_of p (Directory (map (\<lambda>i. (replicate (Suc i) (CHR ''x''), Regular)) [0..<length ts])) = map fst (numbered p ts)"
    unfolding numbered_facts(1) by (simp add: comp_def)
  have "map (map_of (numbered p ts @ d)) (map fst (numbered p ts)) = map Some (map snd (numbered p ts))"
    using map_of_is_SomeI[OF numbered_facts(2)[of p ts]] by (auto simp: map_add_def split: option.split)
  then show ?thesis unfolding f numbered_facts(3) by (metis mset_map)
qed

definition demo_held :: "string \<Rightarrow> (string \<times> string) set" where
  "demo_held t = set (unpack_files t)"

lemma unpacked_distinct: "distinct (unpack_files t)"
  by (simp add: unpack_files_def)

lemma demo_runs:
  assumes "shell_word p"
  shows "demo_system (''mkdir -p '' @ p) d = (0, d)"
    and "demo_system (''rm -rf '' @ p) d = (0, filter (\<lambda>x. \<not> prefix p (fst x)) d)"
    and "shell_word a \<Longrightarrow> demo_system (pack_command p a) d = (0, (a, pack_files (files_below p d)) # d)"
    and "shell_word a \<Longrightarrow> map_of d a = Some t \<Longrightarrow>
      demo_system (unpack_command a p) d = (0, numbered p (map snd (unpack_files t)) @ d)"
  unfolding demo_system_def Let_def command_words(1)[OF assms] command_words(2)[OF assms] command_words(3)[OF assms]
    command_words(4)[OF assms]
  by simp_all

lemma map_of_kept: "P q \<Longrightarrow> map_of (filter (\<lambda>x. P (fst x)) d) q = map_of d q"
  by (induction d) auto

lemma demo_host_simps [simp]:
  "ho_files demo_host = demo_files" "ho_available demo_host" "ho_system demo_host = demo_system" "ho_depth demo_host = 1"
  "ho_time demo_host d = 0" "ho_rand demo_host k = k"
  by (simp_all add: demo_host_def)

lemma demo_unpacks: "unpack_law demo_host demo_held"
  unfolding unpack_law_def
proof (intro allI impI)
  fix k a t d
  assume a: "shell_word a" "f_read (ho_files demo_host) a d = Some t" "finite (demo_held t)" "demo_held t \<noteq> {}"
    and free: "unused (ho_files demo_host) (temp_dir k) d"
  let ?p = "temp_dir k" and ?ts = "map snd (unpack_files t)"
  let ?es = "map (\<lambda>i. (replicate (Suc i) (CHR ''x''), Regular)) [0..<length ?ts]"
  have none: "\<forall>q. prefix ?p q \<longrightarrow> map_of d q = None" using free by (simp add: unused_def)
  have ne: "?p \<noteq> []" by (simp add: temp_dir_def tmpdirprefix_def)
  have "image_mset (map_of (numbered ?p ?ts @ d)) (mset (files_of ?p (Directory ?es))) = image_mset Some (mset ?ts)"
    by (rule unpacked_texts[OF none])
  also have "\<dots> = image_mset (\<lambda>x. Some (snd x)) (mset_set (demo_held t))"
    unfolding demo_held_def mset_set_set[OF unpacked_distinct] by (simp add: image_mset.compositionality comp_def)
  finally have m: "image_mset (\<lambda>q. f_read (ho_files demo_host) q (numbered ?p ?ts @ d)) (mset (files_of ?p (Directory ?es))) =
      image_mset (\<lambda>x. Some (snd x)) (mset_set (demo_held t))" by simp
  have outside: "unchanged_outside (ho_files demo_host) ?p d (numbered ?p ?ts @ d)"
  proof -
    have "map_of (numbered ?p ?ts) q = None" if "\<not> prefix ?p q" for q
    proof -
      have "q \<notin> set (map fst (numbered ?p ?ts))" using that unfolding numbered_facts(1) by (auto simp: prefix_def)
      then show ?thesis by (simp add: map_of_eq_None_iff)
    qed
    then show ?thesis by (simp add: unchanged_outside_def map_add_def)
  qed
  have "fits (ho_depth demo_host) (Directory ?es)" by (simp add: list_all_iff)
  moreover have "ho_system demo_host (unpack_command a ?p) d = (0, numbered ?p ?ts @ d)"
    using demo_runs(4)[OF temp_dir_word a(1)] a(2) by simp
  moreover have "laid_out (ho_files demo_host) (numbered ?p ?ts @ d) ?p (Directory ?es)"
    unfolding demo_host_simps by (rule unpacked_layout[OF none ne])
  ultimately show "\<exists>d' es. ho_system demo_host (unpack_command a ?p) d = (0, d') \<and>
      laid_out (ho_files demo_host) d' ?p (Directory es) \<and> fits (ho_depth demo_host) (Directory es) \<and>
      image_mset (\<lambda>q. f_read (ho_files demo_host) q d') (mset (files_of ?p (Directory es))) =
        image_mset (\<lambda>x. Some (snd x)) (mset_set (demo_held t)) \<and>
      unchanged_outside (ho_files demo_host) ?p d d'"
    using m outside by blast
qed

lemma demo_host_laws: "host_laws demo_host demo_held"
  unfolding host_laws_def
proof (intro conjI)
  show "file_laws (ho_files demo_host)" using demo_files_laws(1) by simp
  show "mkdir_law demo_host" unfolding mkdir_law_def demo_host_simps using demo_runs(1) by blast
  have "unchanged_outside demo_files p d (filter (\<lambda>x. \<not> prefix p (fst x)) d)" for p d
    by (simp add: unchanged_outside_def map_of_kept[of "\<lambda>q. \<not> prefix p q"])
  then show "remove_law demo_host"
    unfolding remove_law_def demo_host_simps using demo_runs(2)[OF temp_dir_word] by blast
  have "demo_held (pack_files (files_below p d)) = content demo_files p d" for p d
    by (simp add: demo_held_def unpack_pack files_below_content)
  then show "pack_law demo_host demo_held"
    unfolding pack_law_def demo_host_simps demo_read using demo_runs(3)[OF temp_dir_word] by fastforce
  show "unpack_law demo_host demo_held" by (rule demo_unpacks)
qed

definition demo_members :: object_t where
  "demo_members = (case demo_record of Obj ps \<Rightarrow> ps | _ \<Rightarrow> [])"

definition demo_ouid :: string where
  "demo_ouid = (case getObjectOUID demo_record of Inr s \<Rightarrow> s | Inl _ \<Rightarrow> [])"

text \<open>A client of a store that holds one record.\<close>

definition demo_exporter :: "disk client" where
  "demo_exporter =
     (let st = \<lparr>st_provider = ''filesystem'', st_codec = demo_codec, st_write = (\<lambda>_. retM []),
          st_read = (\<lambda>_. retM [doc_of demo_record]), st_configurations = (\<lambda>_. retM []), st_composition = (\<lambda>_. retM []),
          st_versions = (\<lambda>_. retM []), st_entities = (\<lambda>_. retM []), st_collections = (\<lambda>_. retM []),
          st_databases = (\<lambda>_. retM []), st_metadata = (\<lambda>_. retM []), st_search = (\<lambda>_. retM [])\<rparr>;
        be = mongo_backend st demo_env in
      \<lparr>cl_codec = demo_codec, cl_env = demo_env, cl_mongo = be, cl_filesystem = be, cl_ucon = be, cl_fhicl_to_ast = None,
       cl_write_fhicl = (\<lambda>_. Inr None), cl_xml_to_json = (\<lambda>_. Inr None), cl_json_to_xml = (\<lambda>_. Inr None),
       cl_write_xml = (\<lambda>_. Inr None), cl_diagnostic = (\<lambda>_. ''failed'')\<rparr>)"

definition demo_request :: "string \<Rightarrow> string" where
  "demo_request operation =
     ''{'' @ json_pair ''operation'' operation @ '','' @ json_pair ''collection'' ''c'' @ '','' @ json_pair ''source'' ''/e/c'' @ ''}''"

definition demo_asked :: "string \<Rightarrow> document_options" where
  "demo_asked operation =
     (new_document_options demo_env operation)\<lparr>op_operation := operation, op_collection := ''c'', opt_source := ''/e/c''\<rparr>"

lemma demo_asks:
  "asks demo_exporter demo_host ''exportcollection'' (demo_request ''exportcollection'') (demo_asked ''exportcollection'')"
  "asks demo_exporter demo_host ''importcollection'' (demo_request ''importcollection'') (demo_asked ''importcollection'')"
  unfolding asks_def by code_simp+

lemma demo_stored: "storing no_doubles [(demo_members, demo_ouid)]" "Obj demo_members = demo_record"
proof -
  have "printable (Obj demo_members)" "wf_record (Obj demo_members)" "getObjectOUID (Obj demo_members) = Inr demo_ouid" by code_simp+
  moreover have "refuses_other no_doubles" by (simp add: refuses_other_def no_doubles_def)
  ultimately show "storing no_doubles [(demo_members, demo_ouid)]"
    by (simp add: storing_def stored_def boost_ok_def del: printable.simps)
  show "Obj demo_members = demo_record" by code_simp
qed

lemma demo_reads:
  "read_documents demo_exporter ((demo_asked ''exportcollection'')\<lparr>op_operation := ''load'', op_format := Format_db\<rparr>) [] ([], demo_world) =
    (Inr (docs_of [(demo_members, demo_ouid)]), ([], demo_world))"
proof -
  let ?o = "(demo_asked ''exportcollection'')\<lparr>op_operation := ''load'', op_format := Format_db\<rparr>"
  have "case bindE (search_text demo_codec ?o '','') (doc_of_string demo_codec) of Inr d \<Rightarrow> True | Inl _ \<Rightarrow> False" by code_simp
  then obtain q where q: "bindE (search_text demo_codec ?o '','') (doc_of_string demo_codec) = Inr q" by (auto split: sum.splits)
  have o: "op_operation ?o = ''load''" "op_provider ?o = ''filesystem''" by code_simp+
  then have v: "validate_dbprovider_name (op_provider ?o) = Inr ()" by simp code_simp
  have d: "docs_of [(demo_members, demo_ouid)] = [doc_of demo_record]" by (simp add: docs_of_def demo_stored(2))
  show ?thesis using q o v unfolding d
    by (simp add: read_documents_def demo_exporter_def Let_def thenM_run bindM_run confirm_run liftE_run getter_def dispatch_def
        backend_of_def mongo_backend_def mongo_readDocuments_def read_all_from_def checked_options_def require_options_def retM_run)
qed


end
