(* ===== verification/Fhicl.thy ===== *)
theory Fhicl
  imports StringHelpers JsonCodec "HOL-Library.Sublist"
begin

text \<open>
  The conversion between FHiCL and JSON: DataFormats/Fhicl/convertfhicl2jsondb.cpp and
  helper\_functions.cpp.  What fhiclcpp's parser returns is the input of the model: the tags,
  protections and extended values of its interface, with the members the code reads.
\<close>

section \<open>Values of fhiclcpp\<close>

datatype value_tag =
    Tag_UNKNOWN | Tag_NIL | Tag_STRING | Tag_BOOL | Tag_NUMBER | Tag_COMPLEX | Tag_SEQUENCE | Tag_TABLE | Tag_TABLEID
  | Tag_other      \<comment> \<open>any tag the code has no case for\<close>

datatype protection = NONE | PROTECT_IGNORE | PROTECT_ERROR | PROTECT_other

text \<open>The text of a scalar, the elements of a sequence, the members of a table (a map, so with
  different keys), the source line, the protection and the section.\<close>

datatype extended_value =
  Extended (ev_tag: value_tag) (ev_raw: string) (ev_sequence: "extended_value list")
    (ev_table: "(string \<times> extended_value) list") (ev_src_info: string) (ev_protection: protection) (ev_in_prolog: bool)

section \<open>Values of the writer\<close>

text \<open>The variant of fhicl\_types.h, an annotated value, and an atom: a key with its comment.\<close>

datatype fcl_variant =
    Fcl_table "fcl_atom list"
  | Fcl_sequence "fcl_value list"
  | Fcl_string string
  | Fcl_decimal "64 word"
  | Fcl_integer "64 word"
  | Fcl_bool bool
and fcl_value = Fcl_value (fv_value: fcl_variant) (fv_annotation: "string option")
and fcl_atom = Fcl_atom (fa_key: string) (fa_comment: "string option") (fa_value: fcl_value)

section \<open>Helper functions\<close>

definition to_json_char :: "char \<Rightarrow> string" where
  "to_json_char c =
     (if c = dquote then [CHR 0x5C, dquote]
      else if c = CHR 0x5C then [CHR 0x5C, CHR 0x5C]
      else if c = CHR 0x08 then [CHR 0x5C, CHR ''b'']
      else if c = CHR 0x0C then [CHR 0x5C, CHR ''f'']
      else if c = CHR 0x0A then [CHR 0x5C, CHR ''n'']
      else if c = CHR 0x0D then [CHR 0x5C, CHR ''r'']
      else if c = CHR 0x09 then [CHR 0x5C, CHR ''t'']
      else [c])"

definition to_json_string :: "string \<Rightarrow> string" where
  "to_json_string str = concat (map to_json_char str)"

text \<open>What stands behind a backslash; an unknown escape, and a backslash at the end, where the
  terminating NUL is read, leave nothing.\<close>

definition from_json_char :: "char \<Rightarrow> string" where
  "from_json_char c =
     (if c = CHR 0x5C then [CHR 0x5C]
      else if c = dquote then [dquote]
      else if c = CHR ''b'' then [CHR 0x08]
      else if c = CHR ''f'' then [CHR 0x0C]
      else if c = CHR ''n'' then [CHR 0x0A]
      else if c = CHR ''r'' then [CHR 0x0D]
      else if c = CHR ''t'' then [CHR 0x09]
      else [])"

fun from_json_string :: "string \<Rightarrow> string" where
  "from_json_string [] = []"
| "from_json_string (c # s) =
     (if c \<noteq> CHR 0x5C then c # from_json_string s
      else case s of [] \<Rightarrow> [] | d # s' \<Rightarrow> from_json_char d @ from_json_string s')"

text \<open>The pattern is a quote, and so is the replacement.\<close>

definition unescape :: "string \<Rightarrow> string" where
  "unescape str = map (\<lambda>c. if c = dquote then dquote else c) str"

fun tag_as_string :: "value_tag \<Rightarrow> string" where
  "tag_as_string Tag_NIL = ''nil''"
| "tag_as_string Tag_STRING = ''string''"
| "tag_as_string Tag_BOOL = ''bool''"
| "tag_as_string Tag_NUMBER = ''number''"
| "tag_as_string Tag_COMPLEX = ''complex''"
| "tag_as_string Tag_SEQUENCE = ''sequence''"
| "tag_as_string Tag_TABLE = ''table''"
| "tag_as_string Tag_TABLEID = ''tableid''"
| "tag_as_string _ = ''unknown''"

definition string_as_tag :: "string \<Rightarrow> exn + value_tag" where
  "string_as_tag str =
     (if str = ''nil'' then Inr Tag_NIL
      else if str \<in> {''string'', ''string_unquoted'', ''string_singlequoted'', ''string_doublequoted''} then Inr Tag_STRING
      else if str = ''bool'' then Inr Tag_BOOL
      else if str = ''number'' then Inr Tag_NUMBER
      else if str = ''complex'' then Inr Tag_COMPLEX
      else if str = ''sequence'' then Inr Tag_SEQUENCE
      else if str = ''table'' then Inr Tag_TABLE
      else if str = ''tableid'' then Inr Tag_TABLEID
      else Inl Fhicl_exception)"

fun protection_as_string :: "protection \<Rightarrow> string" where
  "protection_as_string PROTECT_IGNORE = ''@protect_ignore''"
| "protection_as_string PROTECT_ERROR = ''@protect_error''"
| "protection_as_string _ = ''@none''"

definition string_as_protection :: "string \<Rightarrow> exn + protection" where
  "string_as_protection str =
     (if str = [] \<or> str = ''@none'' then Inr NONE
      else if str = ''@protect_ignore'' then Inr PROTECT_IGNORE
      else if str = ''@protect_error'' then Inr PROTECT_ERROR
      else Inl Fhicl_exception)"

definition need_quotes :: "string \<Rightarrow> bool" where
  "need_quotes text \<longleftrightarrow> list_ex (\<lambda>c. c \<in> set '' .%()/-'' \<or> c = CHR 0x5C) text"

section \<open>Trimming lines\<close>

text \<open>\<open>buffer_rtrim_lines\<close>: two pointers into the buffer, the text of a line moved down to the
  writing one.\<close>

definition is_blank :: "char \<Rightarrow> bool" where
  "is_blank c \<longleftrightarrow> c = CHR '' '' \<or> c = CHR 0x09 \<or> c = CHR 0x0D"

text \<open>The end of the line without the blanks before it, not below \<open>read\<close>.\<close>

fun line_end :: "string \<Rightarrow> nat \<Rightarrow> nat \<Rightarrow> nat" where
  "line_end buffer r 0 = 0"
| "line_end buffer r (Suc e) = (if r \<le> e \<and> is_blank (buffer ! e) then line_end buffer r e else Suc e)"

definition memmove :: "string \<Rightarrow> nat \<Rightarrow> nat \<Rightarrow> nat \<Rightarrow> string" where
  "memmove buffer w r len =
     map (\<lambda>i. if w \<le> i \<and> i < w + len then buffer ! (r + i - w) else buffer ! i) [0..<length buffer]"

definition memchr :: "string \<Rightarrow> nat \<Rightarrow> char \<Rightarrow> nat option" where
  "memchr buffer r c =
     (let n = length (takeWhile (\<lambda>d. d \<noteq> c) (drop r buffer)) in if r + n < length buffer then Some (r + n) else None)"

function trim_loop :: "string \<Rightarrow> nat \<Rightarrow> nat \<Rightarrow> string \<times> nat" where
  "trim_loop buffer w r =
     (if r < length buffer then
        (let nl = memchr buffer r (CHR 0x0A);
             len = line_end buffer r (case nl of None \<Rightarrow> length buffer | Some n \<Rightarrow> n) - r;
             buffer' = (if w \<noteq> r then memmove buffer w r len else buffer) in
         case nl of
           None \<Rightarrow> (buffer', w + len)
         | Some n \<Rightarrow> trim_loop (buffer'[w + len := CHR 0x0A]) (w + len + 1) (n + 1))
      else (buffer, w))"
  by pat_completeness auto

lemma memchr_bounds: "memchr buffer r c = Some n \<Longrightarrow> r \<le> n \<and> n < length buffer"
  by (auto simp: memchr_def Let_def split: if_splits)

termination trim_loop
  by (relation "measure (\<lambda>(buffer, w, r). length buffer - r)") (auto simp: memmove_def dest!: memchr_bounds[OF sym] split: if_splits)

declare trim_loop.simps [simp del]

definition buffer_rtrim_lines :: "string \<Rightarrow> string" where
  "buffer_rtrim_lines buffer =
     (if buffer = [] then []
      else case trim_loop buffer 0 0 of (b, n) \<Rightarrow>
        if n = 0 \<or> b ! (n - 1) \<noteq> CHR 0x0A then take n b @ [CHR 0x0A] else take n b)"

section \<open>From FHiCL to JSON\<close>

text \<open>Line numbers are 64-bit integers; the only arithmetic on them is taking one away.\<close>

type_synonym comments_t = "(int \<times> string) list"

record extra_opts =
  readProlog :: bool
  readMain :: bool

definition prolog_mode :: extra_opts where
  "prolog_mode = \<lparr>readProlog = True, readMain = False\<rparr>"

definition default_mode :: extra_opts where
  "default_mode = \<lparr>readProlog = False, readMain = True\<rparr>"

definition combined_mode :: extra_opts where
  "combined_mode = \<lparr>readProlog = True, readMain = True\<rparr>"

text \<open>\<open>boost::lexical_cast<int64_t>\<close>.\<close>

definition lexical_integer :: "string \<Rightarrow> int option" where
  "lexical_integer s =
     (let ds = (if s \<noteq> [] \<and> (hd s = CHR ''-'' \<or> hd s = CHR ''+'') then tl s else s);
          n = int (digits_value 0 ds);
          i = (if s \<noteq> [] \<and> hd s = CHR ''-'' then - n else n) in
      if ds \<noteq> [] \<and> list_all is_digit ds \<and> - (2 ^ 63) \<le> i \<and> i < 2 ^ 63 then Some i else None)"

definition parse_linenum :: "string \<Rightarrow> exn + int" where
  "parse_linenum str =
     (if str = [] then Inr (-1)
      else case lexical_integer (rev (takeWhile (\<lambda>c. c \<noteq> CHR '':'') (rev str))) of
          None \<Rightarrow> Inl Logic_error | Some n \<Rightarrow> Inr n)"

definition annotation_at :: "comments_t \<Rightarrow> int \<Rightarrow> exn + string" where
  "annotation_at comments linenum =
     (if linenum \<le> -1 then Inl Runtime_exception
      else if comments = [] \<or> linenum < 1 then Inr []
      else case map_of comments linenum of None \<Rightarrow> Inr [] | Some t \<Rightarrow> Inr t)"

definition comment_at :: "comments_t \<Rightarrow> int \<Rightarrow> exn + string" where
  "comment_at comments linenum =
     (if linenum \<le> -1 then Inl Runtime_exception
      else bindE (annotation_at comments linenum) (\<lambda>comment.
        Inr (if comment \<noteq> [] \<and> hd comment \<noteq> CHR ''/'' \<and> find_sub ''#include '' comment = None then comment else [])))"

definition add_comment_annotation :: "exn + string \<Rightarrow> string \<Rightarrow> object_t \<Rightarrow> exn + object_t" where
  "add_comment_annotation r field object =
     bindE r (\<lambda>result. Inr (table_set field (Str (if result \<noteq> [] then to_json_string result else [])) object))"

text \<open>The metadata of a value but for its children.\<close>

definition node_metadata :: "comments_t \<Rightarrow> string \<Rightarrow> extended_value \<Rightarrow> exn + object_t" where
  "node_metadata comments key v =
     (let object = table_set ''type'' (Str (tag_as_string (ev_tag v))) [] in
      bindE (parse_linenum (ev_src_info v)) (\<lambda>linenum.
      bindE (if find_sub ''fhicl_pound_include_'' key \<noteq> None
             then Inr (table_set ''annotation'' (Str []) (table_set ''comment'' (Str []) object))
             else bindE (add_comment_annotation (comment_at comments (linenum - 1)) ''comment'' object) (\<lambda>object.
               if ev_tag v \<noteq> Tag_TABLE then add_comment_annotation (annotation_at comments linenum) ''annotation'' object
               else Inr object)) (\<lambda>object.
        Inr (if ev_protection v \<noteq> NONE then table_set ''protection'' (Str (protection_as_string (ev_protection v))) object
             else object))))"

text \<open>Every exception becomes one of fhiclcpp.\<close>

definition as_fhicl :: "exn + 'a \<Rightarrow> exn + 'a" where
  "as_fhicl r = (case r of Inl e \<Rightarrow> Inl (if any_exn e then Fhicl_exception else e) | Inr x \<Rightarrow> Inr x)"

definition string_type :: "string \<Rightarrow> string" where
  "string_type raw =
     (case quotation_type raw of
        QNONE \<Rightarrow> ''string_unquoted'' | QSINGLE \<Rightarrow> ''string_singlequoted'' | QDOUBLE \<Rightarrow> ''string_doublequoted'')"

definition wanted :: "extra_opts \<Rightarrow> extended_value \<Rightarrow> bool" where
  "wanted opts v \<longleftrightarrow> (ev_in_prolog v \<and> readProlog opts) \<or> (\<not> ev_in_prolog v \<and> readMain opts)"

text \<open>The data and the metadata of a value without children.\<close>

definition scalar_data :: "value_tag \<Rightarrow> string \<Rightarrow> object_t \<Rightarrow> exn + value_t \<times> value_t" where
  "scalar_data tag raw object =
     (case tag of
        Tag_STRING \<Rightarrow> Inr (Str (to_json_string (dequote raw)), Obj (table_set ''type'' (Str (string_type raw)) object))
      | Tag_other \<Rightarrow> Inl Fhicl_exception
      | _ \<Rightarrow> Inr (Str raw, Obj object))"

text \<open>The data and the metadata of one value.  The elements of a sequence are named by their index.\<close>

fun fcl2jsondb :: "extra_opts \<Rightarrow> comments_t \<Rightarrow> string \<Rightarrow> extended_value \<Rightarrow> exn + data_t \<times> data_t"
  and fcl2jsondb_elements :: "extra_opts \<Rightarrow> comments_t \<Rightarrow> nat \<Rightarrow> extended_value list \<Rightarrow> exn + value_t list \<times> object_t"
  and fcl2jsondb_members ::
    "extra_opts \<Rightarrow> comments_t \<Rightarrow> (string \<times> extended_value) list \<Rightarrow> exn + object_t \<times> object_t"
where
  "fcl2jsondb opts comments key (Extended tag raw vs ms src prot prolog) =
     as_fhicl
       (if key = [] \<or> comments = [] then Inl Runtime_exception
        else bindE (node_metadata comments key (Extended tag raw vs ms src prot prolog)) (\<lambda>object.
          if tag = Tag_SEQUENCE then
            bindE (fcl2jsondb_elements opts comments 0 vs) (\<lambda>(data, metadata).
              Inr ((key, Arr data), (key, Obj (table_set ''children'' (Obj metadata) object))))
          else if tag = Tag_TABLE then
            bindE (fcl2jsondb_members opts comments ms) (\<lambda>(data, metadata).
              Inr ((key, Obj data), (key, Obj (table_set ''children'' (Obj metadata) object))))
          else bindE (scalar_data tag raw object) (\<lambda>(data, metadata). Inr ((key, data), (key, metadata)))))"
| "fcl2jsondb_elements opts comments idx [] = Inr ([], [])"
| "fcl2jsondb_elements opts comments idx (v # vs) =
     bindE (fcl2jsondb opts comments (nat_digits idx) v) (\<lambda>(d, m).
     bindE (fcl2jsondb_elements opts comments (Suc idx) vs) (\<lambda>(data, metadata). Inr (snd d # data, m # metadata)))"
| "fcl2jsondb_members opts comments [] = Inr ([], [])"
| "fcl2jsondb_members opts comments ((key, v) # ms) =
     (if wanted opts v then
        bindE (fcl2jsondb opts comments key v) (\<lambda>(d, m).
        bindE (fcl2jsondb_members opts comments ms) (\<lambda>(data, metadata). Inr (d # data, m # metadata)))
      else fcl2jsondb_members opts comments ms)"

section \<open>From JSON to FHiCL\<close>

fun get_decimal :: "value_t \<Rightarrow> exn + 64 word" where
  "get_decimal (Decimal d) = Inr d"
| "get_decimal _ = Inl Bad_get"

definition string_text :: "string \<Rightarrow> string \<Rightarrow> string" where
  "string_text type_name v =
     (if type_name = ''string_unquoted'' then v
      else if type_name = ''string_singlequoted'' then [squote] @ v @ [squote]
      else if type_name = ''string_doublequoted'' then quoted v
      else if need_quotes v then quoted v else v)"

text \<open>\<open>catch (std::out_of_range const&) {}\<close> around a loop: what was converted before stays.\<close>

definition up_to_range :: "'a list \<times> (exn + unit) \<Rightarrow> exn + 'a list" where
  "up_to_range r = (case r of (xs, Inl e) \<Rightarrow> (if e = Out_of_range then Inr xs else Inl e) | (xs, Inr _) \<Rightarrow> Inr xs)"

definition extend_list :: "exn + 'a \<Rightarrow> 'a list \<times> (exn + unit) \<Rightarrow> 'a list \<times> (exn + unit)" where
  "extend_list x rest = (case x of Inl e \<Rightarrow> ([], Inl e) | Inr y \<Rightarrow> (y # fst rest, snd rest))"

definition children_of :: "object_t \<Rightarrow> (object_t \<Rightarrow> 'a list \<times> (exn + unit)) \<Rightarrow> exn + 'a list" where
  "children_of metadata loop = up_to_range (case object_child ''children'' metadata of Inl e \<Rightarrow> ([], Inl e) | Inr ch \<Rightarrow> loop ch)"

definition pound_include :: string where
  "pound_include = ''fhicl_pound_include''"

text \<open>The name, the comment and the annotation of an atom.\<close>

definition finish_atom :: "string \<Rightarrow> object_t \<Rightarrow> bool \<Rightarrow> fcl_variant \<Rightarrow> exn + fcl_atom" where
  "finish_atom key metadata annotated v =
     bindE (string_child ''comment'' metadata) (\<lambda>text.
     let comment = from_json_string text in
     bindE (if table_count ''protection'' metadata = 1 then bindE (string_child ''protection'' metadata) (\<lambda>p.
              Inr (if p \<noteq> ''@none'' then key @ '' '' @ p else key)) else Inr key) (\<lambda>name.
     bindE (if annotated then bindE (string_child ''annotation'' metadata) (\<lambda>a. Inr (Some (from_json_string a))) else Inr None)
       (\<lambda>annotation.
         Inr (Fcl_atom name (Some (if find_sub ''#include '' comment = None then comment else [])) (Fcl_value v annotation)))))"

text \<open>The type an atom is converted as: a table whose data is a text is a string without annotation.\<close>

definition atom_type :: "object_t \<Rightarrow> value_t \<Rightarrow> exn + string \<times> bool" where
  "atom_type metadata data =
     bindE (string_child ''type'' metadata) (\<lambda>type_name.
       Inr (if type_name = ''table'' \<and> (case data of Str _ \<Rightarrow> True | _ \<Rightarrow> False) then (''string'', True) else (type_name, False)))"

definition scalar_of :: "value_tag \<Rightarrow> string \<Rightarrow> value_t \<Rightarrow> exn + fcl_variant" where
  "scalar_of tag type_name data =
     (case tag of
        Tag_STRING \<Rightarrow> bindE (get_string data) (\<lambda>s. Inr (Fcl_string (string_text type_name (from_json_string s))))
      | Tag_BOOL \<Rightarrow> (case data of Str s \<Rightarrow> Inr (Fcl_string s) | _ \<Rightarrow> bindE (get_bool data) (\<lambda>b. Inr (Fcl_bool b)))
      | Tag_NUMBER \<Rightarrow> (case data of Str s \<Rightarrow> Inr (Fcl_string s) | Integer i \<Rightarrow> Inr (Fcl_integer i)
          | _ \<Rightarrow> bindE (get_decimal data) (\<lambda>d. Inr (Fcl_decimal d)))
      | _ \<Rightarrow> bindE (get_string data) (\<lambda>s. Inr (Fcl_string s)))"

function (sequential) json2fcl_value :: "string \<Rightarrow> value_t \<Rightarrow> value_t \<Rightarrow> exn + fcl_value"
  and json2fcl_atom :: "string \<Rightarrow> value_t \<Rightarrow> value_t \<Rightarrow> exn + fcl_atom"
  and json2fcl_elements :: "object_t \<Rightarrow> nat \<Rightarrow> value_t list \<Rightarrow> fcl_value list \<times> (exn + unit)"
  and json2fcl_members :: "object_t \<Rightarrow> (string \<times> value_t) list \<Rightarrow> fcl_atom list \<times> (exn + unit)"
where
  "json2fcl_value key data metadata =
     (case data of
        Bool b \<Rightarrow> Inr (Fcl_value (Fcl_bool b) None)
      | Integer i \<Rightarrow> Inr (Fcl_value (Fcl_integer i) None)
      | Decimal d \<Rightarrow> Inr (Fcl_value (Fcl_decimal d) None)
      | Str s \<Rightarrow> bindE (get_object metadata) (\<lambda>object. bindE (string_child ''type'' object) (\<lambda>type_name.
          Inr (Fcl_value (Fcl_string (if type_name = ''number'' then from_json_string s
            else string_text type_name (from_json_string s))) None)))
      | _ \<Rightarrow> bindE (json2fcl_atom key data metadata) (\<lambda>a. Inr (fa_value a)))"
| "json2fcl_atom key data metadata =
     bindE (get_object metadata) (\<lambda>object.
     bindE (atom_type object data) (\<lambda>(type_name, override_comment).
       if prefix pound_include key then
         bindE (get_string data) (\<lambda>s. Inr (Fcl_atom ''#include'' (Some '' '') (Fcl_value (Fcl_string (quoted s)) (Some []))))
       else
         bindE (string_as_tag type_name) (\<lambda>tag.
         bindE (if tag = Tag_SEQUENCE then (case data of
                 Arr vs \<Rightarrow> bindE (children_of object (\<lambda>ch. json2fcl_elements ch 0 vs)) (\<lambda>xs. Inr (Fcl_sequence xs))
               | _ \<Rightarrow> Inl Bad_get)
           else if tag = Tag_TABLE then (case data of
                 Obj ps \<Rightarrow> bindE (children_of object (\<lambda>ch. json2fcl_members ch ps)) (\<lambda>xs. Inr (Fcl_table xs))
               | _ \<Rightarrow> Inl Bad_get)
           else scalar_of tag type_name data)
           (finish_atom key object (tag \<noteq> Tag_TABLE \<and> \<not> override_comment)))))"
| "json2fcl_elements children idx [] = ([], Inr ())"
| "json2fcl_elements children idx (v # vs) =
     extend_list (bindE (table_at (nat_digits idx) children) (\<lambda>m. json2fcl_value (nat_digits idx) v m))
       (json2fcl_elements children (Suc idx) vs)"
| "json2fcl_members children [] = ([], Inr ())"
| "json2fcl_members children (p # ps) =
     extend_list (bindE (table_at (fst p) children) (\<lambda>m. json2fcl_atom (fst p) (snd p) m)) (json2fcl_members children ps)"
  by pat_completeness auto

lemma size_member: "size (snd p) < Suc (size_prod (\<lambda>x. 0) size p)"
  by (cases p) simp

termination json2fcl_value
  by (relation "measure (\<lambda>x. case x of
        Inl (Inl (_, data, _)) \<Rightarrow> Suc (2 * size data) | Inl (Inr (_, data, _)) \<Rightarrow> 2 * size data
      | Inr (Inl (_, _, vs)) \<Rightarrow> Suc (2 * size_list size vs)
      | Inr (Inr (_, ps)) \<Rightarrow> Suc (2 * size_list (size_prod (\<lambda>_. 0) size) ps))")
    (auto simp: size_member)


section \<open>Trimming is per line\<close>

definition rtrim :: "string \<Rightarrow> string" where
  "rtrim line = rev (dropWhile is_blank (rev line))"

function trimmed_lines :: "string \<Rightarrow> string" where
  "trimmed_lines s =
     (let line = takeWhile (\<lambda>c. c \<noteq> CHR 0x0A) s in
      rtrim line @ (case drop (length line) s of [] \<Rightarrow> [] | c # t \<Rightarrow> CHR 0x0A # trimmed_lines t))"
  by pat_completeness auto

termination trimmed_lines
proof (relation "measure length")
  fix s :: string and line c t
  assume "line = takeWhile (\<lambda>c. c \<noteq> CHR 0x0A) s" "drop (length line) s = c # t"
  from arg_cong[OF this(2), of length] show "(t, s) \<in> measure length" by simp
qed simp

declare trimmed_lines.simps [simp del]

lemma line_end_rtrim:
  assumes "r \<le> e" "e \<le> length buffer"
  shows "r \<le> line_end buffer r e \<and> line_end buffer r e \<le> e \<and>
    take (line_end buffer r e - r) (drop r buffer) = rtrim (take (e - r) (drop r buffer))"
  using assms
proof (induction e)
  case (Suc e)
  show ?case
  proof (cases "r \<le> e")
    case True
    then have t: "take (Suc e - r) (drop r buffer) = take (e - r) (drop r buffer) @ [buffer ! e]"
      using Suc.prems(2) by (simp add: Suc_diff_le take_Suc_conv_app_nth)
    show ?thesis using Suc True by (auto simp: rtrim_def t)
  next
    case False
    then have "r = Suc e" using Suc.prems(1) by simp
    then show ?thesis by (simp add: rtrim_def)
  qed
qed (simp add: rtrim_def)

lemma memchr_line:
  assumes "r \<le> length buffer"
  shows "case memchr buffer r c of
      None \<Rightarrow> takeWhile (\<lambda>d. d \<noteq> c) (drop r buffer) = drop r buffer
    | Some n \<Rightarrow> takeWhile (\<lambda>d. d \<noteq> c) (drop r buffer) = take (n - r) (drop r buffer) \<and> drop n buffer = c # drop (Suc n) buffer"
proof -
  define line where "line = takeWhile (\<lambda>d. d \<noteq> c) (drop r buffer)"
  define n where "n = length line"
  have tw: "line = take n (drop r buffer)" unfolding line_def n_def by (metis takeWhile_eq_take)
  have m: "memchr buffer r c = (if r + n < length buffer then Some (r + n) else None)"
    by (simp add: memchr_def n_def line_def Let_def)
  show ?thesis
  proof (cases "r + n < length buffer")
    case True
    then have "n < length (drop r buffer)" by simp
    then have "drop r buffer ! n = c" unfolding n_def line_def using nth_length_takeWhile by blast
    then have "buffer ! (r + n) = c" using assms by simp
    then show ?thesis using True tw m unfolding line_def[symmetric] by (simp add: Cons_nth_drop_Suc[symmetric])
  next
    case False
    then have "length (drop r buffer) \<le> n" by simp
    then show ?thesis using tw m False unfolding line_def[symmetric] by simp
  qed
qed

lemma memmove_facts:
  assumes "w \<le> r" "r + len \<le> length buffer"
  shows "length (memmove buffer w r len) = length buffer"
    and "take (w + len) (memmove buffer w r len) = take w buffer @ take len (drop r buffer)"
    and "k \<ge> w + len \<Longrightarrow> drop k (memmove buffer w r len) = drop k buffer"
proof -
  show l: "length (memmove buffer w r len) = length buffer" by (simp add: memmove_def)
  have n: "memmove buffer w r len ! i = (if w \<le> i \<and> i < w + len then buffer ! (r + i - w) else buffer ! i)"
    if "i < length buffer" for i using that by (simp add: memmove_def)
  show "take (w + len) (memmove buffer w r len) = take w buffer @ take len (drop r buffer)"
    using assms by (intro nth_equalityI) (auto simp: l n nth_append)
  show "drop k (memmove buffer w r len) = drop k buffer" if "k \<ge> w + len"
    using that by (intro nth_equalityI) (auto simp: l n)
qed

lemma trim_loop_run:
  assumes "w \<le> r" "r \<le> length buffer"
  shows "\<exists>b n. trim_loop buffer w r = (b, n) \<and> n \<le> length b \<and> take n b = take w buffer @ trimmed_lines (drop r buffer)"
  using assms
proof (induction "length buffer - r" arbitrary: buffer w r rule: less_induct)
  case less
  show ?case
  proof (cases "r < length buffer")
    case False
    then have "trim_loop buffer w r = (buffer, w)" by (subst trim_loop.simps) simp
    moreover have "trimmed_lines [] = []" by (subst trimmed_lines.simps) (simp add: rtrim_def)
    ultimately show ?thesis using False less.prems by simp
  next
    case True
    let ?nl = "memchr buffer r (CHR 0x0A)"
    define e where "e = (case ?nl of None \<Rightarrow> length buffer | Some n \<Rightarrow> n)"
    have e: "r \<le> e" "e \<le> length buffer" using memchr_bounds[of buffer r "CHR 0x0A"] True by (auto simp: e_def less_imp_le split: option.splits)
    define len where "len = line_end buffer r e - r"
    note le = line_end_rtrim[OF e]
    have len: "r + len \<le> e" "take len (drop r buffer) = rtrim (take (e - r) (drop r buffer))" using le by (auto simp: len_def)
    define buffer' where "buffer' = (if w \<noteq> r then memmove buffer w r len else buffer)"
    have b: "length buffer' = length buffer" "take (w + len) buffer' = take w buffer @ take len (drop r buffer)"
      "\<And>k. k \<ge> w + len \<Longrightarrow> drop k buffer' = drop k buffer"
      using memmove_facts[of w r len buffer] less.prems len(1) e(2) by (auto simp: buffer'_def take_add)
    show ?thesis
    proof (cases ?nl)
      case None
      then have line: "takeWhile (\<lambda>c. c \<noteq> CHR 0x0A) (drop r buffer) = drop r buffer" "e = length buffer"
        using memchr_line[OF less.prems(2), of "CHR 0x0A"] by (simp_all add: e_def)
      have "trim_loop buffer w r = (buffer', w + len)"
        using True None by (subst trim_loop.simps) (simp add: Let_def buffer'_def len_def line(2))
      moreover have "trimmed_lines (drop r buffer) = rtrim (drop r buffer)"
        by (subst trimmed_lines.simps) (simp add: line(1))
      ultimately show ?thesis using b(1,2) len line(2) less.prems(1) e(2) by simp
    next
      case (Some n)
      have n: "r \<le> n" "n < length buffer" using memchr_bounds[OF Some] by auto
      have line: "takeWhile (\<lambda>c. c \<noteq> CHR 0x0A) (drop r buffer) = take (n - r) (drop r buffer)"
          "drop n buffer = CHR 0x0A # drop (Suc n) buffer" "e = n"
        using memchr_line[OF less.prems(2), of "CHR 0x0A"] Some by (simp_all add: e_def)
      let ?b = "buffer'[w + len := CHR 0x0A]"
      have wl: "w + len \<le> n" using len(1) line(3) less.prems(1) by simp
      have eq: "trim_loop buffer w r = trim_loop ?b (w + len + 1) (n + 1)"
        using True Some by (subst trim_loop.simps) (simp add: Let_def buffer'_def len_def line(3))
      have "\<exists>b m. trim_loop ?b (w + len + 1) (n + 1) = (b, m) \<and> m \<le> length b \<and>
          take m b = take (w + len + 1) ?b @ trimmed_lines (drop (n + 1) ?b)"
        using b(1) wl n by (intro less.hyps) simp_all
      then obtain b2 m where ih: "trim_loop ?b (w + len + 1) (n + 1) = (b2, m)" "m \<le> length b2"
          "take m b2 = take (w + len + 1) ?b @ trimmed_lines (drop (n + 1) ?b)" by blast
      have t1: "take (w + len + 1) ?b = take w buffer @ take len (drop r buffer) @ [CHR 0x0A]"
        using b(1,2) wl n(2) by (simp add: take_Suc_conv_app_nth)
      have t2: "drop (n + 1) ?b = drop (Suc n) buffer" using b(3)[of "Suc n"] wl by simp
      have dr: "drop (length (take (n - r) (drop r buffer))) (drop r buffer) = CHR 0x0A # drop (Suc n) buffer"
        using line(2) n by simp
      have "trimmed_lines (drop r buffer) = rtrim (take (n - r) (drop r buffer)) @ CHR 0x0A # trimmed_lines (drop (Suc n) buffer)"
        by (subst trimmed_lines.simps) (simp only: line(1) Let_def dr list.case)
      then show ?thesis using eq ih t1 t2 len(2) line(3) by simp
    qed
  qed
qed

definition line_ended :: "string \<Rightarrow> string" where
  "line_ended s = (if s \<noteq> [] \<and> last s = CHR 0x0A then s else s @ [CHR 0x0A])"

text \<open>C40.  Trimming a buffer in place, with one pointer reading and one writing, leaves every line
  without the blanks at its end, and ends the last one.\<close>

theorem rtrim_lines_correct:
  "buffer_rtrim_lines buffer =
     (if buffer = [] then [] else line_ended (trimmed_lines buffer))"
proof (cases "buffer = []")
  case False
  obtain b n where l: "trim_loop buffer 0 0 = (b, n)" "n \<le> length b" "take n b = trimmed_lines buffer"
    using trim_loop_run[of 0 0 buffer] by auto
  have "n = 0 \<longleftrightarrow> trimmed_lines buffer = []" using l(2,3) by auto
  moreover have "n \<noteq> 0 \<Longrightarrow> b ! (n - 1) = last (trimmed_lines buffer)"
    unfolding l(3)[symmetric] using l(2) by (subst last_conv_nth) (auto simp: min_def)
  ultimately show ?thesis using False l by (auto simp: buffer_rtrim_lines_def line_ended_def)
qed (simp add: buffer_rtrim_lines_def)

end
