(* ===== verification/FhiclText.thy ===== *)
theory FhiclText
  imports Fhicl Patterns FileProvider
begin

text \<open>
  Reading and writing FHiCL texts: DataFormats/Fhicl/fhicl\_reader.cpp and fhicl\_reader.h (the
  comments and the include lines; the rest of the text goes to fhiclcpp's parser, a parameter),
  fhicl\_writer.cpp and fhicl\_writer.h, and fhicljsondb.cpp.
\<close>

section \<open>Comments\<close>

text \<open>The characters of \<open>ascii::char_\<close> have seven bits.\<close>

definition ascii_char :: "char \<Rightarrow> bool" where
  "ascii_char c \<longleftrightarrow> (of_char c :: nat) < 128"

text \<open>\<open>*(ascii::char_ - p)\<close>, as the text it takes and what is left.\<close>

fun take_until :: "(string \<Rightarrow> bool) \<Rightarrow> string \<Rightarrow> string \<times> string" where
  "take_until p [] = ([], [])"
| "take_until p (c # s) =
     (if \<not> ascii_char c \<or> p (c # s) then ([], c # s) else (case take_until p s of (t, r) \<Rightarrow> (c # t, r)))"

definition starts_comment :: "string \<Rightarrow> bool" where
  "starts_comment s \<longleftrightarrow> prefix ''#'' s \<or> prefix ''//'' s"

definition whitespace_rule :: "string \<Rightarrow> string \<times> string" where
  "whitespace_rule = take_until starts_comment"

definition whitespace_b4quotedstring_rule :: "string \<Rightarrow> string \<times> string" where
  "whitespace_b4quotedstring_rule = take_until (\<lambda>s. prefix [dquote] s \<or> prefix [squote] s \<or> starts_comment s)"

text \<open>A quoted string has at least one character.\<close>

definition quoted_string_rule :: "char \<Rightarrow> string \<Rightarrow> (string \<times> string) option" where
  "quoted_string_rule q s =
     (if prefix [q] s then
        (case take_until (prefix [q]) (tl s) of (t, r) \<Rightarrow>
          if t \<noteq> [] \<and> prefix [q] r then Some (q # t @ [q], tl r) else None)
      else None)"

definition any_quoted_string :: "string \<Rightarrow> (string \<times> string) option" where
  "any_quoted_string s = (case quoted_string_rule dquote s of Some m \<Rightarrow> Some m | None \<Rightarrow> quoted_string_rule squote s)"

lemma take_until_split: "take_until p s = (t, r) \<Longrightarrow> s = t @ r"
  by (induction p s arbitrary: t rule: take_until.induct) (auto split: if_splits prod.splits)

lemma any_quoted_split:
  assumes "any_quoted_string s = Some (t, r)"
  shows "s = t @ r \<and> t \<noteq> []"
proof -
  have "s = t @ r \<and> t \<noteq> []" if "quoted_string_rule q s = Some (t, r)" for q
  proof -
    obtain u v where u: "take_until (prefix [q]) (tl s) = (u, v)" by (cases "take_until (prefix [q]) (tl s)")
    then show ?thesis using that take_until_split[OF u]
      by (cases s; cases v) (auto simp: quoted_string_rule_def split: if_splits)
  qed
  then show ?thesis using assms by (auto simp: any_quoted_string_def split: option.splits)
qed

function quoted_strings :: "string \<Rightarrow> string \<times> string" where
  "quoted_strings s =
     (case any_quoted_string s of
        None \<Rightarrow> ([], s)
      | Some (q, r) \<Rightarrow> (case whitespace_b4quotedstring_rule r of (w, r') \<Rightarrow>
          (case quoted_strings r' of (t, r'') \<Rightarrow> (q @ w @ t, r''))))"
  by pat_completeness auto

termination quoted_strings
proof (relation "measure length")
  fix s x q r y w r'
  assume "any_quoted_string s = Some x" "(q, r) = x" "(w, r') = whitespace_b4quotedstring_rule r"
  then have "s = q @ r" "q \<noteq> []" "r = w @ r'"
    using any_quoted_split[of s q r] take_until_split[of _ r w r'] by (auto simp: whitespace_b4quotedstring_rule_def)
  then show "(r', s) \<in> measure length" by simp
qed simp

declare quoted_strings.simps [simp del]

definition padded_quoted_string_rule :: "string \<Rightarrow> string \<times> string" where
  "padded_quoted_string_rule s =
     (case whitespace_b4quotedstring_rule s of (w, r) \<Rightarrow> (case quoted_strings r of (t, r') \<Rightarrow> (w @ t, r')))"

definition eol_prefix :: "string \<Rightarrow> string option" where
  "eol_prefix s =
     (if prefix [CHR 0x0D, CHR 0x0A] s then Some (drop 2 s)
      else if prefix [CHR 0x0A] s \<or> prefix [CHR 0x0D] s then Some (tl s)
      else None)"

definition string_rule :: "string \<Rightarrow> (string \<times> string) option" where
  "string_rule s = (case take_until (\<lambda>s. eol_prefix s \<noteq> None) s of (t, r) \<Rightarrow> if t = [] then None else Some (t, r))"

text \<open>The line of a \<open>line_pos_iterator\<close>: one more for every line end, the two characters of a pair
  counting once.\<close>

fun line_at :: "char \<Rightarrow> nat \<Rightarrow> string \<Rightarrow> nat" where
  "line_at prev n [] = n"
| "line_at prev n (c # s) =
     line_at c (if c = CHR 0x0D \<and> prev \<noteq> CHR 0x0A \<or> c = CHR 0x0A \<and> prev \<noteq> CHR 0x0D then Suc n else n) s"

definition line_of :: "string \<Rightarrow> nat" where
  "line_of taken = line_at (CHR 0x00) 1 taken"

text \<open>One element of the list: what it takes, the comment with its line, and what is left.\<close>

definition comment_element :: "string \<Rightarrow> string \<Rightarrow> (string \<times> (int \<times> string) \<times> string) option" where
  "comment_element taken s =
     (case padded_quoted_string_rule s of (p, r1) \<Rightarrow>
     (case whitespace_rule r1 of (w, r2) \<Rightarrow>
     (case string_rule r2 of
        None \<Rightarrow> None
      | Some (t, r3) \<Rightarrow> Some (taken @ p @ w @ t, (int (line_of (taken @ p @ w)), t), r3))))"

text \<open>\<open>element % eol\<close> behind its first element; blanks are skipped before a line end.\<close>

definition blank_char :: "char \<Rightarrow> bool" where
  "blank_char c \<longleftrightarrow> c = CHR '' '' \<or> c = CHR 0x09"

fun more_comments :: "nat \<Rightarrow> string \<Rightarrow> string \<Rightarrow> (int \<times> string) list" where
  "more_comments 0 taken s = []"
| "more_comments (Suc n) taken s =
     (let b = takeWhile blank_char s; r = dropWhile blank_char s in
      case eol_prefix r of
        None \<Rightarrow> []
      | Some r' \<Rightarrow> (case comment_element (taken @ b @ take (length r - length r') r) r' of
            None \<Rightarrow> []
          | Some (taken', c, r'') \<Rightarrow> c # more_comments n taken' r''))"

text \<open>Insertion into the map keeps the first comment of a line.\<close>

definition into_map :: "(int \<times> string) list \<Rightarrow> comments_t" where
  "into_map cs = sort_key fst (fold (\<lambda>c m. if fst c \<in> fst ` set m then m else m @ [c]) cs [])"

definition parse_comments :: "string \<Rightarrow> comments_t option" where
  "parse_comments s =
     (case comment_element [] s of
        None \<Rightarrow> None
      | Some (taken, c, r) \<Rightarrow> Some (into_map (c # more_comments (length s) taken r)))"

definition comments_of :: "string \<Rightarrow> comments_t" where
  "comments_of s = (case parse_comments s of None \<Rightarrow> [(0, ''No comments'')] | Some cs \<Rightarrow> cs)"

definition comments_array :: "comments_t \<Rightarrow> array_t" where
  "comments_array cs = map (\<lambda>(n, t). Obj [(''linenum'', Integer (word_of_int n)), (''value'', Str (to_json_string t))]) cs"

definition read_comments :: "string \<Rightarrow> array_t \<Rightarrow> exn + array_t" where
  "read_comments s out =
     (if s = [] \<or> out \<noteq> [] then Inl Runtime_exception else Inr (comments_array (comments_of s)))"

section \<open>Include lines\<close>

definition include_pattern :: re where
  "include_pattern = Both (Group 1 (Both (re_text ''#include'') Space)) (Group 2 (Star (Except [squote, dquote])))"

text \<open>The leftmost match: its position and its length.\<close>

fun match_at :: "re \<Rightarrow> string \<Rightarrow> (nat \<times> nat) option" where
  "match_at p s =
     (case re_matches p ([], s) of
        (g, rest) # _ \<Rightarrow> Some (0, length s - length rest)
      | [] \<Rightarrow> (case s of [] \<Rightarrow> None | c # s' \<Rightarrow> map_option (apfst Suc) (match_at p s')))"

declare match_at.simps [simp del]

text \<open>The least number of characters a pattern takes.\<close>

fun min_taken :: "re \<Rightarrow> nat" where
  "min_taken (Both r q) = min_taken r + min_taken q"
| "min_taken (Alt r q) = min (min_taken r) (min_taken q)"
| "min_taken (Group i r) = min_taken r"
| "min_taken Eps = 0"
| "min_taken (Star r) = 0"
| "min_taken _ = 1"

lemma rounds_taken:
  assumes "m' \<in> set (rounds n f m)" "\<And>m m'. m' \<in> set (f m) \<Longrightarrow> length (snd m') \<le> length (snd m)"
  shows "length (snd m') \<le> length (snd m)"
  using assms(1)
proof (induction n arbitrary: m)
  case (Suc n)
  then show ?case using assms(2) by (fastforce intro: order_trans)
qed simp

lemma re_matches_taken: "m' \<in> set (re_matches r m) \<Longrightarrow> length (snd m') + min_taken r \<le> length (snd m)"
proof (induction r arbitrary: m m')
  case (Both r q)
  then obtain m1 where "m1 \<in> set (re_matches r m)" "m' \<in> set (re_matches q m1)" by auto
  then show ?case using Both.IH(1)[of m1 m] Both.IH(2)[of m' m1] by simp
next
  case (Star r)
  then have "\<And>m m'. m' \<in> set (re_matches r m) \<Longrightarrow> length (snd m') \<le> length (snd m)" by (meson add_leD1)
  then show ?case using Star.prems rounds_taken[of m' "length (snd m)" "re_matches r" m] by simp
next
  case (Alt r q)
  then have "m' \<in> set (re_matches r m) \<or> m' \<in> set (re_matches q m)" by simp
  then show ?case using Alt.IH(1)[of m' m] Alt.IH(2)[of m' m] by (simp only: min_taken.simps) linarith
next
  case (Group i r)
  then show ?case by (cases m) fastforce
qed (case_tac m; auto split: list.splits if_splits)+

lemma match_at_taken: "match_at p s = Some (pos, len) \<Longrightarrow> pos + len \<le> length s \<and> min_taken p \<le> len"
proof (induction s arbitrary: pos)
  case Nil
  then show ?case using re_matches_taken[of _ p "([], [])"] by (subst (asm) match_at.simps) (fastforce split: list.splits)
next
  case (Cons c s)
  show ?case
  proof (cases "re_matches p ([], c # s)")
    case Nil
    then obtain k where "match_at p s = Some (k, len)" "pos = Suc k" using Cons.prems by (subst (asm) match_at.simps) auto
    then show ?thesis using Cons.IH by simp
  next
    case (Cons m ms)
    then have "m \<in> set (re_matches p ([], c # s))" by simp
    from re_matches_taken[OF this] show ?thesis using Cons Cons.prems by (subst (asm) match_at.simps) (cases m; auto)
  qed
qed

definition numbered_include :: "nat \<Rightarrow> string" where
  "numbered_include idx = ''fhicl_pound_include_'' @ nat_digits idx @ '':''"

text \<open>
  The loop replaces the lines in place and steps on by the length of what it replaced.  The buffer
  has room for 1024 more characters, and no more are promised: beyond, the iterators dangle.
\<close>

function rename_includes :: "nat \<Rightarrow> nat \<Rightarrow> nat \<Rightarrow> string \<Rightarrow> exn + string" where
  "rename_includes capacity idx offset conf =
     (case match_at include_pattern (drop offset conf) of
        None \<Rightarrow> Inr conf
      | Some (pos, len) \<Rightarrow>
          (let conf' = take (offset + pos) conf @ numbered_include idx @ drop (offset + pos + len) conf in
           if length conf' > capacity then Inl Undefined
           else rename_includes capacity (Suc idx) (offset + pos + len) conf'))"
  by pat_completeness auto

lemma include_taken: "match_at include_pattern s = Some (pos, len) \<Longrightarrow> 0 < len \<and> pos + len \<le> length s"
  using match_at_taken[of include_pattern s pos len] by (simp add: include_pattern_def re_text_def)

termination rename_includes
  by (relation "measure (\<lambda>(capacity, idx, offset, conf). max capacity (length conf) - offset)")
    (auto dest!: include_taken simp: max_def split: if_splits)

declare rename_includes.simps [simp del]

definition without_includes :: "string \<Rightarrow> exn + string" where
  "without_includes s = rename_includes (length s + 1024) 0 0 s"

section \<open>Reading\<close>

definition section_node :: "string \<Rightarrow> object_t \<Rightarrow> value_t" where
  "section_node name children =
     Obj [(''type'', Str ''table''), (''comment'', Str (''#'' @ name)), (''children'', Obj children)]"

text \<open>The parser of fhiclcpp is the parameter \<open>parse_document\<close>.\<close>

definition read_data ::
  "(string \<Rightarrow> exn + (string \<times> extended_value) list) \<Rightarrow> string \<Rightarrow> object_t \<Rightarrow> exn + object_t" where
  "read_data parse_document s out =
     (if s = [] \<or> out \<noteq> [] then Inl Runtime_exception
      else
        bindE (bindE (without_includes s) parse_document) (\<lambda>fhicl_table.
        bindE (fcl2jsondb_members prolog_mode (comments_of s) (filter (\<lambda>e. ev_in_prolog (snd e)) fhicl_table)) (\<lambda>(data1, metadata1).
        bindE (fcl2jsondb_members default_mode (comments_of s) (filter (\<lambda>e. \<not> ev_in_prolog (snd e)) fhicl_table)) (\<lambda>(data2, metadata2).
          Inr [(''data'', Obj [(''prolog'', Obj data1), (''main'', Obj data2)]),
               (''metadata'', Obj [(''prolog'', section_node ''prolog'' metadata1), (''main'', section_node ''main'' metadata2)])]))))"

section \<open>Writing\<close>

text \<open>The generator of fhicl\_writer.h; \<open>kd\<close> is \<open>karma::double_\<close>.\<close>

definition eol :: string where
  "eol = [CHR 0x0A]"

fun gen_variant :: "(64 word \<Rightarrow> string) \<Rightarrow> fcl_variant \<Rightarrow> string"
  and gen_value :: "(64 word \<Rightarrow> string) \<Rightarrow> fcl_value \<Rightarrow> string"
  and gen_atom :: "(64 word \<Rightarrow> string) \<Rightarrow> fcl_atom \<Rightarrow> string"
where
  "gen_variant kd (Fcl_string s) = s"
| "gen_variant kd (Fcl_integer i) = integer_to_string i"
| "gen_variant kd (Fcl_decimal d) = kd d"
| "gen_variant kd (Fcl_bool b) = bool_name b"
| "gen_variant kd (Fcl_table as) = ''{'' @ eol @ concat (map (gen_atom kd) as) @ eol @ ''}''"
| "gen_variant kd (Fcl_sequence vs) = ''['' @ join '', '' (map (gen_value kd) vs) @ '']''"
| "gen_value kd (Fcl_value v a) = gen_variant kd v @ (case a of None \<Rightarrow> [] | Some s \<Rightarrow> '' '' @ s @ eol)"
| "gen_atom kd (Fcl_atom k c v) = (case c of None \<Rightarrow> [] | Some s \<Rightarrow> s @ eol) @ k @ '': '' @ gen_value kd v"

definition toplevel_table :: "(64 word \<Rightarrow> string) \<Rightarrow> fcl_atom list \<Rightarrow> string" where
  "toplevel_table kd as = concat (map (gen_atom kd) as)"

definition section_atoms :: "object_t \<Rightarrow> object_t \<Rightarrow> exn + fcl_atom list" where
  "section_atoms data metadata = mapE (\<lambda>p. bindE (table_at (fst p) metadata) (\<lambda>m. json2fcl_atom (fst p) (snd p) m)) data"

definition written_include_pattern :: re where
  "written_include_pattern = Both (Group 1 (Both (re_text ''#include'') (Both (Star Space) (Chr (CHR '':'')))))
     (Group 2 (Star (Except [dquote])))"

text \<open>
  The include lines are rewritten in place while the iterator goes on: its pointers stay where the
  match ended and where the buffer ended at first, although the text behind the match moved.
  \<open>mem\<close> are the characters of the buffer, of which the first \<open>len\<close> are its text; a shorter text is
  ended by NUL.
\<close>

function rewrite_includes :: "nat \<Rightarrow> nat \<Rightarrow> string \<Rightarrow> exn + string" where
  "rewrite_includes cur len mem =
     (case match_at written_include_pattern (drop cur mem) of
        None \<Rightarrow> Inr (take len mem)
      | Some (pos, l) \<Rightarrow>
          (let p = cur + pos in
           if p > len then Inl Out_of_range
           else
             (let txt = take p mem @ ''#include '' @ take (len - (p + l)) (drop (p + l) mem) in
              rewrite_includes (p + l) (length txt)
                (if length txt < length mem then txt @ CHR 0x00 # drop (Suc (length txt)) mem else txt))))"
  by pat_completeness auto

lemma written_include_taken: "match_at written_include_pattern s = Some (pos, len) \<Longrightarrow> 9 \<le> len \<and> pos + len \<le> length s"
  using match_at_taken[of written_include_pattern s pos len] by (simp add: written_include_pattern_def re_text_def)

termination rewrite_includes
proof (relation "measure (\<lambda>(cur, len, mem). max len (length mem) - cur)")
  fix cur len mem x pos l p u
  assume "match_at written_include_pattern (drop cur mem) = Some x" "(pos, l) = x" "p = cur + pos" "\<not> len < p"
    and t: "u = take p mem @ ''#include '' @ take (len - (p + l)) (drop (p + l) mem)"
  then have l: "9 \<le> l" "cur < p + l" "p + l \<le> length mem" using written_include_taken[of "drop cur mem" pos l] by auto
  then have "length u \<le> max len (length mem)" unfolding t by simp
  then show "((p + l, length u, if length u < length mem then u @ CHR 0x00 # drop (Suc (length u)) mem else u), cur, len, mem)
      \<in> measure (\<lambda>(cur, len, mem). max len (length mem) - cur)" using l by auto
qed simp

declare rewrite_includes.simps [simp del]

definition with_includes :: "string \<Rightarrow> exn + string" where
  "with_includes s = rewrite_includes 0 (length s) s"

definition write_data :: "(64 word \<Rightarrow> string) \<Rightarrow> object_t \<Rightarrow> string \<Rightarrow> exn + string" where
  "write_data kd json_object out =
     (if out \<noteq> [] \<or> json_object = [] then Inl Runtime_exception
      else
        bindE (object_child ''data'' json_object) (\<lambda>data_node.
        bindE (object_child ''metadata'' json_object) (\<lambda>metadata_node.
        bindE (object_child ''prolog'' data_node) (\<lambda>data1.
        bindE (object_child ''prolog'' metadata_node) (\<lambda>prolog.
        bindE (object_child ''children'' prolog) (\<lambda>metadata1.
        bindE (section_atoms data1 metadata1) (\<lambda>atoms1.
        bindE (object_child ''main'' data_node) (\<lambda>data2.
        bindE (object_child ''main'' metadata_node) (\<lambda>main.
        bindE (object_child ''children'' main) (\<lambda>metadata2.
        bindE (section_atoms data2 metadata2) (\<lambda>atoms2.
        bindE (with_includes ((if data1 \<noteq> [] then ''BEGIN_PROLOG'' @ eol @ toplevel_table kd atoms1 @ eol @ ''END_PROLOG'' @ eol else []) @
            toplevel_table kd atoms2)) (\<lambda>buffer. Inr (buffer_rtrim_lines buffer)))))))))))))"

section \<open>Documents\<close>

definition fhicl_to_ast ::
  "(string \<Rightarrow> exn + (string \<times> extended_value) list) \<Rightarrow> string \<Rightarrow> string \<Rightarrow> (world, object_t) prog" where
  "fhicl_to_ast parse_document fcl filename =
     thenM (confirm (fcl \<noteq> []))
     (thenM (confirm (filename \<noteq> []))
     (bindM (\<lambda>w. case read_clock w of (t, w') \<Rightarrow> (Inr t, w')) (\<lambda>now.
      bindM (liftE (read_comments fcl [])) (\<lambda>comments.
      bindM (liftE (read_data parse_document fcl [])) (\<lambda>document.
        retM [(''document'', Obj document), (''comments'', Arr comments),
          (''origin'', Obj [(''format'', Str ''fhicl''), (''name'', Str filename), (''source'', Str ''fhicl_to_json''),
             (''timestamp'', Str now)]),
          (''version'', Str ''notprovided''), (''entities'', Arr []), (''configurations'', Arr [])])))))"

definition fhicl_to_json ::
  "(string \<Rightarrow> exn + (string \<times> extended_value) list) \<Rightarrow> codec \<Rightarrow> string \<Rightarrow> string \<Rightarrow> string \<Rightarrow> (world, string) prog" where
  "fhicl_to_json parse_document c fcl filename json =
     thenM (confirm (fcl \<noteq> []))
     (thenM (confirm (json = []))
     (thenM (confirm (filename \<noteq> []))
     (bindM (fhicl_to_ast parse_document fcl filename) (\<lambda>json_root. liftE (c_write c json_root)))))"

text \<open>\<open>None\<close>: the JSON text is refused.  The name of the file is always \<open>notprovided\<close>.\<close>

definition json_to_fhicl :: "(64 word \<Rightarrow> string) \<Rightarrow> codec \<Rightarrow> string \<Rightarrow> string \<Rightarrow> exn + (string \<times> string) option" where
  "json_to_fhicl kd c json fcl =
     (if json = [] \<or> fcl \<noteq> [] then Inl Runtime_exception
      else bindE (c_read c json) (\<lambda>r. case r of
          None \<Rightarrow> Inr None
        | Some json_root \<Rightarrow>
            bindE (get_object (fst (table_index ''document'' json_root))) (\<lambda>document.
            bindE (write_data kd document []) (\<lambda>fcl_data. Inr (Some (fcl_data, ''notprovided''))))))"

end
