(* ===== verification/FhiclLaws.thy ===== *)
theory FhiclLaws
  imports FhiclText
begin

text \<open>
  The conversions between FHiCL and JSON undo each other: for values, by simultaneous induction over
  both directions, and for whole documents, prolog and include lines included.
\<close>

section \<open>Strings\<close>

lemma from_to_json_string: "from_json_string (to_json_string s @ t) = s @ from_json_string t"
proof (induction s)
  case (Cons c s)
  have "from_json_string (to_json_char c @ u) = c # from_json_string u" for u
    by (auto simp: to_json_char_def from_json_char_def dquote_def)
  with Cons show ?case by (simp add: to_json_string_def)
qed (simp add: to_json_string_def)

lemma from_to_json [simp]: "from_json_string (to_json_string s) = s"
  using from_to_json_string[of s "[]"] by simp

lemma from_json_plain: "CHR 0x5C \<notin> set s \<Longrightarrow> from_json_string s = s"
  by (induction s) auto

text \<open>The text of a string literal: with quotes it has at least two characters.\<close>

definition raw_ok :: "string \<Rightarrow> bool" where
  "raw_ok raw \<longleftrightarrow> quotation_type raw = QNONE \<or> 2 \<le> length raw"

lemma enclosed_inner: "enclosed a b s \<Longrightarrow> 2 \<le> length s \<Longrightarrow> s = a # inner s @ [b]"
proof -
  assume e: "enclosed a b s" "2 \<le> length s"
  then obtain t where t: "s = a # t" by (cases s) (auto simp: enclosed_def)
  with e(2) have "t \<noteq> []" by auto
  then have "t = butlast t @ [b]" using e(1) t append_butlast_last_id[of t] by (simp add: enclosed_def)
  then show ?thesis using t inner_enclosed[of a "butlast t" b] by metis
qed

lemma string_text_of_raw: "raw_ok raw \<Longrightarrow> string_text (string_type raw) (dequote raw) = raw"
proof -
  assume r: "raw_ok raw"
  consider "enclosed dquote dquote raw" | "\<not> enclosed dquote dquote raw" "enclosed squote squote raw"
    | "\<not> enclosed dquote dquote raw" "\<not> enclosed squote squote raw" by blast
  then show ?thesis
  proof cases
    case 1
    then have "raw = quoted (inner raw)" using r enclosed_inner[of dquote dquote raw] by (simp add: raw_ok_def quotation_type_def quoted_def)
    then show ?thesis using 1 by (simp add: string_text_def string_type_def quotation_type_def dequote_def)
  next
    case 2
    then have "raw = squote # inner raw @ [squote]" using r enclosed_inner[of squote squote raw] by (simp add: raw_ok_def quotation_type_def)
    then show ?thesis using 2 by (simp add: string_text_def string_type_def quotation_type_def dequote_def)
  qed (simp add: string_text_def string_type_def quotation_type_def dequote_def)
qed

lemma string_type_tag: "string_as_tag (string_type raw) = Inr Tag_STRING"
  by (simp add: string_as_tag_def string_type_def split: quotation_type_t.splits)

lemma tag_roundtrip: "tag \<notin> {Tag_UNKNOWN, Tag_other} \<Longrightarrow> string_as_tag (tag_as_string tag) = Inr tag"
  by (cases tag) (simp_all add: string_as_tag_def)

lemma protection_roundtrip: "p \<noteq> PROTECT_other \<Longrightarrow> string_as_protection (protection_as_string p) = Inr p"
  by (cases p) (simp_all add: string_as_protection_def)

text \<open>The pattern of \<open>unescape\<close> stands for a quote, so nothing is unescaped.\<close>

lemma unescape_changes_nothing: "unescape s = s"
  by (simp add: unescape_def map_idI)

section \<open>Values and their source\<close>

text \<open>The line of a value, what is written there and in the line before.\<close>

definition line_number :: "extended_value \<Rightarrow> int" where
  "line_number v = (case parse_linenum (ev_src_info v) of Inl e \<Rightarrow> 0 | Inr n \<Rightarrow> n)"

definition line_text :: "comments_t \<Rightarrow> int \<Rightarrow> string" where
  "line_text comments n = (if n < 1 then [] else case map_of comments n of None \<Rightarrow> [] | Some t \<Rightarrow> t)"

definition line_comment :: "comments_t \<Rightarrow> int \<Rightarrow> string" where
  "line_comment comments n =
     (let c = line_text comments n in if c \<noteq> [] \<and> hd c \<noteq> CHR ''/'' \<and> find_sub ''#include '' c = None then c else [])"

lemma at_line: "0 \<le> n \<Longrightarrow> annotation_at comments n = Inr (line_text comments n)"
  "0 \<le> n \<Longrightarrow> comment_at comments n = Inr (line_comment comments n)"
  by (auto simp: annotation_at_def comment_at_def line_text_def line_comment_def Let_def split: option.splits)

lemma line_comment_keeps: "(if find_sub ''#include '' (line_comment comments n) = None then line_comment comments n else []) = line_comment comments n"
  by (auto simp: line_comment_def Let_def)

text \<open>The atom a value stands for in the text it came from.\<close>

definition atom_name :: "string \<Rightarrow> protection \<Rightarrow> string" where
  "atom_name key p = (if p = PROTECT_IGNORE \<or> p = PROTECT_ERROR then key @ '' '' @ protection_as_string p else key)"

definition atom_around :: "comments_t \<Rightarrow> string \<Rightarrow> extended_value \<Rightarrow> fcl_value \<Rightarrow> fcl_atom" where
  "atom_around comments key v x =
     (if prefix pound_include key then Fcl_atom ''#include'' (Some '' '') (Fcl_value (Fcl_string (ev_raw v)) (Some []))
      else Fcl_atom (atom_name key (ev_protection v)) (Some (line_comment comments (line_number v - 1))) x)"

definition is_scalar :: "value_tag \<Rightarrow> bool" where
  "is_scalar tag \<longleftrightarrow> tag \<noteq> Tag_SEQUENCE \<and> tag \<noteq> Tag_TABLE"

fun source_value :: "extra_opts \<Rightarrow> comments_t \<Rightarrow> extended_value \<Rightarrow> fcl_value"
  and source_elements :: "extra_opts \<Rightarrow> comments_t \<Rightarrow> extended_value list \<Rightarrow> fcl_value list"
  and source_members :: "extra_opts \<Rightarrow> comments_t \<Rightarrow> (string \<times> extended_value) list \<Rightarrow> fcl_atom list"
where
  "source_value opts comments (Extended tag raw vs ms src prot prolog) =
     Fcl_value
       (if tag = Tag_SEQUENCE then Fcl_sequence (source_elements opts comments vs)
        else if tag = Tag_TABLE then Fcl_table (source_members opts comments ms)
        else Fcl_string raw)
       (if tag = Tag_TABLE then None else Some (line_text comments (line_number (Extended tag raw vs ms src prot prolog))))"
| "source_elements opts comments [] = []"
| "source_elements opts comments (v # vs) =
     (if is_scalar (ev_tag v) then Fcl_value (Fcl_string (ev_raw v)) None else source_value opts comments v) #
     source_elements opts comments vs"
| "source_members opts comments [] = []"
| "source_members opts comments ((key, v) # ms) =
     (if wanted opts v then [atom_around comments key v (source_value opts comments v)] else []) @ source_members opts comments ms"

definition source_atom :: "extra_opts \<Rightarrow> comments_t \<Rightarrow> string \<Rightarrow> extended_value \<Rightarrow> fcl_atom" where
  "source_atom opts comments key v = atom_around comments key v (source_value opts comments v)"

text \<open>
  What the conversions keep: a value with a line, a string that is quoted properly; in a sequence no
  complex number and no reference with a character that asks for quotes, since there the
  writer quotes them.
\<close>

definition scalar_faithful :: "bool \<Rightarrow> value_tag \<Rightarrow> string \<Rightarrow> bool" where
  "scalar_faithful element tag raw \<longleftrightarrow>
     (if is_scalar tag then
        tag \<noteq> Tag_UNKNOWN \<and> tag \<noteq> Tag_other \<and> (tag = Tag_STRING \<longrightarrow> raw_ok raw) \<and>
        (element \<and> tag = Tag_NUMBER \<longrightarrow> CHR 0x5C \<notin> set raw) \<and>
        (element \<and> tag \<noteq> Tag_NUMBER \<and> tag \<noteq> Tag_STRING \<longrightarrow> \<not> need_quotes raw)
      else True)"

definition key_faithful :: "string \<Rightarrow> extended_value \<Rightarrow> bool" where
  "key_faithful key v \<longleftrightarrow> key \<noteq> [] \<and>
     (if prefix pound_include key then
        ev_tag v = Tag_STRING \<and> enclosed dquote dquote (ev_raw v) \<and> to_json_string (dequote (ev_raw v)) = dequote (ev_raw v)
      else find_sub ''fhicl_pound_include_'' key = None)"

fun faithful :: "extra_opts \<Rightarrow> bool \<Rightarrow> extended_value \<Rightarrow> bool"
  and faithful_elements :: "extra_opts \<Rightarrow> extended_value list \<Rightarrow> bool"
  and faithful_members :: "extra_opts \<Rightarrow> (string \<times> extended_value) list \<Rightarrow> bool"
where
  "faithful opts element (Extended tag raw vs ms src prot prolog) \<longleftrightarrow>
     1 \<le> line_number (Extended tag raw vs ms src prot prolog) \<and> scalar_faithful element tag raw \<and>
     (tag = Tag_SEQUENCE \<longrightarrow> faithful_elements opts vs) \<and>
     (tag = Tag_TABLE \<longrightarrow> faithful_members opts ms \<and> distinct (map fst (filter (wanted opts \<circ> snd) ms)))"
| "faithful_elements opts [] \<longleftrightarrow> True"
| "faithful_elements opts (v # vs) \<longleftrightarrow> faithful opts True v \<and> faithful_elements opts vs"
| "faithful_members opts [] \<longleftrightarrow> True"
| "faithful_members opts ((key, v) # ms) \<longleftrightarrow>
     (wanted opts v \<longrightarrow> key_faithful key v \<and> faithful opts False v) \<and> faithful_members opts ms"

lemma line_parsed: "1 \<le> line_number v \<Longrightarrow> parse_linenum (ev_src_info v) = Inr (line_number v)"
  by (simp add: line_number_def split: sum.splits)

text \<open>The fields every metadata object has besides its type.\<close>

definition node_fields :: "comments_t \<Rightarrow> string \<Rightarrow> extended_value \<Rightarrow> object_t \<Rightarrow> bool" where
  "node_fields comments key v ob \<longleftrightarrow>
     (\<not> prefix pound_include key \<longrightarrow>
       map_of ob ''comment'' = Some (Str (to_json_string (line_comment comments (line_number v - 1)))) \<and>
       (ev_tag v \<noteq> Tag_TABLE \<longrightarrow> map_of ob ''annotation'' = Some (Str (to_json_string (line_text comments (line_number v)))))) \<and>
     map_of ob ''protection'' =
       (if ev_protection v = NONE then None else Some (Str (protection_as_string (ev_protection v)))) \<and>
     distinct (map fst ob)"

lemma add_comment_Inr: "add_comment_annotation (Inr r) field ob = Inr (table_set field (Str (to_json_string r)) ob)"
  by (simp add: add_comment_annotation_def to_json_string_def)

lemma node_metadata_fields:
  assumes "1 \<le> line_number v" "key_faithful key v"
  shows "\<exists>ob. node_metadata comments key v = Inr ob \<and> map_of ob ''type'' = Some (Str (tag_as_string (ev_tag v))) \<and>
    node_fields comments key v ob"
proof -
  have n: "parse_linenum (ev_src_info v) = Inr (line_number v)" "0 \<le> line_number v - 1" "0 \<le> line_number v"
    using assms(1) line_parsed by auto
  have c: "find_sub ''fhicl_pound_include_'' key = None" if "\<not> prefix pound_include key"
    using assms(2) that by (simp add: key_faithful_def)
  note f = node_metadata_def node_fields_def n(1) at_line(2)[OF n(2)] at_line(1)[OF n(3)] add_comment_Inr Let_def
    table_simps distinct_table_set
  show ?thesis
    by (cases "find_sub ''fhicl_pound_include_'' key = None"; cases "ev_tag v = Tag_TABLE"; cases "ev_protection v = NONE")
      (use c in \<open>auto simp: f simp del: table_set.simps\<close>)
qed

lemma node_fields_set: "k = ''type'' \<or> k = ''children'' \<Longrightarrow> node_fields comments key v ob \<Longrightarrow> node_fields comments key v (table_set k x ob)"
  by (auto simp: node_fields_def table_simps distinct_table_set)

lemma table_count_map_of: "distinct (map fst ps) \<Longrightarrow> table_count k ps = (if map_of ps k = None then 0 else 1)"
  by (induction ps) (auto simp: table_count_def map_of_eq_None_iff image_iff filter_empty_conv)

lemma finish_node:
  assumes "node_fields comments key v ob" "\<not> prefix pound_include key"
  shows "finish_atom key ob (ev_tag v \<noteq> Tag_TABLE) x =
    Inr (atom_around comments key v (Fcl_value x (if ev_tag v = Tag_TABLE then None else Some (line_text comments (line_number v)))))"
proof -
  have m: "string_child ''comment'' ob = Inr (to_json_string (line_comment comments (line_number v - 1)))"
      "ev_tag v \<noteq> Tag_TABLE \<Longrightarrow> string_child ''annotation'' ob = Inr (to_json_string (line_text comments (line_number v)))"
    and p: "map_of ob ''protection'' = (if ev_protection v = NONE then None else Some (Str (protection_as_string (ev_protection v))))"
      "distinct (map fst ob)"
    using assms by (auto simp: node_fields_def child_Inr)
  have "(if table_count ''protection'' ob = 1 then bindE (string_child ''protection'' ob) (\<lambda>p.
            Inr (if p \<noteq> ''@none'' then key @ '' '' @ p else key)) else Inr key) = Inr (atom_name key (ev_protection v))"
  proof (cases "ev_protection v = NONE")
    case False
    then have "string_child ''protection'' ob = Inr (protection_as_string (ev_protection v))" using p(1) by (simp add: child_Inr)
    then show ?thesis using False p by (cases "ev_protection v") (simp_all add: table_count_map_of atom_name_def)
  qed (simp add: table_count_map_of p atom_name_def)
  then show ?thesis using assms(2) m line_comment_keeps[of comments "line_number v - 1"]
    by (auto simp: finish_atom_def Let_def atom_around_def split: if_splits)
qed

lemma include_atom:
  assumes "prefix pound_include key" "key_faithful key v" "map_of ob ''type'' = Some (Str t)" "raw_ok (ev_raw v)"
  shows "json2fcl_atom key (Str (to_json_string (dequote (ev_raw v)))) (Obj ob) = Inr (atom_around comments key v x)"
proof -
  have k: "enclosed dquote dquote (ev_raw v)" "to_json_string (dequote (ev_raw v)) = dequote (ev_raw v)"
    using assms(1,2) by (auto simp: key_faithful_def)
  then have "ev_raw v = quoted (dequote (ev_raw v))"
    using enclosed_inner[of dquote dquote "ev_raw v"] assms(4)
    by (simp add: raw_ok_def quotation_type_def quoted_def dequote_def)
  then show ?thesis using assms(1,3) k(2)
    by (simp add: child_Inr[THEN iffD2] atom_type_def atom_around_def)
qed

lemma not_need_quotes: "\<not> need_quotes raw \<Longrightarrow> CHR 0x5C \<notin> set raw"
  by (auto simp: need_quotes_def list_ex_iff)

lemma tag_names: "tag_as_string tag = ''table'' \<longleftrightarrow> tag = Tag_TABLE" "tag_as_string tag = ''number'' \<longleftrightarrow> tag = Tag_NUMBER"
  "tag_as_string tag \<notin> {''string_unquoted'', ''string_singlequoted'', ''string_doublequoted''}"
  "string_type raw \<noteq> ''table''" "string_type raw \<noteq> ''number''"
  by (cases tag; simp)+ (simp_all add: string_type_def split: quotation_type_t.splits)

lemma scalar_atom:
  assumes "is_scalar (ev_tag v)" "scalar_faithful element (ev_tag v) (ev_raw v)" "key_faithful key v"
    "map_of ob ''type'' = Some (Str (tag_as_string (ev_tag v)))" "node_fields comments key v ob"
  shows "\<exists>data ob'. scalar_data (ev_tag v) (ev_raw v) ob = Inr (data, Obj ob') \<and>
    json2fcl_atom key data (Obj ob') =
      Inr (atom_around comments key v (Fcl_value (Fcl_string (ev_raw v)) (Some (line_text comments (line_number v))))) \<and>
    (element \<longrightarrow> json2fcl_value key data (Obj ob') = Inr (Fcl_value (Fcl_string (ev_raw v)) None))"
proof -
  have tag: "ev_tag v \<noteq> Tag_TABLE" "ev_tag v \<noteq> Tag_SEQUENCE" "ev_tag v \<notin> {Tag_UNKNOWN, Tag_other}"
    using assms(1,2) by (auto simp: is_scalar_def scalar_faithful_def)
  show ?thesis
  proof (cases "ev_tag v = Tag_STRING")
    case True
    let ?ob = "table_set ''type'' (Str (string_type (ev_raw v))) ob"
    let ?data = "Str (to_json_string (dequote (ev_raw v)))"
    have raw: "raw_ok (ev_raw v)" using assms(1,2) True by (simp add: scalar_faithful_def)
    have ty: "string_child ''type'' ?ob = Inr (string_type (ev_raw v))" by (simp add: child_Inr table_simps)
    have data: "scalar_data (ev_tag v) (ev_raw v) ob = Inr (?data, Obj ?ob)" using True by (simp add: scalar_data_def)
    have f: "node_fields comments key v ?ob" by (rule node_fields_set) (use assms(5) in auto)
    have "json2fcl_atom key ?data (Obj ?ob) =
        Inr (atom_around comments key v (Fcl_value (Fcl_string (ev_raw v)) (Some (line_text comments (line_number v)))))"
    proof (cases "prefix pound_include key")
      case True
      then show ?thesis using assms(3) raw by (intro include_atom) (simp_all add: table_simps)
    next
      case False
      then show ?thesis using finish_node[OF f False, of "Fcl_string (ev_raw v)"] True tag(1) raw
        by (simp add: ty atom_type_def tag_names string_type_tag scalar_of_def string_text_of_raw)
    qed
    moreover have "json2fcl_value key ?data (Obj ?ob) = Inr (Fcl_value (Fcl_string (ev_raw v)) None)"
      using raw by (simp add: ty tag_names string_text_of_raw)
    ultimately show ?thesis using data by blast
  next
    case False
    have k: "\<not> prefix pound_include key" using assms(3) False by (auto simp: key_faithful_def)
    have ty: "string_child ''type'' ob = Inr (tag_as_string (ev_tag v))" using assms(4) by (simp add: child_Inr)
    have data: "scalar_data (ev_tag v) (ev_raw v) ob = Inr (Str (ev_raw v), Obj ob)"
      using False tag(3) by (cases "ev_tag v") (simp_all add: scalar_data_def)
    have "scalar_of (ev_tag v) (tag_as_string (ev_tag v)) (Str (ev_raw v)) = Inr (Fcl_string (ev_raw v))"
      using False by (cases "ev_tag v") (simp_all add: scalar_of_def)
    then have "json2fcl_atom key (Str (ev_raw v)) (Obj ob) =
        Inr (atom_around comments key v (Fcl_value (Fcl_string (ev_raw v)) (Some (line_text comments (line_number v)))))"
      using finish_node[OF assms(5) k, of "Fcl_string (ev_raw v)"] k tag tag_roundtrip[OF tag(3)]
      by (simp add: ty atom_type_def tag_names)
    moreover have "json2fcl_value key (Str (ev_raw v)) (Obj ob) = Inr (Fcl_value (Fcl_string (ev_raw v)) None)" if element
    proof -
      have "CHR 0x5C \<notin> set (ev_raw v)" "ev_tag v \<noteq> Tag_NUMBER \<Longrightarrow> \<not> need_quotes (ev_raw v)"
        using assms(1,2) that False by (auto simp: scalar_faithful_def not_need_quotes)
      then show ?thesis using tag_names(3)[of "ev_tag v"] by (simp add: ty tag_names(2) from_json_plain string_text_def)
    qed
    ultimately show ?thesis using data by blast
  qed
qed

lemma digits_not_include: "find_sub ''fhicl_pound_include_'' (nat_digits n) = None" "\<not> prefix pound_include (nat_digits n)"
proof -
  have d: "CHR ''f'' \<notin> set (nat_digits n)" using nat_digits_all[of n] by (auto simp: list_all_iff is_digit_def)
  have "find_sub (CHR ''f'' # m) s = None" if "CHR ''f'' \<notin> set s" for m s
    using that by (induction s) auto
  then show "find_sub ''fhicl_pound_include_'' (nat_digits n) = None" using d by blast
  show "\<not> prefix pound_include (nat_digits n)" using d by (auto simp: pound_include_def prefix_def)
qed

lemma digits_faithful: "key_faithful (nat_digits n) v"
  by (simp add: key_faithful_def digits_not_include)

lemma nat_digits_distinct: "distinct (map nat_digits ns) \<longleftrightarrow> distinct ns"
proof -
  have "inj nat_digits" by (metis digits_value_nat injI)
  then have "inj_on nat_digits (set ns)" by (rule inj_on_subset) simp
  then show ?thesis by (simp add: distinct_map)
qed

lemma faithful_in_sequence: "faithful opts True v \<Longrightarrow> faithful opts False v"
  by (cases v) (auto simp: scalar_faithful_def)

lemma distinct_table_at:
  assumes "distinct (map fst ps)"
  shows "\<forall>p\<in>set ps. table_at (fst p) ps = Inr (snd p)"
  using map_of_is_SomeI[OF assms] by (auto simp: table_at_Inr_iff)

text \<open>The conversion of a sequence or a table, its children given.\<close>

lemma sequence_atom:
  assumes "ev_tag v = Tag_SEQUENCE" "key_faithful key v" "node_fields comments key v ob"
    "map_of ob ''type'' = Some (Str (tag_as_string (ev_tag v)))" "json2fcl_elements ms 0 ds = (xs, Inr ())"
  shows "json2fcl_atom key (Arr ds) (Obj (table_set ''children'' (Obj ms) ob)) =
      Inr (atom_around comments key v (Fcl_value (Fcl_sequence xs) (Some (line_text comments (line_number v)))))"
proof -
  let ?ob = "table_set ''children'' (Obj ms) ob"
  have k: "\<not> prefix pound_include key" using assms(1,2) by (auto simp: key_faithful_def)
  have f: "node_fields comments key v ?ob" by (rule node_fields_set) (use assms(3) in auto)
  have "string_child ''type'' ?ob = Inr ''sequence''" "object_child ''children'' ?ob = Inr ms"
    using assms(1,4) by (simp_all add: child_Inr table_simps)
  then show ?thesis using finish_node[OF f k, of "Fcl_sequence xs"] k assms(1,5)
    by (simp add: atom_type_def string_as_tag_def children_of_def up_to_range_def)
qed

lemma table_atom:
  assumes "ev_tag v = Tag_TABLE" "key_faithful key v" "node_fields comments key v ob"
    "map_of ob ''type'' = Some (Str (tag_as_string (ev_tag v)))" "json2fcl_members ms ds = (xs, Inr ())"
  shows "json2fcl_atom key (Obj ds) (Obj (table_set ''children'' (Obj ms) ob)) =
      Inr (atom_around comments key v (Fcl_value (Fcl_table xs) None))"
proof -
  let ?ob = "table_set ''children'' (Obj ms) ob"
  have k: "\<not> prefix pound_include key" using assms(1,2) by (auto simp: key_faithful_def)
  have f: "node_fields comments key v ?ob" by (rule node_fields_set) (use assms(3) in auto)
  have "string_child ''type'' ?ob = Inr ''table''" "object_child ''children'' ?ob = Inr ms"
    using assms(1,4) by (simp_all add: child_Inr table_simps)
  then show ?thesis using finish_node[OF f k, of "Fcl_table xs"] k assms(1,5)
    by (simp add: atom_type_def string_as_tag_def children_of_def up_to_range_def)
qed

text \<open>Both conversions at once: a value, the elements of a sequence, the members of a table.\<close>

definition comes_back :: "extra_opts \<Rightarrow> comments_t \<Rightarrow> string \<Rightarrow> extended_value \<Rightarrow> bool \<Rightarrow> bool" where
  "comes_back opts comments key v element \<longleftrightarrow>
     (\<exists>d m. fcl2jsondb opts comments key v = Inr ((key, d), (key, m)) \<and>
       json2fcl_atom key d m = Inr (source_atom opts comments key v) \<and>
       (element \<longrightarrow> json2fcl_value key d m =
         Inr (if is_scalar (ev_tag v) then Fcl_value (Fcl_string (ev_raw v)) None else source_value opts comments v)))"

definition elements_come_back :: "extra_opts \<Rightarrow> comments_t \<Rightarrow> nat \<Rightarrow> extended_value list \<Rightarrow> bool" where
  "elements_come_back opts comments idx vs \<longleftrightarrow>
     (\<exists>ds ms. fcl2jsondb_elements opts comments idx vs = Inr (ds, ms) \<and> map fst ms = map nat_digits [idx..<idx + length vs] \<and>
       (\<forall>ch. (\<forall>p\<in>set ms. table_at (fst p) ch = Inr (snd p)) \<longrightarrow>
         json2fcl_elements ch idx ds = (source_elements opts comments vs, Inr ())))"

definition members_come_back :: "extra_opts \<Rightarrow> comments_t \<Rightarrow> (string \<times> extended_value) list \<Rightarrow> bool" where
  "members_come_back opts comments vs \<longleftrightarrow>
     (\<exists>ds ms. fcl2jsondb_members opts comments vs = Inr (ds, ms) \<and> map fst ms = map fst (filter (wanted opts \<circ> snd) vs) \<and>
       (\<forall>ch. (\<forall>p\<in>set ms. table_at (fst p) ch = Inr (snd p)) \<longrightarrow>
         json2fcl_members ch ds = (source_members opts comments vs, Inr ())))"

lemma scalar_comes_back:
  assumes "is_scalar (ev_tag v)" "comments \<noteq> []" "key_faithful key v" "faithful opts element v"
  shows "comes_back opts comments key v element"
proof -
  have l: "1 \<le> line_number v" "scalar_faithful element (ev_tag v) (ev_raw v)" using assms(4) by (cases v; simp)+
  obtain ob where ob: "node_metadata comments key v = Inr ob" "map_of ob ''type'' = Some (Str (tag_as_string (ev_tag v)))"
      "node_fields comments key v ob" using node_metadata_fields[OF l(1) assms(3)] by blast
  obtain data ob' where d: "scalar_data (ev_tag v) (ev_raw v) ob = Inr (data, Obj ob')"
      "json2fcl_atom key data (Obj ob') =
        Inr (atom_around comments key v (Fcl_value (Fcl_string (ev_raw v)) (Some (line_text comments (line_number v)))))"
      "element \<longrightarrow> json2fcl_value key data (Obj ob') = Inr (Fcl_value (Fcl_string (ev_raw v)) None)"
    using scalar_atom[OF assms(1) l(2) assms(3) ob(2,3)] by blast
  have "fcl2jsondb opts comments key v = Inr ((key, data), (key, Obj ob'))"
    using ob(1) d(1) assms(1-3) by (cases v) (simp add: as_fhicl_def key_faithful_def is_scalar_def)
  moreover have "source_value opts comments v = Fcl_value (Fcl_string (ev_raw v)) (Some (line_text comments (line_number v)))"
    using assms(1) by (cases v) (simp add: is_scalar_def)
  ultimately show ?thesis using d(2,3) assms(1) unfolding comes_back_def source_atom_def
    by (intro exI[of _ data] exI[of _ "Obj ob'"]) (simp del: json2fcl_atom.simps json2fcl_value.simps)
qed

lemma container_comes_back:
  assumes "fcl2jsondb opts comments key v = Inr ((key, d), (key, m))" "json2fcl_atom key d m = Inr (source_atom opts comments key v)"
    and "\<not> is_scalar (ev_tag v)" "key_faithful key v" "(\<exists>xs. d = Arr xs) \<or> (\<exists>ps. d = Obj ps)"
  shows "comes_back opts comments key v element"
proof -
  have "fa_value (source_atom opts comments key v) = source_value opts comments v"
    using assms(3,4) by (auto simp: source_atom_def atom_around_def key_faithful_def is_scalar_def)
  moreover have "json2fcl_value key d m = bindE (json2fcl_atom key d m) (\<lambda>a. Inr (fa_value a))" using assms(5) by auto
  ultimately show ?thesis using assms(1-3) by (auto simp: comes_back_def simp del: json2fcl_atom.simps json2fcl_value.simps)
qed

lemma conversions_come_back:
  shows "comments \<noteq> [] \<Longrightarrow> key_faithful key v \<Longrightarrow> faithful opts element v \<Longrightarrow> comes_back opts comments key v element"
    and "comments \<noteq> [] \<Longrightarrow> faithful_elements opts vs \<Longrightarrow> elements_come_back opts comments idx vs"
    and "comments \<noteq> [] \<Longrightarrow> faithful_members opts ms \<Longrightarrow> members_come_back opts comments ms"
proof (induction opts comments key v and opts comments idx vs and opts comments ms arbitrary: element and and
    rule: fcl2jsondb_fcl2jsondb_elements_fcl2jsondb_members.induct)
  case (1 opts comments key tag raw vs ms src prot prolog)
  let ?v = "Extended tag raw vs ms src prot prolog"
  obtain ob where ob: "node_metadata comments key ?v = Inr ob" "map_of ob ''type'' = Some (Str (tag_as_string tag))"
      "node_fields comments key ?v ob"
    using node_metadata_fields[of ?v key comments] "1.prems"(2,3) by auto
  have k: "key \<noteq> []" using "1.prems"(2) by (simp add: key_faithful_def)
  consider "is_scalar tag" | "tag = Tag_SEQUENCE" | "tag = Tag_TABLE" by (auto simp: is_scalar_def)
  then show ?case
  proof cases
    case 1
    then show ?thesis using "1.prems" by (intro scalar_comes_back) simp_all
  next
    case 2
    then have "elements_come_back opts comments 0 vs" using "1.IH"(1) "1.prems" k by simp
    then obtain ds mt where e: "fcl2jsondb_elements opts comments 0 vs = Inr (ds, mt)" "map fst mt = map nat_digits [0..<length vs]"
        "\<And>ch. (\<forall>p\<in>set mt. table_at (fst p) ch = Inr (snd p)) \<Longrightarrow> json2fcl_elements ch 0 ds = (source_elements opts comments vs, Inr ())"
      by (auto simp: elements_come_back_def)
    have "json2fcl_elements mt 0 ds = (source_elements opts comments vs, Inr ())"
      using e(2) by (intro e(3) distinct_table_at) (simp add: nat_digits_distinct)
    then have a: "json2fcl_atom key (Arr ds) (Obj (table_set ''children'' (Obj mt) ob)) = Inr (source_atom opts comments key ?v)"
      using sequence_atom[of ?v key comments ob mt ds] 2 "1.prems"(2) ob(2,3) by (simp add: source_atom_def del: json2fcl_atom.simps)
    have h: "fcl2jsondb opts comments key ?v = Inr ((key, Arr ds), (key, Obj (table_set ''children'' (Obj mt) ob)))"
      using ob(1) e(1) 2 k "1.prems"(1) by (simp add: as_fhicl_def)
    show ?thesis by (rule container_comes_back[OF h a]) (use 2 "1.prems"(2) in \<open>auto simp: is_scalar_def\<close>)
  next
    case 3
    then have "members_come_back opts comments ms" using "1.IH"(2) "1.prems" k by simp
    then obtain ds mt where e: "fcl2jsondb_members opts comments ms = Inr (ds, mt)"
        "map fst mt = map fst (filter (wanted opts \<circ> snd) ms)"
        "\<And>ch. (\<forall>p\<in>set mt. table_at (fst p) ch = Inr (snd p)) \<Longrightarrow> json2fcl_members ch ds = (source_members opts comments ms, Inr ())"
      by (auto simp: members_come_back_def)
    have "json2fcl_members mt ds = (source_members opts comments ms, Inr ())"
      using e(2) 3 "1.prems"(3) by (intro e(3) distinct_table_at) simp
    then have a: "json2fcl_atom key (Obj ds) (Obj (table_set ''children'' (Obj mt) ob)) = Inr (source_atom opts comments key ?v)"
      using table_atom[of ?v key comments ob mt ds] 3 "1.prems"(2) ob(2,3) by (simp add: source_atom_def del: json2fcl_atom.simps)
    have h: "fcl2jsondb opts comments key ?v = Inr ((key, Obj ds), (key, Obj (table_set ''children'' (Obj mt) ob)))"
      using ob(1) e(1) 3 k "1.prems"(1) by (simp add: as_fhicl_def)
    show ?thesis by (rule container_comes_back[OF h a]) (use 3 "1.prems"(2) in \<open>auto simp: is_scalar_def\<close>)
  qed
next
  case (2 opts comments idx)
  then show ?case by (auto simp: elements_come_back_def)
next
  case (3 opts comments idx v vs)
  then have "comes_back opts comments (nat_digits idx) v True" by (intro "3.IH"(1)) (simp_all add: digits_faithful)
  then obtain d m where h: "fcl2jsondb opts comments (nat_digits idx) v = Inr ((nat_digits idx, d), (nat_digits idx, m))"
      "json2fcl_value (nat_digits idx) d m =
        Inr (if is_scalar (ev_tag v) then Fcl_value (Fcl_string (ev_raw v)) None else source_value opts comments v)"
    by (auto simp: comes_back_def simp del: json2fcl_value.simps json2fcl_atom.simps)
  have "elements_come_back opts comments (Suc idx) vs" using "3.IH"(2) "3.prems" by simp
  then obtain ds mt where e: "fcl2jsondb_elements opts comments (Suc idx) vs = Inr (ds, mt)"
      "map fst mt = map nat_digits [Suc idx..<Suc idx + length vs]"
      "\<And>ch. (\<forall>p\<in>set mt. table_at (fst p) ch = Inr (snd p)) \<Longrightarrow>
        json2fcl_elements ch (Suc idx) ds = (source_elements opts comments vs, Inr ())"
    by (auto simp: elements_come_back_def)
  have "[idx..<idx + length (v # vs)] = idx # [Suc idx..<Suc idx + length vs]" by (simp add: upt_conv_Cons del: upt_Suc)
  then show ?case unfolding elements_come_back_def using h e
    by (intro exI[of _ "d # ds"] exI[of _ "(nat_digits idx, m) # mt"]) (simp add: extend_list_def del: json2fcl_value.simps upt_Suc)
next
  case (4 opts comments)
  then show ?case by (auto simp: members_come_back_def)
next
  case (5 opts comments key v ms)
  show ?case
  proof (cases "wanted opts v")
    case True
    then have "comes_back opts comments key v False" using "5.prems" by (intro "5.IH"(1)) simp_all
    then obtain d m where h: "fcl2jsondb opts comments key v = Inr ((key, d), (key, m))"
        "json2fcl_atom key d m = Inr (source_atom opts comments key v)"
      by (auto simp: comes_back_def simp del: json2fcl_atom.simps)
    have "members_come_back opts comments ms" using "5.IH"(2) True "5.prems" by simp
    then obtain ds mt where e: "fcl2jsondb_members opts comments ms = Inr (ds, mt)"
        "map fst mt = map fst (filter (wanted opts \<circ> snd) ms)"
        "\<And>ch. (\<forall>p\<in>set mt. table_at (fst p) ch = Inr (snd p)) \<Longrightarrow> json2fcl_members ch ds = (source_members opts comments ms, Inr ())"
      by (auto simp: members_come_back_def)
    show ?thesis unfolding members_come_back_def using h e True
      by (intro exI[of _ "(key, d) # ds"] exI[of _ "(key, m) # mt"])
        (auto simp: extend_list_def source_atom_def simp del: json2fcl_atom.simps)
  next
    case False
    then have "members_come_back opts comments ms" using "5.IH"(3) "5.prems" by simp
    then show ?thesis using False by (simp add: members_come_back_def)
  qed
qed


definition demo_scalar :: "value_tag \<Rightarrow> string \<Rightarrow> string \<Rightarrow> extended_value" where
  "demo_scalar tag raw line = Extended tag raw [] [] (''f.fcl:'' @ line) NONE False"

definition demo_table :: extended_value where
  "demo_table = Extended Tag_TABLE [] []
     [(''a'', demo_scalar Tag_STRING (quoted ''x y'') ''3''),
      (''b'', Extended Tag_SEQUENCE [] [demo_scalar Tag_NUMBER ''1'' ''4'', demo_scalar Tag_NUMBER ''2.5'' ''4''] [] ''f.fcl:4'' PROTECT_ERROR False)]
     ''f.fcl:2'' NONE False"


text \<open>A complex number in a sequence comes back as a string, in a table as it was.\<close>

theorem complex_in_sequence_quoted:
  "bindE (fcl2jsondb combined_mode [(1, ''# c'')] ''c'' (Extended Tag_SEQUENCE [] [demo_scalar Tag_COMPLEX ''(1, 2)'' ''1''] [] ''f.fcl:1'' NONE False))
      (\<lambda>(d, m). json2fcl_atom ''c'' (snd d) (snd m)) =
      Inr (Fcl_atom ''c'' (Some []) (Fcl_value (Fcl_sequence [Fcl_value (Fcl_string (quoted ''(1, 2)'')) None]) (Some ''# c''))) \<and>
    bindE (fcl2jsondb combined_mode [(1, ''# c'')] ''c'' (demo_scalar Tag_COMPLEX ''(1, 2)'' ''1''))
      (\<lambda>(d, m). json2fcl_atom ''c'' (snd d) (snd m)) =
      Inr (Fcl_atom ''c'' (Some []) (Fcl_value (Fcl_string ''(1, 2)'') (Some ''# c'')))"
  by code_simp

section \<open>Documents\<close>

lemma comments_of_not_Nil: "comments_of s \<noteq> []"
proof -
  let ?f = "\<lambda>c m. if fst c \<in> fst ` set m then m else m @ [c]"
  have n: "fold ?f cs m \<noteq> []" if "m \<noteq> []" for cs m :: comments_t
    using that by (induction cs arbitrary: m) simp_all
  have "length (fold ?f (c # cs) []) \<noteq> 0" for c and cs :: comments_t using n[of "[c]" cs] by simp
  then have "length (into_map (c # cs)) \<noteq> 0" for c cs unfolding into_map_def by (simp only: length_sort not_False_eq_True)
  then have "into_map (c # cs) \<noteq> []" for c cs by fastforce
  then show ?thesis by (auto simp: comments_of_def parse_comments_def split: option.splits)
qed

lemma members_filter:
  "fcl2jsondb_members prolog_mode comments (filter (\<lambda>e. ev_in_prolog (snd e)) ms) = fcl2jsondb_members prolog_mode comments ms"
  "fcl2jsondb_members default_mode comments (filter (\<lambda>e. \<not> ev_in_prolog (snd e)) ms) = fcl2jsondb_members default_mode comments ms"
  by (induction ms) (auto simp: wanted_def prolog_mode_def default_mode_def)

lemma members_atoms: "json2fcl_members ch ds = (xs, Inr ()) \<Longrightarrow> section_atoms ds ch = Inr xs"
proof (induction ds arbitrary: xs)
  case (Cons d ds)
  then obtain y where y: "bindE (table_at (fst d) ch) (json2fcl_atom (fst d) (snd d)) = Inr y" "xs = y # fst (json2fcl_members ch ds)"
      "snd (json2fcl_members ch ds) = Inr ()"
    by (auto simp: extend_list_def split: sum.splits simp del: json2fcl_atom.simps)
  then have "section_atoms ds ch = Inr (fst (json2fcl_members ch ds))" using Cons.IH[of "fst (json2fcl_members ch ds)"] by (metis prod.collapse)
  then show ?case using y(1,2) by (simp add: section_atoms_def del: json2fcl_atom.simps)
qed (simp add: section_atoms_def)

lemma section_roundtrip:
  assumes "comments \<noteq> []" "faithful_members opts ms" "distinct (map fst ms)"
  shows "\<exists>data metadata. fcl2jsondb_members opts comments ms = Inr (data, metadata) \<and>
    section_atoms data metadata = Inr (source_members opts comments ms)"
proof -
  obtain ds mt where e: "fcl2jsondb_members opts comments ms = Inr (ds, mt)"
      "map fst mt = map fst (filter (wanted opts \<circ> snd) ms)"
      "\<And>ch. (\<forall>p\<in>set mt. table_at (fst p) ch = Inr (snd p)) \<Longrightarrow> json2fcl_members ch ds = (source_members opts comments ms, Inr ())"
    using conversions_come_back(3)[OF assms(1,2)] by (auto simp: members_come_back_def)
  have "distinct (map fst mt)" using assms(3) e(2) by (simp add: distinct_map_filter)
  then show ?thesis using e(1) members_atoms[OF e(3)[OF distinct_table_at]] by blast
qed

lemma section_atoms_empty: "section_atoms data metadata = Inr xs \<Longrightarrow> data = [] \<longleftrightarrow> xs = []"
  by (cases data) (auto simp: section_atoms_def bindE_eq_Inr)

text \<open>The text of a document: the prolog, if there is one, and the rest.\<close>

definition document_text :: "(64 word \<Rightarrow> string) \<Rightarrow> fcl_atom list \<Rightarrow> fcl_atom list \<Rightarrow> string" where
  "document_text kd prolog_atoms main_atoms =
     (if prolog_atoms = [] then [] else ''BEGIN_PROLOG'' @ eol @ toplevel_table kd prolog_atoms @ eol @ ''END_PROLOG'' @ eol) @
     toplevel_table kd main_atoms"


text \<open>An include line and a sequence with a comment and an annotation; the parser knows this text only.\<close>

definition demo_document :: string where
  "demo_document = ''#include '' @ quoted ''a.fcl'' @ eol @ ''# t'' @ eol @ ''t: [1, 2] # two'' @ eol"

definition demo_members :: "(string \<times> extended_value) list" where
  "demo_members =
     [(''fhicl_pound_include_0'', demo_scalar Tag_STRING (quoted ''a.fcl'') ''1''),
      (''t'', Extended Tag_SEQUENCE [] [demo_scalar Tag_NUMBER ''1'' ''3'', demo_scalar Tag_NUMBER ''2'' ''3''] [] ''f.fcl:3'' NONE False)]"

definition demo_parser :: "string \<Rightarrow> exn + (string \<times> extended_value) list" where
  "demo_parser conf =
     (if conf = ''fhicl_pound_include_0:'' @ quoted ''a.fcl'' @ eol @ ''# t'' @ eol @ ''t: [1, 2] # two'' @ eol then Inr demo_members
      else Inl Fhicl_exception)"


end
