(* ===== verification/CommentLaws.thy ===== *)
theory CommentLaws
  imports FhiclText
begin

text \<open>
  What the FHiCL reader finds before the parser runs: the comments of a text with their lines, and the
  include lines, which it gives names.
\<close>

section \<open>Comments\<close>

text \<open>A text as its comments with the code before each, the code as plain pieces and quoted strings.\<close>

datatype piece = Plain string | Literal char string

fun piece_text :: "piece \<Rightarrow> string" where
  "piece_text (Plain s) = s"
| "piece_text (Literal q s) = q # s @ [q]"

fun piece_ok :: "piece \<Rightarrow> bool" where
  "piece_ok (Plain s) \<longleftrightarrow> list_all (\<lambda>c. ascii_char c \<and> c \<notin> {dquote, squote, CHR ''#'', CHR ''/'', CHR 0x0D}) s"
| "piece_ok (Literal q s) \<longleftrightarrow> q \<in> {dquote, squote} \<and> s \<noteq> [] \<and> list_all (\<lambda>c. ascii_char c \<and> c \<noteq> q \<and> c \<noteq> CHR 0x0D) s"

definition code_text :: "piece list \<Rightarrow> string" where
  "code_text ps = concat (map piece_text ps)"

definition comment_ok :: "string \<Rightarrow> bool" where
  "comment_ok c \<longleftrightarrow> starts_comment c \<and> list_all (\<lambda>c. ascii_char c \<and> c \<noteq> CHR 0x0A \<and> c \<noteq> CHR 0x0D) c"

fun commented_text :: "(piece list \<times> string) list \<Rightarrow> piece list \<Rightarrow> string" where
  "commented_text [] code = code_text code"
| "commented_text ((ps, c) # bs) code = code_text ps @ c @ CHR 0x0A # commented_text bs code"

fun numbered_comments :: "nat \<Rightarrow> (piece list \<times> string) list \<Rightarrow> comments_t" where
  "numbered_comments n [] = []"
| "numbered_comments n ((ps, c) # bs) =
     (let k = n + count_list (code_text ps) (CHR 0x0A) in (int k, c) # numbered_comments (Suc k) bs)"

definition blocks_ok :: "(piece list \<times> string) list \<Rightarrow> bool" where
  "blocks_ok bs \<longleftrightarrow> list_all (\<lambda>(ps, c). list_all piece_ok ps \<and> comment_ok c) bs"

lemma take_until_skip:
  assumes "\<And>c. c \<in> set s \<Longrightarrow> ascii_char c \<and> (\<forall>u. \<not> p (c # u))" "take_until p t = (u, r)"
  shows "take_until p (s @ t) = (s @ u, r)"
  using assms by (induction s) simp_all

lemma take_until_stop: "s = [] \<or> p s \<Longrightarrow> take_until p s = ([], s)"
  by (cases s) auto

text \<open>Where a comment begins, or the text ends.\<close>

definition code_end :: "string \<Rightarrow> bool" where
  "code_end r \<longleftrightarrow> r = [] \<or> starts_comment r"

lemma not_quoted: "code_end r \<Longrightarrow> any_quoted_string r = None"
  by (auto simp: code_end_def starts_comment_def prefix_def any_quoted_string_def quoted_string_rule_def dquote_def squote_def)

lemma quoted_literal:
  assumes "piece_ok (Literal q s)"
  shows "any_quoted_string (q # s @ q # t) = Some (q # s @ [q], t)"
proof -
  have "take_until (prefix [q]) (s @ q # t) = (s, q # t)"
    using assms take_until_skip[of s "prefix [q]" "q # t" "[]" "q # t"] by (auto simp: list_all_iff)
  then show ?thesis using assms
    by (auto simp: any_quoted_string_def quoted_string_rule_def dquote_def squote_def)
qed

lemma padded_code:
  assumes "list_all piece_ok ps" "code_end r"
  shows "padded_quoted_string_rule (code_text ps @ r) = (code_text ps, r)"
  using assms(1)
proof (induction ps)
  case Nil
  have "whitespace_b4quotedstring_rule r = ([], r)"
    using assms(2) unfolding whitespace_b4quotedstring_rule_def code_end_def by (intro take_until_stop) auto
  moreover have "quoted_strings r = ([], r)" using not_quoted[OF assms(2)] by (subst quoted_strings.simps) simp
  ultimately show ?case by (simp add: padded_quoted_string_rule_def code_text_def)
next
  case (Cons p ps)
  let ?x = "code_text ps @ r"
  obtain w r' t where x: "whitespace_b4quotedstring_rule ?x = (w, r')" "quoted_strings r' = (t, r)" "w @ t = code_text ps"
    using Cons by (auto simp: padded_quoted_string_rule_def split: prod.splits)
  have ct: "code_text (p # ps) @ r = piece_text p @ ?x" by (simp add: code_text_def)
  show ?case
  proof (cases p)
    case (Plain s)
    have "whitespace_b4quotedstring_rule (s @ ?x) = (s @ w, r')"
      using x(1) Cons.prems Plain unfolding whitespace_b4quotedstring_rule_def
      by (intro take_until_skip) (auto simp: list_all_iff starts_comment_def)
    then show ?thesis using Plain x(2,3) by (simp add: ct padded_quoted_string_rule_def) (simp add: code_text_def)
  next
    case (Literal q s)
    have "whitespace_b4quotedstring_rule (q # s @ q # ?x) = ([], q # s @ q # ?x)"
      using Cons.prems Literal unfolding whitespace_b4quotedstring_rule_def by (intro take_until_stop) auto
    moreover have "quoted_strings (q # s @ q # ?x) = (q # s @ q # w @ t, r)"
      using quoted_literal[of q s ?x] Cons.prems Literal x by (subst quoted_strings.simps) simp
    ultimately show ?thesis using Literal x(3) by (simp add: ct padded_quoted_string_rule_def) (simp add: code_text_def)
  qed
qed

lemma whitespace_end: "code_end r \<Longrightarrow> whitespace_rule r = ([], r)"
  unfolding whitespace_rule_def code_end_def by (intro take_until_stop) auto

lemma comment_taken:
  assumes "list_all piece_ok ps" "comment_ok c"
  shows "comment_element taken (code_text ps @ c @ CHR 0x0A # t) =
    Some (taken @ code_text ps @ c, (int (line_of (taken @ code_text ps)), c), CHR 0x0A # t)"
proof -
  let ?r = "c @ CHR 0x0A # t"
  have e: "code_end ?r" "c \<noteq> []"
    using assms(2) by (auto simp: comment_ok_def code_end_def starts_comment_def intro: prefix_prefix)
  have ch: "ascii_char d \<and> (\<forall>u. eol_prefix (d # u) = None)" if "d \<in> set c" for d
    using assms(2) that by (auto simp: comment_ok_def list_all_iff eol_prefix_def)
  have "take_until (\<lambda>s. eol_prefix s \<noteq> None) ?r = (c, CHR 0x0A # t)"
    using take_until_skip[of c "\<lambda>s. eol_prefix s \<noteq> None" "CHR 0x0A # t" "[]" "CHR 0x0A # t"] ch by (simp add: eol_prefix_def)
  then have "string_rule ?r = Some (c, CHR 0x0A # t)" using e(2) by (simp add: string_rule_def)
  then show ?thesis using padded_code[OF assms(1) e(1)] whitespace_end[OF e(1)] by (simp add: comment_element_def)
qed

lemma no_comment_taken: "list_all piece_ok ps \<Longrightarrow> comment_element taken (code_text ps) = None"
  using padded_code[of ps "[]"] whitespace_end[of "[]"] by (simp add: comment_element_def code_end_def string_rule_def)

text \<open>Without carriage returns the line is the number of line feeds.\<close>

lemma line_at_count: "CHR 0x0D \<notin> set s \<Longrightarrow> prev \<noteq> CHR 0x0D \<Longrightarrow> line_at prev n s = n + count_list s (CHR 0x0A)"
  by (induction prev n s rule: line_at.induct) auto

lemma line_of_count: "CHR 0x0D \<notin> set s \<Longrightarrow> line_of s = 1 + count_list s (CHR 0x0A)"
  by (simp add: line_of_def line_at_count)

lemma code_no_return: "list_all piece_ok ps \<Longrightarrow> CHR 0x0D \<notin> set (code_text ps)"
proof -
  have "piece_ok p \<Longrightarrow> CHR 0x0D \<notin> set (piece_text p)" for p
    by (cases p) (auto simp: list_all_iff dquote_def squote_def)
  then show "list_all piece_ok ps \<Longrightarrow> ?thesis" by (auto simp: code_text_def list_all_iff)
qed

lemma comment_characters: "comment_ok c \<Longrightarrow> CHR 0x0D \<notin> set c \<and> count_list c (CHR 0x0A) = 0"
  by (auto simp: comment_ok_def list_all_iff count_list_0_iff)

lemma no_code_comment: "list_all piece_ok code \<Longrightarrow> more_comments k taken (CHR 0x0A # code_text code) = []"
  by (cases k) (simp_all add: blank_char_def eol_prefix_def no_comment_taken)

lemma more_comments_found:
  assumes "blocks_ok bs" "list_all piece_ok code" "length bs \<le> k" "CHR 0x0D \<notin> set taken"
  shows "more_comments k taken (CHR 0x0A # commented_text bs code) = numbered_comments (2 + count_list taken (CHR 0x0A)) bs"
  using assms
proof (induction bs arbitrary: k taken)
  case Nil
  then show ?case by (simp add: no_code_comment)
next
  case (Cons b bs)
  obtain ps c where b: "b = (ps, c)" by (cases b)
  obtain j where k: "k = Suc j" "length bs \<le> j" using Cons.prems(3) by (cases k) auto
  let ?taken = "taken @ [CHR 0x0A]"
  have ok: "list_all piece_ok ps" "comment_ok c" "blocks_ok bs" using Cons.prems(1) by (auto simp: b blocks_ok_def)
  have nr: "CHR 0x0D \<notin> set (?taken @ code_text ps @ c)" "CHR 0x0D \<notin> set (?taken @ code_text ps)"
    using Cons.prems(4) code_no_return[OF ok(1)] comment_characters[OF ok(2)] by auto
  have "comment_element ?taken (commented_text (b # bs) code) =
      Some (?taken @ code_text ps @ c, (int (line_of (?taken @ code_text ps)), c), CHR 0x0A # commented_text bs code)"
    using comment_taken[OF ok(1,2), of ?taken] by (simp add: b)
  then have "more_comments k taken (CHR 0x0A # commented_text (b # bs) code) =
      (int (line_of (?taken @ code_text ps)), c) # more_comments j (?taken @ code_text ps @ c) (CHR 0x0A # commented_text bs code)"
    by (simp add: k(1) blank_char_def eol_prefix_def del: commented_text.simps)
  then show ?case using Cons.IH[OF ok(3) Cons.prems(2) k(2) nr(1)] line_of_count[OF nr(2)] comment_characters[OF ok(2)]
    by (simp add: b Let_def)
qed

lemma comments_ascend:
  "sorted_wrt (<) (map fst (numbered_comments n bs)) \<and> (\<forall>c\<in>set (numbered_comments n bs). int n \<le> fst c)"
proof (induction bs arbitrary: n)
  case (Cons b bs)
  obtain ps c where b: "b = (ps, c)" by (cases b)
  let ?k = "n + count_list (code_text ps) (CHR 0x0A)"
  show ?case using Cons[of "Suc ?k"] by (fastforce simp: b Let_def)
qed simp

lemma into_map_ascending: "sorted_wrt (<) (map fst cs) \<Longrightarrow> into_map cs = (cs :: comments_t)"
proof -
  let ?f = "\<lambda>c m. if fst c \<in> fst ` set m then m else m @ [c]"
  have f: "fold ?f cs m = m @ cs" if "distinct (map fst (m @ cs))" for m :: comments_t
    using that by (induction cs arbitrary: m) (simp_all add: image_iff)
  assume "sorted_wrt (<) (map fst cs)"
  then have "distinct (map fst cs)" "sorted (map fst cs)" by (simp_all add: strict_sorted_iff)
  then show ?thesis using f[of "[]"] by (simp add: into_map_def sorted_sort_id sort_key_id_if_sorted)
qed

lemma blocks_length: "length bs \<le> length (commented_text bs code)"
  by (induction bs code rule: commented_text.induct) simp_all


text \<open>A sharp sign inside a string, and a comment behind it.\<close>

definition demo_code :: "(piece list \<times> string) list" where
  "demo_code = [([Plain ''a: '', Literal dquote ''x#y'', Plain '' ''], ''# one''), ([Plain ''b: 2'', Plain [CHR 0x0A], Plain ''c: 3 ''], ''// two'')]"


text \<open>An empty string: its second quote opens a string that ends at the next quote, and a sharp sign
  inside the next string begins a comment.\<close>

theorem empty_string_hides_comment:
  "parse_comments (''a: '' @ quoted [] @ eol @ ''b: '' @ quoted ''x#y'' @ eol) = Some [(2, ''#y'' @ [dquote])]"
  by code_simp

text \<open>A character beyond ASCII ends the list of comments.\<close>

theorem comments_end_at_foreign_character:
  "parse_comments (''a: 1 # one'' @ eol @ ''b: '' @ quoted [CHR 0xC3, CHR 0xA9] @ eol @ ''c: 3 # three'' @ eol) = Some [(1, ''# one'')]"
  by code_simp

section \<open>Include lines\<close>

definition include_line :: "string \<Rightarrow> string" where
  "include_line f = ''#include '' @ quoted f @ eol"

definition include_lines :: "string list \<Rightarrow> string" where
  "include_lines fs = concat (map include_line fs)"

fun renamed_lines :: "nat \<Rightarrow> string list \<Rightarrow> string" where
  "renamed_lines idx [] = []"
| "renamed_lines idx (f # fs) = numbered_include idx @ quoted f @ eol @ renamed_lines (Suc idx) fs"

lemma include_needs_sharp: "CHR ''#'' \<noteq> c \<Longrightarrow> re_matches include_pattern (g, c # s) = []"
  by (simp add: include_pattern_def re_text_def)

lemma match_at_skip: "CHR ''#'' \<notin> set u \<Longrightarrow> match_at include_pattern (u @ s) = map_option (apfst ((+) (length u))) (match_at include_pattern s)"
proof (induction u)
  case Nil
  then show ?case by (simp add: apfst_def map_prod_def id_def option.map_ident case_prod_beta')
next
  case (Cons c u)
  then show ?case by (subst match_at.simps) (simp add: include_needs_sharp option.map_comp comp_def apfst_def map_prod_def case_prod_beta')
qed

lemma include_line_matches: "match_at include_pattern (include_line f @ s) = Some (0, 9)"
proof -
  have sp: "is_space (CHR '' '')" by (simp add: is_space_def)
  have e: "re_matches (Except [squote, dquote]) (g, dquote # t) = []" for g t by (simp add: squote_def dquote_def)
  have "first_match Space ([], '' '' @ dquote # t) ([], dquote # t)" for t using first_Space[OF sp] by simp
  from first_Both[OF first_text[of "''#include''"] this]
  have "first_match (Both (re_text ''#include'') Space) ([], ''#include '' @ dquote # t) ([], dquote # t)" for t by simp
  then have "first_match (Group 1 (Both (re_text ''#include'') Space)) ([], ''#include '' @ dquote # t)
      ((1, ''#include '') # [], dquote # t)" for t by (rule first_Group)
  moreover have "first_match (Group 2 (Star (Except [squote, dquote]))) (g, [] @ dquote # t) ((2, []) # g, dquote # t)" for g t
    using first_Star_stop[OF e] by (intro first_Group) simp
  ultimately have "first_match include_pattern ([], ''#include '' @ dquote # t) ((2, []) # (1, ''#include '') # [], dquote # t)" for t
    unfolding include_pattern_def using first_Both by fastforce
  then obtain ms where "re_matches include_pattern ([], include_line f @ s) = ((2, []) # (1, ''#include '') # [], dquote # f @ [dquote] @ eol @ s) # ms"
    by (auto simp: first_match_def include_line_def quoted_def)
  then show ?thesis by (subst match_at.simps) (simp add: include_line_def quoted_def)
qed

lemma renamed_no_sharp: "CHR ''#'' \<notin> set (numbered_include idx)"
proof -
  have "\<not> is_digit (CHR ''#'')" by (simp add: is_digit_def)
  then have "CHR ''#'' \<notin> set (nat_digits idx)" using nat_digits_all[of idx] unfolding list_all_iff by blast
  then show ?thesis by (simp add: numbered_include_def)
qed

lemma numbered_include_length: "length (numbered_include idx) = 21 + length (nat_digits idx)"
  by (simp add: numbered_include_def)

lemma renamed_longer: "length (include_lines fs) \<le> length (renamed_lines idx fs)"
  by (induction idx fs rule: renamed_lines.induct)
    (auto simp: include_lines_def include_line_def numbered_include_length)

text \<open>The loop, with the text before the lines left; what is behind the place it searches from has no
  sharp sign.\<close>

lemma rename_loop:
  assumes "match_at include_pattern rest = None" "list_all (\<lambda>f. CHR ''#'' \<notin> set f) fs" "CHR ''#'' \<notin> set u"
    and "length (v @ u @ include_lines fs @ rest) \<le> capacity"
  shows "rename_includes capacity idx (length v) (v @ u @ include_lines fs @ rest) =
    (if length (v @ u @ renamed_lines idx fs @ rest) \<le> capacity then Inr (v @ u @ renamed_lines idx fs @ rest) else Inl Undefined)"
  using assms(2-)
proof (induction fs arbitrary: u v idx)
  case Nil
  then show ?case using match_at_skip[of u rest] assms(1) by (subst rename_includes.simps) (simp add: include_lines_def)
next
  case (Cons f fs)
  let ?x = "quoted f @ eol @ include_lines fs @ rest"
  let ?n = "numbered_include idx"
  have t: "include_lines (f # fs) @ rest = ''#include '' @ ?x" by (simp add: include_lines_def include_line_def)
  have m: "match_at include_pattern (drop (length v) (v @ u @ include_lines (f # fs) @ rest)) = Some (length u, 9)"
    using match_at_skip[OF Cons.prems(2), of "include_lines (f # fs) @ rest"] include_line_matches[of f "include_lines fs @ rest"]
    by (simp add: include_lines_def)
  define conf where "conf = v @ u @ ?n @ ?x"
  have r: "rename_includes capacity idx (length v) (v @ u @ include_lines (f # fs) @ rest) =
      (if length conf > capacity then Inl Undefined
       else rename_includes capacity (Suc idx) (length v + length u + 9) conf)"
    by (subst rename_includes.simps) (simp only: m option.case prod.case Let_def, simp add: t conf_def)
  have len: "length conf \<le> length (v @ u @ renamed_lines idx (f # fs) @ rest)"
    using renamed_longer[of fs "Suc idx"] by (simp add: conf_def)
  show ?case
  proof (cases "length conf \<le> capacity")
    case False
    then show ?thesis using r len by simp
  next
    case True
    let ?u = "drop 9 ?n @ quoted f @ eol"
    have n: "take 9 ?n @ drop 9 ?n @ t = ?n @ t" for t using append_take_drop_id[of 9 ?n] by (metis append_assoc)
    have c: "conf = (v @ u @ take 9 ?n) @ ?u @ include_lines fs @ rest" by (simp add: conf_def n)
    have l: "length v + length u + 9 = length (v @ u @ take 9 ?n)" by (simp add: numbered_include_length)
    have s: "CHR ''#'' \<notin> set ?u"
      using Cons.prems(1) renamed_no_sharp[of idx] by (auto simp: quoted_def eol_def dquote_def dest: in_set_dropD)
    have q: "(v @ u @ take 9 ?n) @ ?u @ renamed_lines (Suc idx) fs @ rest = v @ u @ renamed_lines idx (f # fs) @ rest"
      by (simp add: n)
    have "rename_includes capacity (Suc idx) (length (v @ u @ take 9 ?n)) ((v @ u @ take 9 ?n) @ ?u @ include_lines fs @ rest) =
        (if length ((v @ u @ take 9 ?n) @ ?u @ renamed_lines (Suc idx) fs @ rest) \<le> capacity
         then Inr ((v @ u @ take 9 ?n) @ ?u @ renamed_lines (Suc idx) fs @ rest) else Inl Undefined)"
      using Cons.prems(1) s True unfolding c by (intro Cons.IH) simp_all
    then show ?thesis using r True unfolding l q c[symmetric] by simp
  qed
qed

lemma renamed_length: "length (renamed_lines idx fs) = length (include_lines fs) + (\<Sum>i\<leftarrow>[idx..<idx + length fs]. 12 + length (nat_digits i))"
proof (induction fs arbitrary: idx)
  case (Cons f fs)
  have "[idx..<idx + length (f # fs)] = idx # [Suc idx..<Suc idx + length fs]" by (simp add: upt_conv_Cons del: upt_Suc)
  then show ?case using Cons[of "Suc idx"]
    by (simp add: include_lines_def include_line_def numbered_include_length del: upt_Suc)
qed (simp add: include_lines_def)

lemma nat_digits_short: "i < 10 \<Longrightarrow> length (nat_digits i) = 1" "10 \<le> i \<Longrightarrow> i < 100 \<Longrightarrow> length (nat_digits i) = 2"
proof -
  show one: "length (nat_digits i) = 1" if "i < 10" for i using that by (subst nat_digits.simps) simp
  show "length (nat_digits i) = 2" if "10 \<le> i" "i < 100"
    using that one[of "i div 10"] by (subst nat_digits.simps) (simp add: less_mult_imp_div_less)
qed

lemma names_grow: "k \<le> 90 \<Longrightarrow> (\<Sum>i<10 + k. 12 + length (nat_digits i)) = 130 + 14 * k"
proof (induction k)
  case 0
  have "(\<Sum>i<10. 12 + length (nat_digits i)) = (\<Sum>i<(10::nat). 13)" by (intro sum.cong) (simp_all add: nat_digits_short)
  then show ?case by simp
next
  case (Suc k)
  have "(\<Sum>i<10 + Suc k. 12 + length (nat_digits i)) = (\<Sum>i<10 + k. 12 + length (nat_digits i)) + (12 + length (nat_digits (10 + k)))"
    by (simp only: add_Suc_right sum.lessThan_Suc)
  then show ?case using Suc nat_digits_short(2)[of "10 + k"] by simp
qed

lemma reserve_suffices: "(\<Sum>i\<leftarrow>[0..<n]. 12 + length (nat_digits i)) \<le> 1024 \<longleftrightarrow> n \<le> 73"
proof -
  have s: "(\<Sum>i\<leftarrow>[0..<n]. 12 + length (nat_digits i)) = (\<Sum>i<n. 12 + length (nat_digits i))" for n
    by (induction n) (simp_all add: add.commute)
  have m: "(\<Sum>i<k. 12 + length (nat_digits i)) \<le> (\<Sum>i<l. 12 + length (nat_digits i))" if "k \<le> l" for k l
    using that by (intro sum_mono2) auto
  have "(\<Sum>i<73. 12 + length (nat_digits i)) = 1012" "(\<Sum>i<74. 12 + length (nat_digits i)) = 1026"
    using names_grow[of 63] names_grow[of 64] by simp_all
  then show ?thesis using m[of n 73] m[of 74 n] unfolding s by (cases "n \<le> 73") simp_all
qed

text \<open>C39.  Include lines at the head of a text are named, the rest is left alone, as long as there are
  at most 73 of them: the names of more do not fit into the room the code reserved, and its
  iterators point into storage that is gone.\<close>

theorem includes_renamed:
  assumes "match_at include_pattern rest = None" "list_all (\<lambda>f. CHR ''#'' \<notin> set f) fs"
  shows "without_includes (include_lines fs @ rest) = (if length fs \<le> 73 then Inr (renamed_lines 0 fs @ rest) else Inl Undefined)"
  using rename_loop[OF assms, of "[]" "[]" "length (include_lines fs @ rest) + 1024" 0] reserve_suffices[of "length fs"]
  by (simp add: without_includes_def renamed_length)

theorem includes_renamed_witness:
  "without_includes (include_lines [''a.fcl'', ''b.fcl''] @ ''x: 1 # one'') =
      Inr (''fhicl_pound_include_0:'' @ quoted ''a.fcl'' @ eol @ ''fhicl_pound_include_1:'' @ quoted ''b.fcl'' @ eol @ ''x: 1 # one'') \<and>
    without_includes (include_lines (replicate 74 ''a.fcl'') @ ''x: 1 # one'') = Inl Undefined"
proof -
  have "match_at include_pattern ''x: 1 # one'' = None" by code_simp
  moreover have "renamed_lines 0 [''a.fcl'', ''b.fcl''] =
      ''fhicl_pound_include_0:'' @ quoted ''a.fcl'' @ eol @ ''fhicl_pound_include_1:'' @ quoted ''b.fcl'' @ eol" by code_simp
  ultimately show ?thesis using includes_renamed[of "''x: 1 # one''" "[''a.fcl'', ''b.fcl'']"]
      includes_renamed[of "''x: 1 # one''" "replicate 74 ''a.fcl''"]
    by (simp add: list_all_iff)
qed

end
