(* ===== verification/MongoProvider.thy ===== *)
theory MongoProvider
  imports ExportImport
begin

text \<open>
  The MongoDB store: StorageProviders/MongoDB.  The client library is a parameter: the reader, the
  printer and the views of BSON documents, and the operations on collections.  The members are
  named after those of bsoncxx and mongocxx.
\<close>

section \<open>The client library\<close>

datatype bson_scalar = Bson_text string | Bson_int int

datatype 'b stage = Match_stage 'b | Project_stage 'b | Group_stage 'b | Sort_stage 'b | Add_fields_stage 'b | Unwind_stage 'b

text \<open>
  A value of BSON is a \<open>'b\<close>, documents and arrays included.  \<open>mg_dummy\<close> builds the document with the
  value under the name \<open>dummy\<close>; \<open>mg_build\<close> is the stream builder; a view of the wrong type and a
  refused operation are exceptions.  \<open>mg_system\<close> has the connection string, the environment, the
  clock's format and the JSON library.
\<close>

record ('d, 'b) mongo =
  mg_system :: "'d provider"
  mg_from_json :: "string \<Rightarrow> exn + 'b"
  mg_to_json :: "'b \<Rightarrow> string"
  mg_dummy :: "'b \<Rightarrow> 'b"
  mg_find :: "string \<Rightarrow> 'b \<Rightarrow> 'b option"
  mg_fields :: "'b \<Rightarrow> (string \<times> 'b) list"
  mg_array :: "'b \<Rightarrow> exn + 'b list"
  mg_document :: "'b \<Rightarrow> exn + 'b"
  mg_build :: "(string \<times> bson_scalar) list \<Rightarrow> 'b"
  mg_count_documents :: "string \<Rightarrow> 'b \<Rightarrow> ('d, nat) prog"
  mg_find_documents :: "string \<Rightarrow> 'b \<Rightarrow> ('d, 'b list) prog"
  mg_aggregate :: "string \<Rightarrow> 'b stage list \<Rightarrow> ('d, 'b list) prog"
  mg_insert_one :: "string \<Rightarrow> 'b \<Rightarrow> ('d, 'b) prog"
  mg_delete_one :: "string \<Rightarrow> 'b \<Rightarrow> ('d, nat) prog"
  mg_list_collections :: "('d, 'b list) prog"
  mg_list_databases :: "('d, 'b list) prog"

definition mg_codec :: "('d, 'b) mongo \<Rightarrow> codec" where
  "mg_codec mg = pv_codec (mg_system mg)"

text \<open>\<open>get_value\<close> and the like of an element that was not found.\<close>

definition set_element :: "'b option \<Rightarrow> exn + 'b" where
  "set_element e = (case e of None \<Rightarrow> Inl Driver_exception | Some v \<Rightarrow> Inr v)"

section \<open>JSON of values\<close>

text \<open>The value is cut out of the document it was put into: from behind the first colon to the last
  brace.\<close>

definition value_text :: "string \<Rightarrow> string" where
  "value_text buff =
     (let fpos = (if CHR '':'' \<in> set buff then Suc (length (takeWhile (\<lambda>c. c \<noteq> CHR '':'') buff)) else 0);
          rpos = length buff - Suc (length (takeWhile (\<lambda>c. c \<noteq> CHR ''}'') (rev buff))) in
      trim (if CHR ''}'' \<in> set buff \<and> fpos \<le> rpos then take (rpos - fpos) (drop fpos buff) else drop fpos buff))"

definition compat_to_json :: "('d, 'b) mongo \<Rightarrow> 'b \<Rightarrow> string" where
  "compat_to_json mg v = value_text (mg_to_json mg (mg_dummy mg v))"

definition unescaped :: "string \<Rightarrow> exn + string" where
  "unescaped s = (case replace_all s [backslash, CHR ''/''] ''/'' of Some t \<Rightarrow> Inr t | None \<Rightarrow> Inl Undefined)"

definition value_to_json_unescaped :: "('d, 'b) mongo \<Rightarrow> 'b \<Rightarrow> exn + string" where
  "value_to_json_unescaped mg v = unescaped (compat_to_json mg v)"

definition to_json_unescaped :: "('d, 'b) mongo \<Rightarrow> 'b \<Rightarrow> exn + string" where
  "to_json_unescaped mg v = unescaped (mg_to_json mg v)"

definition bare_name :: "('d, 'b) mongo \<Rightarrow> 'b \<Rightarrow> string" where
  "bare_name mg v = dequote (compat_to_json mg v)"

definition extract_value :: "('d, 'b) mongo \<Rightarrow> 'b \<Rightarrow> string \<Rightarrow> exn + 'b" where
  "extract_value mg doc name = (case mg_find mg name doc of None \<Rightarrow> Inl Runtime_error | Some v \<Rightarrow> Inr v)"

section \<open>The connection\<close>

text \<open>\<open>env\<close> is the expanded value of a variable of the environment, if it is set.\<close>

definition store_uri :: "string \<Rightarrow> string \<Rightarrow> (exn + string) option \<Rightarrow> exn + string" where
  "store_uri prefixURI default_uri env =
     (case env of
        None \<Rightarrow> Inr default_uri
      | Some r \<Rightarrow> bindE r (\<lambda>tmpURI.
          Inr (if length tmpURI > length prefixURI \<and> take (length prefixURI) tmpURI = prefixURI then tmpURI else default_uri)))"

definition set_variable :: "(exn + string) option \<Rightarrow> exn + string" where
  "set_variable env = (case env of None \<Rightarrow> Inr [] | Some r \<Rightarrow> r)"

definition mongo_uri :: "(string \<Rightarrow> bool) \<Rightarrow> (exn + string) option \<Rightarrow> (exn + string) option \<Rightarrow> (exn + string) option \<Rightarrow> exn + string" where
  "mongo_uri there env client_cert ca_cert =
     bindE (store_uri ''mongodb://'' (''mongodb://'' @ ''127.0.0.1'' @ '':'' @ nat_digits 27017 @ ''/'' @ ''test_configuration_db'') env) (\<lambda>uri.
     bindE (set_variable client_cert) (\<lambda>clientCert.
       if clientCert \<noteq> [] \<and> there clientCert then
         let uri = uri @ ''&tls=true&authMechanism=MONGODB-X509&tlsCertificateKeyFile='' @ clientCert in
         bindE (set_variable ca_cert) (\<lambda>caCert. Inr (if caCert \<noteq> [] \<and> there caCert then uri @ ''&tlsCAFile='' @ caCert else uri))
       else Inr uri))"

text \<open>The constructor with a text of its own.\<close>

definition given_uri :: "string \<Rightarrow> exn + string" where
  "given_uri u = (if u = [] then Inl Runtime_exception else Inr u)"

text \<open>The first use of a database writes its metadata record.\<close>

definition mdb_connection :: "('d, 'b) mongo \<Rightarrow> ('d, unit) fdb" where
  "mdb_connection mg =
     bindM (on_files (mg_count_documents mg system_metadata (mg_build mg []))) (\<lambda>n.
       if n > 0 then retM ()
       else
         bindM (expand (mg_system mg) (pv_uri (mg_system mg))) (\<lambda>uri.
         bindM (make_database_metadata (mg_system mg) ''artdaq'' uri) (\<lambda>meta.
         bindM (liftE (mg_from_json mg (''{'' @ meta @ ''}''))) (\<lambda>doc.
         bindM (on_files (mg_insert_one mg system_metadata doc)) (\<lambda>_. retM ())))))"

definition connected :: "('d, 'b) mongo \<Rightarrow> ('d, 'a) prog \<Rightarrow> ('d, 'a) fdb" where
  "connected mg m = thenM (mdb_connection mg) (on_files m)"

text \<open>The collections of the database but for its own ones.\<close>

definition descriptor_name :: "('d, 'b) mongo \<Rightarrow> 'b \<Rightarrow> exn + string" where
  "descriptor_name mg descriptor = bindE (extract_value mg descriptor ''name'') (\<lambda>v. Inr (bare_name mg v))"

definition own_collection :: "string \<Rightarrow> bool" where
  "own_collection name \<longleftrightarrow> name = ''system.indexes'' \<or> name = system_metadata"

definition over_collections :: "('d, 'b) mongo \<Rightarrow> (string \<Rightarrow> ('d, 'a list) fdb) \<Rightarrow> ('d, 'a list) fdb" where
  "over_collections mg f =
     bindM (connected mg (mg_list_collections mg)) (\<lambda>descriptors.
     bindM (forR descriptors (\<lambda>descriptor.
       bindM (liftE (descriptor_name mg descriptor)) (\<lambda>name. if own_collection name then retM [] else f name))) (\<lambda>xss.
     retM (concat xss)))"

section \<open>Searches by the beginning of a name\<close>

definition regex_member :: "string \<Rightarrow> value_t" where
  "regex_member pattern = Obj [(''$regex'', Str pattern), (''$options'', Str [])]"

fun rewrite_fields :: "string list \<Rightarrow> object_t \<Rightarrow> exn + object_t" where
  "rewrite_fields [] ast = Inr ast"
| "rewrite_fields (field # names) ast =
     (if table_count field ast = 0 then rewrite_fields names ast
      else
        bindE (string_child field ast) (\<lambda>v.
          if v = [] then Inl Undefined
          else if last v \<noteq> CHR ''*'' then rewrite_fields names ast
          else if v = ''*'' then rewrite_fields names (table_set field (regex_member ''.*'') ast)
          else rewrite_fields names (table_set field (regex_member (''^'' @ butlast v @ ''.*'')) ast)))"

definition rewrite_query_with_regex :: "codec \<Rightarrow> jsondoc \<Rightarrow> string list \<Rightarrow> exn + jsondoc" where
  "rewrite_query_with_regex c query names =
     (if names = [] then Inr query
      else
        bindE (doc_text c query) (\<lambda>text. bindE (c_read c text) (\<lambda>r. case r of
            None \<Rightarrow> Inl Runtime_error
          | Some ast \<Rightarrow>
              if ast = [] then Inr query
              else bindE (rewrite_fields names ast) (\<lambda>ast'. bindE (c_write c ast') (doc_of_string c)))))"

text \<open>The stages of a search: the documents that match, and the members that are looked at.\<close>

definition match_and_project :: "('d, 'b) mongo \<Rightarrow> 'b \<Rightarrow> (string \<times> bson_scalar) list \<Rightarrow> 'b stage list" where
  "match_and_project mg query members = [Match_stage query, Project_stage (mg_build mg members)]"

definition doc_bson :: "('d, 'b) mongo \<Rightarrow> jsondoc \<Rightarrow> exn + 'b" where
  "doc_bson mg doc = bindE (doc_text (mg_codec mg) doc) (mg_from_json mg)"

text \<open>The text of an entry the queries answer with; the members of its filter are JSON already.\<close>

definition mongo_text :: "string \<Rightarrow> string \<Rightarrow> (string \<times> string) list \<Rightarrow> string" where
  "mongo_text collection operation members =
     ''{'' @ json_pair ''collection'' collection @ '','' @ json_pair ''dbprovider'' ''mongo'' @ '','' @ json_pair ''dataformat'' ''gui'' @ '','' @
     json_pair ''operation'' operation @ '','' @ quoted ''filter'' @ '':{'' @
     join '','' (map (\<lambda>(k, v). quoted k @ '': '' @ v) members) @ ''}}''"

section \<open>Queries\<close>

text \<open>
  \<open>findConfigurations\<close>: the configurations with the given beginning and their assigned times, from all
  collections; the configuration of exactly that name ends the search and is the only answer.
  \<open>std::equal\<close> reads as many characters of a name as the beginning has.
\<close>

fun configuration_loop ::
  "('d, 'b) mongo \<Rightarrow> string \<Rightarrow> (string \<times> 64 word) list \<Rightarrow> 'b list \<Rightarrow> exn + (bool \<times> (string \<times> 64 word) list)" where
  "configuration_loop mg expected acc [] = Inr (False, acc)"
| "configuration_loop mg expected acc (v # vs) =
     bindE (mg_document mg v) (\<lambda>configuration.
     bindE (extract_value mg configuration ''name'') (\<lambda>n. bindE (unescaped (bare_name mg n)) (\<lambda>name.
     bindE (extract_value mg configuration ''assigned'') (\<lambda>a.
     let assigned = bare_name mg a in
       if expected = name then bindE (pv_timepoint (mg_system mg) assigned) (\<lambda>t. Inr (True, [(name, t)]))
       else
         bindE (equal_range expected name) (\<lambda>same.
           if \<not> same then configuration_loop mg expected acc vs
           else bindE (pv_timepoint (mg_system mg) assigned) (\<lambda>t. configuration_loop mg expected (acc @ [(name, t)]) vs))))))"

fun cursor_loop ::
  "('d, 'b) mongo \<Rightarrow> string \<Rightarrow> (string \<times> 64 word) list \<Rightarrow> 'b list \<Rightarrow> exn + (bool \<times> (string \<times> 64 word) list)" where
  "cursor_loop mg expected acc [] = Inr (False, acc)"
| "cursor_loop mg expected acc (view # views) =
     bindE (extract_value mg view ''configurations'') (\<lambda>cs. bindE (mg_array mg cs) (\<lambda>configurations.
     bindE (configuration_loop mg expected acc configurations) (\<lambda>(exact, acc').
       if exact then Inr (True, acc') else cursor_loop mg expected acc' views)))"

fun collection_loop ::
  "('d, 'b) mongo \<Rightarrow> jsondoc \<Rightarrow> string \<Rightarrow> (string \<times> 64 word) list \<Rightarrow> 'b list \<Rightarrow> ('d, (string \<times> 64 word) list) fdb" where
  "collection_loop mg regex_search expected acc [] = retM acc"
| "collection_loop mg regex_search expected acc (descriptor # descriptors) =
     bindM (liftE (descriptor_name mg descriptor)) (\<lambda>name.
       if own_collection name then collection_loop mg regex_search expected acc descriptors
       else
         thenM (mdb_connection mg)
         (bindM (liftE (doc_bson mg regex_search)) (\<lambda>query.
          bindM (on_files (mg_aggregate mg name
              (match_and_project mg query [(''configurations'', Bson_text ''$configurations'')]))) (\<lambda>views.
          bindM (liftE (cursor_loop mg expected acc views)) (\<lambda>(exact, acc').
            if exact then retM acc' else collection_loop mg regex_search expected acc' descriptors)))))"

definition expected_name :: "string \<Rightarrow> exn + string" where
  "expected_name s = (if s = [] then Inl Undefined else Inr (if last s = CHR ''*'' then butlast s else s))"

definition mdb_findConfigurations :: "('d, 'b) mongo \<Rightarrow> jsondoc \<Rightarrow> ('d, jsondoc list) fdb" where
  "mdb_findConfigurations mg search =
     (let c = mg_codec mg in
      thenM (confirm (\<not> doc_empty search))
      (bindM (liftE (doc_bson mg search)) (\<lambda>search_document.
       bindM (liftE (extract_value mg search_document ''configurations.name'')) (\<lambda>v.
       bindM (liftE (expected_name (bare_name mg v))) (\<lambda>expected.
       bindM (liftE (rewrite_query_with_regex c search [''configurations.name''])) (\<lambda>regex_search.
       bindM (connected mg (mg_list_collections mg)) (\<lambda>descriptors.
       bindM (collection_loop mg regex_search expected [] descriptors) (\<lambda>acc.
       documents_of c
         (map (\<lambda>n. ''{'' @ json_pair ''dbprovider'' ''mongo'' @ '','' @ json_pair ''dataformat'' ''gui'' @ '','' @
            json_pair ''operation'' ''buildfilter'' @ '','' @ quoted ''filter'' @ '':{'' @
            quoted ''configurations.name'' @ '': '' @ quoted n @ ''}}'') (latest_first acc))))))))))"

text \<open>\<open>configurationComposition\<close>: of the members with the same entity only the first of a collection is
  reported.\<close>

fun member_loop :: "codec \<Rightarrow> string \<Rightarrow> string \<Rightarrow> string list \<Rightarrow> (string \<times> string) list \<Rightarrow> exn + (string list \<times> jsondoc list)" where
  "member_loop c collection expected seen [] = Inr (seen, [])"
| "member_loop c collection expected seen ((conf, entity) # ps) =
     (if conf \<noteq> expected then member_loop c collection expected seen ps
      else if entity = [] then Inl Runtime_exception
      else if entity \<in> set seen then member_loop c collection expected seen ps
      else
        bindE (doc_of_string c (mongo_text collection ''load'' [(''configurations.name'', conf), (''entities.name'', entity)])) (\<lambda>d.
        bindE (member_loop c collection expected (seen @ [entity]) ps) (\<lambda>(seen', ds). Inr (seen', d # ds))))"

fun composition_cursor :: "('d, 'b) mongo \<Rightarrow> string \<Rightarrow> string \<Rightarrow> string list \<Rightarrow> 'b list \<Rightarrow> exn + jsondoc list" where
  "composition_cursor mg collection expected seen [] = Inr []"
| "composition_cursor mg collection expected seen (view # views) =
     bindE (extract_value mg view ''configurations'') (\<lambda>cs. bindE (extract_value mg view ''entities'') (\<lambda>es.
     bindE (mg_array mg cs) (\<lambda>configurations. bindE (mg_array mg es) (\<lambda>entities.
     bindE (member_loop (mg_codec mg) collection expected seen
         (concat (map (\<lambda>x. map (\<lambda>y. (compat_to_json mg x, compat_to_json mg y)) entities) configurations))) (\<lambda>(seen', ds).
     bindE (composition_cursor mg collection expected seen' views) (\<lambda>ds'. Inr (ds @ ds')))))))"

definition mdb_configurationComposition :: "('d, 'b) mongo \<Rightarrow> jsondoc \<Rightarrow> ('d, jsondoc list) fdb" where
  "mdb_configurationComposition mg search =
     thenM (confirm (\<not> doc_empty search))
     (over_collections mg (\<lambda>name.
       thenM (mdb_connection mg)
       (bindM (liftE (doc_bson mg search)) (\<lambda>query.
        bindM (liftE (extract_value mg query ''configurations.name'')) (\<lambda>v.
        bindM (on_files (mg_aggregate mg name (match_and_project mg query
            [(''_id'', Bson_int 0), (''configurations'', Bson_text ''$configurations.name''), (''entities'', Bson_text ''$entities.name'')])))
          (\<lambda>views. liftE (composition_cursor mg name (compat_to_json mg v) [] views)))))))"

text \<open>The elements of a view that are read without asking whether they are there.\<close>

definition view_array :: "('d, 'b) mongo \<Rightarrow> string \<Rightarrow> 'b \<Rightarrow> exn + 'b list" where
  "view_array mg name view = bindE (set_element (mg_find mg name view)) (mg_array mg)"

definition version_texts :: "('d, 'b) mongo \<Rightarrow> string \<Rightarrow> 'b \<Rightarrow> exn + string list" where
  "version_texts mg collection view =
     bindE (set_element (mg_find mg ''version'' view)) (\<lambda>version.
     bindE (view_array mg ''entities'' view) (\<lambda>entities.
       Inr (map (\<lambda>entity. mongo_text collection ''load''
         [(''version'', compat_to_json mg version), (''entities.name'', compat_to_json mg entity)]) entities)))"

definition mdb_findVersions :: "('d, 'b) mongo \<Rightarrow> jsondoc \<Rightarrow> ('d, jsondoc list) fdb" where
  "mdb_findVersions mg query_payload =
     (let c = mg_codec mg in
      thenM (confirm (\<not> doc_empty query_payload))
      (bindM (liftE (doc_bson mg query_payload)) (\<lambda>doc.
       bindM (liftE (extract_value mg doc ''collection'')) (\<lambda>v.
       let collection = bare_name mg v in
       thenM (mdb_connection mg)
       (bindM (liftE (bindE (extract_value mg doc ''filter'') (\<lambda>f. doc_of_string c (compat_to_json mg f)))) (\<lambda>search.
        bindM (liftE (bindE (rewrite_query_with_regex c search [''entities.name'']) (doc_bson mg))) (\<lambda>query.
        bindM (on_files (mg_aggregate mg collection (match_and_project mg query
            [(''_id'', Bson_int 0), (''version'', Bson_text ''$version''), (''entities'', Bson_text ''$entities.name'')]))) (\<lambda>views.
        bindM (forR views (\<lambda>view. bindM (liftE (version_texts mg collection view)) (documents_of c))) (\<lambda>docs. retM (concat docs))))))))))"

text \<open>\<open>findEntities\<close>: every entity of a collection once.\<close>

fun entity_loop :: "codec \<Rightarrow> string \<Rightarrow> string list \<Rightarrow> string list \<Rightarrow> exn + (string list \<times> jsondoc list)" where
  "entity_loop c collection seen [] = Inr (seen, [])"
| "entity_loop c collection seen (entity # es) =
     (if entity = [] then Inl Runtime_exception
      else if entity \<in> set seen then entity_loop c collection seen es
      else
        bindE (doc_of_string c (mongo_text collection ''findversions'' [(''entities.name'', entity)])) (\<lambda>d.
        bindE (entity_loop c collection (seen @ [entity]) es) (\<lambda>(seen', ds). Inr (seen', d # ds))))"

fun entity_cursor :: "('d, 'b) mongo \<Rightarrow> string \<Rightarrow> string list \<Rightarrow> 'b list \<Rightarrow> exn + jsondoc list" where
  "entity_cursor mg collection seen [] = Inr []"
| "entity_cursor mg collection seen (view # views) =
     bindE (view_array mg ''entities'' view) (\<lambda>entities.
     bindE (entity_loop (mg_codec mg) collection seen (map (compat_to_json mg) entities)) (\<lambda>(seen', ds).
     bindE (entity_cursor mg collection seen' views) (\<lambda>ds'. Inr (ds @ ds'))))"

definition mdb_findEntities :: "('d, 'b) mongo \<Rightarrow> jsondoc \<Rightarrow> ('d, jsondoc list) fdb" where
  "mdb_findEntities mg search =
     thenM (confirm (\<not> doc_empty search))
     (bindM (liftE (doc_bson mg search)) (\<lambda>doc.
      over_collections mg (\<lambda>name.
        thenM (mdb_connection mg)
        (bindM (liftE (bindE (extract_value mg doc ''filter'') (mg_document mg))) (\<lambda>query.
         bindM (on_files (mg_aggregate mg name (match_and_project mg query
             [(''_id'', Bson_int 0), (''entities'', Bson_text ''$entities.name'')]))) (\<lambda>views.
         liftE (entity_cursor mg name [] views)))))))"

definition mdb_addConfiguration :: "('d, 'b) mongo \<Rightarrow> jsondoc \<Rightarrow> ('d, jsondoc list) fdb" where
  "mdb_addConfiguration mg query_payload = thenM (confirm (\<not> doc_empty query_payload)) (retM [])"

definition mdb_listCollections :: "('d, 'b) mongo \<Rightarrow> jsondoc \<Rightarrow> ('d, jsondoc list) fdb" where
  "mdb_listCollections mg query_payload =
     thenM (confirm (\<not> doc_empty query_payload))
     (over_collections mg (\<lambda>name.
       documents_of (mg_codec mg)
         [''{'' @ json_pair ''collection'' name @ '','' @ json_pair ''dbprovider'' ''mongo'' @ '','' @ json_pair ''dataformat'' ''gui'' @ '','' @
          json_pair ''operation'' ''findversions'' @ '','' @ quoted ''filter'' @ '':{ }}'']))"

definition mdb_listDatabases :: "('d, 'b) mongo \<Rightarrow> jsondoc \<Rightarrow> ('d, jsondoc list) fdb" where
  "mdb_listDatabases mg query_payload =
     thenM (confirm (\<not> doc_empty query_payload))
     (bindM (connected mg (mg_list_databases mg)) (\<lambda>descriptors.
      bindM (forR descriptors (\<lambda>descriptor.
        bindM (liftE (descriptor_name mg descriptor)) (\<lambda>name.
          if name = ''local'' \<or> name = ''admin'' then retM []
          else documents_of (mg_codec mg)
            [''{'' @ json_pair ''database'' name @ '','' @ json_pair ''dbprovider'' ''mongo'' @ '','' @ json_pair ''dataformat'' ''gui'' @ '','' @
             quoted ''filter'' @ '':{ }}'']))) (\<lambda>docs. retM (concat docs))))"

text \<open>A stage of an unknown kind is left out of the pipeline.\<close>

fun pipeline_from_stages :: "('d, 'b) mongo \<Rightarrow> 'b list \<Rightarrow> exn + 'b stage list" where
  "pipeline_from_stages mg [] = Inr []"
| "pipeline_from_stages mg (element # elements) =
     bindE (mg_document mg element) (\<lambda>one_stage. case mg_fields mg one_stage of
        [(key, v)] \<Rightarrow>
          bindE
            (if key \<in> {''$match'', ''$project'', ''$group'', ''$sort'', ''$addFields'', ''$unwind''} then
               bindE (mg_document mg v) (\<lambda>d.
                 Inr [if key = ''$match'' then Match_stage d else if key = ''$project'' then Project_stage d
                      else if key = ''$group'' then Group_stage d else if key = ''$sort'' then Sort_stage d
                      else if key = ''$addFields'' then Add_fields_stage d else Unwind_stage d])
             else Inr [])
            (\<lambda>st. bindE (pipeline_from_stages mg elements) (\<lambda>sts. Inr (st @ sts)))
      | _ \<Rightarrow> Inl Runtime_error)"

definition pipeline_from_document :: "('d, 'b) mongo \<Rightarrow> 'b \<Rightarrow> exn + 'b stage list" where
  "pipeline_from_document mg doc = bindE (view_array mg ''pipeline'' doc) (pipeline_from_stages mg)"

definition mdb_searchCollection :: "('d, 'b) mongo \<Rightarrow> jsondoc \<Rightarrow> ('d, jsondoc list) fdb" where
  "mdb_searchCollection mg query_payload =
     thenM (confirm (\<not> doc_empty query_payload))
     (bindM (liftE (doc_bson mg query_payload)) (\<lambda>doc.
      bindM (liftE (extract_value mg doc ''collection'')) (\<lambda>v.
      let collection = bare_name mg v in
      thenM (mdb_connection mg)
      (bindM (liftE (bindE (extract_value mg doc ''filter'') (\<lambda>f. Inr (compat_to_json mg f)))) (\<lambda>search.
       bindM (liftE (mg_from_json mg search)) (\<lambda>search_bson.
       bindM (liftE (bindE (mg_from_json mg (if mg_find mg ''pipeline'' search_bson \<noteq> None then search
           else ''{'' @ quoted ''pipeline'' @ '':'' @ search @ ''}'')) (pipeline_from_document mg))) (\<lambda>stages.
       bindM (on_files (mg_aggregate mg collection stages)) (\<lambda>views.
       documents_of (mg_codec mg)
         (map (\<lambda>view. ''{'' @ json_pair ''collection'' collection @ '','' @ json_pair ''dbprovider'' ''mongo'' @ '','' @
            json_pair ''dataformat'' ''json'' @ '','' @ json_pair ''operation'' ''searchcollection'' @ '','' @
            quoted ''result'' @ '':'' @ mg_to_json mg view @ ''}'') views)))))))))"

section \<open>Reading and writing documents\<close>

definition mdb_readDocument :: "('d, 'b) mongo \<Rightarrow> jsondoc \<Rightarrow> ('d, jsondoc list) fdb" where
  "mdb_readDocument mg arg =
     (let c = mg_codec mg in
      bindM (liftE (findChildDocument arg ''filter'')) (\<lambda>filt.
      bindM (liftE (or_else [] (value_as_string c filt ''collection''))) (\<lambda>inner.
      bindM (if inner = [] then liftE (value_as_string c arg ''collection'') else retM inner) (\<lambda>name.
      thenM (confirm (name \<noteq> []))
      (thenM (mdb_connection mg)
      (bindM (liftE (doc_bson mg filt)) (\<lambda>query.
       bindM (on_files (mg_count_documents mg name query)) (\<lambda>_.
       bindM (on_files (mg_find_documents mg name query)) (\<lambda>docs.
       forR docs (\<lambda>doc. liftE (bindE (to_json_unescaped mg doc) (doc_of_string c))))))))))))"

definition mdb_databaseMetadata :: "('d, 'b) mongo \<Rightarrow> jsondoc \<Rightarrow> ('d, jsondoc list) fdb" where
  "mdb_databaseMetadata mg query_payload =
     thenM (confirm (\<not> doc_empty query_payload))
     (bindM (liftE (doc_of_string (mg_codec mg)
         (''{'' @ json_pair ''collection'' system_metadata @ '','' @ quoted ''filter'' @ '':{ }}''))) (mdb_readDocument mg))"

text \<open>The filter of the duplicate check names the member \<open>name\<close> of the names of entities.\<close>

definition mdb_duplicate_filter :: "string \<Rightarrow> string \<Rightarrow> string" where
  "mdb_duplicate_filter version entity =
     ''{'' @ quoted ''version'' @ '': '' @ quoted version @
     (if entity = [] then [] else '', '' @ quoted (''entities.name'' @ ''.name'') @ '': '' @ quoted entity) @ ''}''"

definition mdb_refuse_duplicate :: "('d, 'b) mongo \<Rightarrow> string \<Rightarrow> jsondoc \<Rightarrow> ('d, unit) fdb" where
  "mdb_refuse_duplicate mg collection user =
     (let c = mg_codec mg in
      catchM (\<lambda>e. any_exn e \<and> e \<noteq> Runtime_error)
        (bindM (liftE (value_as_string c user ''version'')) (\<lambda>version.
         bindM (liftE (or_else [] (entity_of c user))) (\<lambda>entity.
         bindM (liftE (mg_from_json mg (mdb_duplicate_filter version entity))) (\<lambda>query.
         bindM (on_files (mg_count_documents mg collection query)) (\<lambda>existing.
           if existing > 0 then throwM Runtime_error else retM ())))))
        (retM ()))"

text \<open>An inserted document and the identifier the database reports for it.\<close>

definition insert_document :: "('d, 'b) mongo \<Rightarrow> string \<Rightarrow> string \<Rightarrow> ('d, string) fdb" where
  "insert_document mg collection json =
     bindM (liftE (mg_from_json mg json)) (\<lambda>doc.
     bindM (on_files (mg_insert_one mg collection doc)) (\<lambda>inserted.
     liftE (bindE (extract_oid (compat_to_json mg inserted)) to_id)))"

text \<open>
  What is done with the completed record: a new one is inserted unless there is one of the same version
  and entity, one that is found is replaced by inserting the new text, which gets an identifier of its
  own, and deleting a document that matches.
\<close>

definition store_record :: "('d, 'b) mongo \<Rightarrow> string \<Rightarrow> bool \<Rightarrow> jsondoc \<Rightarrow> jsondoc \<Rightarrow> jsondoc \<Rightarrow> ('d, string) fdb" where
  "store_record mg name isNew user filt doc =
     thenM (mdb_connection mg)
     (bindM (liftE (doc_bson mg filt)) (\<lambda>query.
      bindM (on_files (mg_count_documents mg name query)) (\<lambda>found.
      if isNew \<or> found = 0 then
        thenM (mdb_refuse_duplicate mg name user)
        (bindM (on_builder (bld_to_string (mg_codec mg)) doc) (\<lambda>(json, _). insert_document mg name json))
      else if found > 1 then throwM Runtime_error
      else
        bindM (on_builder (thenM (on_document (deleteChild ''_id'')) (on_document (doc_to_string (mg_codec mg)))) doc) (\<lambda>(json, _).
        bindM (insert_document mg name json) (\<lambda>inserted.
        bindM (on_files (mg_delete_one mg name query)) (\<lambda>_. retM inserted))))))"

definition mdb_writeDocument :: "('d, 'b) mongo \<Rightarrow> jsondoc \<Rightarrow> ('d, string) fdb" where
  "mdb_writeDocument mg arg =
     (let c = mg_codec mg in
      bindM (liftE (findChildDocument arg ''document'')) (\<lambda>user.
      bindM (liftE (or_else empty_doc (findChildDocument arg ''filter''))) (\<lambda>filt.
      bindM (liftE (write_collection c arg user filt)) (\<lambda>name.
      thenM (confirm (name \<noteq> []))
      (bindM (liftE (or_else (ouid_invalid, True)
          (bindE (bindE (value_as_string c filt ''_id'') extract_oid) (\<lambda>oid. Inr (oid, False))))) (\<lambda>(given, isNew).
       bindM (if given = ouid_invalid then on_world generate_oid else retM given) (\<lambda>oid.
       bindM (liftE (to_id oid)) (\<lambda>ident.
       bindM (on_builder (prepare_record c user ident name) empty_doc) (\<lambda>(_, doc).
         store_record mg name isNew user filt doc)))))))))"

definition mongodb :: "('d, 'b) mongo \<Rightarrow> 'd storage" where
  "mongodb mg =
     \<lparr>st_provider = ''mongo'', st_codec = mg_codec mg, st_write = mdb_writeDocument mg, st_read = mdb_readDocument mg,
      st_configurations = mdb_findConfigurations mg, st_composition = mdb_configurationComposition mg,
      st_versions = mdb_findVersions mg, st_entities = mdb_findEntities mg, st_collections = mdb_listCollections mg,
      st_databases = mdb_listDatabases mg, st_metadata = mdb_databaseMetadata mg, st_search = mdb_searchCollection mg\<rparr>"

end
