(* ===== verification/UconProvider.thy ===== *)
theory UconProvider
  imports MongoProvider
begin

text \<open>
  The UconDB store: StorageProviders/UconDB, an object store behind a web service.  The requests are
  made by libcurl, which is a parameter: it is handed the request the code sets up and answers
  with the text of its error, if there was one, and with what it wrote to the stream.
\<close>

section \<open>Requests\<close>

record request =
  rq_url :: string
  rq_authentication :: "string option"   \<comment> \<open>digest authentication with a user and a password\<close>
  rq_upload :: "string option"
  rq_timeout :: int
  rq_redirections :: int

record 'd ucon =
  uc_connection :: string
  uc_authentication :: string
  uc_perform :: "request \<Rightarrow> 'd \<Rightarrow> (string option \<times> string) \<times> 'd"
  uc_codec :: codec

text \<open>The provider's constants; the password is \<open>user:pass\<close> unless the environment has another.\<close>

definition ucon_config :: "(exn + string) option \<Rightarrow> exn + string" where
  "ucon_config env = store_uri ''http://'' (''http://'' @ ''127.0.0.1'' @ '':'' @ nat_digits 80 @ ''/'' @ ''test_db'') env"

definition ucon_uri :: "string \<Rightarrow> exn + string" where
  "ucon_uri u = (if u = [] then Inl Runtime_exception else Inr u)"

definition ucon_password :: "string option \<Rightarrow> string" where
  "ucon_password auth = (case auth of None \<Rightarrow> ''user:pass'' | Some a \<Rightarrow> a)"

definition ucon_timeout :: int where
  "ucon_timeout = 5"

definition plain_request :: "string \<Rightarrow> request" where
  "plain_request url = \<lparr>rq_url = url, rq_authentication = None, rq_upload = None, rq_timeout = ucon_timeout, rq_redirections = 10\<rparr>"

definition perform :: "'d ucon \<Rightarrow> request \<Rightarrow> ('d, string option \<times> string) prog" where
  "perform uc rq = (\<lambda>d. case uc_perform uc rq d of (x, d') \<Rightarrow> (Inr x, d'))"

section \<open>Lists of names\<close>

text \<open>\<open>std::getline\<close> with a comma.\<close>

fun segments :: "string \<Rightarrow> string list" where
  "segments [] = []"
| "segments (c # s) =
     (if c = CHR '','' then [] # segments s
      else (case segments s of [] \<Rightarrow> [[c]] | t # ts \<Rightarrow> (c # t) # ts))"

text \<open>The last character of the answer is overwritten by a space, the first one that is not a blank is
  read off; on an empty stream \<open>seekp\<close> fails, and so does everything behind it.\<close>

definition listed_names :: "string \<Rightarrow> string list" where
  "listed_names body =
     (if body = [] then []
      else case dropWhile is_space (butlast body @ '' '') of
          [] \<Rightarrow> []
        | ch # rest \<Rightarrow> filter (\<lambda>s. s \<noteq> []) (map (\<lambda>s. dequote (trim s)) (segments rest)))"

definition folders :: "'d ucon \<Rightarrow> ('d, string list) prog" where
  "folders uc =
     bindM (perform uc (plain_request (uc_connection uc @ ''/app/folders''))) (\<lambda>(code, body). retM (listed_names body))"

definition tags :: "'d ucon \<Rightarrow> string \<Rightarrow> ('d, string list) prog" where
  "tags uc folder =
     thenM (confirm (folder \<noteq> []))
     (bindM (perform uc (plain_request (uc_connection uc @ ''/app/tags'' @ ''?folder='' @ folder))) (\<lambda>(code, body).
        retM (listed_names body)))"

definition objects :: "'d ucon \<Rightarrow> string \<Rightarrow> ('d, string list) prog" where
  "objects uc folder =
     thenM (confirm (folder \<noteq> []))
     (bindM (perform uc (plain_request (uc_connection uc @ ''/app/objects'' @ ''?folder='' @ folder))) (\<lambda>(code, body).
        retM (filter (\<lambda>s. s \<noteq> ''null'') (listed_names body))))"

section \<open>Objects\<close>

definition get_web_object :: "'d ucon \<Rightarrow> string \<Rightarrow> string \<Rightarrow> ('d, result_t) prog" where
  "get_web_object uc folder object =
     thenM (confirm (folder \<noteq> [])) (thenM (confirm (object \<noteq> []))
     (bindM (perform uc (plain_request (uc_connection uc @ ''/app/get'' @ ''?folder='' @ folder @ ''&object='' @ object)))
       (\<lambda>(code, body). case code of Some msg \<Rightarrow> retM (Failure msg) | None \<Rightarrow> retM (Success body))))"

text \<open>\<open>seekp\<close> makes what follows overwrite the comma behind the last tag.\<close>

definition put_url :: "string \<Rightarrow> string \<Rightarrow> string \<Rightarrow> 64 word \<Rightarrow> string list \<Rightarrow> string \<Rightarrow> string" where
  "put_url conn folder object tv tgs key =
     (let url = conn @ ''/app/put'' @ ''?folder='' @ folder @ ''&object='' @ object @
          (if tv \<noteq> 0 then ''&tv='' @ integer_to_string tv else []);
          tagged = url @ (if tgs \<noteq> [] then ''&tag='' @ concat (map (\<lambda>t. t @ '','') tgs) else []);
          behind = (if key \<noteq> [] then ''&key='' @ key else []) @ '' '' in
      (if tgs \<noteq> [] then butlast tagged else tagged) @ behind)"

definition put_request :: "'d ucon \<Rightarrow> string \<Rightarrow> string \<Rightarrow> string \<Rightarrow> 64 word \<Rightarrow> string list \<Rightarrow> string \<Rightarrow> request" where
  "put_request uc folder buffer object tv tgs key =
     \<lparr>rq_url = put_url (uc_connection uc) folder object tv tgs key, rq_authentication = Some (uc_authentication uc),
      rq_upload = Some buffer, rq_timeout = ucon_timeout, rq_redirections = 10\<rparr>"

definition put_object :: "'d ucon \<Rightarrow> string \<Rightarrow> string \<Rightarrow> string \<Rightarrow> 64 word \<Rightarrow> string list \<Rightarrow> string \<Rightarrow> ('d, result_t) prog" where
  "put_object uc folder buffer object tv tgs key =
     thenM (confirm (folder \<noteq> [])) (thenM (confirm (buffer \<noteq> [])) (thenM (confirm (object \<noteq> []))
     (bindM (perform uc (put_request uc folder buffer object tv tgs key))
       (\<lambda>(code, body). case code of
           Some msg \<Rightarrow> retM (Failure msg)
         | None \<Rightarrow> retM (if body = ''Authorization required'' then Failure body else Success msg_Success)))))"

text \<open>The service keeps the names of folders in small letters.\<close>

definition folder_request :: "'d ucon \<Rightarrow> string \<Rightarrow> request" where
  "folder_request uc folder =
     (plain_request (uc_connection uc @ ''/app/create_folder'' @ ''?folder='' @ folder @ ''&read=read_only_user&write=db_writer&drop=no''))
       \<lparr>rq_authentication := Some (uc_authentication uc)\<rparr>"

definition create_folder :: "'d ucon \<Rightarrow> string \<Rightarrow> ('d, result_t) prog" where
  "create_folder uc folder =
     thenM (confirm (folder \<noteq> []))
     (bindM (folders uc) (\<lambda>fl.
       if to_lower folder \<in> set fl then retM (Success msg_AlreadyExist)
       else
         bindM (perform uc (folder_request uc folder))
           (\<lambda>(code, body). case code of
               Some msg \<Rightarrow> retM (Failure msg)
             | None \<Rightarrow> bindM (folders uc) (\<lambda>fl. retM (if to_lower folder \<in> set fl then Success msg_Added else Failure msg_Failure)))))"

section \<open>The provider\<close>

definition on_web :: "('d, 'a) prog \<Rightarrow> ('d, 'a) fdb" where
  "on_web m = (\<lambda>(d, w). case m d of (r, d') \<Rightarrow> (r, (d', w)))"

text \<open>The identifiers of a filter: one, or a list behind \<open>$in\<close>, of which those before the first malformed
  one count.\<close>

fun in_oids :: "value_t list \<Rightarrow> exn + string list" where
  "in_oids [] = Inr []"
| "in_oids (v # vs) =
     or_else [] (bindE (get_object v) (\<lambda>ps. bindE (string_child ''$oid'' ps) (\<lambda>oid.
       bindE (in_oids vs) (\<lambda>oids. Inr (oid # oids)))))"

definition filter_oids :: "codec \<Rightarrow> jsondoc \<Rightarrow> exn + string list" where
  "filter_oids c filt =
     or_else []
       (bindE (findChild filt ''_id'') (\<lambda>d. bindE (doc_text c d) (\<lambda>id_json. bindE (c_read c id_json) (\<lambda>r. case r of
            None \<Rightarrow> Inl Runtime_error
          | Some idAST \<Rightarrow>
              bindE (object_child ''_id'' idAST) (\<lambda>ident.
              bindE (or_else [] (bindE (string_child ''$oid'' ident) (\<lambda>oid. Inr [oid]))) (\<lambda>one.
              bindE (or_else [] (bindE (array_child ''$in'' ident) in_oids)) (\<lambda>many.
                Inr (one @ many))))))))"

definition web_readDocument :: "'d ucon \<Rightarrow> jsondoc \<Rightarrow> ('d, jsondoc list) fdb" where
  "web_readDocument uc arg =
     (let c = uc_codec uc in
      bindM (liftE (or_else empty_doc (findChildDocument arg ''filter''))) (\<lambda>filt.
      bindM (liftE (or_else [] (value_as_string c filt ''collection''))) (\<lambda>inner.
      bindM (if inner = [] then liftE (value_as_string c arg ''collection'') else retM inner) (\<lambda>name.
      thenM (confirm (name \<noteq> []))
      (bindM (on_web (folders uc)) (\<lambda>fl.
       if to_lower name \<notin> set fl then throwM Runtime_error
       else
         bindM (liftE (filter_oids c filt)) (\<lambda>oids.
         forR oids (\<lambda>oid.
           bindM (on_web (get_web_object uc name oid)) (\<lambda>(ok, text).
             if \<not> ok then throwM Runtime_error else liftE (doc_of_string c text))))))))))"

text \<open>A new document always gets a new identifier and is frozen.\<close>

definition web_writeDocument :: "'d ucon \<Rightarrow> jsondoc \<Rightarrow> ('d, string) fdb" where
  "web_writeDocument uc arg =
     (let c = uc_codec uc in
      bindM (liftE (findChildDocument arg ''document'')) (\<lambda>user.
      bindM (liftE (or_else empty_doc (findChildDocument arg ''filter''))) (\<lambda>filt.
      bindM (liftE (write_collection c arg user filt)) (\<lambda>name.
      thenM (confirm (name \<noteq> []))
      (bindM (on_web (create_folder uc name)) (\<lambda>(made, _).
       if \<not> made then throwM Runtime_error
       else
         bindM (on_world generate_oid) (\<lambda>oid.
         bindM (liftE (to_id oid)) (\<lambda>ident.
         bindM (on_builder (thenM (prepare_record c user ident name) bld_markReadonly) empty_doc) (\<lambda>(_, doc).
         bindM (on_builder (bld_to_string c) doc) (\<lambda>(json, doc).
         bindM (liftE (extractTags (jd_value doc))) (\<lambda>tgs.
         bindM (on_web (put_object uc name json oid 0 tgs [])) (\<lambda>(stored, _).
           if \<not> stored then throwM Runtime_error else retM ident))))))))))))"

text \<open>The other operations are not implemented: they throw.\<close>

definition web_unimplemented :: "jsondoc \<Rightarrow> ('d, jsondoc list) fdb" where
  "web_unimplemented query = thenM (confirm (\<not> doc_empty query)) (throwM Runtime_error)"

definition ucondb :: "'d ucon \<Rightarrow> 'd storage" where
  "ucondb uc =
     \<lparr>st_provider = ''ucon'', st_codec = uc_codec uc, st_write = web_writeDocument uc, st_read = web_readDocument uc,
      st_configurations = web_unimplemented, st_composition = web_unimplemented, st_versions = web_unimplemented,
      st_entities = web_unimplemented, st_collections = web_unimplemented, st_databases = web_unimplemented,
      st_metadata = web_unimplemented, st_search = web_unimplemented\<rparr>"

end
