(* ===== verification/MongoLaws.thy ===== *)
theory MongoLaws
  imports MongoProvider ProviderLaws
begin

text \<open>
  What the MongoDB provider relies on and promises: texts of values, searches by the beginning of a
  name, and the effect of storing a record on a database whose client library does what it documents.
\<close>

lemma not_blank: "\<not> is_space dquote" "is_space (CHR '' '')" "\<not> is_space (CHR ''['')" "\<not> is_space (CHR '':'')" "\<not> is_space (CHR ''}'')"
  "\<not> is_space (CHR '','')"
  by code_simp+

lemma drop_blanks: "\<forall>c\<in>set b. is_space c \<Longrightarrow> dropWhile is_space (b @ r) = dropWhile is_space r"
  by (induction b) auto

section \<open>The JSON of a value\<close>

lemma takeWhile_colon: "CHR '':'' \<notin> set a \<Longrightarrow> takeWhile (\<lambda>c. c \<noteq> CHR '':'') (a @ CHR '':'' # b) = a"
  by (induction a) auto

lemma value_text_between: "CHR '':'' \<notin> set a \<Longrightarrow> value_text (a @ CHR '':'' # m @ ''}'') = trim m"
  by (simp add: value_text_def takeWhile_colon Let_def)

lemma trim_blank: "trim ('' '' @ v @ '' '') = trim v"
  by (cases "\<forall>c\<in>set v. is_space c") (auto simp: trim_def drop_blanks not_blank dropWhile_append1 dest: set_dropWhileD)

text \<open>The JSON of a value is cut out of the document it was put into whatever the value holds,
  colons and braces included.\<close>

theorem value_text_exact: "value_text (''{ '' @ quoted ''dummy'' @ '' : '' @ v @ '' }'') = trim v"
proof -
  have "''{ '' @ quoted ''dummy'' @ '' : '' @ v @ '' }'' = (''{ '' @ quoted ''dummy'' @ '' '') @ CHR '':'' # ('' '' @ v @ '' '') @ ''}''" by simp
  moreover have "CHR '':'' \<notin> set (''{ '' @ quoted ''dummy'' @ '' '')" by code_simp
  ultimately show ?thesis
    by (metis value_text_between trim_blank)
qed

section \<open>The connection string\<close>

lemma port_digits: "nat_digits 27017 = ''27017''"
proof -
  have "digit_char 2 = CHR ''2''" "digit_char 7 = CHR ''7''" "digit_char 0 = CHR ''0''" "digit_char 1 = CHR ''1''" by code_simp+
  then show ?thesis
  by (simp add: nat_digits.simps[of 27017] nat_digits.simps[of 2701] nat_digits.simps[of 270] nat_digits.simps[of 27] nat_digits.simps[of 2])
qed
text \<open>The options of an encrypted connection follow the name of the database without a question mark.\<close>

theorem options_without_query:
  assumes "cert \<noteq> []" "there cert"
  shows "mongo_uri there None (Some (Inr cert)) None =
    Inr (''mongodb://127.0.0.1:27017/test_configuration_db&tls=true&authMechanism=MONGODB-X509&tlsCertificateKeyFile='' @ cert)"
proof -
  have "mongo_uri there None (Some (Inr cert)) None =
    Inr ((''mongodb://'' @ ''127.0.0.1'' @ '':'' @ nat_digits 27017 @ ''/'' @ ''test_configuration_db'') @
      ''&tls=true&authMechanism=MONGODB-X509&tlsCertificateKeyFile='' @ cert)"
    using assms by (simp only: mongo_uri_def store_uri_def set_variable_def bindE_def sum.case option.case Let_def if_True if_False simp_thms list.simps append_Nil2)
  also have "\<dots> = Inr (''mongodb://127.0.0.1:27017/test_configuration_db&tls=true&authMechanism=MONGODB-X509&tlsCertificateKeyFile='' @ cert)"
    by (simp only: port_digits append.simps append_assoc)
  finally show ?thesis .
qed

theorem options_without_query_witness:
  "mongo_uri (\<lambda>p. True) None (Some (Inr ''/c.pem'')) None =
    Inr (''mongodb://127.0.0.1:27017/test_configuration_db&tls=true&authMechanism=MONGODB-X509&tlsCertificateKeyFile='' @ ''/c.pem'')"
  by (rule options_without_query) simp_all

section \<open>Searches by the beginning of a name\<close>

text \<open>What a search for a member becomes.\<close>

definition starred :: "value_t \<Rightarrow> value_t" where
  "starred v = (case v of
      Str s \<Rightarrow> (if s = ''*'' then regex_member ''.*'' else if s \<noteq> [] \<and> last s = CHR ''*'' then regex_member (''^'' @ butlast s @ ''.*'') else v)
    | _ \<Rightarrow> v)"

lemma starred_starred: "starred (starred v) = starred v"
  by (auto simp: starred_def regex_member_def split: value_t.splits)

lemma keys_kept: "k \<in> fst ` set ps \<Longrightarrow> map fst (table_set k v ps) = map fst ps"
  by (induction k v ps rule: table_set.induct) auto

lemma rewrite_step:
  assumes "rewrite_fields (field # names) ast = Inr ast'" "table_count field ast \<noteq> 0"
  obtains s where "map_of ast field = Some (Str s)" "rewrite_fields names (table_set field (starred (Str s)) ast) = Inr ast'"
proof -
  obtain s where s: "map_of ast field = Some (Str s)" "s \<noteq> []"
    using assms by (auto simp: bindE_eq_Inr string_child_Inr split: if_splits)
  moreover have "string_child field ast = Inr s" using s(1) by (simp add: string_child_Inr)
  ultimately have "rewrite_fields names (table_set field (starred (Str s)) ast) = Inr ast'"
    using assms by (auto simp: bindE_def starred_def table_set_same split: if_splits)
  then show ?thesis using s(1) that by blast
qed

text \<open>C21.  A search by the beginnings of names keeps every member at its place: the members of the given
  names whose text ends with a star are searches by a regular expression, all others are unchanged.\<close>

theorem rewritten_members:
  assumes "rewrite_fields names ast = Inr ast'"
  shows "map fst ast' = map fst ast \<and>
    (\<forall>k. map_of ast' k = (if k \<in> set names then map_option starred (map_of ast k) else map_of ast k))"
  using assms
proof (induction names arbitrary: ast)
  case Nil
  then show ?case by simp
next
  case (Cons field names)
  show ?case
  proof (cases "table_count field ast = 0")
    case True
    then show ?thesis
      using Cons by (auto simp: table_count_zero map_of_eq_None_iff[symmetric])
  next
    case False
    then obtain s where s: "map_of ast field = Some (Str s)" "rewrite_fields names (table_set field (starred (Str s)) ast) = Inr ast'"
      using rewrite_step[OF Cons.prems] by blast
    have "map fst (table_set field (starred (Str s)) ast) = map fst ast"
      using s(1) by (intro keys_kept) (force dest: map_of_SomeD)
    then show ?thesis
      using Cons.IH[OF s(2)] s(1) by (auto simp: map_of_table_set starred_starred)
  qed
qed

theorem rewritten_members_witness:
  "\<exists>ast'. rewrite_fields [''entities.name''] [(''version'', Str ''v*''), (''entities.name'', Str ''comp*'')] = Inr ast' \<and>
    map_of ast' ''version'' = Some (Str ''v*'') \<and> map_of ast' ''entities.name'' = Some (regex_member ''^comp.*'')"
proof -
  let ?ast = "[(''version'', Str ''v*''), (''entities.name'', Str ''comp*'')]"
  obtain ast' where r: "rewrite_fields [''entities.name''] ?ast = Inr ast'"
    by (simp add: table_count_def string_child_def bindE_def)
  have "starred (Str ''comp*'') = regex_member ''^comp.*''" by code_simp
  then show ?thesis
    using r rewritten_members[OF r] by simp
qed

section \<open>Storing a record\<close>

text \<open>A store as the client library documents it: the documents of each collection in their order, what
  hits a query, and the form in which a document with an identifier is kept.\<close>

definition count_law :: "('d, 'b) mongo \<Rightarrow> ('d \<Rightarrow> string \<Rightarrow> 'b list) \<Rightarrow> ('b \<Rightarrow> 'b \<Rightarrow> bool) \<Rightarrow> bool" where
  "count_law mg docs hits \<longleftrightarrow>
     (\<forall>name q d. mg_count_documents mg name q d = (Inr (length (filter (hits q) (docs d name))), d))"

definition insert_law :: "('d, 'b) mongo \<Rightarrow> ('d \<Rightarrow> string \<Rightarrow> 'b list) \<Rightarrow> ('b \<Rightarrow> 'b \<Rightarrow> 'b) \<Rightarrow> bool" where
  "insert_law mg docs kept \<longleftrightarrow>
     (\<forall>name doc d. case mg_insert_one mg name doc d of
          (Inl e, d') \<Rightarrow> docs d' = docs d
        | (Inr ident, d') \<Rightarrow> docs d' = (docs d)(name := docs d name @ [kept ident doc]) \<and>
            (\<exists>i. bindE (extract_oid (compat_to_json mg ident)) to_id = Inr i))"

fun remove_first :: "('a \<Rightarrow> bool) \<Rightarrow> 'a list \<Rightarrow> 'a list" where
  "remove_first p [] = []"
| "remove_first p (x # xs) = (if p x then xs else x # remove_first p xs)"

definition delete_law :: "('d, 'b) mongo \<Rightarrow> ('d \<Rightarrow> string \<Rightarrow> 'b list) \<Rightarrow> ('b \<Rightarrow> 'b \<Rightarrow> bool) \<Rightarrow> bool" where
  "delete_law mg docs hits \<longleftrightarrow>
     (\<forall>name q d. \<exists>n d'. mg_delete_one mg name q d = (Inr n, d') \<and>
        docs d' = (docs d)(name := remove_first (hits q) (docs d name)))"

definition store_laws :: "('d, 'b) mongo \<Rightarrow> ('d \<Rightarrow> string \<Rightarrow> 'b list) \<Rightarrow> ('b \<Rightarrow> 'b \<Rightarrow> bool) \<Rightarrow> ('b \<Rightarrow> 'b \<Rightarrow> 'b) \<Rightarrow> bool" where
  "store_laws mg docs hits kept \<longleftrightarrow> count_law mg docs hits \<and> insert_law mg docs kept \<and> delete_law mg docs hits"

lemma on_files_run: "on_files m (d, w) = (case m d of (r, d') \<Rightarrow> (r, (d', w)))"
  by (simp add: on_files_def)

lemma connected_already:
  assumes "count_law mg docs hits" "filter (hits (mg_build mg [])) (docs d system_metadata) \<noteq> []"
  shows "mdb_connection mg (d, w) = (Inr (), (d, w))"
  using assms by (simp add: mdb_connection_def bindM_def on_files_run count_law_def retM_def)

lemma refuse_duplicate_keeps:
  assumes "count_law mg docs hits"
  shows "\<exists>r. mdb_refuse_duplicate mg name user (d, w) = (r, (d, w))"
proof -
  have c: "mg_count_documents mg name q d = (Inr (length (filter (hits q) (docs d name))), d)" for q
    using assms by (simp add: count_law_def)
  show ?thesis
    by (simp add: mdb_refuse_duplicate_def catchM_def bindM_def liftE_def on_files_run c throwM_def retM_def
        Let_def split: sum.splits prod.splits)
qed

lemma refuse_duplicate_case:
  assumes "count_law mg docs hits"
  obtains "mdb_refuse_duplicate mg name user (d, w) = (Inr (), (d, w))"
    | e where "mdb_refuse_duplicate mg name user (d, w) = (Inl e, (d, w))"
  using refuse_duplicate_keeps[OF assms, of name user d w] by (metis old.sum.exhaust old.unit.exhaust)

lemma insert_document_effect:
  assumes "insert_law mg docs kept" "insert_document mg name json (d, w) = (r, (d', w'))"
  shows "w' = w \<and> (case r of
      Inl e \<Rightarrow> docs d' = docs d
    | Inr i \<Rightarrow> (\<exists>b ident. mg_from_json mg json = Inr b \<and> docs d' = (docs d)(name := docs d name @ [kept ident b])))"
proof (cases "mg_from_json mg json")
  case (Inl e)
  then show ?thesis using assms(2) by (auto simp: insert_document_def bindM_def liftE_def)
next
  case b: (Inr b)
  obtain r1 d1 where i: "mg_insert_one mg name b d = (r1, d1)" by force
  note law = assms(1)[unfolded insert_law_def, THEN spec, of name, THEN spec, of b, THEN spec, of d, unfolded i]
  show ?thesis
  proof (cases r1)
    case (Inl e)
    then show ?thesis
      using assms(2) i b law by (auto simp: insert_document_def bindM_def liftE_def on_files_run)
  next
    case (Inr ident)
    then show ?thesis
      using assms(2) i b law by (auto simp: insert_document_def bindM_def liftE_def on_files_run)
  qed
qed

lemma remove_first_snoc: "filter p xs \<noteq> [] \<Longrightarrow> remove_first p (xs @ [y]) = remove_first p xs @ [y]"
  by (induction xs) auto

text \<open>The text of a record as it is sent to the database: a replacement goes without its identifier.\<close>

definition record_text :: "('d, 'b) mongo \<Rightarrow> bool \<Rightarrow> jsondoc \<Rightarrow> 'd \<times> world \<Rightarrow> exn + (string \<times> jsondoc)" where
  "record_text mg new doc s =
     fst (if new then on_builder (bld_to_string (mg_codec mg)) doc s
          else on_builder (thenM (on_document (deleteChild ''_id'')) (on_document (doc_to_string (mg_codec mg)))) doc s)"

lemma on_builder_keeps: "on_builder m doc (d, w) = (r, (d', w')) \<Longrightarrow> d' = d"
  by (auto simp: on_builder_def split: prod.splits sum.splits)

lemma inserted_record:
  assumes "insert_law mg docs kept"
    and "bindM (on_builder m doc) (\<lambda>(json, _). insert_document mg name json) (d, w) = (r, (d', w'))"
  shows "case r of Inl e \<Rightarrow> docs d' = docs d
    | Inr i \<Rightarrow> (\<exists>json doc' b ident. fst (on_builder m doc (d, w)) = Inr (json, doc') \<and> mg_from_json mg json = Inr b \<and>
        docs d' = (docs d)(name := docs d name @ [kept ident b]))"
proof -
  obtain r1 d1 w1 where b: "on_builder m doc (d, w) = (r1, (d1, w1))" by (metis prod_cases3)
  then have d1: "d1 = d" by (rule on_builder_keeps)
  show ?thesis
  proof (cases r1)
    case (Inl e)
    then show ?thesis using assms(2) b d1 by (auto simp: bindM_def)
  next
    case (Inr x)
    obtain json doc' where x: "x = (json, doc')" by force
    have "insert_document mg name json (d, w1) = (r, (d', w'))"
      using assms(2) b d1 Inr x by (simp add: bindM_def)
    from insert_document_effect[OF assms(1) this] show ?thesis
      using b Inr x by (auto split: sum.splits)
  qed
qed

text \<open>A record that replaces another: the old one goes after the new one is in.\<close>

lemma replaced_record:
  assumes ins: "insert_law mg docs kept" and del: "delete_law mg docs hits" and found: "filter (hits q) (docs d name) \<noteq> []"
    and run: "bindM (bindM (on_builder (thenM (on_document (deleteChild ''_id'')) (on_document (doc_to_string (mg_codec mg)))) doc)
        (\<lambda>(json, _). insert_document mg name json)) (\<lambda>inserted. bindM (on_files (mg_delete_one mg name q)) (\<lambda>_. retM inserted)) (d, w) =
      (r, (d', w'))"
  shows "case r of Inl e \<Rightarrow> docs d' = docs d
    | Inr i \<Rightarrow> (\<exists>json doc' b ident. record_text mg False doc (d, w) = Inr (json, doc') \<and> mg_from_json mg json = Inr b \<and>
        docs d' = (docs d)(name := remove_first (hits q) (docs d name) @ [kept ident b]))"
proof -
  let ?m = "bindM (on_builder (thenM (on_document (deleteChild ''_id'')) (on_document (doc_to_string (mg_codec mg)))) doc)
    (\<lambda>(json, _). insert_document mg name json)"
  obtain r1 d1 w1 where i: "?m (d, w) = (r1, (d1, w1))" by (metis prod_cases3)
  then have after: "(case r1 of Inl e \<Rightarrow> (Inl e, (d1, w1))
      | Inr i \<Rightarrow> bindM (on_files (mg_delete_one mg name q)) (\<lambda>_. retM i) (d1, w1)) = (r, (d', w'))"
    using run by (simp only: bindM_run[where m = ?m] i prod.case)
  show ?thesis
  proof (cases r1)
    case (Inl e)
    then show ?thesis using after inserted_record[OF ins i] by auto
  next
    case (Inr ident)
    obtain n d2 where d2: "mg_delete_one mg name q d1 = (Inr n, d2)"
        "docs d2 = (docs d1)(name := remove_first (hits q) (docs d1 name))"
      using del unfolding delete_law_def by blast
    then have "r = Inr ident" "d' = d2"
      using after Inr by (simp_all add: bindM_def on_files_run retM_def)
    then show ?thesis
      using inserted_record[OF ins i] Inr d2(2) found by (auto simp: record_text_def remove_first_snoc)
  qed
qed

text \<open>A new record is checked for duplicates first.\<close>

lemma fresh_record:
  assumes c: "count_law mg docs hits" and ins: "insert_law mg docs kept"
    and run: "thenM (mdb_refuse_duplicate mg name user) (bindM (on_builder (bld_to_string (mg_codec mg)) doc)
        (\<lambda>(json, _). insert_document mg name json)) (d, w) = (r, (d', w'))"
  shows "case r of Inl e \<Rightarrow> docs d' = docs d
    | Inr i \<Rightarrow> (\<exists>json doc' b ident. record_text mg True doc (d, w) = Inr (json, doc') \<and> mg_from_json mg json = Inr b \<and>
        docs d' = (docs d)(name := docs d name @ [kept ident b]))"
proof (rule refuse_duplicate_case[OF c, of name user d w])
  assume "mdb_refuse_duplicate mg name user (d, w) = (Inr (), (d, w))"
  then have "bindM (on_builder (bld_to_string (mg_codec mg)) doc) (\<lambda>(json, _). insert_document mg name json) (d, w) = (r, (d', w'))"
    using run by (simp add: thenM_run)
  from inserted_record[OF ins this] show ?thesis
    by (auto simp: record_text_def split: sum.splits)
next
  fix e assume "mdb_refuse_duplicate mg name user (d, w) = (Inl e, (d, w))"
  then show ?thesis
    using run by (auto simp: thenM_run)
qed


section \<open>A database\<close>

text \<open>A store of JSON values: queries look for members by their paths, through the elements of lists.\<close>

fun steps_of :: "string \<Rightarrow> string list" where
  "steps_of [] = [[]]"
| "steps_of (c # s) = (if c = CHR ''.'' then [] # steps_of s else (case steps_of s of [] \<Rightarrow> [[c]] | t # ts \<Rightarrow> (c # t) # ts))"

fun at_path :: "string list \<Rightarrow> value_t list \<Rightarrow> value_t list" where
  "at_path [] vs = vs @ concat (map (\<lambda>v. case v of Arr xs \<Rightarrow> xs | _ \<Rightarrow> []) vs)"
| "at_path (k # ks) vs =
     at_path ks (concat (map (\<lambda>v. case v of
         Obj ps \<Rightarrow> (case map_of ps k of Some x \<Rightarrow> [x] | None \<Rightarrow> [])
       | Arr xs \<Rightarrow> concat (map (\<lambda>x. case x of Obj ps \<Rightarrow> (case map_of ps k of Some y \<Rightarrow> [y] | None \<Rightarrow> []) | _ \<Rightarrow> []) xs)
       | _ \<Rightarrow> []) vs))"

definition members_of :: "value_t \<Rightarrow> object_t" where
  "members_of v = (case v of Obj ps \<Rightarrow> ps | _ \<Rightarrow> [])"

definition demo_hits :: "value_t \<Rightarrow> value_t \<Rightarrow> bool" where
  "demo_hits q doc = list_all (\<lambda>(k, v). v \<in> set (at_path (steps_of k) [doc])) (members_of q)"

type_synonym demo_db = "(string \<times> value_t list) list"

definition demo_docs :: "demo_db \<Rightarrow> string \<Rightarrow> value_t list" where
  "demo_docs d name = (case map_of d name of Some vs \<Rightarrow> vs | None \<Rightarrow> [])"

definition demo_kept :: "value_t \<Rightarrow> value_t \<Rightarrow> value_t" where
  "demo_kept ident doc = Obj (table_set ''_id'' ident (members_of doc))"

text \<open>An identifier is kept; a document without one gets the number of documents so far.\<close>

definition demo_ident :: "demo_db \<Rightarrow> value_t \<Rightarrow> value_t" where
  "demo_ident d doc = (case map_of (members_of doc) ''_id'' of Some ident \<Rightarrow> ident
     | None \<Rightarrow> Obj [(''$oid'', Str (nat_digits (length (concat (map snd d)))))])"

definition demo_print :: "value_t \<Rightarrow> string" where
  "demo_print v = (case writeJson plain_codec v of Inr t \<Rightarrow> t | Inl _ \<Rightarrow> [])"

definition demo_readable :: "value_t \<Rightarrow> bool" where
  "demo_readable ident =
     (case bindE (extract_oid (value_text (demo_print (Obj [(''dummy'', ident)])))) to_id of Inr i \<Rightarrow> True | Inl _ \<Rightarrow> False)"

definition demo_put :: "demo_db \<Rightarrow> string \<Rightarrow> value_t list \<Rightarrow> demo_db" where
  "demo_put d name vs = (name, vs) # filter (\<lambda>p. fst p \<noteq> name) d"

text \<open>The store has no files; the texts of paths are those of the file system.\<close>

definition no_files :: "demo_db files" where
  "no_files = \<lparr>f_exists = (\<lambda>p d. False), f_is_directory = (\<lambda>p d. False), f_is_regular = (\<lambda>p d. False), f_accessible = (\<lambda>p d. False),
     f_entries = (\<lambda>p d. []), f_read = (\<lambda>p d. None), f_write = (\<lambda>p t d. None), f_mkdirs = (\<lambda>p d. None),
     f_wordexp = (\<lambda>s. [s]), f_append = posix_append, f_parent = posix_parent, f_filename = posix_filename,
     f_stem = (\<lambda>p. p), f_replace_extension = (\<lambda>p e. p @ e)\<rparr>"

definition demo_mongo :: "(demo_db, value_t) mongo" where
  "demo_mongo =
     \<lparr>mg_system = \<lparr>pv_files = no_files, pv_codec = plain_codec, pv_rebuild = False, pv_uri = ''mongodb://db'', pv_uname = ''{}'', pv_timepoint = (\<lambda>t. Inr 0)\<rparr>,
      mg_from_json = (\<lambda>t. case c_read plain_codec t of Inr (Some ps) \<Rightarrow> Inr (Obj ps) | _ \<Rightarrow> Inl Driver_exception),
      mg_to_json = demo_print,
      mg_dummy = (\<lambda>v. Obj [(''dummy'', v)]),
      mg_find = (\<lambda>k v. map_of (members_of v) k),
      mg_fields = members_of,
      mg_array = (\<lambda>v. case v of Arr xs \<Rightarrow> Inr xs | _ \<Rightarrow> Inl Driver_exception),
      mg_document = (\<lambda>v. case v of Obj ps \<Rightarrow> Inr (Obj ps) | _ \<Rightarrow> Inl Driver_exception),
      mg_build = (\<lambda>ms. Obj (map (\<lambda>(k, s). (k, case s of Bson_text t \<Rightarrow> Str t | Bson_int i \<Rightarrow> Integer (of_int i))) ms)),
      mg_count_documents = (\<lambda>name q d. (Inr (length (filter (demo_hits q) (demo_docs d name))), d)),
      mg_find_documents = (\<lambda>name q d. (Inr (filter (demo_hits q) (demo_docs d name)), d)),
      mg_aggregate = (\<lambda>name stages d. (Inl Driver_exception, d)),
      mg_insert_one = (\<lambda>name doc d. if demo_readable (demo_ident d doc)
        then (Inr (demo_ident d doc), demo_put d name (demo_docs d name @ [demo_kept (demo_ident d doc) doc])) else (Inl Driver_exception, d)),
      mg_delete_one = (\<lambda>name q d. (Inr 1, demo_put d name (remove_first (demo_hits q) (demo_docs d name)))),
      mg_list_collections = (\<lambda>d. (Inr (map (\<lambda>p. Obj [(''name'', Str (fst p))]) d), d)),
      mg_list_databases = (\<lambda>d. (Inr [Obj [(''name'', Str ''db'')]], d))\<rparr>"

definition demo_metadata :: demo_db where
  "demo_metadata = [(system_metadata, [Obj [(''database_format'', Integer 3)]])]"

lemma map_of_filter_other: "k \<noteq> name \<Longrightarrow> map_of (filter (\<lambda>p. fst p \<noteq> name) d) k = map_of d k"
  by (induction d) auto

lemma demo_docs_put: "demo_docs (demo_put d name vs) = (demo_docs d)(name := vs)"
  by (auto simp: demo_docs_def demo_put_def map_of_filter_other)

lemma demo_laws: "store_laws demo_mongo demo_docs demo_hits demo_kept"
proof -
  have "\<exists>i. bindE (extract_oid (compat_to_json demo_mongo ident)) to_id = Inr i" if "demo_readable ident" for ident
    using that by (simp add: demo_readable_def compat_to_json_def demo_mongo_def split: sum.splits)
  then have "insert_law demo_mongo demo_docs demo_kept"
    unfolding insert_law_def
    by (simp add: demo_mongo_def demo_docs_put)
  moreover have "count_law demo_mongo demo_docs demo_hits" "delete_law demo_mongo demo_docs demo_hits"
    by (simp_all add: count_law_def delete_law_def demo_mongo_def demo_docs_put)
  ultimately show ?thesis by (simp add: store_laws_def)
qed

definition demo_id :: "string \<Rightarrow> string \<times> value_t" where
  "demo_id s = (''_id'', Obj [(''$oid'', Str s)])"

definition demo_stored :: demo_db where
  "demo_stored = [(''c'', [Obj [demo_id ''1'', (''version'', Str ''v'')], Obj [demo_id ''2'', (''version'', Str ''u'')]]),
     (system_metadata, [Obj [(''database_format'', Integer 3)]])]"


end
