(* ===== verification/UconLaws.thy ===== *)
theory UconLaws
  imports UconProvider MongoLaws
begin

text \<open>
  The texts the UconDB provider exchanges with its service, and what it has done when it reports the
  identifier of a document.
\<close>

section \<open>Addresses and lists\<close>

text \<open>The address of an upload is the service's address, the folder, the object and, when
  they are given, the version, the tags with commas between them and the key, with a blank behind: the
  comma the code writes behind the last tag is always overwritten by what follows.\<close>

theorem put_url_plain:
  "put_url conn folder object tv tgs key =
     conn @ ''/app/put?folder='' @ folder @ ''&object='' @ object @ (if tv \<noteq> 0 then ''&tv='' @ integer_to_string tv else []) @
     (if tgs \<noteq> [] then ''&tag='' @ join '','' tgs else []) @ (if key \<noteq> [] then ''&key='' @ key else []) @ '' ''"
proof -
  have commas: "concat (map (\<lambda>t. t @ '','') ts) = join '','' ts @ '',''" if "ts \<noteq> []" for ts
    using that by (induction "'',''" ts rule: join.induct) auto
  show ?thesis
    by (cases "tgs = []") (simp_all add: put_url_def Let_def commas butlast_append)
qed

lemma segments_one: "CHR '','' \<notin> set n \<Longrightarrow> segments n = (if n = [] then [] else [n])"
  by (induction n rule: segments.induct) auto

lemma segments_more: "CHR '','' \<notin> set n \<Longrightarrow> segments (n @ CHR '','' # r) = n # segments r"
  by (induction n) auto

lemma segments_join: "\<forall>n\<in>set (ns @ [l]). CHR '','' \<notin> set n \<Longrightarrow> l \<noteq> [] \<Longrightarrow> segments (join '','' (ns @ [l])) = ns @ [l]"
proof (induction ns)
  case Nil
  then show ?case by (simp add: segments_one)
next
  case (Cons n ns)
  then show ?case by (cases "ns @ [l]") (auto simp: segments_more)
qed

lemma join_longer: "join sep (xs @ [x]) @ t = join sep (xs @ [x @ t])"
  by (induction sep xs rule: join.induct) auto

text \<open>A name in double quotes among blanks, as services print the elements of a list.\<close>

definition padded :: "string \<Rightarrow> string \<Rightarrow> bool" where
  "padded name element \<longleftrightarrow> (\<exists>before behind. element = before @ quoted name @ behind \<and> (\<forall>c\<in>set (before @ behind). is_space c))"

lemma padded_read: "padded n p \<Longrightarrow> dequote (trim p) = n"
proof -
  assume "padded n p"
  then obtain b1 b2 where p: "p = b1 @ quoted n @ b2" "\<forall>c\<in>set b1. is_space c" "\<forall>c\<in>set b2. is_space c"
    by (auto simp: padded_def)
  have "trim p = quoted n"
    using p by (simp add: trim_def quoted_def drop_blanks drop_blanks[of "rev b2"] not_blank)
  then show ?thesis by (simp add: dequote_quoted)
qed

lemma padded_more: "padded n p \<Longrightarrow> padded n (p @ '' '')"
proof -
  assume "padded n p"
  then obtain b1 b2 where "p = b1 @ quoted n @ b2" "\<forall>c\<in>set (b1 @ b2). is_space c"
    by (auto simp: padded_def)
  then have "p @ '' '' = b1 @ quoted n @ (b2 @ '' '')" "\<forall>c\<in>set (b1 @ (b2 @ '' '')). is_space c"
    by (auto simp: not_blank)
  then show ?thesis unfolding padded_def by blast
qed

lemma padded_no_comma:
  assumes "padded n p" "CHR '','' \<notin> set n"
  shows "CHR '','' \<notin> set p"
proof -
  obtain b1 b2 where p: "p = b1 @ quoted n @ b2" "\<forall>c\<in>set (b1 @ b2). is_space c"
    using assms(1) by (auto simp: padded_def)
  have "CHR '','' \<notin> set (b1 @ b2)" using p(2) not_blank(6) by blast
  moreover have "CHR '','' \<noteq> dquote" by code_simp
  ultimately show ?thesis using p(1) assms(2) by (simp add: quoted_def)
qed

lemma padded_not_empty: "padded n p \<Longrightarrow> p \<noteq> []"
  by (auto simp: padded_def quoted_def)

lemma all_read: "list_all2 padded names elements \<Longrightarrow> map (\<lambda>s. dequote (trim s)) elements = names"
  by (induction rule: list_all2_induct) (simp_all add: padded_read)

lemma no_commas: "list_all2 padded names elements \<Longrightarrow> \<forall>n\<in>set names. CHR '','' \<notin> set n \<Longrightarrow> \<forall>p\<in>set elements. CHR '','' \<notin> set p"
  by (induction rule: list_all2_induct) (auto dest: padded_no_comma)

lemma segments_blank: "segments '' '' = ['' '']" "dequote (trim '' '') = []"
  by code_simp+

text \<open>The names a service lists, in double quotes with blanks around them and commas between them
  in one pair of brackets, are the names the code reads, when they are not empty and hold no comma.\<close>

theorem listed_names_read:
  assumes "list_all2 padded names elements" "\<forall>n\<in>set names. n \<noteq> [] \<and> CHR '','' \<notin> set n"
  shows "listed_names (''['' @ join '','' elements @ '']'') = names"
proof -
  have body: "listed_names (''['' @ join '','' elements @ '']'') =
      filter (\<lambda>s. s \<noteq> []) (map (\<lambda>s. dequote (trim s)) (segments (join '','' elements @ '' '')))"
    by (simp add: listed_names_def butlast_append not_blank)
  show ?thesis
  proof (cases elements rule: rev_cases)
    case Nil
    then show ?thesis using assms(1) body by (simp add: segments_blank)
  next
    case (snoc ps p)
    then obtain ns n where ns: "names = ns @ [n]" "list_all2 padded ns ps" "padded n p"
      using assms(1) by (auto simp: list_all2_append2 list_all2_Cons2)
    have l: "list_all2 padded names (ps @ [p @ '' ''])"
      using ns padded_more[OF ns(3)] by (simp add: list_all2_appendI)
    have "segments (join '','' elements @ '' '') = ps @ [p @ '' '']"
      using segments_join[of ps "p @ '' ''"] no_commas[OF l] assms(2) snoc by (simp add: join_longer)
    then show ?thesis
      using body all_read[OF l] assms(2) by (simp only: filter_id_conv) blast
  qed
qed

theorem listed_names_read_witness:
  "listed_names (''['' @ join '','' [quoted ''a b'', '' '' @ quoted ''c''] @ '']'') = [''a b'', ''c'']"
proof (rule listed_names_read)
  have "padded ''a b'' (quoted ''a b'')" "padded ''c'' ('' '' @ quoted ''c'')"
    unfolding padded_def by (rule exI[of _ "[]"], rule exI[of _ "[]"], simp) (rule exI[of _ "'' ''"], rule exI[of _ "[]"], simp add: not_blank)
  then show "list_all2 padded [''a b'', ''c''] [quoted ''a b'', '' '' @ quoted ''c'']" by simp
qed simp

section \<open>Uploads\<close>

text \<open>What a request was answered with, when it was answered without an error.\<close>

definition answered :: "'d ucon \<Rightarrow> request \<Rightarrow> 'd \<Rightarrow> string \<Rightarrow> 'd \<Rightarrow> bool" where
  "answered uc rq d body d' \<longleftrightarrow> uc_perform uc rq d = ((None, body), d')"

lemma perform_run: "perform uc rq d = (Inr (fst (uc_perform uc rq d)), snd (uc_perform uc rq d))"
  by (simp add: perform_def split: prod.splits)

lemma on_web_run: "on_web m (d, w) = (case m d of (r, d') \<Rightarrow> (r, (d', w)))"
  by (simp add: on_web_def)

lemma on_web_Inr: "on_web m s = (Inr x, t) \<longleftrightarrow> m (fst s) = (Inr x, fst t) \<and> snd t = snd s"
  by (cases s; cases t) (auto simp: on_web_run split: prod.splits)

lemma folder_made:
  assumes "create_folder uc folder d = (Inr (True, m), d')"
  shows "\<exists>d1 fl. folders uc d1 = (Inr fl, d') \<and> to_lower folder \<in> set fl"
proof -
  obtain fl t where fl: "folders uc d = (Inr fl, t)"
    and rest: "(if to_lower folder \<in> set fl then retM (Success msg_AlreadyExist)
       else bindM (perform uc (folder_request uc folder)) (\<lambda>(code, body). case code of
            Some msg \<Rightarrow> retM (Failure msg)
          | None \<Rightarrow> bindM (folders uc) (\<lambda>fl. retM (if to_lower folder \<in> set fl then Success msg_Added else Failure msg_Failure)))) t
       = (Inr (True, m), d')"
    using assms unfolding create_folder_def thenM_Inr bindM_Inr by (auto simp: confirm_run split: if_split_asm)
  show ?thesis
  proof (cases "to_lower folder \<in> set fl")
    case True
    then show ?thesis using fl rest by (auto simp: retM_run)
  next
    case False
    obtain code body t' where p: "uc_perform uc (folder_request uc folder) t = ((code, body), t')" by (metis surj_pair)
    then show ?thesis
      using rest False by (cases code) (auto simp: perform_run bindM_run retM_run Failure_def split: if_split_asm prod.split_asm sum.split_asm)
  qed
qed

lemma put_made:
  assumes "put_object uc folder buffer object tv tgs key d = (Inr (True, m), d')"
  shows "buffer \<noteq> [] \<and> (\<exists>body. body \<noteq> ''Authorization required'' \<and>
    answered uc (put_request uc folder buffer object tv tgs key) d body d')"
proof -
  obtain code body d1 where p: "uc_perform uc (put_request uc folder buffer object tv tgs key) d = ((code, body), d1)" by (metis surj_pair)
  then show ?thesis
    using assms by (cases code) (auto simp: put_object_def thenM_run bindM_run perform_run retM_run confirm_run answered_def Failure_def
        split: if_split_asm)
qed

text \<open>C22.  When UconDB reports an identifier for a document, the service has listed the folder of its
  collection, and the last request was the upload of the frozen record's text as the object of that
  identifier, which was answered without an error.\<close>

theorem uploaded_before_reported:
  fixes uc :: "'d ucon"
  assumes "web_writeDocument uc arg (d, w) = (Inr ident, (d', w'))"
  shows "\<exists>user filt name oid doc doc2 (s2 :: 'd \<times> world) json s3 tgs body d0 fl d1 d2.
    findChildDocument arg ''document'' = Inr user \<and> write_collection (uc_codec uc) arg user filt = Inr name \<and>
    folders uc d0 = (Inr fl, d1) \<and> to_lower name \<in> set fl \<and> to_id oid = Inr ident \<and>
    on_builder (thenM (prepare_record (uc_codec uc) user ident name) bld_markReadonly) empty_doc s2 = (Inr ((), doc), s3) \<and>
    fst (on_builder (bld_to_string (uc_codec uc)) doc s3) = Inr (json, doc2) \<and>
    json \<noteq> [] \<and> body \<noteq> ''Authorization required'' \<and> answered uc (put_request uc name json oid 0 tgs []) d2 body d'"
proof -
  let ?c = "uc_codec uc"
  have "\<exists>user filt name m d1 oid s2 doc s3 json doc2 s4 tgs m2.
      findChildDocument arg ''document'' = Inr user \<and> write_collection ?c arg user filt = Inr name \<and>
      create_folder uc name d = (Inr (True, m), d1) \<and> to_id oid = Inr ident \<and>
      on_builder (thenM (prepare_record ?c user ident name) bld_markReadonly) empty_doc s2 = (Inr ((), doc), s3) \<and>
      on_builder (bld_to_string ?c) doc s3 = (Inr (json, doc2), s4) \<and>
      put_object uc name json oid 0 tgs [] (fst s4) = (Inr (True, m2), d')"
    using assms unfolding web_writeDocument_def Let_def
    by (simp add: bindM_Inr thenM_Inr liftE_run confirm_run on_web_Inr throwM_run retM_run split: if_split_asm) blast
  then obtain user filt name m d1 oid s2 doc s3 json doc2 s4 tgs m2 where
      f: "findChildDocument arg ''document'' = Inr user" "write_collection ?c arg user filt = Inr name" "to_id oid = Inr ident"
    and made: "create_folder uc name d = (Inr (True, m), d1)"
    and made_record: "on_builder (thenM (prepare_record ?c user ident name) bld_markReadonly) empty_doc s2 = (Inr ((), doc), s3)"
    and shown: "on_builder (bld_to_string ?c) doc s3 = (Inr (json, doc2), s4)"
    and put: "put_object uc name json oid 0 tgs [] (fst s4) = (Inr (True, m2), d')"
    by blast
  obtain d0 fl where fl: "folders uc d0 = (Inr fl, d1)" "to_lower name \<in> set fl" using folder_made[OF made] by blast
  obtain body where body: "json \<noteq> []" "body \<noteq> ''Authorization required''"
      "answered uc (put_request uc name json oid 0 tgs []) (fst s4) body d'"
    using put_made[OF put] by blast
  have "fst (on_builder (bld_to_string ?c) doc s3) = Inr (json, doc2)" using shown by simp
  then show ?thesis using f made_record fl body by blast
qed

text \<open>A service with folders and objects, an upload being kept under its address.\<close>

type_synonym demo_web = "string list \<times> (string \<times> string) list"

definition demo_answer :: "request \<Rightarrow> demo_web \<Rightarrow> (string option \<times> string) \<times> demo_web" where
  "demo_answer rq d =
     (case rq_upload rq of
        Some t \<Rightarrow> ((None, []), (fst d, (rq_url rq, t) # snd d))
      | None \<Rightarrow>
          if rq_url rq = ''http://web/app/folders'' then ((None, ''['' @ join '','' (map quoted (fst d)) @ '']''), d)
          else ((None, []), (takeWhile (\<lambda>c. c \<noteq> CHR ''&'') (drop (length ''http://web/app/create_folder?folder='') (rq_url rq)) # fst d, snd d)))"

definition demo_ucon :: "demo_web ucon" where
  "demo_ucon = \<lparr>uc_connection = ''http://web'', uc_authentication = ''user:pass'', uc_perform = demo_answer, uc_codec = plain_codec\<rparr>"

definition demo_arg :: jsondoc where
  "demo_arg = doc_of (Obj [(''document'', Obj [(''version'', Str ''v'')]), (''collection'', Str ''c'')])"

theorem uploaded_before_reported_witness:
  "\<exists>ident d' w' name oid json tgs body d2. web_writeDocument demo_ucon demo_arg (([], []), demo_world) = (Inr ident, (d', w')) \<and>
     to_id oid = Inr ident \<and> answered demo_ucon (put_request demo_ucon name json oid 0 tgs []) d2 body d'"
proof -
  have "fst (web_writeDocument demo_ucon demo_arg (([], []), demo_world)) =
      Inr (''{'' @ quoted ''_id'' @ '':{'' @ quoted ''$oid'' @ '':'' @ quoted (replicate 24 (CHR ''0'')) @ ''} }'')" by code_simp
  then obtain ident d' w' where run: "web_writeDocument demo_ucon demo_arg (([], []), demo_world) = (Inr ident, (d', w'))"
    by (metis prod.collapse)
  then show ?thesis using uploaded_before_reported[OF run] by blast
qed

end
