(* ===== verification/OverlayCompare.thy ===== *)
theory OverlayCompare
  imports DocumentBuilder
begin

text \<open>
  How overlays are printed and compared: the \<open>to_string\<close> members and the comparison operators of the
  classes of Overlay/, and the comparison of two builders.  The texts are those of the code; a
  member that is missing or has another type is an exception, as the accessors raise it.
\<close>

section \<open>The mask of a comparison\<close>

datatype compare_flag =
    MUTE_TIMESTAMPS | MUTE_OUIDS | MUTE_COMMENTS | MUTE_BOOKKEEPING | MUTE_ORIGIN | MUTE_VERSION | MUTE_CHANGELOG
  | MUTE_UPDATES | MUTE_CONFIGENTITY | MUTE_CONFIGURATION | MUTE_ALIAS | MUTE_ALIAS_HISTORY | MUTE_RUN | MUTE_ATTACHMENT
  | MUTE_SEARCH | MUTE_RAWDATA | MUTE_UPDATE_VALUES | MUTE_COLLECTION | MUTE_DATA | MUTE_METADATA

primrec flag_bit :: "compare_flag \<Rightarrow> nat" where
  "flag_bit MUTE_TIMESTAMPS = 0" | "flag_bit MUTE_OUIDS = 1" | "flag_bit MUTE_COMMENTS = 2" | "flag_bit MUTE_BOOKKEEPING = 3"
| "flag_bit MUTE_ORIGIN = 4" | "flag_bit MUTE_VERSION = 5" | "flag_bit MUTE_CHANGELOG = 6" | "flag_bit MUTE_UPDATES = 7"
| "flag_bit MUTE_CONFIGENTITY = 8" | "flag_bit MUTE_CONFIGURATION = 9" | "flag_bit MUTE_ALIAS = 10" | "flag_bit MUTE_ALIAS_HISTORY = 11"
| "flag_bit MUTE_RUN = 12" | "flag_bit MUTE_ATTACHMENT = 13" | "flag_bit MUTE_SEARCH = 14" | "flag_bit MUTE_RAWDATA = 15"
| "flag_bit MUTE_UPDATE_VALUES = 16" | "flag_bit MUTE_COLLECTION = 28" | "flag_bit MUTE_DATA = 29" | "flag_bit MUTE_METADATA = 30"

unbundle bit_operations_syntax

definition muted :: "32 word \<Rightarrow> compare_flag \<Rightarrow> bool" where
  "muted cm f \<longleftrightarrow> cm AND push_bit (flag_bit f) 1 = push_bit (flag_bit f) 1"

text \<open>The static variable takes the argument of the first call for good.\<close>

definition useCompareMask :: "32 word \<Rightarrow> 32 word option \<Rightarrow> 32 word \<times> 32 word option" where
  "useCompareMask cm kept = (case kept of None \<Rightarrow> (cm, Some cm) | Some m \<Rightarrow> (m, kept))"

section \<open>Values\<close>

type_synonym equality = "value_t \<Rightarrow> value_t \<Rightarrow> exn + result_t"

definition two_values :: "string \<Rightarrow> string \<Rightarrow> exn + string \<Rightarrow> exn + string \<Rightarrow> exn + string" where
  "two_values title sep first second =
     bindE first (\<lambda>s. bindE second (\<lambda>t.
       Inr (title @ newline @ ''  Self  value:'' @ sep @ s @ newline @ ''  Other value:'' @ sep @ t)))"

definition debug_info :: "string \<Rightarrow> exn + string \<Rightarrow> exn + string \<Rightarrow> exn + string" where
  "debug_info = two_values (newline @ ''  Debug info:'')"

text \<open>\<open>ovlKeyValue::operator==\<close>; \<open>to_string\<close> is that of the object's class.\<close>

definition kv_equal :: "string \<Rightarrow> (value_t \<Rightarrow> exn + string) \<Rightarrow> equality" where
  "kv_equal key printed v w =
     (if fst (eq_value v w) then Inr (eq_value v w)
      else bindE (two_values (newline @ ''  Values disagree.'' @ newline @ ''  Key: '' @ quoted key) '' '' (printed v) (printed w))
        (\<lambda>t. Inr (Failure t)))"

definition unless_muted :: "32 word \<Rightarrow> compare_flag \<Rightarrow> equality \<Rightarrow> equality" where
  "unless_muted cm f eq v w = (if muted cm f then Inr (Success msg_Success) else eq v w)"

definition part_equal :: "codec \<Rightarrow> 32 word \<Rightarrow> compare_flag \<Rightarrow> string \<Rightarrow> equality" where
  "part_equal c cm f key = unless_muted cm f (kv_equal key (keyvalue_to_string c key))"

text \<open>What a comparison answers: the errors under their title, if there are any.\<close>

definition verdict :: "string \<Rightarrow> string \<Rightarrow> exn + string \<Rightarrow> exn + result_t" where
  "verdict title errors debug =
     (if errors = [] then Inr (Success msg_Success) else bindE debug (\<lambda>d. Inr (Failure (title @ errors @ d))))"

definition differ :: "string \<Rightarrow> string \<Rightarrow> string \<Rightarrow> string" where
  "differ what x y = (if x = y then [] else newline @ ''  '' @ what @ '' different: self,other='' @ x @ '','' @ y)"

text \<open>A comparison of children, and the text its failure adds.\<close>

definition on_child :: "string \<Rightarrow> equality \<Rightarrow> equality" where
  "on_child k eq v w = bindE (child_at k v) (\<lambda>x. bindE (child_at k w) (\<lambda>y. eq x y))"

definition text_child :: "string \<Rightarrow> value_t \<Rightarrow> exn + string" where
  "text_child k v = bindE (child_at k v) get_string"

definition complaint :: "exn + result_t \<Rightarrow> (string \<Rightarrow> exn + string) \<Rightarrow> exn + string" where
  "complaint r f = bindE r (\<lambda>x. if fst x then Inr [] else f (snd x))"

section \<open>Timestamps and entries\<close>

definition time_to_string :: "string \<Rightarrow> value_t \<Rightarrow> exn + string" where
  "time_to_string key v = bindE (get_string v) (\<lambda>t. Inr (''{'' @ quoted key @ '':'' @ quoted t @ ''}''))"

definition time_equal :: "32 word \<Rightarrow> string \<Rightarrow> equality" where
  "time_equal cm key = unless_muted cm MUTE_TIMESTAMPS (kv_equal key (time_to_string key))"

text \<open>The member \<open>_removed\<close> refers to the assigned time as well (\<open>map_assigned\<close>); without an assigned
  time it is a null pointer.\<close>

definition removed_of :: "bool \<Rightarrow> value_t \<Rightarrow> exn + value_t" where
  "removed_of A v = (if A then child_at ''assigned'' v else Inl Undefined)"

definition entry_to_string :: "bool \<Rightarrow> bool \<Rightarrow> value_t \<Rightarrow> exn + string" where
  "entry_to_string A R v =
     bindE (kvts_name v) (\<lambda>n.
     bindE (if A then bindE (bindE (child_at ''assigned'' v) (time_to_string ''assigned'')) (\<lambda>t. Inr ('','' @ debrace t)) else Inr []) (\<lambda>assigned.
     bindE (if R then bindE (bindE (removed_of A v) (time_to_string ''assigned'')) (\<lambda>t. Inr ('','' @ debrace t)) else Inr []) (\<lambda>removed.
       Inr (''{'' @ quoted ''name'' @ '':'' @ quoted n @ assigned @ removed @ ''}''))))"

definition times_differ :: "string \<Rightarrow> exn + string" where
  "times_differ t = Inr (newline @ ''  Assigned timestamps are different:'' @ newline @ ''  '' @ t)"

definition entry_equal :: "32 word \<Rightarrow> bool \<Rightarrow> bool \<Rightarrow> string \<Rightarrow> equality" where
  "entry_equal cm A R key v w =
     bindE (kvts_name v) (\<lambda>n. bindE (kvts_name w) (\<lambda>m.
     bindE (if A then complaint (on_child ''assigned'' (time_equal cm ''assigned'') v w) times_differ else Inr []) (\<lambda>e1.
     bindE (if R then complaint (bindE (removed_of A v) (\<lambda>x. bindE (child_at ''assigned'' w) (time_equal cm ''assigned'' x))) times_differ
            else Inr []) (\<lambda>e2.
       verdict (newline @ key @ '' records disagree.'') (differ (key @ ''names are'') (quoted n) (quoted m) @ e1 @ e2)
         (debug_info '' '' (entry_to_string A R v) (entry_to_string A R w))))))"

section \<open>Lists\<close>

definition entries_text :: "(value_t \<Rightarrow> exn + string) \<Rightarrow> value_t \<Rightarrow> exn + string" where
  "entries_text printed v = bindE (get_array v) (\<lambda>xs. bindE (mapE printed xs) (\<lambda>ts. Inr (join '','' (map (\<lambda>t. newline @ t) ts))))"

definition list_to_string :: "string \<Rightarrow> (value_t \<Rightarrow> exn + string) \<Rightarrow> value_t \<Rightarrow> exn + string" where
  "list_to_string key printed v =
     bindE (entries_text printed v) (\<lambda>t. Inr (''{'' @ quoted key @ '': ['' @ t @ newline @ '']}''))"

text \<open>\<open>std::equal\<close> on lists of one length: the first pair that differs, with its result.\<close>

fun first_difference :: "equality \<Rightarrow> array_t \<Rightarrow> array_t \<Rightarrow> exn + (value_t \<times> value_t \<times> result_t) option" where
  "first_difference eq (x # xs) (y # ys) =
     bindE (eq x y) (\<lambda>r. if fst r then first_difference eq xs ys else Inr (Some (x, y, r)))"
| "first_difference eq _ _ = Inr None"

definition sizes_differ :: "string \<Rightarrow> array_t \<Rightarrow> array_t \<Rightarrow> string" where
  "sizes_differ what xs ys =
     (if length xs = length ys then [] else newline @ ''  '' @ what @ '': self,other='' @ nat_digits (length xs) @ '','' @ nat_digits (length ys))"

definition list_equal :: "32 word \<Rightarrow> compare_flag \<Rightarrow> string \<Rightarrow> (value_t \<Rightarrow> exn + string) \<Rightarrow> equality \<Rightarrow> equality" where
  "list_equal cm f key printed eq = unless_muted cm f (\<lambda>v w.
     bindE (get_array v) (\<lambda>xs. bindE (get_array w) (\<lambda>ys.
     let sizes = sizes_differ (''Entry '' @ key @ '' have different size'') xs ys in
     bindE (if sizes = [] then first_difference eq xs ys else Inr None) (\<lambda>d.
       if sizes = [] \<and> d = None then Inr (Success msg_Success)
       else
         bindE (debug_info '' '' (list_to_string key printed v) (list_to_string key printed w)) (\<lambda>t.
           Inr (Failure (newline @ ''Entry lists disagree.'' @ sizes @ (case d of None \<Rightarrow> [] | Some (x, y, r) \<Rightarrow> snd r) @
             newline @ ''  Entry lists are different'' @ t)))))))"

text \<open>A list with a history: only the active entries are compared.\<close>

definition movable_to_string :: "string \<Rightarrow> (value_t \<Rightarrow> exn + string) \<Rightarrow> value_t \<Rightarrow> exn + string" where
  "movable_to_string key printed v =
     bindE (bindE (child_at ''active'' v) (entries_text printed)) (\<lambda>active.
     bindE (bindE (child_at ''history'' v) (entries_text printed)) (\<lambda>history.
       Inr (''{'' @ quoted key @ '': {'' @ quoted ''active'' @ '': ['' @ active @ newline @ ''],'' @
         quoted ''history'' @ '': ['' @ history @ newline @ '']'' @ newline @ ''}'' @ newline @ ''}'')))"

definition movable_equal :: "32 word \<Rightarrow> compare_flag \<Rightarrow> string \<Rightarrow> (value_t \<Rightarrow> exn + string) \<Rightarrow> equality \<Rightarrow> equality" where
  "movable_equal cm f key printed eq = unless_muted cm f (\<lambda>v w.
     bindE (bindE (child_at ''active'' v) get_array) (\<lambda>xs. bindE (bindE (child_at ''active'' w) get_array) (\<lambda>ys.
     let sizes = sizes_differ (''Different active '' @ key @ '' count'') xs ys in
     bindE (if sizes = [] then first_difference eq xs ys else Inr None) (\<lambda>d.
       if sizes = [] \<and> d = None then Inr (Success msg_Success)
       else
         bindE (case d of None \<Rightarrow> Inr []
             | Some (x, y, r) \<Rightarrow> bindE (printed x) (\<lambda>s. bindE (printed y) (\<lambda>t.
                 Inr (newline @ ''  '' @ key @ '' different: self,other='' @ s @ '','' @ t)))) (\<lambda>e.
         bindE (debug_info newline (movable_to_string key printed v) (movable_to_string key printed w)) (\<lambda>t.
           Inr (Failure (newline @ '' '' @ key @ ''nodes disagree.'' @ sizes @ e @ t))))))))"

section \<open>Comments, updates and bookkeeping\<close>

definition comment_to_string :: "value_t \<Rightarrow> exn + string" where
  "comment_to_string v =
     bindE (bindE (child_at ''linenum'' v) get_integer) (\<lambda>n. bindE (text_child ''value'' v) (\<lambda>t.
       Inr (''{'' @ quoted ''linenum'' @ '':'' @ integer_to_string n @ '','' @ quoted ''value'' @ '':'' @ quoted t @ ''}'')))"

definition update_to_string :: "value_t \<Rightarrow> exn + string" where
  "update_to_string v =
     bindE (text_child ''event'' v) (\<lambda>n.
     bindE (bindE (child_at ''timestamp'' v) (time_to_string ''timestamp'')) (\<lambda>t.
     bindE (bindE (child_at ''value'' v) (entry_to_string True False)) (\<lambda>what.
       Inr (''{'' @ quoted ''event'' @ '':'' @ quoted n @ '','' @ debrace t @ '','' @ debrace what @ ''}''))))"

definition two_texts :: "string \<Rightarrow> exn + string \<Rightarrow> exn + string \<Rightarrow> exn + string" where
  "two_texts what first second =
     bindE first (\<lambda>s. bindE second (\<lambda>t. Inr (newline @ ''  '' @ what @ '' different: self,other='' @ s @ '','' @ t)))"

definition quotedE :: "exn + string \<Rightarrow> exn + string" where
  "quotedE r = bindE r (\<lambda>s. Inr (quoted s))"

text \<open>With muted timestamps only the names of the values are compared.\<close>

definition update_equal :: "32 word \<Rightarrow> equality" where
  "update_equal cm v w =
     bindE (complaint (on_child ''timestamp'' (time_equal cm ''timestamp'') v w)
       (\<lambda>_. two_texts ''Timestamps are'' (quotedE (text_child ''timestamp'' v)) (quotedE (text_child ''timestamp'' w)))) (\<lambda>e1.
     bindE (text_child ''event'' v) (\<lambda>n. bindE (text_child ''event'' w) (\<lambda>m.
     bindE (if muted cm MUTE_TIMESTAMPS
            then bindE (bindE (child_at ''value'' v) kvts_name) (\<lambda>x. bindE (bindE (child_at ''value'' w) kvts_name) (\<lambda>y.
              Inr (differ ''Event names are'' (quoted x) (quoted y))))
            else complaint (on_child ''value'' (entry_equal cm True False ''value'') v w)
              (\<lambda>_. two_texts ''Event data are'' (bindE (child_at ''value'' v) (entry_to_string True False))
                (bindE (child_at ''value'' w) (entry_to_string True False)))) (\<lambda>e3.
       verdict (newline @ ''Update events disagree.'') (e1 @ differ ''Events are'' (quoted n) (quoted m) @ e3) (Inr [])))))"

definition bookkeeping_to_string :: "value_t \<Rightarrow> exn + string" where
  "bookkeeping_to_string v =
     bindE (isReadonly v) (\<lambda>r. bindE (isDeleted v) (\<lambda>d.
     bindE (bindE (child_at ''created'' v) (time_to_string ''created'')) (\<lambda>t.
     bindE (bindE (child_at ''updates'' v) (entries_text update_to_string)) (\<lambda>us.
       Inr (''{'' @ quoted ''bookkeeping'' @ '': {'' @ newline @ quoted ''isreadonly'' @ '':'' @ bool_name r @ '','' @ newline @
         quoted ''isdeleted'' @ '':'' @ bool_name d @ '','' @ newline @ debrace t @ '','' @ newline @
         quoted ''updates'' @ '': ['' @ us @ newline @ '']'' @ newline @ ''}'' @ newline @ ''}'')))))"

text \<open>The updates are looked at only while no error was found; muted, only when there is one already.\<close>

definition bookkeeping_equal :: "32 word \<Rightarrow> equality" where
  "bookkeeping_equal cm = unless_muted cm MUTE_BOOKKEEPING (\<lambda>v w.
     bindE (isDeleted v) (\<lambda>d1. bindE (isDeleted w) (\<lambda>d2.
     bindE (isReadonly v) (\<lambda>r1. bindE (isReadonly w) (\<lambda>r2.
     bindE (complaint (on_child ''created'' (time_equal cm ''created'') v w)
       (\<lambda>_. two_texts ''Timestamps are'' (quotedE (text_child ''created'' v)) (quotedE (text_child ''created'' w)))) (\<lambda>e1.
     let errors = differ ''isdeleted flags are'' (bool_name d1) (bool_name d2) @ differ ''isreadonly flags are'' (bool_name r1) (bool_name r2) @ e1 in
     if errors = [] \<and> muted cm MUTE_UPDATES then Inr (Success msg_Success)
     else
       bindE (bindE (child_at ''updates'' v) get_array) (\<lambda>us. bindE (bindE (child_at ''updates'' w) get_array) (\<lambda>ts.
       let errors = errors @ sizes_differ ''Record update histories have different size'' us ts in
       bindE (if errors = [] then first_difference (update_equal cm) us ts else Inr None) (\<lambda>d.
       bindE (case d of None \<Rightarrow> Inr []
           | Some (x, y, r) \<Rightarrow> two_texts ''Record update histories are'' (update_to_string x) (update_to_string y)) (\<lambda>e2.
         verdict (newline @ ''Bookkeeping nodes disagree.'') (errors @ e2)
           (debug_info newline (bookkeeping_to_string v) (bookkeeping_to_string w))))))))))))"

section \<open>Origin, user data and the record\<close>

definition origin_to_string :: "codec \<Rightarrow> value_t \<Rightarrow> exn + string" where
  "origin_to_string c v =
     bindE (text_child ''format'' v) (\<lambda>f. bindE (text_child ''name'' v) (\<lambda>n. bindE (text_child ''source'' v) (\<lambda>s.
     bindE (bindE (child_at ''created'' v) (time_to_string ''created'')) (\<lambda>t.
     bindE (bindE (child_at ''rawdata'' v) (list_to_string ''rawdata'' (keyvalue_to_string c ''value''))) (\<lambda>raw.
       Inr (''{'' @ quoted ''origin'' @ '':{'' @ newline @ quoted ''format'' @ '':'' @ quoted f @ '','' @ newline @
         quoted ''name'' @ '':'' @ quoted n @ '','' @ newline @ quoted ''source'' @ '':'' @ quoted s @ '','' @ newline @
         debrace t @ '','' @ newline @ debrace raw @ newline @ ''}}''))))))"

definition rawdata_equal :: "codec \<Rightarrow> 32 word \<Rightarrow> equality" where
  "rawdata_equal c cm = list_equal cm MUTE_SEARCH ''rawdata'' (keyvalue_to_string c ''value'') (part_equal c cm MUTE_RAWDATA ''value'')"

definition origin_equal :: "codec \<Rightarrow> 32 word \<Rightarrow> equality" where
  "origin_equal c cm = unless_muted cm MUTE_ORIGIN (\<lambda>v w.
     bindE (text_child ''format'' v) (\<lambda>f1. bindE (text_child ''format'' w) (\<lambda>f2.
     bindE (text_child ''name'' v) (\<lambda>n1. bindE (text_child ''name'' w) (\<lambda>n2.
     bindE (text_child ''source'' v) (\<lambda>s1. bindE (text_child ''source'' w) (\<lambda>s2.
     bindE (complaint (on_child ''created'' (time_equal cm ''created'') v w)
       (\<lambda>_. two_texts ''Timestamps are'' (quotedE (text_child ''created'' v)) (quotedE (text_child ''created'' w)))) (\<lambda>e1.
     bindE (complaint (on_child ''rawdata'' (rawdata_equal c cm) v w) Inr) (\<lambda>e2.
       verdict (newline @ ''Origin nodes disagree.'')
         (differ ''Formats are'' (quoted f1) (quoted f2) @ differ ''File names are'' (quoted n1) (quoted n2) @
          differ ''Sources are'' (quoted s1) (quoted s2) @ e1 @ e2)
         (debug_info '' '' (origin_to_string c v) (origin_to_string c w)))))))))))"

definition document_to_string :: "codec \<Rightarrow> value_t \<Rightarrow> exn + string" where
  "document_to_string c v =
     bindE (bindE (child_at ''data'' v) (keyvalue_to_string c ''data'')) (\<lambda>d.
     bindE (bindE (child_at ''metadata'' v) (keyvalue_to_string c ''metadata'')) (\<lambda>m.
     bindE (bindE (child_at ''search'' v) (list_to_string ''search'' (keyvalue_to_string c ''value''))) (\<lambda>s.
       Inr (quoted ''document'' @ '':{'' @ newline @ debrace d @ '','' @ newline @ debrace m @ '','' @ newline @ debrace s @ newline @ ''}''))))"

definition document_equal :: "codec \<Rightarrow> 32 word \<Rightarrow> equality" where
  "document_equal c cm v w =
     bindE (complaint (on_child ''data'' (part_equal c cm MUTE_DATA ''data'') v w)
       (\<lambda>t. Inr (newline @ ''  Data are different:'' @ newline @ ''  '' @ t))) (\<lambda>e1.
     bindE (complaint (on_child ''metadata'' (part_equal c cm MUTE_METADATA ''metadata'') v w)
       (\<lambda>t. Inr (newline @ ''  Metadata are different:'' @ newline @ ''  '' @ t))) (\<lambda>e2.
       verdict (newline @ ''User data disagree.'') (e1 @ e2) (Inr [])))"

definition entries_equal :: "32 word \<Rightarrow> compare_flag \<Rightarrow> string \<Rightarrow> equality" where
  "entries_equal cm f key = list_equal cm f key (entry_to_string True False) (entry_equal cm True False ''value'')"

definition record_comparisons :: "codec \<Rightarrow> 32 word \<Rightarrow> (string \<times> equality) list" where
  "record_comparisons c cm =
     [(''document'', document_equal c cm),
      (''comments'', list_equal cm MUTE_COMMENTS ''comments'' comment_to_string (kv_equal ''value'' comment_to_string)),
      (''origin'', origin_equal c cm),
      (''version'', part_equal c cm MUTE_VERSION ''version''),
      (''collection'', part_equal c cm MUTE_COLLECTION ''collection''),
      (''configtype'', part_equal c cm MUTE_CONFIGURATION ''configtype''),
      (''configurations'', entries_equal cm MUTE_CONFIGURATION ''configurations''),
      (''changelog'', part_equal c cm MUTE_CHANGELOG ''changelog''),
      (''bookkeeping'', bookkeeping_equal cm),
      (''_id'', part_equal c cm MUTE_OUIDS ''_id''),
      (''entities'', entries_equal cm MUTE_CONFIGENTITY ''entities''),
      (''runs'', entries_equal cm MUTE_RUN ''runs''),
      (''aliases'', movable_equal cm MUTE_ALIAS ''aliases'' (entry_to_string True True) (entry_equal cm True True ''value'')),
      (''attachments'', list_equal cm MUTE_ATTACHMENT ''attachments'' (keyvalue_to_string c ''value'') (kv_equal ''value'' (keyvalue_to_string c ''value'')))]"

definition record_equal :: "codec \<Rightarrow> 32 word \<Rightarrow> equality" where
  "record_equal c cm v w =
     bindE (mapE (\<lambda>(k, eq). complaint (on_child k eq v w) Inr) (record_comparisons c cm)) (\<lambda>es.
       verdict (newline @ ''Database records disagree.'') (concat es) (Inr []))"

definition record_printers :: "codec \<Rightarrow> (string \<times> (value_t \<Rightarrow> exn + string)) list" where
  "record_printers c =
     [(''_id'', keyvalue_to_string c ''_id''), (''collection'', keyvalue_to_string c ''collection''), (''version'', keyvalue_to_string c ''version''),
      (''origin'', origin_to_string c), (''aliases'', movable_to_string ''aliases'' (entry_to_string True True)),
      (''bookkeeping'', bookkeeping_to_string), (''changelog'', keyvalue_to_string c ''changelog''),
      (''entities'', list_to_string ''entities'' (entry_to_string True False)), (''runs'', list_to_string ''runs'' (entry_to_string True False)),
      (''attachments'', list_to_string ''attachments'' (keyvalue_to_string c ''value'')), (''configtype'', keyvalue_to_string c ''configtype''),
      (''configurations'', list_to_string ''configurations'' (entry_to_string True False)),
      (''comments'', list_to_string ''comments'' comment_to_string), (''document'', document_to_string c)]"

definition record_to_string :: "codec \<Rightarrow> value_t \<Rightarrow> exn + string" where
  "record_to_string c v =
     bindE (mapE (\<lambda>(k, printed). bindE (bindE (child_at k v) printed) (\<lambda>t. Inr (debrace t))) (record_printers c)) (\<lambda>ts.
       Inr (''{'' @ join ('','' @ newline) ts @ newline @ ''}''))"

text \<open>The comparison of two builders; the mask is asked for, and with it fixed, if it was not before.\<close>

definition comapreUsingOverlays :: "codec \<Rightarrow> 32 word option \<Rightarrow> jsondoc \<Rightarrow> jsondoc \<Rightarrow> (exn + result_t) \<times> 32 word option" where
  "comapreUsingOverlays c kept doc other =
     (case useCompareMask 0 kept of (cm, kept') \<Rightarrow> (record_equal c cm (jd_value doc) (jd_value other), kept'))"

end
