(* ===== verification/CompareLaws.thy ===== *)
theory CompareLaws
  imports OverlayCompare
begin

text \<open>
  What the comparison of records decides: a reference definition without texts and exceptions, and
  that the operators answer with success exactly where it holds.
\<close>

section \<open>Agreement\<close>

type_synonym agreement = "value_t \<Rightarrow> value_t \<Rightarrow> bool"

definition same :: agreement where
  "same v w \<longleftrightarrow> fst (eq_value v w)"

definition or_muted :: "32 word \<Rightarrow> compare_flag \<Rightarrow> agreement \<Rightarrow> agreement" where
  "or_muted cm f P v w \<longleftrightarrow> muted cm f \<or> P v w"

definition child_agrees :: "string \<Rightarrow> agreement \<Rightarrow> agreement" where
  "child_agrees k P v w = (case (child_at k v, child_at k w) of (Inr x, Inr y) \<Rightarrow> P x y | _ \<Rightarrow> False)"

definition same_text :: agreement where
  "same_text v w = (case (v, w) of (Str s, Str t) \<Rightarrow> s = t | _ \<Rightarrow> False)"

definition same_flag :: agreement where
  "same_flag v w = (case (v, w) of (Bool s, Bool t) \<Rightarrow> s = t | _ \<Rightarrow> False)"

definition times_agree :: "32 word \<Rightarrow> agreement" where
  "times_agree cm = or_muted cm MUTE_TIMESTAMPS same"

definition entries_agree :: "32 word \<Rightarrow> agreement" where
  "entries_agree cm v w \<longleftrightarrow> child_agrees ''name'' same_text v w \<and> child_agrees ''assigned'' (times_agree cm) v w"

definition lists_agree :: "agreement \<Rightarrow> agreement" where
  "lists_agree P v w = (case (v, w) of (Arr xs, Arr ys) \<Rightarrow> list_all2 P xs ys | _ \<Rightarrow> False)"

definition updates_agree :: "32 word \<Rightarrow> agreement" where
  "updates_agree cm v w \<longleftrightarrow> child_agrees ''timestamp'' (times_agree cm) v w \<and> child_agrees ''event'' same_text v w \<and>
     child_agrees ''value'' (if muted cm MUTE_TIMESTAMPS then child_agrees ''name'' same_text else entries_agree cm) v w"

definition bookkeeping_agrees :: "32 word \<Rightarrow> agreement" where
  "bookkeeping_agrees cm v w \<longleftrightarrow> child_agrees ''isdeleted'' same_flag v w \<and> child_agrees ''isreadonly'' same_flag v w \<and>
     child_agrees ''created'' (times_agree cm) v w \<and>
     (muted cm MUTE_UPDATES \<or> child_agrees ''updates'' (lists_agree (updates_agree cm)) v w)"

definition origins_agree :: "32 word \<Rightarrow> agreement" where
  "origins_agree cm v w \<longleftrightarrow> child_agrees ''format'' same_text v w \<and> child_agrees ''name'' same_text v w \<and>
     child_agrees ''source'' same_text v w \<and> child_agrees ''created'' (times_agree cm) v w \<and>
     child_agrees ''rawdata'' (or_muted cm MUTE_SEARCH (lists_agree (or_muted cm MUTE_RAWDATA same))) v w"

definition documents_agree :: "32 word \<Rightarrow> agreement" where
  "documents_agree cm v w \<longleftrightarrow> child_agrees ''data'' (or_muted cm MUTE_DATA same) v w \<and>
     child_agrees ''metadata'' (or_muted cm MUTE_METADATA same) v w"

definition record_agreements :: "32 word \<Rightarrow> (string \<times> agreement) list" where
  "record_agreements cm =
     [(''document'', documents_agree cm),
      (''comments'', or_muted cm MUTE_COMMENTS (lists_agree same)),
      (''origin'', or_muted cm MUTE_ORIGIN (origins_agree cm)),
      (''version'', or_muted cm MUTE_VERSION same),
      (''collection'', or_muted cm MUTE_COLLECTION same),
      (''configtype'', or_muted cm MUTE_CONFIGURATION same),
      (''configurations'', or_muted cm MUTE_CONFIGURATION (lists_agree (entries_agree cm))),
      (''changelog'', or_muted cm MUTE_CHANGELOG same),
      (''bookkeeping'', or_muted cm MUTE_BOOKKEEPING (bookkeeping_agrees cm)),
      (''_id'', or_muted cm MUTE_OUIDS same),
      (''entities'', or_muted cm MUTE_CONFIGENTITY (lists_agree (entries_agree cm))),
      (''runs'', or_muted cm MUTE_RUN (lists_agree (entries_agree cm))),
      (''aliases'', or_muted cm MUTE_ALIAS (child_agrees ''active'' (lists_agree (entries_agree cm)))),
      (''attachments'', or_muted cm MUTE_ATTACHMENT (lists_agree same))]"

definition records_agree :: "32 word \<Rightarrow> agreement" where
  "records_agree cm v w \<longleftrightarrow> list_all (\<lambda>(k, P). child_agrees k P v w) (record_agreements cm)"

section \<open>Deciding\<close>

text \<open>An answer tells whether \<open>p\<close> holds: where it holds it is a success, where it does not a failure with a
  text that is not empty, or an exception.  A text of errors tells so by being empty.\<close>

definition answers :: "exn + result_t \<Rightarrow> bool \<Rightarrow> bool" where
  "answers r p \<longleftrightarrow> (case r of Inl e \<Rightarrow> \<not> p | Inr x \<Rightarrow> fst x = p \<and> (fst x \<or> snd x \<noteq> []))"

definition reports :: "exn + string \<Rightarrow> bool \<Rightarrow> bool" where
  "reports r p \<longleftrightarrow> (case r of Inl e \<Rightarrow> \<not> p | Inr t \<Rightarrow> (t = []) = p)"

definition decides :: "equality \<Rightarrow> agreement \<Rightarrow> bool" where
  "decides eq P \<longleftrightarrow> (\<forall>v w. answers (eq v w) (P v w))"

named_theorems decided

lemma answers_simps [simp]:
  "answers (Inr (Success t)) p = p" "answers (Inl e) p = (\<not> p)" "t \<noteq> [] \<Longrightarrow> answers (Inr (Failure t)) p = (\<not> p)"
  by (auto simp: answers_def Success_def Failure_def)

lemma decidesD: "decides eq P \<Longrightarrow> answers (eq v w) (P v w)"
  by (simp add: decides_def)

lemma bind_failure: "(\<And>d. t d \<noteq> []) \<Longrightarrow> answers (bindE r (\<lambda>d. Inr (Failure (t d)))) False"
  by (cases r) simp_all

text \<open>One step of a comparison: what \<open>p\<close> it contributes to the answer \<open>q\<close>, which needs it.\<close>

lemma bind_report:
  "reports t p \<Longrightarrow> (q \<Longrightarrow> p) \<Longrightarrow> (\<And>e. (e = []) = p \<Longrightarrow> answers (f e) q) \<Longrightarrow> answers (bindE t f) q"
  by (cases t) (auto simp: reports_def)

lemma verdict_answers: "title \<noteq> [] \<Longrightarrow> p = (errors = []) \<Longrightarrow> answers (verdict title errors d) p"
  by (cases d) (simp_all add: verdict_def)

lemma complaint_reports: "answers r p \<Longrightarrow> (\<And>t. t \<noteq> [] \<Longrightarrow> f t \<noteq> Inr []) \<Longrightarrow> reports (complaint r f) p"
  by (cases r) (auto simp: complaint_def answers_def reports_def split: sum.splits)

text \<open>Two members read with their type, and the relation \<open>Q\<close> of what was read.\<close>

definition read_both :: "exn + 'a \<Rightarrow> exn + 'a \<Rightarrow> ('a \<Rightarrow> 'a \<Rightarrow> bool) \<Rightarrow> bool" where
  "read_both r s Q = (case (r, s) of (Inr x, Inr y) \<Rightarrow> Q x y | _ \<Rightarrow> False)"

lemma bind_both:
  assumes "agr = read_both r s Q" and "q \<Longrightarrow> agr" and "\<And>x y. Q x y = agr \<Longrightarrow> answers (f x y) q"
  shows "answers (bindE r (\<lambda>x. bindE s (f x))) q"
  using assms by (cases r; cases s) (auto simp: read_both_def)

lemma same_text_read: "same_text v w = read_both (get_string v) (get_string w) (=)"
  by (cases v; cases w) (simp_all add: same_text_def read_both_def)

lemma same_flag_read: "same_flag v w = read_both (get_bool v) (get_bool w) (=)"
  by (cases v; cases w) (simp_all add: same_flag_def read_both_def)

lemma lists_agree_read: "lists_agree P v w = read_both (get_array v) (get_array w) (list_all2 P)"
  by (cases v; cases w) (simp_all add: lists_agree_def read_both_def)

lemma child_read:
  "(\<And>x y. P x y = read_both (g x) (g y) Q) \<Longrightarrow>
   child_agrees k P v w = read_both (bindE (child_at k v) g) (bindE (child_at k w) g) Q"
  by (auto simp: child_agrees_def read_both_def split: sum.split)

lemmas text_read = child_read[where P = same_text and g = get_string and Q = "(=)", OF same_text_read]
lemmas bind_texts = bind_both[OF text_read, folded text_child_def]
lemmas bind_names = bind_both[OF text_read[where k = "''name''"], folded kvts_name_def]
lemmas bind_flags = bind_both[OF child_read[where P = same_flag and g = get_bool and Q = "(=)", OF same_flag_read]]
lemmas bind_arrays = bind_both[OF child_read[where P = "lists_agree P" and g = get_array and Q = "list_all2 P" for P, OF lists_agree_read]]
lemmas bind_lists = bind_both[OF lists_agree_read]

lemma differ_empty [simp]: "differ what x y = [] \<longleftrightarrow> x = y"
  by (simp add: differ_def newline_def)

lemma quoted_eq [simp]: "quoted s = quoted t \<longleftrightarrow> s = t"
  by (simp add: quoted_def)

lemma kv_decided [decided]: "decides (kv_equal key printed) same"
proof -
  have "answers (kv_equal key printed v w) (same v w)" for v w
    by (cases "printed v"; cases "printed w") (auto simp: kv_equal_def same_def two_values_def newline_def answers_def Failure_def)
  then show ?thesis by (simp add: decides_def)
qed

lemma unless_muted_decided [decided]: "decides eq P \<Longrightarrow> decides (unless_muted cm f eq) (or_muted cm f P)"
  by (auto simp: decides_def unless_muted_def or_muted_def)

lemma part_decided [decided]: "decides (part_equal c cm f key) (or_muted cm f same)"
  unfolding part_equal_def by (intro decided)

lemma time_decided [decided]: "decides (time_equal cm key) (times_agree cm)"
  unfolding time_equal_def times_agree_def by (intro decided)

lemma child_decided [decided]: "decides eq P \<Longrightarrow> decides (on_child k eq) (child_agrees k P)"
  by (auto simp: decides_def on_child_def child_agrees_def split: sum.split)

section \<open>Entries and lists\<close>

lemma child_report:
  "decides eq P \<Longrightarrow> (\<And>t. t \<noteq> [] \<Longrightarrow> f t \<noteq> Inr []) \<Longrightarrow> reports (complaint (on_child k eq v w) f) (child_agrees k P v w)"
  by (intro complaint_reports decidesD child_decided)

lemma nothing_to_report: "reports (Inr []) True"
  by (simp add: reports_def)

lemma entry_decided [decided]: "decides (entry_equal cm True R key) (entries_agree cm)"
proof -
  have t: "times_differ t \<noteq> Inr []" for t by (simp add: times_differ_def newline_def)
  have e1: "reports (complaint (on_child ''assigned'' (time_equal cm ''assigned'') v w) times_differ) (child_agrees ''assigned'' (times_agree cm) v w)" for v w
    by (rule child_report[OF time_decided t])
  have removed: "bindE (removed_of True v) (\<lambda>x. bindE (child_at ''assigned'' w) (time_equal cm ''assigned'' x)) = on_child ''assigned'' (time_equal cm ''assigned'') v w" for v w
    by (simp add: removed_of_def on_child_def)
  have e2: "reports (if R then complaint (on_child ''assigned'' (time_equal cm ''assigned'') v w) times_differ else Inr [])
      (R \<longrightarrow> child_agrees ''assigned'' (times_agree cm) v w)" for v w
    using e1 nothing_to_report by simp
  show ?thesis
    unfolding decides_def entry_equal_def if_True removed entries_agree_def
    by (intro allI bind_names bind_report[OF e1] bind_report[OF e2] verdict_answers) (auto simp: newline_def)
qed

text \<open>The first difference of two lists of one length, as an answer.\<close>

definition finds :: "exn + (value_t \<times> value_t \<times> result_t) option \<Rightarrow> bool \<Rightarrow> bool" where
  "finds r p \<longleftrightarrow> (case r of Inl e \<Rightarrow> \<not> p | Inr None \<Rightarrow> p | Inr (Some (x, y, t)) \<Rightarrow> \<not> p \<and> snd t \<noteq> [])"

lemma finds_simps [simp]: "finds (Inl e) p = (\<not> p)" "finds (Inr None) p = p" "finds (Inr (Some (x, y, t))) p = (\<not> p \<and> snd t \<noteq> [])"
  by (simp_all add: finds_def)

lemma first_difference_finds:
  "decides eq P \<Longrightarrow> length xs = length ys \<Longrightarrow> finds (first_difference eq xs ys) (list_all2 P xs ys)"
proof (induction xs ys rule: list_induct2')
  case (4 x xs y ys)
  have "answers (eq x y) (P x y)"
    using 4(2) by (rule decidesD)
  then show ?case
    using 4 by (cases "eq x y") (auto simp: answers_def)
qed simp_all

lemma bind_finds:
  "finds d p \<Longrightarrow> (q \<Longrightarrow> p) \<Longrightarrow> (\<And>d. (d = None) = p \<Longrightarrow> answers (f d) q) \<Longrightarrow> answers (bindE d f) q"
  by (cases d; cases "projr d") auto

lemma sizes_differ_empty [simp]: "sizes_differ what xs ys = [] \<longleftrightarrow> length xs = length ys"
  by (simp add: sizes_differ_def newline_def)

text \<open>The common part of the two list comparisons: sizes first, then the first pair that differs.\<close>

lemma lists_answer:
  assumes "decides eq P" and "\<And>d. answers (f d) (length xs = length ys \<and> d = None)"
  shows "answers (bindE (if length xs = length ys then first_difference eq xs ys else Inr None) f) (list_all2 P xs ys)"
proof (cases "length xs = length ys")
  case True
  have "answers (f d) (list_all2 P xs ys)" if "(d = None) = list_all2 P xs ys" for d
    using assms(2)[of d] True that by simp
  then have "answers (bindE (first_difference eq xs ys) f) (list_all2 P xs ys)"
    by (intro bind_finds[OF first_difference_finds[OF assms(1) True]])
  with True show ?thesis by simp
next
  case False
  then have "\<not> list_all2 P xs ys" by (auto dest: list_all2_lengthD)
  with False assms(2)[of None] show ?thesis by simp
qed

lemma pass_or: "answers r False \<Longrightarrow> answers (if p then Inr (Success t) else r) p"
  by auto

lemma list_decided [decided]:
  assumes "decides eq P"
  shows "decides (list_equal cm f key printed eq) (or_muted cm f (lists_agree P))"
  unfolding list_equal_def
  by (rule unless_muted_decided, unfold decides_def, intro allI bind_lists)
    (assumption, simp only: Let_def sizes_differ_empty, erule subst, intro lists_answer[OF assms] pass_or bind_failure, simp add: newline_def)

lemma movable_decided [decided]:
  assumes "decides eq P"
  shows "decides (movable_equal cm f key printed eq) (or_muted cm f (child_agrees ''active'' (lists_agree P)))"
proof -
  have *: "answers (bindE r (\<lambda>e. bindE s (\<lambda>t. Inr (Failure (newline @ u e t))))) False" for r s u
    by (cases r) (simp_all add: newline_def bind_failure)
  show ?thesis
    unfolding movable_equal_def
    by (rule unless_muted_decided, unfold decides_def, intro allI bind_arrays)
      (assumption, simp only: Let_def sizes_differ_empty, erule subst, intro lists_answer[OF assms] pass_or *)
qed


section \<open>Nodes and records\<close>

lemma two_texts_not_empty: "two_texts what s t \<noteq> Inr []"
  by (cases s; cases t) (simp_all add: two_texts_def newline_def)

lemma time_report:
  "reports (complaint (on_child k (time_equal cm k) v w) (\<lambda>_. two_texts what s t)) (child_agrees k (times_agree cm) v w)"
  by (intro child_report decided two_texts_not_empty)

lemma update_value_report:
  "reports (if muted cm MUTE_TIMESTAMPS
       then bindE (bindE (child_at ''value'' v) kvts_name) (\<lambda>x. bindE (bindE (child_at ''value'' w) kvts_name) (\<lambda>y.
         Inr (differ ''Event names are'' (quoted x) (quoted y))))
       else complaint (on_child ''value'' (entry_equal cm True False ''value'') v w) (\<lambda>_. two_texts what s t))
     (child_agrees ''value'' (if muted cm MUTE_TIMESTAMPS then child_agrees ''name'' same_text else entries_agree cm) v w)"
proof (cases "muted cm MUTE_TIMESTAMPS")
  case True
  have "child_agrees ''value'' (child_agrees ''name'' same_text) v w =
      read_both (bindE (child_at ''value'' v) kvts_name) (bindE (child_at ''value'' w) kvts_name) (=)"
    by (rule child_read) (use text_read[where k = "''name''"] in \<open>simp add: kvts_name_def\<close>)
  with True show ?thesis
    by (cases "bindE (child_at ''value'' v) kvts_name"; cases "bindE (child_at ''value'' w) kvts_name")
      (simp_all add: read_both_def reports_def)
next
  case False
  then show ?thesis
    by (simp add: child_report[OF entry_decided two_texts_not_empty])
qed

lemma update_decided [decided]: "decides (update_equal cm) (updates_agree cm)"
  unfolding decides_def update_equal_def updates_agree_def
  by (intro allI bind_report[OF time_report] bind_texts bind_report[OF update_value_report] verdict_answers)
    (simp_all add: newline_def)


lemma bind_difference:
  assumes "decides eq P" and "E \<Longrightarrow> length us = length ts" and "q \<Longrightarrow> E \<longrightarrow> list_all2 P us ts"
    and "\<And>e. (e = []) = (E \<longrightarrow> list_all2 P us ts) \<Longrightarrow> answers (f e) q"
  shows "answers (bindE (if E then first_difference eq us ts else Inr None)
    (\<lambda>d. bindE (case d of None \<Rightarrow> Inr [] | Some (x, y, r) \<Rightarrow> two_texts what (g x) (g y)) f)) q"
proof -
  let ?d = "if E then first_difference eq us ts else Inr None"
  let ?t = "\<lambda>d. case d of None \<Rightarrow> Inr [] | Some (x, y, r) \<Rightarrow> two_texts what (g x) (g y)"
  have "finds ?d (E \<longrightarrow> list_all2 P us ts)"
    using first_difference_finds[OF assms(1)] assms(2) by simp
  moreover have *: "reports (?t d) (d = None)" for d
    by (cases d) (auto simp: reports_def two_texts_not_empty split: sum.split)
  have "answers (bindE (?t d) f) q" if "(d = None) = (E \<longrightarrow> list_all2 P us ts)" for d
    using assms(3,4) that by (intro bind_report[OF *]) simp_all
  ultimately show ?thesis
    using assms(3) by (intro bind_finds[of ?d])
qed

lemma if_answers: "(b \<Longrightarrow> answers r q) \<Longrightarrow> (\<not> b \<Longrightarrow> answers s q) \<Longrightarrow> answers (if b then r else s) q"
  by simp

lemma bool_name_eq [simp]: "bool_name a = bool_name b \<longleftrightarrow> a = b"
  by (cases a; cases b) (simp_all add: bool_name_def)

lemma bookkeeping_decided [decided]: "decides (bookkeeping_equal cm) (or_muted cm MUTE_BOOKKEEPING (bookkeeping_agrees cm))"
  unfolding bookkeeping_equal_def
  by (rule unless_muted_decided, unfold decides_def isDeleted_def isReadonly_def Let_def bookkeeping_agrees_def,
      intro allI bind_flags bind_report[OF time_report] if_answers bind_arrays[where P = "updates_agree cm"]
        bind_difference[OF update_decided] verdict_answers)
    (auto simp: newline_def dest: list_all2_lengthD)

lemma origin_rawdata_decided: "decides (rawdata_equal c cm) (or_muted cm MUTE_SEARCH (lists_agree (or_muted cm MUTE_RAWDATA same)))"
  unfolding rawdata_equal_def by (intro decided)

lemma origin_decided [decided]: "decides (origin_equal c cm) (or_muted cm MUTE_ORIGIN (origins_agree cm))"
  unfolding origin_equal_def
  by (rule unless_muted_decided, unfold decides_def origins_agree_def,
      intro allI bind_texts bind_report[OF time_report] bind_report[OF child_report[OF origin_rawdata_decided]] verdict_answers)
    (auto simp: newline_def)

lemma document_decided [decided]: "decides (document_equal c cm) (documents_agree cm)"
  unfolding decides_def document_equal_def documents_agree_def
  by (intro allI bind_report[OF child_report[OF part_decided]] verdict_answers) (simp_all add: newline_def)


lemma comments_decided: "decides (list_equal cm f key printed (kv_equal k p)) (or_muted cm f (lists_agree same))"
  by (intro decided)

lemma entries_decided: "decides (entries_equal cm f key) (or_muted cm f (lists_agree (entries_agree cm)))"
  unfolding entries_equal_def by (intro decided)

lemma record_comparisons_decided:
  "list_all2 (\<lambda>(k, eq) (l, P). k = l \<and> decides eq P) (record_comparisons c cm) (record_agreements cm)"
  unfolding record_comparisons_def record_agreements_def list_all2_Cons list_all2_Nil prod.case
  by (intro conjI refl TrueI decided entries_decided)

text \<open>The errors of all members are collected; there are none exactly where all members agree.\<close>

lemma collected_reports:
  "list_all2 (\<lambda>(k, eq) (l, P). k = l \<and> decides eq P) cs as \<Longrightarrow>
   (case mapE (\<lambda>(k, eq). complaint (on_child k eq v w) Inr) cs of Inl e \<Rightarrow> \<not> list_all (\<lambda>(k, P). child_agrees k P v w) as
    | Inr es \<Rightarrow> (concat es = []) = list_all (\<lambda>(k, P). child_agrees k P v w) as)"
proof (induction rule: list_all2_induct)
  case (Cons a cs b as)
  obtain k eq P where ab: "a = (k, eq)" "b = (k, P)" and d: "decides eq P"
    using Cons(1) by auto
  have "reports (complaint (on_child k eq v w) Inr) (child_agrees k P v w)"
    using d by (rule child_report) simp
  then show ?case
    using Cons(3) by (auto simp: ab reports_def split: sum.splits)
qed simp

lemma record_decided: "decides (record_equal c cm) (records_agree cm)"
proof -
  have "answers (record_equal c cm v w) (records_agree cm v w)" for v w
    using collected_reports[OF record_comparisons_decided[of c cm], of v w]
    by (cases "mapE (\<lambda>(k, eq). complaint (on_child k eq v w) Inr) (record_comparisons c cm)")
      (simp_all add: record_equal_def records_agree_def verdict_def newline_def)
  then show ?thesis by (simp add: decides_def)
qed


section \<open>Agreement is symmetric\<close>

definition symmetric :: "agreement \<Rightarrow> bool" where
  "symmetric P \<longleftrightarrow> (\<forall>v w. P v w = P w v)"

named_theorems symmetric_rules

lemma same_symmetric [symmetric_rules]: "symmetric same"
  by (simp add: symmetric_def same_def fst_eq_value compare_visitor_sym(1))

lemma or_muted_symmetric [symmetric_rules]: "symmetric P \<Longrightarrow> symmetric (or_muted cm f P)"
  by (simp add: symmetric_def or_muted_def)

lemma child_symmetric [symmetric_rules]: "symmetric P \<Longrightarrow> symmetric (child_agrees k P)"
  by (auto simp: symmetric_def child_agrees_def split: sum.split)

lemma text_symmetric [symmetric_rules]: "symmetric same_text"
  by (auto simp: symmetric_def same_text_def split: value_t.split)

lemma flag_symmetric [symmetric_rules]: "symmetric same_flag"
  by (auto simp: symmetric_def same_flag_def split: value_t.split)

lemma lists_symmetric [symmetric_rules]:
  assumes "symmetric P"
  shows "symmetric (lists_agree P)"
proof -
  have "list_all2 P xs ys = list_all2 P ys xs" for xs ys
    using assms by (auto simp: symmetric_def list_all2_conv_all_nth)
  then show ?thesis
    by (auto simp: symmetric_def lists_agree_def split: value_t.split)
qed

lemma and_symmetric: "symmetric P \<Longrightarrow> symmetric Q \<Longrightarrow> symmetric (\<lambda>v w. P v w \<and> Q v w)"
  by (auto simp: symmetric_def)

lemma unless_symmetric: "symmetric P \<Longrightarrow> symmetric (\<lambda>v w. b \<or> P v w)"
  by (auto simp: symmetric_def)

lemma if_symmetric: "symmetric P \<Longrightarrow> symmetric Q \<Longrightarrow> symmetric (if b then P else Q)"
  by simp

lemma times_symmetric [symmetric_rules]: "symmetric (times_agree cm)"
  unfolding times_agree_def by (intro symmetric_rules)

lemma entries_symmetric [symmetric_rules]: "symmetric (entries_agree cm)"
  unfolding entries_agree_def[abs_def] by (intro and_symmetric symmetric_rules)

lemma updates_symmetric [symmetric_rules]: "symmetric (updates_agree cm)"
  unfolding updates_agree_def[abs_def] by (intro and_symmetric if_symmetric symmetric_rules)

lemma bookkeeping_symmetric [symmetric_rules]: "symmetric (bookkeeping_agrees cm)"
  unfolding bookkeeping_agrees_def[abs_def] by (intro and_symmetric unless_symmetric symmetric_rules)

lemma origins_symmetric [symmetric_rules]: "symmetric (origins_agree cm)"
  unfolding origins_agree_def[abs_def] by (intro and_symmetric symmetric_rules)

lemma documents_symmetric [symmetric_rules]: "symmetric (documents_agree cm)"
  unfolding documents_agree_def[abs_def] by (intro and_symmetric symmetric_rules)

lemma record_agreements_symmetric: "list_all (\<lambda>(k, P). symmetric P) (record_agreements cm)"
  by (simp add: record_agreements_def symmetric_rules)

lemma records_agree_sym: "records_agree cm v w = records_agree cm w v"
proof -
  have "child_agrees k P v w = child_agrees k P w v" if "(k, P) \<in> set (record_agreements cm)" for k P
    using record_agreements_symmetric[of cm] that child_symmetric[of P k]
    by (auto simp: list_all_iff symmetric_def)
  then show ?thesis
    by (auto simp: records_agree_def list_all_iff)
qed

section \<open>Comparing builders\<close>

lemma answers_success: "answers r p \<Longrightarrow> (\<exists>t. r = Inr (True, t)) = p"
  by (cases r) (auto simp: answers_def)

text \<open>C7. The comparison of two records, which collects the differences of their members as text and
  compares each member under the bit of the mask that belongs to it, answers with success exactly where
  all members that are not muted agree: values are equal, entries have the names and assignment times of each other
  in the same order, updates the same events, times and values, frozen flags are the same.  What is compared
  with what does not matter.\<close>

theorem record_comparison_decides:
  "(\<exists>t. record_equal c cm v w = Inr (True, t)) = records_agree cm v w
   \<and> records_agree cm v w = records_agree cm w v"
  using answers_success[OF decidesD[OF record_decided]] records_agree_sym by blast

text \<open>Only the first mask counts: a comparison before the mask was chosen leaves it at zero, so that
  nothing is muted any more.\<close>

theorem first_mask_is_kept:
  "\<exists>cm. useCompareMask a kept = (cm, Some cm) \<and> useCompareMask b (Some cm) = (cm, Some cm)
     \<and> snd (comapreUsingOverlays c kept d e) = Some (case kept of None \<Rightarrow> 0 | Some m \<Rightarrow> m)"
  by (cases kept) (simp_all add: useCompareMask_def comapreUsingOverlays_def)

lemma nothing_muted: "\<not> muted 0 f"
  by (cases f) (simp_all add: muted_def push_bit_eq_mult)

text \<open>What became of the entries of a list, its history, is not compared.\<close>

theorem history_not_compared:
  "(\<exists>t. movable_equal cm MUTE_ALIAS key p (entry_equal cm True True n)
       (Obj [(''active'', v), (''history'', h)]) (Obj [(''active'', w), (''history'', h')]) = Inr (True, t)) =
   (muted cm MUTE_ALIAS \<or> lists_agree (entries_agree cm) v w)"
  unfolding answers_success[OF decidesD[OF movable_decided[OF entry_decided]]]
  by (simp add: or_muted_def child_agrees_def child_at_def)

end
