(* ===== verification/Programs.thy ===== *)
theory Programs
  imports Facade ExportImport FhiclText
begin

text \<open>
  The command line programs of Utilities/ that are more than a printer: conftool.cc with
  ConfigurationDB/conftoolifc.h, bulkloader.cc, bulkdownloader.cc, migrate\_database.cc,
  rebuild\_database\_index.cc, fixtestjson.cc, readjson.cc and fhicl2json.cc, and
  DataFormats/Json/presort\_json.cpp.  A program is its exit code and what it does to the disk;
  what Boost.Program\_options makes of the command line is an argument, \<open>None\<close> an error it raises.
\<close>

section \<open>Exit codes\<close>

definition exit_FAILURE :: int where "exit_FAILURE = 1"
definition exit_UNCAUGHT_EXCEPTION :: int where "exit_UNCAUGHT_EXCEPTION = 144"

text \<open>The function-try-block around every \<open>main\<close>.\<close>

definition main_program :: "('s, int) prog \<Rightarrow> ('s, int) prog" where
  "main_program m = catchM any_exn m (retM exit_UNCAUGHT_EXCEPTION)"

definition invalid_argument :: "int \<Rightarrow> int" where
  "invalid_argument n = or exit_INVALID_ARGUMENT n"

section \<open>conftool\<close>

text \<open>The operations by name.  Those that write are registered only when the source file can be read;
  the text of that file is also what the operations that read get as their result string.\<close>

definition conftool_operations ::
  "'d client \<Rightarrow> 'd host \<Rightarrow> string \<Rightarrow> string option \<Rightarrow> (string \<times> ('d, result_t) fdb) list" where
  "conftool_operations cl h opts source =
     (let test_document = (case source of Some t \<Rightarrow> t | None \<Rightarrow> []) in
      [(''load'', json_read_document cl opts),
       (''globalconfload'', json_read_configuration cl h opts test_document),
       (''findconfigs'', json_find_configurations cl opts),
       (''buildfilter'', json_configuration_composition cl opts),
       (''addconfig'', json_assign_configuration cl opts),
       (''rmconfig'', json_remove_configuration cl opts),
       (''searchcollection'', json_search_collection cl opts),
       (''findversions'', json_find_versions cl opts),
       (''findentities'', json_find_entities cl opts),
       (''addentity'', json_add_entity cl opts),
       (''rmentity'', json_remove_entity cl opts),
       (''markdeleted'', json_mark_document_deleted cl opts),
       (''markreadonly'', json_mark_document_readonly cl opts),
       (''findveralias'', json_find_version_aliases cl opts),
       (''addveralias'', json_add_version_alias cl opts),
       (''rmveralias'', json_remove_version_alias cl opts),
       (''listdatabases'', json_list_databases cl opts),
       (''listcollections'', json_list_collections cl opts),
       (''readdbinfo'', json_read_dbinfo cl opts),
       (''exportcollection'', json_export_collection cl h opts),
       (''importcollection'', json_import_collection cl h opts),
       (''exportdatabase'', json_export_database cl h opts),
       (''importdatabase'', json_import_database cl h opts)] @
      (case source of None \<Rightarrow> []
       | Some t \<Rightarrow> [(''store'', json_write_document cl opts t), (''globalconfstore'', json_write_configuration cl h opts t)]))"

text \<open>The file is read in a \<open>try\<close> block that ignores every exception.\<close>

definition source_text :: "'d host \<Rightarrow> string \<Rightarrow> ('d, string option) fdb" where
  "source_text h name =
     catchM any_exn (bindM (on_files (read_buffer_from_file (ho_files h) name)) (\<lambda>t. retM (Some t))) (retM None)"

definition run_operation :: "'d client \<Rightarrow> 'd host \<Rightarrow> document_options \<Rightarrow> string \<Rightarrow> ('d, result_t) fdb" where
  "run_operation cl h opts file_src_name =
     bindM (liftE (writeJsonData (cl_codec cl) opts)) (\<lambda>options_string.
     bindM (source_text h file_src_name) (\<lambda>source.
     bindM (liftE (getter (op_operation opts))) (\<lambda>operation.
       case map_of (conftool_operations cl h options_string source) operation of
         None \<Rightarrow> retM (Failure (''Unsupported operation '' @ operation))
       | Some m \<Rightarrow> m)))"

definition options_changed :: "('o, 'a) prog \<Rightarrow> 'o \<Rightarrow> exn + 'a \<times> 'o" where
  "options_changed m opts = (case m opts of (Inl e, _) \<Rightarrow> Inl e | (Inr x, opts') \<Rightarrow> Inr (x, opts'))"

text \<open>The result, and the options the command line left.\<close>

definition conftool_impl ::
  "'d client \<Rightarrow> 'd host \<Rightarrow> document_options \<Rightarrow> (string \<rightharpoonup> string) option \<Rightarrow> ('d, result_t \<times> document_options) fdb" where
  "conftool_impl cl h options parsed =
     (case parsed of
        None \<Rightarrow> retM (Failure ''process_exit_code::INVALID_ARGUMENT'', options)
      | Some vm \<Rightarrow>
          if vm ''help'' \<noteq> None then retM (Success ''process_exit_code::HELP'', options)
          else
            bindM (liftE (options_changed (readProgramOptions (cl_env cl) (cl_codec cl) vm) options)) (\<lambda>(exit_code, opts).
            if exit_code \<noteq> exit_SUCCESS then retM (Failure (''process_exit_code::'' @ int_digits exit_code), opts)
            else
              bindM (liftE (getter (op_operation opts))) (\<lambda>operation.
              if operation \<in> {''load'', ''globalconfload''} \<and> vm ''result'' = None
              then retM (Failure ''process_exit_code::INVALID_ARGUMENT | 1'', opts)
              else
                bindM (liftE (getter (op_result opts))) (\<lambda>result.
                bindM (liftE (case vm ''source'' of None \<Rightarrow> Inr result | Some f \<Rightarrow> env_expand (cl_env cl) f)) (\<lambda>file_src_name.
                bindM (run_operation cl h opts file_src_name) (\<lambda>r. retM (r, opts)))))))"

definition conftool :: "'d client \<Rightarrow> 'd host \<Rightarrow> string \<Rightarrow> (string \<rightharpoonup> string) option \<Rightarrow> ('d, int) fdb" where
  "conftool cl h process parsed =
     main_program
       (bindM (conftool_impl cl h (new_document_options (cl_env cl) process) parsed) (\<lambda>(result, options).
        if \<not> fst result then retM exit_FAILURE
        else
          bindM (liftE (getter (op_operation options))) (\<lambda>operation.
          if operation \<in> {''load'', ''globalconfload''}
          then bindM (liftE (getter (op_result options))) (\<lambda>name.
               bindM (on_files (write_buffer_to_file (ho_files h) (snd result) name)) (\<lambda>_. retM exit_SUCCESS))
          else retM exit_SUCCESS)))"

section \<open>Pools of threads\<close>

text \<open>
  The threads of the bulk programs take their tasks from the back of a list, each with options of
  its own that it keeps from one task to the next.  \<open>plan n k\<close> says, for \<open>n\<close> threads and \<open>k\<close> tasks,
  which thread runs which task in which order; an operation is taken to be one action on the store.
  An exception that leaves a thread ends the process without passing any \<open>catch\<close>.
\<close>

type_synonym pool_plan = "nat \<Rightarrow> nat \<Rightarrow> (nat \<times> nat) list"

fun run_pool :: "('o \<Rightarrow> 'a \<Rightarrow> ('d, 'b \<times> 'o) fdb) \<Rightarrow> 'a list \<Rightarrow> (nat \<times> nat) list \<Rightarrow> (nat \<Rightarrow> 'o) \<Rightarrow> ('d, 'b list) fdb" where
  "run_pool f tasks [] os = retM []"
| "run_pool f tasks ((t, i) # steps) os =
     bindM (f (os t) (tasks ! i)) (\<lambda>(y, o').
     bindM (run_pool f tasks steps (os(t := o'))) (\<lambda>ys. retM (y # ys)))"

definition in_pool :: "pool_plan \<Rightarrow> 64 word \<Rightarrow> 'o \<Rightarrow> ('o \<Rightarrow> 'a \<Rightarrow> ('d, 'b \<times> 'o) fdb) \<Rightarrow> 'a list \<Rightarrow> ('d, 'b list) fdb" where
  "in_pool plan nproc opts f tasks =
     (if nproc = 0 then retM [] else run_pool f (rev tasks) (plan (unat nproc) (length tasks)) (\<lambda>_. opts))"

definition in_thread :: "exn + 'a \<Rightarrow> ('d, 'a) fdb" where
  "in_thread r = liftE (case r of Inl e \<Rightarrow> Inl Undefined | Inr x \<Rightarrow> Inr x)"

section \<open>The arguments of the bulk programs\<close>

record bulk_args =
  ba_help :: bool
  ba_path :: "string option"
  ba_configuration :: "string option"
  ba_run :: "64 word option"
  ba_threads :: "64 word option"
  ba_debug :: "bool option"

definition bulk_program ::
  "64 word \<Rightarrow> bulk_args option \<Rightarrow> (string \<Rightarrow> string \<Rightarrow> string \<Rightarrow> 64 word \<Rightarrow> bool \<Rightarrow> ('d, int) fdb) \<Rightarrow> ('d, int) fdb" where
  "bulk_program cores parsed f =
     main_program (case parsed of
        None \<Rightarrow> retM exit_INVALID_ARGUMENT
      | Some a \<Rightarrow>
          if ba_help a then retM exit_HELP
          else (case ba_path a of None \<Rightarrow> retM (invalid_argument 1)
          | Some path \<Rightarrow> (case ba_configuration a of None \<Rightarrow> retM (invalid_argument 2)
          | Some configuration \<Rightarrow> (case ba_run a of None \<Rightarrow> retM (invalid_argument 3)
          | Some run \<Rightarrow>
              f path configuration (nat_digits (unat run)) (case ba_threads a of None \<Rightarrow> cores | Some n \<Rightarrow> n)
                (case ba_debug a of None \<Rightarrow> False | Some b \<Rightarrow> b)))))"

text \<open>\<open>configuration_composition\<close> of the programs: an exit code and the answer.\<close>

definition tool_composition :: "'d client \<Rightarrow> document_options \<Rightarrow> ('d, int \<times> string) fdb" where
  "tool_composition cl opts =
     catchM any_exn
       (bindM (opts_configuration_composition cl opts) (\<lambda>r. retM (if fst r then (exit_SUCCESS, snd r) else (exit_FAILURE, []))))
       (retM (exit_UNCAUGHT_EXCEPTION, []))"

definition composition_options :: "'d client \<Rightarrow> string \<Rightarrow> string \<Rightarrow> string \<Rightarrow> exn + document_options" where
  "composition_options cl process run configuration =
     with_options [ignoring (set_operation ''buildfilter''), ignoring (set_configuration (run @ ''/'' @ configuration)),
         ignoring (set_format Format_gui)]
       (new_document_options (cl_env cl) process)"

section \<open>bulkloader\<close>

definition load_file :: "'d client \<Rightarrow> 'd host \<Rightarrow> document_options \<Rightarrow> string \<Rightarrow> ('d, int) fdb" where
  "load_file cl h opts file_name =
     catchM any_exn
       (thenM (confirm (file_name \<noteq> []))
       (bindM (on_files (read_buffer_from_file (ho_files h) file_name)) (\<lambda>test_document.
        bindM (opts_write_document cl opts test_document) (\<lambda>result. retM (if fst result then exit_SUCCESS else exit_FAILURE)))))
       (retM exit_UNCAUGHT_EXCEPTION)"

definition loader_options :: "'d client \<Rightarrow> string \<Rightarrow> string \<Rightarrow> string \<Rightarrow> exn + string" where
  "loader_options cl process run configuration =
     bindE (with_options [ignoring (set_format Format_fhicl), ignoring (set_operation ''store''),
         ignoring (set_configuration (run @ ''/'' @ configuration)), ignoring (set_run run),
         ignoring (set_version (run @ ''/'' @ configuration))]
       (new_document_options (cl_env cl) process)) (writeJsonData (cl_codec cl))"

text \<open>The options of the file: the schema goes to another collection.\<close>

definition loader_file_options :: "'d host \<Rightarrow> string \<Rightarrow> (document_options, unit) prog list" where
  "loader_file_options h file_name =
     (if find_sub ''schema.fcl'' file_name = None then [ignoring (set_entity (f_stem (ho_files h) file_name))]
      else [ignoring (set_collection ''SystemLayout''), ignoring (set_entity ''schema'')])"

text \<open>One file: how many were loaded and how many of these failed.\<close>

definition load_task :: "'d client \<Rightarrow> 'd host \<Rightarrow> document_options \<Rightarrow> string \<Rightarrow> ('d, (nat \<times> nat) \<times> document_options) fdb" where
  "load_task cl h opts file_name =
     bindM (in_thread (with_options [ignoring (set_collection ''RunHistory'')] opts)) (\<lambda>opts1.
       if find_sub ''.fcl'' file_name = None then retM ((0, 0), opts1)
       else
         bindM (in_thread (with_options (loader_file_options h file_name) opts1)) (\<lambda>opts2.
         bindM (load_file cl h opts2 file_name) (\<lambda>rc. retM ((1, if rc = exit_SUCCESS then 0 else 1), opts2))))"

text \<open>What is printed when all threads have ended, the average time per file, divides by their number;
  the test of the exit code is that of the code.\<close>

definition loader_report :: "'d client \<Rightarrow> string \<Rightarrow> string \<Rightarrow> string \<Rightarrow> bool \<Rightarrow> nat \<Rightarrow> nat \<Rightarrow> ('d, int) fdb" where
  "loader_report cl process run configuration debug loaded_file_count total_error_count =
     (if loaded_file_count = 0 then throwM Undefined
      else
        bindM (if \<not> debug then retM False
          else bindM (liftE (composition_options cl process run configuration)) (\<lambda>options1.
            bindM (tool_composition cl options1) (\<lambda>(result, confcomp). retM (result = 0)))) (\<lambda>unsuccessful.
        retM (if unsuccessful \<or> total_error_count > 0 then exit_FAILURE else exit_SUCCESS)))"

definition bulkloader ::
  "'d client \<Rightarrow> 'd host \<Rightarrow> pool_plan \<Rightarrow> 64 word \<Rightarrow> string \<Rightarrow> bulk_args option \<Rightarrow> ('d, int) fdb" where
  "bulkloader cl h plan cores process parsed =
     bulk_program cores parsed (\<lambda>dir_path configuration run nproc debug.
       bindM (on_files (list_files h (ho_depth h) dir_path)) (\<lambda>file_names.
       bindM (liftE (loader_options cl process run configuration)) (\<lambda>stropts.
       bindM (in_thread (with_options [readJsonData (cl_env cl) (cl_codec cl) stropts] (new_document_options (cl_env cl) ''Worker'')))
         (\<lambda>options.
       bindM (in_pool plan nproc options (load_task cl h) file_names) (\<lambda>counts.
         loader_report cl process run configuration debug (sum_list (map fst counts)) (sum_list (map snd counts)))))))"

section \<open>bulkdownloader\<close>

definition confprefix_of :: "string \<Rightarrow> string" where
  "confprefix_of configuration = rev (dropWhile (\<lambda>c. c \<in> set ''0123456789'') (rev configuration))"

text \<open>An entry of the composition: the file to be written and its query.\<close>

definition download_entry :: "codec \<Rightarrow> string \<Rightarrow> string \<Rightarrow> value_t \<Rightarrow> exn + string \<times> string" where
  "download_entry c dir_path confprefix result =
     bindE (bindE (get_object result) (object_child ''query'')) (\<lambda>query.
     bindE (object_child ''filter'' query) (\<lambda>filt.
     bindE (string_child ''collection'' query) (\<lambda>collection.
     bindE (string_child ''entities.name'' filt) (\<lambda>entity.
     bindE (c_write c query) (\<lambda>buff.
     if dir_path = [] then Inl Undefined
     else Inr (dir_path @ (if last dir_path = CHR ''/'' then [] else ''/'') @
       (if collection = ''SystemLayout'' then [] else confprefix @ ''/'') @ entity @ ''.fcl'', buff))))))"

definition download_file :: "'d client \<Rightarrow> 'd host \<Rightarrow> document_options \<Rightarrow> string \<Rightarrow> ('d, int) fdb" where
  "download_file cl h opts file_name =
     catchM any_exn
       (thenM (confirm (file_name \<noteq> []))
       (bindM (opts_read_document cl opts []) (\<lambda>result.
          if \<not> fst result then retM exit_FAILURE
          else bindM (on_files (write_buffer_to_file (ho_files h) (snd result) file_name)) (\<lambda>written.
            retM (if written then exit_SUCCESS else exit_FAILURE)))))
       (retM exit_UNCAUGHT_EXCEPTION)"

definition download_task :: "'d client \<Rightarrow> 'd host \<Rightarrow> document_options \<Rightarrow> string \<times> string \<Rightarrow> ('d, nat \<times> document_options) fdb" where
  "download_task cl h opts job =
     bindM (in_thread (with_options [readJsonData (cl_env cl) (cl_codec cl) (snd job), ignoring (set_format Format_fhicl)] opts))
       (\<lambda>opts'. bindM (download_file cl h opts' (fst job)) (\<lambda>rc. retM (if rc = exit_SUCCESS then 0 else 1, opts')))"

text \<open>The number of errors is printed only.\<close>

definition bulkdownloader ::
  "'d client \<Rightarrow> 'd host \<Rightarrow> pool_plan \<Rightarrow> 64 word \<Rightarrow> string \<Rightarrow> bulk_args option \<Rightarrow> ('d, int) fdb" where
  "bulkdownloader cl h plan cores process parsed =
     bulk_program cores parsed (\<lambda>dir_path configuration run nproc debug.
       bindM (liftE (composition_options cl process run configuration)) (\<lambda>options1.
       bindM (tool_composition cl options1) (\<lambda>(result, confcomp).
       if result \<noteq> exit_SUCCESS then retM result
       else
         bindM (liftE (c_read (cl_codec cl) confcomp)) (\<lambda>ast. case ast of None \<Rightarrow> retM exit_FAILURE
         | Some table \<Rightarrow>
             bindM (liftE (bindE (array_child ''search'' table)
               (mapE (download_entry (cl_codec cl) dir_path (confprefix_of configuration))))) (\<lambda>queries.
             bindM (in_pool plan nproc (new_document_options (cl_env cl) ''Worker'') (download_task cl h) queries) (\<lambda>errors.
             if errors = [] then throwM Undefined else retM exit_SUCCESS))))))"

section \<open>migrate\_database and rebuild\_database\_index\<close>

record uri_args =
  ua_help :: bool
  ua_uri :: "string option"

definition uri_program :: "uri_args option \<Rightarrow> (string \<Rightarrow> ('d, int) fdb) \<Rightarrow> ('d, int) fdb" where
  "uri_program parsed f =
     main_program (case parsed of
        None \<Rightarrow> retM exit_INVALID_ARGUMENT
      | Some a \<Rightarrow>
          if ua_help a then retM exit_HELP
          else (case ua_uri a of
              None \<Rightarrow> retM (invalid_argument 1)
            | Some database_uri \<Rightarrow>
                if \<not> prefix FILEURI database_uri then retM (invalid_argument 1)
                else f (if last database_uri = CHR ''/'' then butlast database_uri else database_uri)))"

definition database_path :: "'d provider \<Rightarrow> string \<Rightarrow> ('d, string) fdb" where
  "database_path pv database_uri =
     (if length database_uri < length FILEURI then throwM Out_of_range else expand pv (drop (length FILEURI) database_uri))"

text \<open>Every document of every collection; one that fails is only reported.\<close>

definition each_document ::
  "'d files \<Rightarrow> string \<Rightarrow> (string \<Rightarrow> string \<Rightarrow> string \<Rightarrow> ('d, unit) fdb) \<Rightarrow> string \<Rightarrow> ('d, unit) fdb" where
  "each_document fs collection_path f collection_name =
     bindM getM (\<lambda>(d, w).
       if \<not> f_exists fs collection_path d \<or> \<not> f_is_directory fs collection_path d then throwM Logic_error
       else forM (f_entries fs collection_path d) (\<lambda>file.
         bindM getM (\<lambda>(d, w).
           if f_is_directory fs file d \<or> f_filename fs file = search_index_name then retM ()
           else catchM any_exn (f collection_name file (f_replace_extension fs (f_filename fs file) [])) (retM ()))))"

text \<open>The request that stores the text of a builder under its identifier.\<close>

definition store_request :: "string \<Rightarrow> string \<Rightarrow> string \<Rightarrow> exn + string" where
  "store_request builder ouid collection_name =
     bindE (to_id ouid) (\<lambda>ident.
       Inr (''{'' @ quoted ''document'' @ '':'' @ builder @ '','' @ quoted ''filter'' @ '':'' @ ident @ '','' @
         quoted ''collection'' @ '':'' @ quoted collection_name @ ''}''))"

definition store_builder :: "'d provider \<Rightarrow> jsondoc \<Rightarrow> string \<Rightarrow> string \<Rightarrow> ('d, unit) fdb" where
  "store_builder pv builder ouid collection_name =
     bindM (on_builder (bld_to_string (pv_codec pv)) builder) (\<lambda>(text, _).
     bindM (liftE (bindE (store_request text ouid collection_name) (doc_of_string (pv_codec pv)))) (\<lambda>arg.
     bindM (writeDocument pv arg) (\<lambda>_. retM ())))"

text \<open>The name of the collection is handed over in a text that is meant to be JSON.\<close>

definition migrated_collection :: "string \<Rightarrow> string" where
  "migrated_collection name = ''{db::quoted_(apiliteral::option::collection):'' @ [dquote] @ name @ [dquote] @ ''}''"

definition migrate_document :: "'d provider \<Rightarrow> string \<Rightarrow> string \<Rightarrow> string \<Rightarrow> ('d, unit) fdb" where
  "migrate_document pv collection_name file ouid =
     (let c = pv_codec pv in
      bindM (on_files (read_buffer_from_file (pv_files pv) file)) (\<lambda>source.
      bindM (liftE (doc_of_string c source)) (\<lambda>doc.
      bindM (on_builder (bindM (migrate c doc) new_builder) empty_doc) (\<lambda>(_, builder).
      bindM (liftE (doc_of_string c (migrated_collection collection_name))) (\<lambda>name.
      bindM (on_builder (bld_setCollection name) builder) (\<lambda>(_, builder').
        store_builder pv builder' ouid collection_name))))))"

definition rebuild_document :: "'d provider \<Rightarrow> string \<Rightarrow> string \<Rightarrow> string \<Rightarrow> ('d, unit) fdb" where
  "rebuild_document pv collection_name file ouid =
     (let c = pv_codec pv in
      bindM (on_files (read_buffer_from_file (pv_files pv) file)) (\<lambda>source.
      bindM (liftE (doc_of_string c source)) (\<lambda>doc.
      bindM (on_builder (new_builder doc) empty_doc) (\<lambda>(_, builder). store_builder pv builder ouid collection_name))))"

definition each_collection :: "'d provider \<Rightarrow> string \<Rightarrow> (string \<Rightarrow> string \<Rightarrow> ('d, unit) fdb) \<Rightarrow> ('d, int) fdb" where
  "each_collection pv path f =
     bindM (on_files (find_subdirs (pv_files pv) path)) (\<lambda>collection_names.
     thenM (forM collection_names (\<lambda>name. if name = system_metadata then retM () else f (path @ ''/'' @ name) name))
       (retM exit_SUCCESS))"

definition migrate_database :: "'d provider \<Rightarrow> uri_args option \<Rightarrow> ('d, int) fdb" where
  "migrate_database pv parsed =
     uri_program parsed (\<lambda>database_uri.
       bindM (database_path pv database_uri) (\<lambda>path.
       let provider = pv\<lparr>pv_uri := database_uri @ ''_migrated''\<rparr> in
       each_collection pv path (\<lambda>collection_path. each_document (pv_files pv) collection_path (migrate_document provider))))"

text \<open>\<open>remove_all\<close> is \<open>boost::filesystem::remove_all\<close>.\<close>

definition rebuild_database_index :: "(string \<Rightarrow> 'd \<Rightarrow> exn + 'd) \<Rightarrow> 'd provider \<Rightarrow> uri_args option \<Rightarrow> ('d, int) fdb" where
  "rebuild_database_index remove_all pv parsed =
     uri_program parsed (\<lambda>database_uri.
       bindM (database_path pv database_uri) (\<lambda>path.
       let provider = pv\<lparr>pv_uri := database_uri @ ''_new'', pv_rebuild := True\<rparr> in
       each_collection pv path (\<lambda>collection_path name.
         thenM (on_files (\<lambda>d. case remove_all (collection_path @ ''/index.json'') d of Inl e \<Rightarrow> (Inl e, d) | Inr d' \<Rightarrow> (Inr (), d')))
           (each_document (pv_files pv) collection_path (rebuild_document provider) name))))"

section \<open>fixtestjson, readjson and fhicl2json\<close>

text \<open>Every scalar below a value becomes its text.\<close>

fun migrate_to_string_value :: "value_t \<Rightarrow> value_t" where
  "migrate_to_string_value (Arr vs) = Arr (map migrate_to_string_value vs)"
| "migrate_to_string_value (Obj ps) = Obj (map (\<lambda>p. (fst p, migrate_to_string_value (snd p))) ps)"
| "migrate_to_string_value v = Str (tostring_visitor v)"

definition file_program :: "bool \<Rightarrow> string option \<Rightarrow> int \<Rightarrow> (string \<Rightarrow> ('s, int) prog) \<Rightarrow> ('s, int) prog" where
  "file_program help config missing f =
     (if help then retM exit_HELP else case config of None \<Rightarrow> retM missing | Some file_name \<Rightarrow> f file_name)"

definition fix_data :: "object_t \<Rightarrow> exn + object_t" where
  "fix_data doc_ast =
     bindE (object_child ''document'' doc_ast) (\<lambda>document. bindE (table_at ''data'' document) (\<lambda>data.
       Inr (table_set ''document'' (Obj (table_set ''data'' (migrate_to_string_value data) document)) doc_ast)))"

definition fixtestjson :: "'d files \<Rightarrow> codec \<Rightarrow> (bool \<times> string option) option \<Rightarrow> ('d, int) prog" where
  "fixtestjson fs c parsed =
     main_program (case parsed of None \<Rightarrow> retM exit_INVALID_ARGUMENT
      | Some (help, config) \<Rightarrow> file_program help config (invalid_argument 1) (\<lambda>file_name.
          bindM (read_buffer_from_file fs file_name) (\<lambda>json.
          bindM (liftE (c_read c json)) (\<lambda>ast. case ast of None \<Rightarrow> throwM Runtime_exception
          | Some doc_ast \<Rightarrow>
              bindM (liftE (bindE (fix_data doc_ast) (c_write c))) (\<lambda>json_converted.
              bindM (write_buffer_to_file fs json_converted file_name) (\<lambda>written.
                thenM (confirm written) (retM exit_SUCCESS)))))))"

text \<open>The text is written a hundred times, as a measurement; the outcome is the same each time.\<close>

definition readjson :: "'d files \<Rightarrow> codec \<Rightarrow> (bool \<times> string option) option \<Rightarrow> ('d, int) prog" where
  "readjson fs c parsed =
     main_program (case parsed of None \<Rightarrow> retM exit_INVALID_ARGUMENT
      | Some (help, config) \<Rightarrow> file_program help config (invalid_argument 1) (\<lambda>file_name.
          bindM (read_buffer_from_file fs file_name) (\<lambda>json.
          bindM (liftE (c_read c json)) (\<lambda>ast. case ast of None \<Rightarrow> retM exit_FAILURE
          | Some doc_ast \<Rightarrow> thenM (forM (replicate 100 doc_ast) (\<lambda>t. bindM (liftE (c_write c t)) (\<lambda>_. retM ()))) (retM exit_SUCCESS)))))"

text \<open>The exit code and what is printed; a file that cannot be opened is empty.\<close>

definition fhicl2json ::
  "'d files \<Rightarrow> (string \<Rightarrow> exn + (string \<times> extended_value) list) \<Rightarrow> codec \<Rightarrow> (bool \<times> string option \<times> bool) option \<Rightarrow> ('d, int \<times> string) fdb" where
  "fhicl2json fs parse_document c parsed =
     catchM any_exn
       (case parsed of None \<Rightarrow> retM (-1, [])
        | Some (help, config, main) \<Rightarrow>
            if help then retM (1, [])
            else (case config of None \<Rightarrow> retM (2, [])
              | Some file_name \<Rightarrow>
                  bindM getM (\<lambda>(d, w).
                  bindM (\<lambda>(d, w). case fhicl_to_json parse_document c (case f_read fs file_name d of None \<Rightarrow> [] | Some t \<Rightarrow> t) file_name [] w of
                      (r, w') \<Rightarrow> (r, (d, w'))) (\<lambda>result.
                  if main
                  then bindM (liftE (bindE (doc_of_string c result) (\<lambda>doc. bindE (findChild doc ''document.data.main'') (doc_text c))))
                    (\<lambda>text. retM (exit_SUCCESS, text))
                  else retM (exit_SUCCESS, result)))))
       (retM (exit_UNCAUGHT_EXCEPTION, []))"

section \<open>Sorting an answer by name\<close>

definition extract_name :: "value_t \<Rightarrow> string" where
  "extract_name v = (case v of Obj ps \<Rightarrow> (case map_of ps ''name'' of Some (Str s) \<Rightarrow> s | _ \<Rightarrow> []) | _ \<Rightarrow> [])"

text \<open>\<open>std::list::sort\<close> is stable.  A text that is no object with a list under \<open>search\<close> stays as it is.\<close>

definition presort_gui_json_by_name :: "codec \<Rightarrow> string \<Rightarrow> exn + string" where
  "presort_gui_json_by_name c json =
     bindE (c_read c json) (\<lambda>ast. case ast of
       None \<Rightarrow> Inr json
     | Some ps \<Rightarrow> (case map_of ps ''search'' of
           Some (Arr vs) \<Rightarrow>
             if vs = [] then Inr json else c_write c (table_set ''search'' (Arr (sort_key extract_name vs)) ps)
         | _ \<Rightarrow> Inr json))"

section \<open>The conf format\<close>

text \<open>DataFormats/Conf: the reader keeps nothing of the text and the writer never succeeds; \<open>None\<close> is
  the result \<open>false\<close>.\<close>

definition conf_read :: "string \<Rightarrow> exn + object_t" where
  "conf_read conf = (if conf = [] then Inl Runtime_exception else Inr [(''data'', Obj [])])"

definition conf_write :: "object_t \<Rightarrow> exn + string option" where
  "conf_write json_object =
     (if json_object = [] then Inl Runtime_exception else bindE (object_child ''data'' json_object) (\<lambda>data_node. Inr None))"

definition conf_to_json :: "codec \<Rightarrow> string \<Rightarrow> string \<Rightarrow> (world, string) prog" where
  "conf_to_json c conf json =
     thenM (confirm (conf \<noteq> []))
     (thenM (confirm (json = []))
     (bindM (\<lambda>w. case read_clock w of (t, w') \<Rightarrow> (Inr t, w')) (\<lambda>now.
      bindM (liftE (conf_read conf)) (\<lambda>document.
        liftE (c_write c [(''document'', Obj document),
          (''origin'', Obj [(''format'', Str ''conf''), (''source'', Str ''conf_to_json''), (''timestamp'', Str now)])])))))"

definition json_to_conf :: "codec \<Rightarrow> string \<Rightarrow> string \<Rightarrow> exn + string option" where
  "json_to_conf c json conf =
     (if json = [] \<or> conf \<noteq> [] then Inl Runtime_exception
      else bindE (c_read c json) (\<lambda>ast. case ast of
          None \<Rightarrow> Inr None
        | Some json_root \<Rightarrow> bindE (object_child ''document'' json_root) conf_write))"

end
