(* ===== verification/ProgramLaws.thy ===== *)
theory ProgramLaws
  imports Programs
begin

text \<open>
  What the programs do and, in several places, do not do: the migration stores nothing, the loader
  attempts every FHiCL file once, the codes it answers with, and the sorted answer.
\<close>

section \<open>Programs that leave the disk alone\<close>

definition same_disk :: "'d \<times> world \<Rightarrow> 'd \<times> world \<Rightarrow> bool" where
  "same_disk s t \<longleftrightarrow> fst t = fst s"

interpretation disk: run_relation same_disk
  by unfold_locales (simp_all add: same_disk_def)

lemma read_only: "(\<And>d. snd (m d) = d) \<Longrightarrow> stays_in same_disk (on_files m)"
  by (auto simp: stays_in_def same_disk_def on_files_def split: prod.splits) (metis snd_conv)

lemma builder_only: "stays_in same_disk (on_builder m doc)"
  by (auto simp: stays_in_def same_disk_def on_builder_def split: prod.splits sum.splits)

lemma pair_only: "(\<And>x y. stays_in same_disk (f x y)) \<Longrightarrow> stays_in same_disk (case p of (x, y) \<Rightarrow> f x y)"
  by (cases p) simp

lemma if_only: "stays_in same_disk m \<Longrightarrow> stays_in same_disk n \<Longrightarrow> stays_in same_disk (if b then m else n)"
  by simp

lemma reading_only:
  "stays_in same_disk (on_files (read_buffer_from_file fs name))" "stays_in same_disk (on_files (find_subdirs fs name))"
  by (rule read_only, simp add: read_buffer_from_file_def find_subdirs_def Let_def split: option.split)+

lemma main_only: "stays_in same_disk m \<Longrightarrow> stays_in same_disk (main_program m)"
  by (simp add: main_program_def disk.combined)

lemma path_only: "stays_in same_disk (database_path pv uri)"
  by (simp add: database_path_def expand_def disk.combined)

lemma documents_only:
  "(\<And>n e i. stays_in same_disk (f n e i)) \<Longrightarrow> stays_in same_disk (each_document fs path f name)"
  unfolding each_document_def by (intro disk.combined disk.iterated pair_only if_only)

lemma collections_only: "(\<And>p n. stays_in same_disk (f p n)) \<Longrightarrow> stays_in same_disk (each_collection pv path f)"
  unfolding each_collection_def by (intro disk.combined disk.iterated if_only reading_only)

lemma uri_only: "(\<And>uri. stays_in same_disk (f uri)) \<Longrightarrow> stays_in same_disk (uri_program parsed f)"
  unfolding uri_program_def
  by (rule main_only) (auto intro: disk.combined split: option.split)

section \<open>The migration\<close>

text \<open>The text with the name of the collection is no JSON, whatever the name.\<close>

lemma collection_text_refused:
  "doc_of_string (boost_codec kd qd) (migrated_collection name) = Inl Invalid_argument"
proof -
  have "p_string (CHR ''d'' # s) = None" for s
    by (simp add: p_string_def p_lit_def skip_def is_space_def dquote_def)
  then have "json_parse qd (CHR ''{'' # CHR ''d'' # s) = None" for s
    by (simp add: json_parse_def p_bracketed_def p_lit_def skip_def is_space_def p_data_def)
  then show ?thesis
    by (simp add: doc_of_string_def readJson_def boost_codec_def json_read_def migrated_collection_def)
qed

lemma migration_refused:
  "stays_in same_disk (migrate_document (pv\<lparr>pv_codec := boost_codec kd qd\<rparr>) name file ouid)"
  "\<exists>e. fst (migrate_document (pv\<lparr>pv_codec := boost_codec kd qd\<rparr>) name file ouid s) = Inl e"
proof -
  have fails: "bindM (liftE (doc_of_string (boost_codec kd qd) (migrated_collection name))) f = throwM Invalid_argument" for f :: "_ \<Rightarrow> ('d, unit) fdb"
    by (simp add: collection_text_refused fun_eq_iff prog_simps)
  show "stays_in same_disk (migrate_document (pv\<lparr>pv_codec := boost_codec kd qd\<rparr>) name file ouid)"
    by (simp add: migrate_document_def Let_def fails)
      (intro disk.combined pair_only builder_only reading_only)
  show "\<exists>e. fst (migrate_document (pv\<lparr>pv_codec := boost_codec kd qd\<rparr>) name file ouid s) = Inl e"
    by (auto simp: migrate_document_def Let_def fails prog_simps split: prod.split sum.split)
qed

theorem migration_stores_nothing:
  "fst (snd (migrate_database (pv\<lparr>pv_codec := boost_codec kd qd\<rparr>) parsed (d, w))) = d"
proof -
  have *: "pv\<lparr>pv_codec := k, pv_uri := u\<rparr> = (pv\<lparr>pv_uri := u\<rparr>)\<lparr>pv_codec := k\<rparr>" for u k by simp
  have "stays_in same_disk (migrate_database (pv\<lparr>pv_codec := boost_codec kd qd\<rparr>) parsed)"
    unfolding migrate_database_def Let_def *
    by (intro uri_only disk.combined path_only collections_only documents_only migration_refused)
  then show ?thesis
    by (auto simp: stays_in_def same_disk_def)
qed


section \<open>The loader\<close>

definition fcl_file :: "string \<Rightarrow> bool" where
  "fcl_file name \<longleftrightarrow> find_sub ''.fcl'' name \<noteq> None"

text \<open>A plan runs every task once, on one of the threads.\<close>

definition valid_plan :: "pool_plan \<Rightarrow> bool" where
  "valid_plan plan \<longleftrightarrow> (\<forall>n k. 0 < n \<longrightarrow> mset (map snd (plan n k)) = mset [0..<k] \<and> list_all (\<lambda>(t, i). t < n) (plan n k))"

lemma load_task_counts:
  "load_task cl h opts name s = (Inr ((loaded, failed), opts'), t) \<Longrightarrow>
   loaded = (if fcl_file name then 1 else 0) \<and> failed \<le> loaded"
  by (auto simp: load_task_def fcl_file_def bindM_Inr retM_run split: if_splits)

lemma pool_counts:
  "run_pool (load_task cl h) tasks steps os s = (Inr counts, t) \<Longrightarrow>
   map fst counts = map (\<lambda>(t, i). if fcl_file (tasks ! i) then 1 else 0) steps \<and> list_all (\<lambda>(loaded, failed). failed \<le> loaded) counts"
proof (induction steps arbitrary: os s counts)
  case (Cons step steps)
  obtain w i where step: "step = (w, i)" by (cases step)
  from Cons.prems obtain y o' u ys where
    first: "load_task cl h (os w) (tasks ! i) s = (Inr (y, o'), u)" and
    others: "run_pool (load_task cl h) tasks steps (os(w := o')) u = (Inr ys, t)" and counts: "counts = y # ys"
    by (fastforce simp: step bindM_Inr retM_run)
  show ?case
    using load_task_counts[of cl h "os w" "tasks ! i" s "fst y" "snd y" o' u] first Cons.IH[OF others]
    by (auto simp: step counts)
qed (simp add: prog_simps)

text \<open>With a thread at least, every FHiCL file below the directory is attempted exactly once.\<close>

theorem files_attempted_once:
  assumes "valid_plan plan" and "nproc \<noteq> 0" and run: "in_pool plan nproc opts (load_task cl h) files s = (Inr counts, t)"
  shows "length counts = length files" and "sum_list (map fst counts) = length (filter fcl_file files)"
proof -
  let ?steps = "plan (unat nproc) (length files)" and ?one = "\<lambda>name. if fcl_file name then 1 else 0 :: nat"
  have once: "mset (map snd ?steps) = mset [0..<length files]"
    using assms(1,2) unfolding valid_plan_def by (metis unat_gt_0)
  have pool: "run_pool (load_task cl h) (rev files) ?steps (\<lambda>_. opts) s = (Inr counts, t)"
    using run assms(2) by (simp add: in_pool_def)
  from pool_counts[OF pool] have counts: "map fst counts = map (\<lambda>i. ?one (rev files ! i)) (map snd ?steps)"
    by (simp add: case_prod_beta comp_def)
  have "length (map snd ?steps) = length files"
    using once by (metis length_upt minus_nat.diff_0 size_mset)
  then show "length counts = length files"
    using arg_cong[OF counts, of length] by simp
  have "sum_list (map fst counts) = sum_list (map (\<lambda>i. ?one (rev files ! i)) [0..<length files])"
    unfolding counts using once by (simp only: mset_map flip: sum_mset_sum_list)
  also have "map (\<lambda>i. ?one (rev files ! i)) [0..<length files] = map ?one (rev files)"
    by (rule nth_equalityI) simp_all
  also have "sum_list (map ?one (rev files)) = length (filter fcl_file files)"
    by (induction files) auto
  finally show "sum_list (map fst counts) = length (filter fcl_file files)" .
qed

lemma main_success: "main_program m s = (Inr exit_SUCCESS, t) \<longleftrightarrow> m s = (Inr exit_SUCCESS, t)"
  by (auto simp: main_program_def catchM_run retM_run exit_SUCCESS_def exit_UNCAUGHT_EXCEPTION_def split: prod.splits sum.splits)

lemma bulk_success:
  assumes "bulk_program cores (Some a) f s = (Inr exit_SUCCESS, t)"
  shows "\<exists>path configuration run nproc. f path configuration run nproc (ba_debug a = Some True) s = (Inr exit_SUCCESS, t)"
proof -
  have codes: "exit_HELP \<noteq> exit_SUCCESS" "invalid_argument 1 \<noteq> exit_SUCCESS" "invalid_argument 2 \<noteq> exit_SUCCESS" "invalid_argument 3 \<noteq> exit_SUCCESS"
    by (simp_all add: exit_HELP_def exit_SUCCESS_def invalid_argument_def exit_INVALID_ARGUMENT_def)
  have debug: "(case ba_debug a of None \<Rightarrow> False | Some b \<Rightarrow> b) \<longleftrightarrow> ba_debug a = Some True"
    by (auto split: option.split)
  from assms show ?thesis
    unfolding bulk_program_def main_success option.case debug
    by (auto simp: retM_run codes split: if_splits option.splits)
qed

lemma report_success:
  assumes "loader_report cl process rn configuration debug loaded failed v = (Inr exit_SUCCESS, t)"
  shows "loaded \<noteq> 0 \<and> failed = 0 \<and> (debug \<longrightarrow> (\<exists>opts r c. tool_composition cl opts v = (Inr (r, c), t) \<and> r \<noteq> exit_SUCCESS))"
proof (cases debug)
  case True
  with assms show ?thesis
    by (simp add: loader_report_def throwM_run bindM_Inr retM_run liftE_run exit_FAILURE_def exit_SUCCESS_def split: if_splits)
      blast
next
  case False
  with assms show ?thesis
    by (simp add: loader_report_def throwM_run bindM_Inr retM_run exit_FAILURE_def exit_SUCCESS_def split: if_splits)
qed

text \<open>Success of the loader: a FHiCL file was there, none failed, and with debugging asked for the
  composition could not be read, since the test of its exit code is the wrong way round.\<close>

theorem loader_success:
  assumes plan: "valid_plan plan" and run: "bulkloader cl h plan cores process (Some a) s = (Inr exit_SUCCESS, t)"
  shows "\<exists>nproc opts files counts u v.
    in_pool plan nproc opts (load_task cl h) files u = (Inr counts, v) \<and> 0 < length (filter fcl_file files) \<and>
    sum_list (map fst counts) = length (filter fcl_file files) \<and> sum_list (map snd counts) = 0 \<and>
    (ba_debug a = Some True \<longrightarrow> (\<exists>opts r c. tool_composition cl opts v = (Inr (r, c), t) \<and> r \<noteq> exit_SUCCESS))"
proof -
  obtain configuration rn nproc files opts counts u v where
    pool: "in_pool plan nproc opts (load_task cl h) files u = (Inr counts, v)" and
    report: "loader_report cl process rn configuration (ba_debug a = Some True) (sum_list (map fst counts)) (sum_list (map snd counts)) v =
      (Inr exit_SUCCESS, t)"
    using bulk_success[OF run[unfolded bulkloader_def]] by (clarsimp simp only: bindM_Inr)
  note means = report_success[OF report]
  have "nproc \<noteq> 0"
    using pool means by (auto simp: in_pool_def retM_run)
  then have "sum_list (map fst counts) = length (filter fcl_file files)"
    using files_attempted_once(2)[OF plan _ pool] by simp
  then show ?thesis
    using pool means by (metis gr_zeroI)
qed

section \<open>conftool\<close>

text \<open>Asking for help leaves a file behind: the options name the operation \<open>load\<close>, whose answer is
  written to the result file, and no name was given for it.\<close>

lemma retM_bind: "bindM (retM x) f = f x"
  by (simp add: fun_eq_iff bindM_run retM_run)

lemma liftE_bind: "bindM (liftE (Inr x)) f = f x"
  by (simp add: fun_eq_iff bindM_run liftE_run)

lemma fresh_members: "op_operation (new_document_options env process) = ''load''" "op_result (new_document_options env process) = notprovided"
  by (simp_all add: new_document_options_def new_operation_base_def operation_base.defs document_options.defs)

theorem help_writes_file:
  "conftool cl h process (Some (vm(''help'' \<mapsto> x))) =
   main_program (bindM (on_files (write_buffer_to_file (ho_files h) ''process_exit_code::HELP'' notprovided)) (\<lambda>_. retM exit_SUCCESS))"
proof -
  have "conftool_impl cl h options (Some (vm(''help'' \<mapsto> x))) = retM (Success ''process_exit_code::HELP'', options)" for options
    by (simp add: conftool_impl_def)
  then show ?thesis
    by (simp add: conftool_def retM_bind fresh_members getter_def liftE_bind notprovided_def Success_def)
qed

text \<open>A document is stored only from a source file that can be read.\<close>

lemma conftool_names:
  "map fst (conftool_operations cl h opts source) =
   [''load'', ''globalconfload'', ''findconfigs'', ''buildfilter'', ''addconfig'', ''rmconfig'', ''searchcollection'',
    ''findversions'', ''findentities'', ''addentity'', ''rmentity'', ''markdeleted'', ''markreadonly'', ''findveralias'',
    ''addveralias'', ''rmveralias'', ''listdatabases'', ''listcollections'', ''readdbinfo'', ''exportcollection'',
    ''importcollection'', ''exportdatabase'', ''importdatabase''] @
   (if source = None then [] else [''store'', ''globalconfstore''])"
  by (cases source) (simp_all add: conftool_operations_def)

theorem store_needs_source:
  "(\<exists>m. map_of (conftool_operations cl h opts source) ''store'' = Some m) \<longleftrightarrow> source \<noteq> None"
proof -
  have "''store'' \<in> set (map fst (conftool_operations cl h opts source)) \<longleftrightarrow> source \<noteq> None"
    unfolding conftool_names by simp
  then show ?thesis
    by (metis map_of_eq_None_iff not_None_eq set_map)
qed

text \<open>A configuration is not read into a result file that exists and is not empty: its text is handed to
  the operation, which refuses it.\<close>

theorem existing_result_refused:
  assumes "t \<noteq> []"
  shows "\<exists>m. map_of (conftool_operations cl h opts (Some t)) ''globalconfload'' = Some m
    \<and> (\<exists>msg. m s = (Inr (Failure msg), s))"
  using assms
  by (auto simp: conftool_operations_def json_read_configuration_def shell_request_def noexcept_def retM_run)

section \<open>Values as texts\<close>

fun texts_only :: "value_t \<Rightarrow> bool" where
  "texts_only (Obj ps) = list_all (\<lambda>p. texts_only (snd p)) ps"
| "texts_only (Arr vs) = list_all texts_only vs"
| "texts_only (Str s) = True"
| "texts_only v = False"

lemma made_texts_only: "texts_only (migrate_to_string_value v)"
  by (induction v rule: migrate_to_string_value.induct) (auto simp: list_all_iff)

lemma texts_only_kept: "texts_only v \<Longrightarrow> migrate_to_string_value v = v"
  by (induction v rule: migrate_to_string_value.induct) (auto simp: list_all_iff map_idI)

text \<open>After the program all scalars of the data are texts, texts stay what they were, and running it
  again changes nothing.\<close>

theorem fixed_once:
  "texts_only (migrate_to_string_value v) \<and> migrate_to_string_value (migrate_to_string_value v) = migrate_to_string_value v"
  by (simp add: made_texts_only texts_only_kept)

section \<open>The sorted answer\<close>

text \<open>The entries are sorted by name, entries of one name keep their order, and nothing else of the
  answer changes.\<close>

theorem presort_sorts:
  assumes ok: "boost_ok qd ps" and read: "c_read (boost_codec kd qd) json = Inr (Some ps)"
    and entries: "map_of ps ''search'' = Some (Arr vs)" "vs \<noteq> []"
  shows "\<exists>t ws. presort_gui_json_by_name (boost_codec kd qd) json = Inr t
    \<and> c_read (boost_codec kd qd) t = Inr (Some (table_set ''search'' (Arr ws) ps))
    \<and> mset ws = mset vs \<and> sorted (map extract_name ws)
    \<and> (\<forall>n. filter (\<lambda>v. extract_name v = n) ws = filter (\<lambda>v. extract_name v = n) vs)"
proof -
  let ?ws = "sort_key extract_name vs" and ?c = "boost_codec kd qd"
  have "printable (Arr vs)"
    using printable_map_of[OF entries(1)] ok by (simp add: boost_ok_def)
  then have "printable (Arr ?ws)"
    by (simp add: list_all_iff)
  then have ok': "boost_ok qd (table_set ''search'' (Arr ?ws) ps)"
    using ok by (simp add: boost_ok_def printable_table_set backslash_def dquote_def del: printable.simps(1,2))
  moreover have "table_set ''search'' (Arr ?ws) ps \<noteq> []"
    by (cases ps) auto
  ultimately obtain t where t: "c_write ?c (table_set ''search'' (Arr ?ws) ps) = Inr t"
    using boost.write_ok by blast
  show ?thesis
    using read entries t boost.read_write[OF ok' t]
    by (intro exI[of _ t] exI[of _ ?ws]) (auto simp: presort_gui_json_by_name_def sort_key_stable)
qed


section \<open>The conf format\<close>

text \<open>Nothing is ever written as conf, and what is read does not depend on the text.\<close>

theorem conf_not_implemented:
  "json_to_conf c json conf \<noteq> Inr (Some t) \<and> (c1 \<noteq> [] \<longrightarrow> c2 \<noteq> [] \<longrightarrow> conf_to_json c c1 [] w = conf_to_json c c2 [] w)"
  by (auto simp: json_to_conf_def conf_write_def conf_to_json_def conf_read_def bindE_eq_Inr prog_simps split: if_splits option.splits)

end
