(* ===== verification/Spec2Isabelle.thy ===== *)
theory Spec2Isabelle
  imports Base64 ProviderLaws FacadeLaws ExportLaws FhiclLaws CommentLaws UconLaws CompareLaws
    ProgramLaws
begin

text \<open>
  A verification library of artdaq-database, the configuration database of the artdaq data
  acquisition toolkit.  All paths below are relative to src/artdaq-database.

  \<^bold>\<open>The program.\<close>  Configurations are JSON documents.  DataFormats/Json holds the value
  type and a reader and a writer on Boost.Spirit grammars; DataFormats/Fhicl converts documents
  from and to FHiCL, the language of the data acquisition programs, and convertjson2guijson.cpp to
  the form the GUI edits.  JsonDocument/JSONDocument wraps a value
  with a cached text and edits it by path.  Overlay/ lays typed objects over the value of a
  document (version, entities, aliases, runs, bookkeeping with an update log); each overlay is a
  reference into the document, so its constructors complete missing parts in place.
  JsonDocument/JSONDocumentBuilder offers these operations to clients and swallows their errors.

  Three providers store documents.  StorageProviders/FileSystemDB keeps them as files of a
  directory tree; every collection has a search index, itself a JSON document in index.json, which
  provider\_filedb\_index.cpp opens, updates, queries and closes, and which is rebuilt from the files
  when it is corrupt.  StorageProviders/MongoDB asks a database through its client library, and
  StorageProviders/UconDB a web service through libcurl.

  ConfigurationDB holds the operations of clients.  An operation is a JSON text or a command line
  that becomes options (options\_operation\_*.cpp); dboperation\_*.cpp turns every exception into a
  result, detail\_*.cpp converts between the formats and picks the provider, and dispatch\_*.cpp asks
  it and rewrites its answers into entries with a name and a query, which is itself an operation.
  On top are the C++ interface (configurationdbifc.h), which stores compositions of versions as
  global configurations, with several threads when asked to (Multitasker.cpp), and the export and
  import of collections as archives (dboperation\_exportimport.cpp).

  \<^bold>\<open>The theories.\<close>
  \<^item> \<open>Prelude\<close>: exceptions as values of \<open>exn\<close>, the sum type for results, stateful code that keeps
    its state when it throws (\<open>('s, 'a) prog\<close>), \<open>catch\<close> clauses, and the locale \<open>run_relation\<close> of
    relations that every construct of such code preserves.
  \<^item> \<open>JsonTypes\<close>: \<open>value_t\<close> (json\_types.h), its tables as lists of pairs in the order of the
    document, the visitors, and the comparison with its error texts.
  \<^item> \<open>JsonCodec\<close>: json\_writer.h as a printer and json\_reader.h as a parser, both total (the
    parser's fuel is the length of its input, which every rule but the recursion consumes); the record \<open>codec\<close> stands for
    both, the locale \<open>json_codec\<close> states what clients use, and \<open>boost_codec\<close> is the instance.
    \<open>JsonText\<close> has what the reader makes of the texts the code prints by hand.
  \<^item> \<open>StringHelpers\<close>, \<open>Base64\<close>: SharedCommon/helper\_functions.cpp and BasicTypes/base64.cpp
    (bytes as \<open>8 word\<close>).  \<open>Patterns\<close>: the part of \<open>std::regex\<close> the operations use, as the
    matches a backtracking matcher tries in their order.
  \<^item> \<open>JsonDocument\<close>: JSONDocument.cpp and JSONDocument\_utils.cpp; the record \<open>jsondoc\<close> has the
    value, the cached text and the dirty flag.
  \<^item> \<open>Overlay\<close>, \<open>OverlayLaws\<close>, \<open>EntryLists\<close>, \<open>DatabaseRecord\<close>: the classes of Overlay/, as
    operations on the value they lie over and a \<open>world\<close> with the clock and the random source.
  \<^item> \<open>DocumentBuilder\<close>: JSONDocumentBuilder.cpp and JSONDocumentMigrator.cpp.
  \<^item> \<open>OverlayCompare\<close>, \<open>CompareLaws\<close>: the \<open>to_string\<close> members and comparison operators of Overlay/,
    and the agreement of records they decide.
  \<^item> \<open>SearchIndex\<close>, \<open>SearchLaws\<close>: the index in memory (provider\_filedb\_index.cpp).
  \<^item> \<open>FileStore\<close>: filesystem\_functions.cpp, the buffers of fileststem\_functions.cpp, and the index
    on disk.  The operating system and Boost.Filesystem are the record \<open>files\<close>, an argument of every
    definition; \<open>file_laws\<close> states what is relied on and \<open>posix\<close> is an instance.
  \<^item> \<open>FileProvider\<close>, \<open>ProviderLaws\<close>: provider\_connection.cpp, provider\_filedb\_readwrite.cpp and
    provider\_filedb.cpp.
  \<^item> \<open>MongoProvider\<close>, \<open>MongoLaws\<close>: StorageProviders/MongoDB.  The record \<open>mongo\<close> is the client
    library: documents, cursors and the operations on collections; \<open>store_laws\<close> states what it
    documents of counting, inserting and deleting, and \<open>demo_mongo\<close> is an instance.
  \<^item> \<open>UconProvider\<close>, \<open>UconLaws\<close>: StorageProviders/UconDB.  The record \<open>ucon\<close> has the function that
    performs a request and answers with the text of an error, if there was one, and the body.
  \<^item> \<open>GuiConversion\<close>: convertjson2guijson.cpp, the form of a document the GUI edits.
  \<^item> \<open>Fhicl\<close>, \<open>FhiclText\<close>, \<open>FhiclLaws\<close>, \<open>CommentLaws\<close>: DataFormats/Fhicl.  The conversion of values
    (convertfhicl2jsondb.cpp, helper\_functions.cpp), the grammar of comments, the include lines, the
    generator and whole documents (fhicl\_reader, fhicl\_writer, fhicljsondb.cpp).
  \<^item> \<open>Options\<close>, \<open>OptionLaws\<close>: ConfigurationDB/options\_operation\_*.cpp, the options of an operation
    with their setters, command line, JSON form and search filters.
  \<^item> \<open>Dispatch\<close>, \<open>AnswerLaws\<close>: dispatch\_filedb.cpp, dispatch\_mongodb.cpp and dispatch\_ucondb.cpp
    over the record \<open>storage\<close> of a provider's operations, of which \<open>filesystem\<close>, \<open>mongodb\<close> and
    \<open>ucondb\<close> are instances.
  \<^item> \<open>Operations\<close>, \<open>OperationLaws\<close>: detail\_*.cpp and dboperation\_*.cpp over the record \<open>backend\<close> of
    the dispatchers' operations.
  \<^item> \<open>Multitasker\<close>: Multitasker.cpp as a step relation on the queue, the workers and the results.
  \<^item> \<open>Facade\<close>, \<open>FacadeLaws\<close>: configurationdbifc.h and configurationdbifc\_base.h.
  \<^item> \<open>ExportImport\<close>, \<open>ExportLaws\<close>: dboperation\_exportimport.cpp, detail\_exportimport.cpp and the
    rest of fileststem\_functions.cpp.  The shell is the record \<open>host\<close>, handed the command lines;
    \<open>host_laws\<close> states what the archiver and \<open>mkdir\<close> do.
  \<^item> \<open>Programs\<close>, \<open>ProgramLaws\<close>: Utilities/ and conftoolifc.h as exit codes and effects on the disk,
    presort\_json.cpp, and DataFormats/Conf.  The threads of the bulk programs follow a plan that is an argument.

  \<^bold>\<open>What the lemmas show.\<close>  Texts are read back as the values they were printed from;
  edits by path touch their path only and a failing edit changes nothing; the cached text stays
  coherent.  Records are completed once, frozen records refuse, and each operation has exactly its
  effect and its log entry; comparing records decides whether all that is not muted agrees.  The index refines a map from attributes and keys to sets of documents,
  searches compute on that map, it survives its file and a corrupt one is rebuilt from the
  directory in two levels of calls, the bound of \<open>idx_open\<close>.  A stored document is found
  again and read back from its file; storing in MongoDB is all or nothing on the collections; an
  identifier of UconDB is reported behind its upload only.  Options come back from their text and stay typed;
  the entries an answer holds lead back to what they name; operations with foreign options are
  refused before the store is asked.  The results the multitasker collects are those of exactly the
  tasks added, under every interleaving, and waiting for them ends.  A composition is turned into
  the new one by exactly its difference.  An exported collection is imported again.  FHiCL
  values and documents come back from JSON with comments, annotations and include lines; the
  comments found are those of the text, and at most 73 include lines fit the room reserved for
  them.  The bulk loader attempts every FHiCL file once under every plan.  Some theorems state behaviour the code does not mean to have: they are marked as such in
  their text.

  \<^bold>\<open>Modelling decisions.\<close>  A \<open>confirm\<close> that fails raises \<open>Runtime_exception\<close>.  Undefined
  behaviour (\<open>back()\<close> of an empty string, an iterator past the end) is the error \<open>Undefined\<close>, which
  no \<open>catch\<close> of the model catches.  Exceptions carry no message; a diagnostic text is a function of
  the kind of exception.  Trace output is left out.  A task of the multitasker is one step
  between taking it and storing its result, and the tasks of the C++ interface with threads are run
  in an order that is an argument; the number of cores is an argument.
  Directories are walked to the depth \<open>ho_depth\<close>, for which the laws ask that the tree is no
  deeper.

  \<^bold>\<open>Parameters.\<close>  The Boost.Spirit formats of decimals (\<open>kd\<close>, \<open>qd\<close>), the clock, the random source,
  \<open>strptime\<close> and \<open>wordexp\<close>; fhiclcpp's parser; the MongoDB client library; libcurl and the service
  behind it; the shell; the serializers of programs; the XML converter.

  \<^bold>\<open>Not modelled.\<close>  The mutex of the index (scopes are sequential), the cache of MongoDB
  connections, saving and loading of files by JSONDocument, the XML conversion (a layer over Xerces and Xalan),
  the parsing of command lines (Boost.Program\_options), readfhicl and refactorfhicl (they print what the
  parser made of a file), the bindings for other languages, stack traces and build information.
\<close>

end
